(* ===== verification/BTree.thy ===== *)
theory BTree
  imports Prelude
begin

text \<open>
  The ordered maps and sets of the Rust standard library (\<open>BTreeMap\<close>, \<open>BTreeSet\<close>), which the
  sources use wherever iteration order matters. A map is the list of its entries in ascending key
  order and a set the ascending list of its elements; \<open>bt_wf\<close> and \<open>bs_wf\<close> are the
  representation invariants. The locale \<open>ordered_map\<close> states what the clients of a \<open>BTreeMap\<close>
  rely on, and holds the lemmas about loops that fill one; the entry lists interpret it.
\<close>

type_synonym ('k, 'v) btree_map = "('k \<times> 'v) list"
type_synonym 'a btree_set = "'a list"

subsection \<open>Operations\<close>

fun bt_insert :: "'k::linorder \<Rightarrow> 'v \<Rightarrow> ('k, 'v) btree_map \<Rightarrow> ('k, 'v) btree_map" where
  "bt_insert k v [] = [(k, v)]"
| "bt_insert k v ((k', v') # m) =
     (if k < k' then (k, v) # (k', v') # m
      else if k = k' then (k, v) # m
      else (k', v') # bt_insert k v m)"

definition bt_get :: "('k, 'v) btree_map \<Rightarrow> 'k \<Rightarrow> 'v option" where
  "bt_get m k = map_of m k"

definition bt_remove :: "'k \<Rightarrow> ('k, 'v) btree_map \<Rightarrow> ('k, 'v) btree_map" where
  "bt_remove k m = filter (\<lambda>e. fst e \<noteq> k) m"

definition bt_keys :: "('k, 'v) btree_map \<Rightarrow> 'k list" where
  "bt_keys m = map fst m"

definition bt_values :: "('k, 'v) btree_map \<Rightarrow> 'v list" where
  "bt_values m = map snd m"

definition bt_wf :: "('k::linorder, 'v) btree_map \<Rightarrow> bool" where
  "bt_wf m = sorted_wrt (<) (bt_keys m)"

text \<open>\<open>entry(k).or_default().push(x)\<close> on a map of vectors.\<close>

definition bt_push :: "'k::linorder \<Rightarrow> 'a \<Rightarrow> ('k, 'a list) btree_map \<Rightarrow> ('k, 'a list) btree_map" where
  "bt_push k x m = bt_insert k ((case bt_get m k of None \<Rightarrow> [] | Some xs \<Rightarrow> xs) @ [x]) m"

text \<open>\<open>values_mut\<close> with a function of the value.\<close>

definition bt_map_values :: "('v \<Rightarrow> 'w) \<Rightarrow> ('k, 'v) btree_map \<Rightarrow> ('k, 'w) btree_map" where
  "bt_map_values f m = map (\<lambda>e. (fst e, f (snd e))) m"

fun bs_insert :: "'a::linorder \<Rightarrow> 'a btree_set \<Rightarrow> 'a btree_set" where
  "bs_insert x [] = [x]"
| "bs_insert x (y # s) = (if x < y then x # y # s else if x = y then y # s else y # bs_insert x s)"

definition bs_contains :: "'a btree_set \<Rightarrow> 'a \<Rightarrow> bool" where
  "bs_contains s x = (x \<in> set s)"

definition bs_remove :: "'a \<Rightarrow> 'a btree_set \<Rightarrow> 'a btree_set" where
  "bs_remove x s = filter (\<lambda>y. y \<noteq> x) s"

definition bs_of_list :: "'a::linorder list \<Rightarrow> 'a btree_set" where
  "bs_of_list xs = fold bs_insert xs []"

definition bs_wf :: "'a::linorder btree_set \<Rightarrow> bool" where
  "bs_wf s = sorted_wrt (<) s"

subsection \<open>The interface\<close>

locale ordered_map =
  fixes empty :: "'m"
    and insert :: "'k::linorder \<Rightarrow> 'v \<Rightarrow> 'm \<Rightarrow> 'm"
    and lookup :: "'m \<Rightarrow> 'k \<Rightarrow> 'v option"
    and keys :: "'m \<Rightarrow> 'k list"
    and wf :: "'m \<Rightarrow> bool"
  assumes wf_empty: "wf empty"
    and wf_insert: "wf m \<Longrightarrow> wf (insert k v m)"
    and lookup_empty: "lookup empty k = None"
    and lookup_insert: "lookup (insert k v m) k' = (if k' = k then Some v else lookup m k')"
    and keys_lookup: "k \<in> set (keys m) \<longleftrightarrow> lookup m k \<noteq> None"
    and keys_ascending: "wf m \<Longrightarrow> sorted_wrt (<) (keys m)"
begin

text \<open>Filling a map in a loop: \<open>for x in xs { m.insert(key(x), val(x)) }\<close>.\<close>

definition fill :: "('a \<Rightarrow> 'k) \<Rightarrow> ('a \<Rightarrow> 'v) \<Rightarrow> 'a list \<Rightarrow> 'm \<Rightarrow> 'm" where
  "fill key val xs m = fold (\<lambda>x. insert (key x) (val x)) xs m"

lemma wf_fill: "wf m \<Longrightarrow> wf (fill key val xs m)"
  unfolding fill_def by (rule fold_invariant_set) (auto intro: wf_insert)

lemma lookup_fill:
  "lookup (fill key val xs m) k =
     (case find (\<lambda>x. key x = k) (rev xs) of None \<Rightarrow> lookup m k | Some x \<Rightarrow> Some (val x))"
proof (induction xs arbitrary: m)
  case Nil
  then show ?case by (simp add: fill_def)
next
  case (Cons x xs)
  have step: "fill key val (x # xs) m = fill key val xs (insert (key x) (val x) m)"
    by (simp add: fill_def)
  have "find P (ys @ [x]) = (case find P ys of None \<Rightarrow> (if P x then Some x else None) | Some y \<Rightarrow> Some y)"
    for P and ys :: "'a list"
    by (induction ys) auto
  then show ?case
    unfolding step by (simp add: Cons.IH lookup_insert split: option.split)
qed

lemma keys_fill: "set (keys (fill key val xs m)) = key ` set xs \<union> set (keys m)"
proof -
  have "k \<in> set (keys (fill key val xs m)) \<longleftrightarrow> k \<in> key ` set xs \<or> k \<in> set (keys m)" for k
  proof (cases "find (\<lambda>x. key x = k) (rev xs)")
    case None
    then have "k \<notin> key ` set xs" by (auto simp: find_None_pred)
    with None show ?thesis by (simp add: keys_lookup lookup_fill)
  next
    case (Some x)
    then have "key x = k \<and> x \<in> set (rev xs)" by (rule find_map_pred)
    then have "k \<in> key ` set xs" by auto
    with Some show ?thesis by (simp add: keys_lookup lookup_fill)
  qed
  then show ?thesis by blast
qed

lemma keys_fill_empty: "set (keys (fill key val xs empty)) = key ` set xs"
proof -
  have "set (keys empty) = {}"
    using keys_lookup lookup_empty by (metis emptyE ex_in_conv)
  then show ?thesis by (simp add: keys_fill)
qed

lemma keys_distinct: "wf m \<Longrightarrow> distinct (keys m)"
  by (rule sorted_wrt_less_distinct) (rule keys_ascending)

end

subsection \<open>The entry lists implement it\<close>

lemma bt_get_insert: "bt_get (bt_insert k v m) k' = (if k' = k then Some v else bt_get m k')"
  by (induction k v m rule: bt_insert.induct) (auto simp: bt_get_def)

lemma set_keys_insert: "set (bt_keys (bt_insert k v m)) = insert k (set (bt_keys m))"
  by (induction k v m rule: bt_insert.induct) (auto simp: bt_keys_def)

lemma bt_wf_insert: "bt_wf m \<Longrightarrow> bt_wf (bt_insert k v m)"
proof (induction k v m rule: bt_insert.induct)
  case (1 k v)
  then show ?case by (simp add: bt_wf_def bt_keys_def)
next
  case (2 k v k' v' m)
  have "bt_wf m" and gt: "\<forall>x\<in>set (bt_keys m). k' < x"
    using "2.prems" by (auto simp: bt_wf_def bt_keys_def)
  with "2.IH" have "\<not> k < k' \<Longrightarrow> k \<noteq> k' \<Longrightarrow> sorted_wrt (<) (bt_keys (bt_insert k v m))"
    by (simp add: bt_wf_def)
  with gt "2.prems" show ?case
    using set_keys_insert [of k v m]
    by (auto simp: bt_wf_def bt_keys_def)
qed

lemma bt_keys_get: "k \<in> set (bt_keys m) \<longleftrightarrow> bt_get m k \<noteq> None"
  by (auto simp: bt_keys_def bt_get_def map_of_eq_None_iff)

interpretation bt: ordered_map "[] :: ('k::linorder, 'v) btree_map" bt_insert bt_get bt_keys bt_wf
  by unfold_locales
    (auto simp: bt_get_insert bt_keys_get bt_wf_insert, auto simp: bt_wf_def bt_keys_def bt_get_def)

subsection \<open>Further laws of the entry lists\<close>

lemma bt_get_entry: "bt_wf m \<Longrightarrow> bt_get m k = Some v \<longleftrightarrow> (k, v) \<in> set m"
  unfolding bt_get_def
  by (rule map_of_eq_Some_iff) (metis bt.keys_distinct bt_keys_def)

lemma bt_values_get: "bt_wf m \<Longrightarrow> v \<in> set (bt_values m) \<longleftrightarrow> (\<exists>k. bt_get m k = Some v)"
  by (force simp: bt_get_entry bt_values_def)

lemma bt_keys_map_values [simp]: "bt_keys (bt_map_values f m) = bt_keys m"
  by (simp add: bt_map_values_def bt_keys_def comp_def)

lemma bt_get_map_values: "bt_get (bt_map_values f m) k = map_option f (bt_get m k)"
  by (induction m) (auto simp: bt_map_values_def bt_get_def)

lemma bt_wf_map_values [simp]: "bt_wf (bt_map_values f m) = bt_wf m"
  by (simp add: bt_wf_def)

lemma bt_wf_push: "bt_wf m \<Longrightarrow> bt_wf (bt_push k x m)"
  by (simp add: bt_push_def bt_wf_insert)

lemma bt_get_push:
  "bt_get (bt_push k x m) k' =
     (if k' = k then Some ((case bt_get m k of None \<Rightarrow> [] | Some xs \<Rightarrow> xs) @ [x]) else bt_get m k')"
  by (simp add: bt_push_def bt_get_insert)

lemma bt_get_remove: "bt_get (bt_remove k m) k' = (if k' = k then None else bt_get m k')"
  by (induction m) (auto simp: bt_remove_def bt_get_def)

lemma bt_wf_remove: "bt_wf m \<Longrightarrow> bt_wf (bt_remove k m)"
  by (induction m) (auto simp: bt_remove_def bt_wf_def bt_keys_def)

text \<open>Filling a map of vectors: \<open>for x in xs { m.entry(key(x)).or_default().push(val(x)) }\<close>.\<close>

lemma bt_get_fold_push:
  "bt_get (fold (\<lambda>x. bt_push (key x) (val x)) xs m) k =
     (let old = (case bt_get m k of None \<Rightarrow> [] | Some ys \<Rightarrow> ys);
          new = map val (filter (\<lambda>x. key x = k) xs)
      in if bt_get m k = None \<and> new = [] then None else Some (old @ new))"
  by (induction xs arbitrary: m) (auto simp: bt_get_push Let_def split: option.splits)

lemma bt_wf_fold_push: "bt_wf m \<Longrightarrow> bt_wf (fold (\<lambda>x. bt_push (key x) (val x)) xs m)"
  by (rule fold_invariant_set) (auto intro: bt_wf_push)

lemma set_bs_insert [simp]: "set (bs_insert x s) = insert x (set s)"
  by (induction x s rule: bs_insert.induct) auto

lemma bs_wf_insert: "bs_wf s \<Longrightarrow> bs_wf (bs_insert x s)"
  by (induction x s rule: bs_insert.induct) (auto simp: bs_wf_def)

lemma set_bs_of_list [simp]: "set (bs_of_list xs) = set xs"
proof -
  have "set (fold bs_insert xs s) = set xs \<union> set s" for s :: "'a list"
    by (induction xs arbitrary: s) auto
  then show ?thesis by (simp add: bs_of_list_def)
qed

lemma bs_wf_of_list: "bs_wf (bs_of_list xs)"
  unfolding bs_of_list_def
  by (rule fold_invariant_set) (auto simp: bs_wf_insert, simp add: bs_wf_def)

lemma bs_wf_distinct: "bs_wf s \<Longrightarrow> distinct s"
  by (simp add: bs_wf_def sorted_wrt_less_distinct)

lemma set_bs_remove [simp]: "set (bs_remove x s) = set s - {x}"
  by (auto simp: bs_remove_def)

lemma bs_wf_remove: "bs_wf s \<Longrightarrow> bs_wf (bs_remove x s)"
  by (simp add: bs_wf_def bs_remove_def sorted_wrt_filter)

lemma bs_wf_filter: "bs_wf s \<Longrightarrow> bs_wf (filter P s)"
  by (simp add: bs_wf_def sorted_wrt_filter)

lemma bs_contains_iff [simp]: "bs_contains s x \<longleftrightarrow> x \<in> set s"
  by (simp add: bs_contains_def)

end
