(* ===== verification/Domain.thy ===== *)
theory Domain
  imports BTree
begin

text \<open>
  The domain model of \<open>src/model.rs\<close>: pull-request and branch facts, check observations, the
  caravan, the graph problems with their classification, and the precondition that guards a remote
  mutation. Structs are records, enums are datatypes with the constructors of the source; the
  methods of the structs follow their types. Pull-request numbers and other provider ids are
  \<open>u64\<close> values that the code only compares and prints, so they are \<open>nat\<close>; their bound matters for
  parsing only (\<open>pr_number_parse\<close>).
\<close>

type_synonym pr_number = nat

definition pr_number_display :: "pr_number \<Rightarrow> string" where
  "pr_number_display n = show_nat n"

text \<open>The object-key form of a deserialized number: \<open>visit_str\<close> of the \<open>PrNumber\<close> visitor.\<close>

definition pr_number_parse :: "string \<Rightarrow> pr_number option" where
  "pr_number_parse s = parse_unsigned 64 s"

record repository_id =
  repo_owner :: string
  repo_name :: string

definition repo_slug :: "repository_id \<Rightarrow> string" where
  "repo_slug r = repo_owner r @ ''/'' @ repo_name r"

record branch_snapshot =
  br_repository :: repository_id
  br_name :: string
  br_oid :: commit_oid

datatype pull_request_state = Open | Closed | Merged

datatype merge_method = Squash

record auto_merge_state =
  am_enabled :: bool
  am_merge_method :: "merge_method option"
  am_actor :: "string option"

text \<open>\<open>PartialEq\<close> of the auto-merge state: the actor is observability and does not count.\<close>

definition auto_merge_eq :: "auto_merge_state \<Rightarrow> auto_merge_state \<Rightarrow> bool" where
  "auto_merge_eq a b =
     (am_enabled a = am_enabled b \<and> am_merge_method a = am_merge_method b)"

definition auto_merge_disabled :: auto_merge_state where
  "auto_merge_disabled = \<lparr>am_enabled = False, am_merge_method = None, am_actor = None\<rparr>"

definition auto_merge_squash :: auto_merge_state where
  "auto_merge_squash = \<lparr>am_enabled = True, am_merge_method = Some Squash, am_actor = None\<rparr>"

datatype check_state =
    Expected | Queued | InProgress | Success | Failure | Neutral | Skipped | Cancelled
  | TimedOut | ActionRequired | CheckUnknown

record check_snapshot =
  ck_name :: string
  ck_state :: check_state
  ck_provider_state :: "string option"
  ck_details_url :: "string option"
  ck_provider_kind :: "string option"
  ck_workflow_name :: "string option"
  ck_app_id :: "nat option"
  ck_check_suite_id :: "nat option"
  ck_head_oid :: "commit_oid option"
  ck_started_at :: "string option"
  ck_completed_at :: "string option"
  ck_superseded :: bool

definition check_default :: check_snapshot where
  "check_default =
     \<lparr>ck_name = [], ck_state = CheckUnknown, ck_provider_state = None, ck_details_url = None,
      ck_provider_kind = None, ck_workflow_name = None, ck_app_id = None, ck_check_suite_id = None,
      ck_head_oid = None, ck_started_at = None, ck_completed_at = None, ck_superseded = False\<rparr>"

record pull_request_snapshot =
  pr_num :: pr_number
  pr_title :: string
  pr_url :: string
  pr_state :: pull_request_state
  pr_draft :: bool
  pr_head :: branch_snapshot
  pr_base :: branch_snapshot
  pr_cross_repository :: bool
  pr_labels :: "label btree_set"
  pr_auto_merge :: auto_merge_state
  pr_checks :: "check_snapshot list"
  pr_created_at :: "string option"
  pr_merged_at :: "string option"
  pr_updated_at :: "string option"
  pr_merge_state_status :: "string option"

definition has_label :: "pull_request_snapshot \<Rightarrow> label \<Rightarrow> bool" where
  "has_label p l = bs_contains (pr_labels p) l"

definition is_active_caravan_member :: "pull_request_snapshot \<Rightarrow> bool" where
  "is_active_caravan_member p =
     (pr_state p = Open \<and> has_label p ''caravan'' \<and> \<not> has_label p ''caravan-evicted'')"

definition is_closed_unmerged :: "pull_request_snapshot \<Rightarrow> bool" where
  "is_closed_unmerged p = (pr_state p = Closed \<and> pr_merged_at p = None)"

definition is_merged :: "pull_request_snapshot \<Rightarrow> bool" where
  "is_merged p = (pr_state p = Merged \<or> pr_merged_at p \<noteq> None)"

text \<open>
  The discovery snapshot, with the fields graph derivation reads; the merge-candidate, movement and
  generation-fact evidence it also carries is consumed by other operations.
\<close>

record repository_snapshot =
  snap_repository :: repository_id
  snap_default_branch :: branch_snapshot
  snap_current_pr :: "pr_number option"
  snap_pull_requests :: "pull_request_snapshot list"

subsection \<open>Caravans\<close>

record caravan =
  cv_id :: pr_number
  cv_members :: "pr_number list"
  cv_parked :: bool

definition caravan_new :: "pr_number list \<Rightarrow> caravan option" where
  "caravan_new members =
     (case members of [] \<Rightarrow> None
      | m # _ \<Rightarrow> Some \<lparr>cv_id = m, cv_members = members, cv_parked = False\<rparr>)"

definition caravan_head :: "caravan \<Rightarrow> pr_number option" where
  "caravan_head c = (case cv_members c of [] \<Rightarrow> None | m # _ \<Rightarrow> Some m)"

definition caravan_tail :: "caravan \<Rightarrow> pr_number option" where
  "caravan_tail c = (if cv_members c = [] then None else Some (last (cv_members c)))"

fun position_of :: "pr_number \<Rightarrow> pr_number list \<Rightarrow> nat option" where
  "position_of n [] = None"
| "position_of n (m # ms) = (if m = n then Some 0 else map_option Suc (position_of n ms))"

definition caravan_position :: "caravan \<Rightarrow> pr_number \<Rightarrow> nat option" where
  "caravan_position c n = position_of n (cv_members c)"

datatype head_merge_actor = ActorCaravan | ActorGithub

definition actor_github :: "head_merge_actor \<Rightarrow> bool" where
  "actor_github a = (case a of ActorGithub \<Rightarrow> True | ActorCaravan \<Rightarrow> False)"

subsection \<open>Graph problems\<close>

datatype graph_problem_kind =
    MissingHead | MultipleHeads | Branching | Cycle | DanglingBase | ActiveAndEvicted
  | DuplicateMember | ForkOnlyPredecessor | AutoMergeInvariant | Incompatible
  | CandidateIncompatible | ReusedBranchProvenance | SupersededGeneration | DissolvedMember
  | AmbiguousGeneration | InvalidGenerationMetadata | UnknownProblem

fun blocks_fleet :: "graph_problem_kind \<Rightarrow> bool" where
  "blocks_fleet CandidateIncompatible = False"
| "blocks_fleet DissolvedMember = False"
| "blocks_fleet _ = True"

fun is_historical :: "graph_problem_kind \<Rightarrow> bool" where
  "is_historical DissolvedMember = True"
| "is_historical _ = False"

definition is_candidate_scoped :: "graph_problem_kind \<Rightarrow> bool" where
  "is_candidate_scoped k = (\<not> blocks_fleet k \<and> \<not> is_historical k)"

record graph_problem =
  gp_kind :: graph_problem_kind
  gp_prs :: "pr_number list"
  gp_message :: string

definition mk_problem :: "graph_problem_kind \<Rightarrow> pr_number list \<Rightarrow> string \<Rightarrow> graph_problem" where
  "mk_problem k ps msg = \<lparr>gp_kind = k, gp_prs = ps, gp_message = msg\<rparr>"

record caravan_history =
  merged_members_observed :: nat
  earliest_merged_at :: "string option"
  latest_merged_at :: "string option"
  unlabelled_merged_rows :: nat

definition has_formed_before :: "caravan_history \<Rightarrow> bool" where
  "has_formed_before h = (merged_members_observed h > 0)"

definition evidence_may_be_stripped :: "caravan_history \<Rightarrow> bool" where
  "evidence_may_be_stripped h = (merged_members_observed h = 0 \<and> unlabelled_merged_rows h > 0)"

record caravan_fleet =
  fl_repository :: repository_id
  fl_default_branch :: branch_snapshot
  fl_caravans :: "caravan list"
  fl_unqueued :: "pr_number list"
  fl_problems :: "graph_problem list"
  fl_history :: caravan_history

definition fleet_caravan :: "caravan_fleet \<Rightarrow> pr_number \<Rightarrow> caravan option" where
  "fleet_caravan f i = find (\<lambda>c. cv_id c = i) (fl_caravans f)"

definition fleet_containing :: "caravan_fleet \<Rightarrow> pr_number \<Rightarrow> caravan option" where
  "fleet_containing f n = find (\<lambda>c. n \<in> set (cv_members c)) (fl_caravans f)"

datatype compatibility_outcome = Clean | Conflict | CompatUnknown

record compatibility_report =
  rep_candidate :: branch_snapshot
  rep_target :: branch_snapshot
  rep_outcome :: compatibility_outcome
  rep_conflicting_paths :: "string list"
  rep_diagnostic :: "string option"

record cumulative_tree_proof =
  ctp_candidate :: branch_snapshot
  ctp_target :: branch_snapshot
  ctp_candidate_tree :: commit_oid
  ctp_merge_result_tree :: commit_oid
  ctp_identical :: bool
  ctp_target_reachable_from_candidate :: bool

subsection \<open>Mutation preconditions\<close>

record pull_request_precondition =
  pc_number :: pr_number
  pc_state :: pull_request_state
  pc_merged_at :: "string option"
  pc_head_oid :: commit_oid
  pc_base_ref :: string
  pc_base_oid :: commit_oid
  pc_labels :: "label btree_set"
  pc_checks :: "check_snapshot list"
  pc_auto_merge :: auto_merge_state

definition mutation_identity_eq ::
    "pull_request_precondition \<Rightarrow> pull_request_precondition \<Rightarrow> bool" where
  "mutation_identity_eq a b =
     (pc_number a = pc_number b \<and> pc_state a = pc_state b \<and> pc_merged_at a = pc_merged_at b
      \<and> pc_head_oid a = pc_head_oid b \<and> pc_base_ref a = pc_base_ref b
      \<and> pc_base_oid a = pc_base_oid b \<and> pc_labels a = pc_labels b
      \<and> auto_merge_eq (pc_auto_merge a) (pc_auto_merge b))"

definition precondition_of :: "pull_request_snapshot \<Rightarrow> pull_request_precondition" where
  "precondition_of p =
     \<lparr>pc_number = pr_num p, pc_state = pr_state p, pc_merged_at = pr_merged_at p,
      pc_head_oid = br_oid (pr_head p), pc_base_ref = br_name (pr_base p),
      pc_base_oid = br_oid (pr_base p), pc_labels = pr_labels p, pc_checks = pr_checks p,
      pc_auto_merge = pr_auto_merge p\<rparr>"

subsection \<open>Lemmas\<close>

lemma has_label_iff [simp]: "has_label p l \<longleftrightarrow> l \<in> set (pr_labels p)"
  by (simp add: has_label_def)

lemma caravan_new_Some:
  "caravan_new ms = Some c \<longleftrightarrow>
     ms \<noteq> [] \<and> c = \<lparr>cv_id = hd ms, cv_members = ms, cv_parked = False\<rparr>"
  by (cases ms) (auto simp: caravan_new_def)

lemma caravan_new_head: "caravan_new ms = Some c \<Longrightarrow> caravan_head c = Some (cv_id c)"
  by (cases ms) (auto simp: caravan_new_def caravan_head_def)

lemma position_of_Some: "position_of n ms = Some i \<Longrightarrow> i < length ms \<and> ms ! i = n"
  by (induction ms arbitrary: i) (auto split: if_splits simp: less_Suc_eq_0_disj)

lemma position_of_None: "position_of n ms = None \<longleftrightarrow> n \<notin> set ms"
  by (induction ms) auto

lemma position_of_least: "position_of n ms = Some i \<Longrightarrow> j < i \<Longrightarrow> ms ! j \<noteq> n"
  by (induction ms arbitrary: i j) (auto split: if_splits simp: nth_Cons split: nat.splits)

lemma fleet_containing_Some:
  "fleet_containing f n = Some c \<Longrightarrow> c \<in> set (fl_caravans f) \<and> n \<in> set (cv_members c)"
  unfolding fleet_containing_def by (drule find_map_pred) simp

lemma fleet_containing_None:
  "fleet_containing f n = None \<longleftrightarrow> (\<forall>c\<in>set (fl_caravans f). n \<notin> set (cv_members c))"
  unfolding fleet_containing_def by (simp add: find_None_pred)

end
