(* ===== verification/Checks.thy ===== *)
theory Checks
  imports Domain
begin

text \<open>
  The check lineage of \<open>src/model.rs\<close>: a rollup keeps every historical run of a check, and
  \<open>latest_checks_per_identity\<close> splits it into the current observations and the superseded ones.
  The two \<open>BTreeMap\<close>s of newest evidence are only looked up, never iterated, so they are maps
  \<open>'k \<rightharpoonup> 'v\<close> here.
\<close>

record check_identity =
  ci_name :: string
  ci_provider_kind :: "string option"
  ci_workflow_name :: "string option"
  ci_app_id :: "nat option"
  ci_head_oid :: "commit_oid option"

record workflow_identity =
  wi_provider_kind :: "string option"
  wi_workflow_name :: string
  wi_app_id :: "nat option"
  wi_head_oid :: "commit_oid option"

definition check_identity_of :: "check_snapshot \<Rightarrow> check_identity" where
  "check_identity_of c =
     \<lparr>ci_name = ck_name c, ci_provider_kind = ck_provider_kind c,
      ci_workflow_name = ck_workflow_name c, ci_app_id = ck_app_id c, ci_head_oid = ck_head_oid c\<rparr>"

definition valid_stamp :: "string \<Rightarrow> bool" where
  "valid_stamp s = (s \<noteq> [] \<and> \<not> starts_with s ''0001-01-01T'')"

definition filter_opt :: "('a \<Rightarrow> bool) \<Rightarrow> 'a option \<Rightarrow> 'a option" where
  "filter_opt P x = (case x of None \<Rightarrow> None | Some a \<Rightarrow> if P a then Some a else None)"

definition observed_at :: "check_snapshot \<Rightarrow> string option" where
  "observed_at c =
     (case (filter_opt valid_stamp (ck_started_at c), filter_opt valid_stamp (ck_completed_at c)) of
        (Some left, Some right) \<Rightarrow> Some (if right > left then right else left)
      | (Some stamp, None) \<Rightarrow> Some stamp
      | (None, Some stamp) \<Rightarrow> Some stamp
      | (None, None) \<Rightarrow> None)"

definition workflow_generation :: "check_snapshot \<Rightarrow> (workflow_identity \<times> nat) option" where
  "workflow_generation c =
     (case ck_workflow_name c of None \<Rightarrow> None | Some name \<Rightarrow>
      case ck_details_url c of None \<Rightarrow> None | Some url \<Rightarrow>
      case split_once ''/actions/runs/'' url of None \<Rightarrow> None | Some (_, suffix) \<Rightarrow>
      case parse_unsigned 64 (takeWhile (\<lambda>ch. ch \<noteq> CHR ''/'') suffix) of None \<Rightarrow> None
      | Some run_id \<Rightarrow>
          Some (\<lparr>wi_provider_kind = ck_provider_kind c, wi_workflow_name = name,
                 wi_app_id = ck_app_id c, wi_head_oid = ck_head_oid c\<rparr>, run_id))"

text \<open>One entry per identity: \<open>and_modify(keep the newer).or_insert(..)\<close>.\<close>

definition note_newest :: "('k \<rightharpoonup> 'v::linorder) \<Rightarrow> 'k \<Rightarrow> 'v \<Rightarrow> ('k \<rightharpoonup> 'v)" where
  "note_newest m k v =
     m(k \<mapsto> (case m k of None \<Rightarrow> v | Some best \<Rightarrow> if v > best then v else best))"

fun newest_observation_per_identity ::
    "(check_identity \<rightharpoonup> string) \<Rightarrow> check_snapshot list \<Rightarrow> (check_identity \<rightharpoonup> string)" where
  "newest_observation_per_identity m [] = m"
| "newest_observation_per_identity m (c # cs) =
     (case observed_at c of
        None \<Rightarrow> newest_observation_per_identity m cs
      | Some observed \<Rightarrow>
          newest_observation_per_identity (note_newest m (check_identity_of c) observed) cs)"

fun newest_workflow_generation ::
    "(workflow_identity \<rightharpoonup> nat) \<Rightarrow> check_snapshot list \<Rightarrow> (workflow_identity \<rightharpoonup> nat)" where
  "newest_workflow_generation m [] = m"
| "newest_workflow_generation m (c # cs) =
     (case workflow_generation c of
        None \<Rightarrow> newest_workflow_generation m cs
      | Some (wi, run_id) \<Rightarrow> newest_workflow_generation (note_newest m wi run_id) cs)"

definition is_superseded ::
    "check_snapshot \<Rightarrow> (check_identity \<rightharpoonup> string) \<Rightarrow> (workflow_identity \<rightharpoonup> nat) \<Rightarrow> bool" where
  "is_superseded c newest newest_workflow =
     (let newer_same_check =
            (case (newest (check_identity_of c), observed_at c) of
               (Some best, Some observed) \<Rightarrow> observed < best
             | _ \<Rightarrow> False);
          newer_workflow_generation =
            (case workflow_generation c of
               None \<Rightarrow> False
             | Some (wi, run_id) \<Rightarrow>
                 (case newest_workflow wi of None \<Rightarrow> False | Some r \<Rightarrow> run_id < r))
      in newer_same_check \<or> newer_workflow_generation)"

text \<open>The loop that pushes each row to one of the two result vectors.\<close>

fun split_superseded ::
    "(check_identity \<rightharpoonup> string) \<Rightarrow> (workflow_identity \<rightharpoonup> nat) \<Rightarrow> check_snapshot list
     \<Rightarrow> check_snapshot list \<times> check_snapshot list" where
  "split_superseded n w [] = ([], [])"
| "split_superseded n w (c # cs) =
     (let (current, superseded) = split_superseded n w cs
      in if is_superseded c n w then (current, c # superseded) else (c # current, superseded))"

definition latest_checks_per_identity ::
    "check_snapshot list \<Rightarrow> check_snapshot list \<times> check_snapshot list" where
  "latest_checks_per_identity checks =
     split_superseded (newest_observation_per_identity Map.empty checks)
       (newest_workflow_generation Map.empty checks) checks"

definition mark_superseded_checks :: "check_snapshot list \<Rightarrow> check_snapshot list" where
  "mark_superseded_checks checks =
     (let newest = newest_observation_per_identity Map.empty checks;
          newest_workflow = newest_workflow_generation Map.empty checks
      in map (\<lambda>c. c\<lparr>ck_superseded := is_superseded c newest newest_workflow\<rparr>) checks)"

subsection \<open>What the newest-evidence maps hold\<close>

text \<open>
  A map of newest evidence is the pointwise maximum of the evidence seen: the same fact for both
  maps, so it is stated once over the list of \<open>(key, value)\<close> observations.
\<close>

definition newest_of :: "('k \<rightharpoonup> 'v::linorder) \<Rightarrow> ('k \<times> 'v) list \<Rightarrow> bool" where
  "newest_of m obs \<longleftrightarrow>
     (\<forall>k. (m k = None \<longleftrightarrow> (\<forall>v. (k, v) \<notin> set obs))
        \<and> (\<forall>b. m k = Some b \<longrightarrow> (k, b) \<in> set obs \<and> (\<forall>v. (k, v) \<in> set obs \<longrightarrow> v \<le> b)))"

lemma newest_of_Some:
  "newest_of m obs \<Longrightarrow> m k = Some b \<Longrightarrow> (k, b) \<in> set obs"
  "newest_of m obs \<Longrightarrow> m k = Some b \<Longrightarrow> (k, v) \<in> set obs \<Longrightarrow> v \<le> b"
  by (auto simp: newest_of_def)

lemma newest_of_None: "newest_of m obs \<Longrightarrow> m k = None \<Longrightarrow> (k, v) \<notin> set obs"
  by (auto simp: newest_of_def)

lemma newest_of_note:
  assumes m: "newest_of m obs"
  shows "newest_of (note_newest m k v) (obs @ [(k, v)])"
proof -
  define w where "w = (case m k of None \<Rightarrow> v | Some best \<Rightarrow> if v > best then v else best)"
  have in_obs: "(k, w) \<in> set (obs @ [(k, v)])"
    using newest_of_Some(1) [OF m] by (auto simp: w_def split: option.split)
  have upper: "u \<le> w" if "(k, u) \<in> set (obs @ [(k, v)])" for u
    using that newest_of_Some(2) [OF m, of k] newest_of_None [OF m, of k]
    by (cases "m k") (auto simp: w_def dest: order.strict_trans1 intro: less_imp_le)
  have "note_newest m k v = m(k \<mapsto> w)" by (simp add: note_newest_def w_def)
  then show ?thesis
    using m in_obs upper by (auto simp: newest_of_def)
qed

lemma newest_of_less:
  assumes "newest_of m obs"
  shows "(case m k of None \<Rightarrow> False | Some b \<Rightarrow> v < b) \<longleftrightarrow> (\<exists>u. (k, u) \<in> set obs \<and> v < u)"
proof (cases "m k")
  case None
  with newest_of_None [OF assms] show ?thesis by simp
next
  case (Some b)
  have "v < b" if "(k, u) \<in> set obs" and "v < u" for u
    using newest_of_Some(2) [OF assms Some that(1)] that(2) by simp
  with newest_of_Some(1) [OF assms Some] Some show ?thesis by auto
qed

lemma newest_of_empty: "newest_of Map.empty []"
  by (simp add: newest_of_def)

definition check_observations :: "check_snapshot list \<Rightarrow> (check_identity \<times> string) list" where
  "check_observations cs =
     List.map_filter (\<lambda>c. map_option (Pair (check_identity_of c)) (observed_at c)) cs"

definition workflow_observations :: "check_snapshot list \<Rightarrow> (workflow_identity \<times> nat) list" where
  "workflow_observations cs = List.map_filter workflow_generation cs"

lemma newest_observation_newest_of:
  "newest_of m obs \<Longrightarrow>
   newest_of (newest_observation_per_identity m cs) (obs @ check_observations cs)"
proof (induction cs arbitrary: m obs)
  case Nil
  then show ?case by (simp add: check_observations_def map_filter_def)
next
  case (Cons c cs)
  show ?case
  proof (cases "observed_at c")
    case None
    with Cons show ?thesis by (simp add: check_observations_def map_filter_def)
  next
    case (Some t)
    from Cons.IH [OF newest_of_note [OF Cons.prems]] Some show ?thesis
      by (simp add: check_observations_def map_filter_def)
  qed
qed

lemma newest_workflow_newest_of:
  "newest_of m obs \<Longrightarrow>
   newest_of (newest_workflow_generation m cs) (obs @ workflow_observations cs)"
proof (induction cs arbitrary: m obs)
  case Nil
  then show ?case by (simp add: workflow_observations_def map_filter_def)
next
  case (Cons c cs)
  show ?case
  proof (cases "workflow_generation c")
    case None
    with Cons show ?thesis by (simp add: workflow_observations_def map_filter_def)
  next
    case (Some g)
    obtain wi r where g: "g = (wi, r)" by (cases g)
    from Cons.IH [OF newest_of_note [OF Cons.prems]] Some g show ?thesis
      by (simp add: workflow_observations_def map_filter_def)
  qed
qed

lemma set_check_observations:
  "(k, t) \<in> set (check_observations cs) \<longleftrightarrow>
     (\<exists>c\<in>set cs. check_identity_of c = k \<and> observed_at c = Some t)"
  by (auto simp: check_observations_def map_filter_def image_iff)

lemma set_workflow_observations:
  "(w, r) \<in> set (workflow_observations cs) \<longleftrightarrow> (\<exists>c\<in>set cs. workflow_generation c = Some (w, r))"
  by (force simp: workflow_observations_def map_filter_def image_iff)

text \<open>Row \<open>d\<close> is positive evidence that row \<open>c\<close> is history.\<close>

definition newer_same_check :: "check_snapshot \<Rightarrow> check_snapshot \<Rightarrow> bool" where
  "newer_same_check c d \<longleftrightarrow>
     check_identity_of d = check_identity_of c
     \<and> (\<exists>t u. observed_at c = Some t \<and> observed_at d = Some u \<and> t < u)"

definition newer_workflow_run :: "check_snapshot \<Rightarrow> check_snapshot \<Rightarrow> bool" where
  "newer_workflow_run c d \<longleftrightarrow>
     (\<exists>w q r. workflow_generation c = Some (w, q) \<and> workflow_generation d = Some (w, r) \<and> q < r)"

text \<open>Both relations compute, which witnesses use; \<open>row_eval\<close> evaluates the fields of a row.\<close>

lemma newer_same_check_code:
  "newer_same_check c d =
     (check_identity_of d = check_identity_of c
      \<and> (case (observed_at c, observed_at d) of (Some t, Some u) \<Rightarrow> t < u | _ \<Rightarrow> False))"
  by (auto simp: newer_same_check_def split: option.splits)

lemma newer_workflow_run_code:
  "newer_workflow_run c d =
     (case (workflow_generation c, workflow_generation d) of
        (Some (w, q), Some (w', r)) \<Rightarrow> w = w' \<and> q < r | _ \<Rightarrow> False)"
  by (auto simp: newer_workflow_run_def split: option.splits)

lemmas row_eval = check_default_def check_identity_of_def observed_at_def valid_stamp_def
  filter_opt_def starts_with_def workflow_generation_def parse_unsigned_def digit_val_def Let_def

abbreviation superseded_in :: "check_snapshot list \<Rightarrow> check_snapshot \<Rightarrow> bool" where
  "superseded_in cs c \<equiv>
     is_superseded c (newest_observation_per_identity Map.empty cs)
       (newest_workflow_generation Map.empty cs)"

lemma superseded_in_iff:
  assumes "c \<in> set cs"
  shows "superseded_in cs c \<longleftrightarrow> (\<exists>d\<in>set cs. newer_same_check c d \<or> newer_workflow_run c d)"
proof -
  let ?n = "newest_observation_per_identity Map.empty cs"
  let ?w = "newest_workflow_generation Map.empty cs"
  have n: "newest_of ?n (check_observations cs)"
    using newest_observation_newest_of [OF newest_of_empty] by simp
  have w: "newest_of ?w (workflow_observations cs)"
    using newest_workflow_newest_of [OF newest_of_empty] by simp
  have same: "(case (?n (check_identity_of c), observed_at c) of
       (Some best, Some observed) \<Rightarrow> observed < best | _ \<Rightarrow> False)
     \<longleftrightarrow> (\<exists>d\<in>set cs. newer_same_check c d)"
  proof (cases "observed_at c")
    case None
    then show ?thesis by (simp add: newer_same_check_def split: option.split)
  next
    case (Some t)
    have "(case (?n (check_identity_of c), observed_at c) of
         (Some best, Some observed) \<Rightarrow> observed < best | _ \<Rightarrow> False)
       = (case ?n (check_identity_of c) of None \<Rightarrow> False | Some b \<Rightarrow> t < b)"
      using Some by (simp split: option.split)
    then show ?thesis
      unfolding newest_of_less [OF n]
      using Some by (auto simp: newer_same_check_def set_check_observations)
  qed
  have run: "(case workflow_generation c of None \<Rightarrow> False
       | Some (wi, run_id) \<Rightarrow> (case ?w wi of None \<Rightarrow> False | Some r \<Rightarrow> run_id < r))
     \<longleftrightarrow> (\<exists>d\<in>set cs. newer_workflow_run c d)"
  proof (cases "workflow_generation c")
    case None
    then show ?thesis by (simp add: newer_workflow_run_def)
  next
    case (Some g)
    obtain w q where g: "g = (w, q)" by (cases g)
    show ?thesis
      unfolding Some g option.case prod.case newest_of_less [OF w]
      using Some g by (auto simp: newer_workflow_run_def set_workflow_observations)
  qed
  show ?thesis
    unfolding is_superseded_def Let_def same run by blast
qed

lemma split_superseded_filter:
  "split_superseded n w cs = (filter (\<lambda>c. \<not> is_superseded c n w) cs, filter (\<lambda>c. is_superseded c n w) cs)"
  by (induction cs) auto

lemma latest_checks_filter:
  "latest_checks_per_identity cs =
     (filter (\<lambda>c. \<not> superseded_in cs c) cs, filter (superseded_in cs) cs)"
  by (simp add: latest_checks_per_identity_def split_superseded_filter)

lemma current_check_iff:
  "c \<in> set (fst (latest_checks_per_identity cs)) \<longleftrightarrow>
     c \<in> set cs \<and> (\<forall>d\<in>set cs. \<not> newer_same_check c d \<and> \<not> newer_workflow_run c d)"
  by (auto simp: latest_checks_filter superseded_in_iff)

subsection \<open>Properties\<close>

text \<open>
  C32. The split of a rollup into current and superseded rows loses nothing and invents nothing:
  the two results together are a permutation of the rollup, and a row is superseded exactly when
  the rollup itself holds positive evidence against it (the same check observed strictly later, or
  a strictly newer run of the same workflow on the same head). A row without a usable timestamp
  and without a run id is therefore always current.
\<close>

theorem latest_checks_positive_evidence:
  "mset (fst (latest_checks_per_identity cs)) + mset (snd (latest_checks_per_identity cs)) = mset cs
   \<and> (\<forall>c. c \<in> set (snd (latest_checks_per_identity cs)) \<longleftrightarrow>
         c \<in> set cs \<and> (\<exists>d\<in>set cs. newer_same_check c d \<or> newer_workflow_run c d))
   \<and> (\<forall>c. c \<in> set cs \<and> observed_at c = None \<and> workflow_generation c = None
         \<longrightarrow> c \<in> set (fst (latest_checks_per_identity cs)))"
proof (intro conjI allI)
  show "mset (fst (latest_checks_per_identity cs)) + mset (snd (latest_checks_per_identity cs)) = mset cs"
    by (simp add: latest_checks_filter)
  show "c \<in> set (snd (latest_checks_per_identity cs)) \<longleftrightarrow>
      c \<in> set cs \<and> (\<exists>d\<in>set cs. newer_same_check c d \<or> newer_workflow_run c d)" for c
    by (auto simp: latest_checks_filter superseded_in_iff)
  show "c \<in> set cs \<and> observed_at c = None \<and> workflow_generation c = None
      \<longrightarrow> c \<in> set (fst (latest_checks_per_identity cs))" for c
    by (auto simp: current_check_iff newer_same_check_def newer_workflow_run_def)
qed

text \<open>
  Run ids and timestamps agree: of two runs of one check, the one observed later does not belong
  to an older workflow run.
\<close>

definition run_order_consistent :: "check_snapshot list \<Rightarrow> bool" where
  "run_order_consistent cs \<longleftrightarrow>
     (\<forall>c\<in>set cs. \<forall>d\<in>set cs. newer_same_check c d \<longrightarrow> \<not> newer_workflow_run d c)"

text \<open>Two rows of one workflow on one head (the fields a workflow identity is made of).\<close>

definition same_workflow :: "check_snapshot \<Rightarrow> check_snapshot \<Rightarrow> bool" where
  "same_workflow c d \<longleftrightarrow>
     ck_provider_kind d = ck_provider_kind c \<and> ck_workflow_name d = ck_workflow_name c
     \<and> ck_app_id d = ck_app_id c \<and> ck_head_oid d = ck_head_oid c"

lemma same_workflow_trans: "same_workflow c d \<Longrightarrow> same_workflow d e \<Longrightarrow> same_workflow c e"
  by (simp add: same_workflow_def)

lemma same_identity_workflow: "check_identity_of d = check_identity_of c \<Longrightarrow> same_workflow c d"
  by (simp add: check_identity_of_def same_workflow_def)

lemma workflow_generation_fields:
  "workflow_generation c = Some (w, q) \<Longrightarrow>
     wi_provider_kind w = ck_provider_kind c \<and> ck_workflow_name c = Some (wi_workflow_name w)
     \<and> wi_app_id w = ck_app_id c \<and> wi_head_oid w = ck_head_oid c"
  by (auto simp: workflow_generation_def split: option.splits prod.splits)

lemma same_generation_workflow:
  "workflow_generation c = Some (w, q) \<Longrightarrow> workflow_generation d = Some (w, r) \<Longrightarrow> same_workflow c d"
  by (drule workflow_generation_fields, drule workflow_generation_fields)
    (simp add: same_workflow_def)

lemma generation_of_same_workflow:
  assumes "same_workflow c d" "workflow_generation c = Some (w, q)"
    and "workflow_generation d = Some (w', r)"
  shows "w' = w"
  using assms workflow_generation_fields [OF assms(2)] workflow_generation_fields [OF assms(3)]
  by (simp add: same_workflow_def workflow_identity.equality)

text \<open>Of the rows satisfying a property, one whose evidence is greatest.\<close>

lemma greatest_row:
  fixes ev :: "'a \<Rightarrow> 'b::linorder"
  assumes "x \<in> set xs" "P x"
  shows "\<exists>y\<in>set xs. P y \<and> (\<forall>z\<in>set xs. P z \<longrightarrow> ev z \<le> ev y)"
proof -
  let ?S = "ev ` {z \<in> set xs. P z}"
  have "finite ?S" and "?S \<noteq> {}" using assms by auto
  then have "Max ?S \<in> ?S" and "\<forall>e\<in>?S. e \<le> Max ?S" by auto
  then show ?thesis by fastforce
qed

lemma newest_run_row:
  assumes "c \<in> set cs" "workflow_generation c = Some (w, q)"
  obtains d r where "d \<in> set cs" "workflow_generation d = Some (w, r)"
    and "\<And>e. e \<in> set cs \<Longrightarrow> \<not> newer_workflow_run d e"
proof -
  from greatest_row [of c cs "\<lambda>d. \<exists>r. workflow_generation d = Some (w, r)"
      "\<lambda>d. snd (the (workflow_generation d))"] assms
  obtain d r where d: "d \<in> set cs" "workflow_generation d = Some (w, r)"
    and top: "\<forall>z\<in>set cs. (\<exists>r. workflow_generation z = Some (w, r))
        \<longrightarrow> snd (the (workflow_generation z)) \<le> r"
    by auto
  have "\<not> newer_workflow_run d e" if "e \<in> set cs" for e
    using top that d(2) by (fastforce simp: newer_workflow_run_def)
  with d show thesis by (rule that)
qed

lemma newest_observed_row:
  assumes "c \<in> set cs" "observed_at c = Some t"
  obtains d u where "d \<in> set cs" "check_identity_of d = check_identity_of c"
    and "observed_at d = Some u" "t \<le> u" "\<And>e. e \<in> set cs \<Longrightarrow> \<not> newer_same_check d e"
proof -
  from greatest_row [of c cs "\<lambda>d. check_identity_of d = check_identity_of c \<and> observed_at d \<noteq> None"
      "\<lambda>d. the (observed_at d)"] assms
  obtain d where d: "d \<in> set cs" "check_identity_of d = check_identity_of c" "observed_at d \<noteq> None"
    and top: "\<forall>z\<in>set cs. check_identity_of z = check_identity_of c \<and> observed_at z \<noteq> None
        \<longrightarrow> the (observed_at z) \<le> the (observed_at d)"
    by auto
  then obtain u where u: "observed_at d = Some u" by auto
  have "t \<le> u" using top assms u by force
  moreover have "\<not> newer_same_check d e" if "e \<in> set cs" for e
    using top that d(2) u by (fastforce simp: newer_same_check_def)
  ultimately show thesis using d(1,2) u by (intro that)
qed

lemma current_row_of_workflow:
  assumes cons: "run_order_consistent cs" and c: "c \<in> set cs" "workflow_generation c = Some (w, q)"
  shows "\<exists>d \<in> set (fst (latest_checks_per_identity cs)). same_workflow c d"
proof -
  obtain d r where d: "d \<in> set cs" "workflow_generation d = Some (w, r)"
    and top: "\<And>e. e \<in> set cs \<Longrightarrow> \<not> newer_workflow_run d e"
    using newest_run_row [OF c] by blast
  have cd: "same_workflow c d" using c(2) d(2) by (rule same_generation_workflow)
  show ?thesis
  proof (cases "\<exists>e\<in>set cs. newer_same_check d e")
    case False
    with d(1) top have "d \<in> set (fst (latest_checks_per_identity cs))"
      by (auto simp: current_check_iff)
    with cd show ?thesis by blast
  next
    case True
    then obtain t where "observed_at d = Some t" by (auto simp: newer_same_check_def)
    from newest_observed_row [OF d(1) this] obtain e u where e: "e \<in> set cs"
      "check_identity_of e = check_identity_of d" "observed_at e = Some u" "t \<le> u"
      and latest: "\<And>x. x \<in> set cs \<Longrightarrow> \<not> newer_same_check e x" by blast
    have de: "same_workflow d e" using e(2) by (rule same_identity_workflow)
    have "newer_same_check d e"
      using True latest e \<open>observed_at d = Some t\<close> unfolding newer_same_check_def
      by (metis order_less_le_trans linorder_not_less option.inject)
    with cons d(1) e(1) have not_older: "\<not> newer_workflow_run e d"
      by (auto simp: run_order_consistent_def)
    have "\<not> newer_workflow_run e x" if x: "x \<in> set cs" for x
    proof
      assume "newer_workflow_run e x"
      then obtain w' a b where e': "workflow_generation e = Some (w', a)"
        and x': "workflow_generation x = Some (w', b)" and ab: "a < b"
        by (auto simp: newer_workflow_run_def)
      have "w' = w" using generation_of_same_workflow [OF de d(2) e'] .
      with top [OF x] not_older ab e' x' d(2) show False
        by (force simp: newer_workflow_run_def)
    qed
    with latest e(1) have "e \<in> set (fst (latest_checks_per_identity cs))"
      by (auto simp: current_check_iff)
    with same_workflow_trans [OF cd de] show ?thesis by blast
  qed
qed

text \<open>
  C33. Supersession never silences a workflow: as long as run ids and timestamps agree, for every
  row of a rollup there is a current row of the same workflow, provider, app and head.
\<close>

theorem supersession_keeps_a_current_row:
  assumes "run_order_consistent cs" and "c \<in> set cs"
  shows "\<exists>d \<in> set (fst (latest_checks_per_identity cs)). same_workflow c d"
proof (cases "observed_at c")
  case None
  show ?thesis
  proof (cases "workflow_generation c")
    case None
    with \<open>observed_at c = None\<close> assms(2) have "c \<in> set (fst (latest_checks_per_identity cs))"
      by (auto simp: current_check_iff newer_same_check_def newer_workflow_run_def)
    then show ?thesis by (auto simp: same_workflow_def)
  next
    case (Some g)
    with assms current_row_of_workflow show ?thesis by (cases g) blast
  qed
next
  case (Some t)
  from newest_observed_row [OF assms(2) this] obtain d u where d: "d \<in> set cs"
    "check_identity_of d = check_identity_of c"
    and latest: "\<And>e. e \<in> set cs \<Longrightarrow> \<not> newer_same_check d e" by blast
  have cd: "same_workflow c d" using d(2) by (rule same_identity_workflow)
  show ?thesis
  proof (cases "workflow_generation d")
    case None
    with latest d(1) have "d \<in> set (fst (latest_checks_per_identity cs))"
      by (auto simp: current_check_iff newer_workflow_run_def)
    with cd show ?thesis by blast
  next
    case (Some g)
    obtain w q where "workflow_generation d = Some (w, q)" using Some by (cases g) simp
    from current_row_of_workflow [OF assms(1) d(1) this] same_workflow_trans [OF cd]
    show ?thesis by blast
  qed
qed

definition replaced_rows :: "check_snapshot list" where
  "replaced_rows =
     [check_default\<lparr>ck_name := ''build'', ck_state := Failure, ck_workflow_name := Some ''CI'',
        ck_details_url := Some ''https://x/actions/runs/1/job/7'', ck_completed_at := Some ''2026-01-01''\<rparr>,
      check_default\<lparr>ck_name := ''build'', ck_state := InProgress, ck_workflow_name := Some ''CI'',
        ck_details_url := Some ''https://x/actions/runs/2/job/8'', ck_started_at := Some ''2026-01-02''\<rparr>]"

theorem supersession_keeps_a_current_row_witness:
  "run_order_consistent replaced_rows
   \<and> (\<exists>d \<in> set (fst (latest_checks_per_identity replaced_rows)). same_workflow (hd replaced_rows) d)"
proof -
  have cons: "run_order_consistent replaced_rows"
    by (simp add: run_order_consistent_def replaced_rows_def row_eval newer_same_check_code
        newer_workflow_run_code)
  have "hd replaced_rows \<in> set replaced_rows" by (simp add: replaced_rows_def)
  from supersession_keeps_a_current_row [OF cons this] cons show ?thesis by simp
qed

theorem latest_checks_positive_evidence_witness:
  "check_default \<in> set (fst (latest_checks_per_identity [check_default]))
   \<and> hd replaced_rows \<in> set (snd (latest_checks_per_identity replaced_rows))"
proof -
  have "observed_at check_default = None" "workflow_generation check_default = None"
    by (simp_all add: row_eval)
  moreover have "newer_workflow_run (hd replaced_rows) (replaced_rows ! 1)" "hd replaced_rows \<in> set replaced_rows"
    "replaced_rows ! 1 \<in> set replaced_rows"
    by (simp_all add: replaced_rows_def row_eval newer_workflow_run_code)
  ultimately show ?thesis
    using latest_checks_positive_evidence [of "[check_default]"]
      latest_checks_positive_evidence [of replaced_rows] by auto
qed

definition rerun_rows :: "check_snapshot list" where
  "rerun_rows =
     [check_default\<lparr>ck_name := ''build'', ck_state := Failure, ck_workflow_name := Some ''CI'',
        ck_details_url := Some ''https://x/actions/runs/2/job/7'', ck_completed_at := Some ''2026-01-01''\<rparr>,
      check_default\<lparr>ck_name := ''build'', ck_state := Failure, ck_workflow_name := Some ''CI'',
        ck_details_url := Some ''https://x/actions/runs/1/job/8'', ck_completed_at := Some ''2026-01-02''\<rparr>]"

text \<open>
  The agreement of run ids and timestamps is needed: when an older workflow run is rerun and
  finishes last, its row loses to the newer run and the newer run's row loses to the later
  timestamp, so both failing rows are superseded and no current row is left.
\<close>

theorem rerun_of_older_run_silences_check:
  "latest_checks_per_identity rerun_rows = ([], rerun_rows)
   \<and> map ck_state rerun_rows = [Failure, Failure]"
  by (simp add: rerun_rows_def row_eval latest_checks_per_identity_def note_newest_def
      is_superseded_def)

text \<open>
  Marking at discovery records the same split: the flagged rows are exactly the superseded
  ones, and nothing else of the rollup changes.
\<close>

theorem mark_superseded_agrees:
  "map (\<lambda>c. c\<lparr>ck_superseded := False\<rparr>) (mark_superseded_checks cs)
     = map (\<lambda>c. c\<lparr>ck_superseded := False\<rparr>) cs
   \<and> map ck_superseded (mark_superseded_checks cs) = map (superseded_in cs) cs
   \<and> snd (latest_checks_per_identity cs) = filter (superseded_in cs) cs"
  by (simp add: mark_superseded_checks_def Let_def latest_checks_filter comp_def)

end
