(* ===== verification/Required_Policy.thy ===== *)
theory Required_Policy
  imports Checks "HOL-Library.Option_ord"
begin

text \<open>
  The effective required-check policy of a landing branch, from \<open>src/required_runs.rs\<close>: which
  observed check can satisfy (or fail) a required context, the normal form of a policy read, and
  the projection of a rollup onto the required checks.
\<close>

record required_check =
  rc_context :: string
  rc_app_id :: "nat option"

definition max_reported_contexts :: nat where
  "max_reported_contexts = 32"

definition required_check_matches :: "required_check \<Rightarrow> check_snapshot \<Rightarrow> commit_oid \<Rightarrow> bool" where
  "required_check_matches r c head =
     (ck_name c = rc_context r
      \<and> ck_provider_kind c \<noteq> Some ''WorkflowRunLineage''
      \<and> (case ck_head_oid c of None \<Rightarrow> True | Some oid \<Rightarrow> oid = head)
      \<and> (case rc_app_id r of None \<Rightarrow> True
         | Some app \<Rightarrow> ck_app_id c = Some app \<and> ck_head_oid c = Some head))"

record required_contexts_read =
  rq_branch :: string
  rq_protected :: bool
  rq_contexts :: "string list"
  rq_checks :: "required_check list"
  rq_complete :: bool

definition policy_unprotected :: "string \<Rightarrow> required_contexts_read" where
  "policy_unprotected branch =
     \<lparr>rq_branch = branch, rq_protected = False, rq_contexts = [], rq_checks = [], rq_complete = True\<rparr>"

definition policy_partial :: "string \<Rightarrow> required_contexts_read" where
  "policy_partial branch =
     \<lparr>rq_branch = branch, rq_protected = True, rq_contexts = [], rq_checks = [], rq_complete = False\<rparr>"

text \<open>The derived order of a requirement; \<open>Vec::dedup\<close> after a sort is \<open>remdups_adj\<close>.\<close>

definition required_check_key :: "required_check \<Rightarrow> string \<times> nat option" where
  "required_check_key r = (rc_context r, rc_app_id r)"

fun refine_contexts :: "string list \<Rightarrow> required_check list \<Rightarrow> required_check list" where
  "refine_contexts [] checks = checks"
| "refine_contexts (c # cs) checks =
     refine_contexts cs
       (if \<exists>r\<in>set checks. rc_context r = c then checks
        else checks @ [\<lparr>rc_context = c, rc_app_id = None\<rparr>])"

definition merged_checks :: "required_contexts_read \<Rightarrow> required_check list" where
  "merged_checks p =
     remdups_adj (sort_key required_check_key (refine_contexts (rq_contexts p) (rq_checks p)))"

definition policy_normalized :: "required_contexts_read \<Rightarrow> required_contexts_read" where
  "policy_normalized p =
     (let checks = merged_checks p;
          contexts = remdups_adj (sort (map rc_context checks));
          complete = (if length checks > max_reported_contexts
                         \<or> (\<exists>r\<in>set checks. rc_context r = [] \<or> rc_app_id r = Some 0)
                      then False else rq_complete p)
      in p\<lparr>rq_checks := take max_reported_contexts checks,
           rq_contexts := take max_reported_contexts contexts,
           rq_complete := complete\<rparr>)"

definition required_checks ::
    "required_contexts_read \<Rightarrow> check_snapshot list \<Rightarrow> commit_oid \<Rightarrow> check_snapshot list" where
  "required_checks p checks head =
     (let normalized = policy_normalized p
      in filter (\<lambda>c. \<exists>r\<in>set (rq_checks normalized). required_check_matches r c head)
           (fst (latest_checks_per_identity checks)))"

subsection \<open>Lemmas\<close>

lemma required_check_key_inj: "required_check_key r = required_check_key s \<longleftrightarrow> r = s"
  by (auto simp: required_check_key_def required_check.equality)

lemma set_refine_contexts:
  "set (refine_contexts cs checks) \<supseteq> set checks"
  "rc_context ` set (refine_contexts cs checks) = set cs \<union> rc_context ` set checks"
  by (induction cs checks rule: refine_contexts.induct) (auto split: if_splits)

lemma refine_contexts_fixed: "set cs \<subseteq> rc_context ` set checks \<Longrightarrow> refine_contexts cs checks = checks"
  by (induction cs arbitrary: checks) (auto simp: image_iff)

lemma sort_key_distinct_strict:
  "distinct xs \<Longrightarrow> sorted (map required_check_key xs) \<Longrightarrow> sorted_wrt (<) (map required_check_key xs)"
  by (induction xs) (auto simp: less_le required_check_key_inj)

lemma remdups_adj_sorted_distinct:
  "sorted (map required_check_key xs) \<Longrightarrow> distinct (remdups_adj xs)"
proof (induction xs rule: remdups_adj.induct)
  case (3 x y xs)
  have "sorted (map required_check_key (y # xs))" using "3.prems" by simp
  have "x \<noteq> y \<Longrightarrow> x \<notin> set (y # xs)"
    using "3.prems" by (force simp: required_check_key_inj antisym)
  with "3.IH" \<open>sorted (map required_check_key (y # xs))\<close> show ?case by auto
qed auto

lemma remdups_adj_id: "distinct xs \<Longrightarrow> remdups_adj xs = xs"
  by (induction xs rule: remdups_adj.induct) auto

lemma sorted_remdups_adj_key:
  "sorted (map required_check_key xs) \<Longrightarrow> sorted (map required_check_key (remdups_adj xs))"
proof (induction xs rule: remdups_adj.induct)
  case (3 x y xs)
  then show ?case by (cases "x = y") auto
qed auto

lemma merged_checks_sorted:
  "sorted (map required_check_key (merged_checks p))" "distinct (merged_checks p)"
  by (simp_all add: merged_checks_def sorted_remdups_adj_key remdups_adj_sorted_distinct)

lemma set_merged_checks: "set (merged_checks p) = set (refine_contexts (rq_contexts p) (rq_checks p))"
  by (simp add: merged_checks_def)

lemma merged_checks_again:
  assumes "rq_checks q = merged_checks p" and "set (rq_contexts q) \<subseteq> rc_context ` set (merged_checks p)"
  shows "merged_checks q = merged_checks p"
  using merged_checks_sorted [of p] assms
  by (simp add: merged_checks_def [of q] refine_contexts_fixed sort_key_id_if_sorted remdups_adj_id)

text \<open>
  C40. The normal form of a policy read is canonical as long as nothing is cut off: its required
  checks are strictly ordered and duplicate-free, cover exactly the declared contexts, keep every
  declared app binding, and normalising again changes nothing.
\<close>

theorem policy_normalized_canonical:
  assumes "length (merged_checks p) \<le> max_reported_contexts"
  shows "sorted_wrt (<) (map required_check_key (rq_checks (policy_normalized p)))
     \<and> rc_context ` set (rq_checks (policy_normalized p)) = set (rq_contexts p) \<union> rc_context ` set (rq_checks p)
     \<and> set (rq_checks p) \<subseteq> set (rq_checks (policy_normalized p))
     \<and> policy_normalized (policy_normalized p) = policy_normalized p"
proof -
  let ?q = "policy_normalized p"
  have eq: "rq_checks ?q = merged_checks p"
    using assms by (simp add: policy_normalized_def Let_def)
  have "set (rq_contexts ?q) \<subseteq> rc_context ` set (merged_checks p)"
    by (auto simp: policy_normalized_def Let_def dest: in_set_takeD)
  with eq have again: "merged_checks ?q = merged_checks p" by (rule merged_checks_again)
  have "policy_normalized ?q = ?q"
    unfolding policy_normalized_def [of ?q] again
    by (auto simp: policy_normalized_def Let_def)
  then show ?thesis
    using sort_key_distinct_strict merged_checks_sorted [of p] set_refine_contexts eq
    by (auto simp: set_merged_checks)
qed

definition sample_policy :: required_contexts_read where
  "sample_policy =
     \<lparr>rq_branch = ''main'', rq_protected = True, rq_contexts = [''test'', ''build''],
      rq_checks = [\<lparr>rc_context = ''test'', rc_app_id = Some 7\<rparr>], rq_complete = True\<rparr>"

theorem policy_normalized_canonical_witness:
  "length (merged_checks sample_policy) \<le> max_reported_contexts
   \<and> policy_normalized (policy_normalized sample_policy) = policy_normalized sample_policy"
proof -
  have "length (merged_checks sample_policy) \<le> max_reported_contexts"
    by (simp add: merged_checks_def sample_policy_def max_reported_contexts_def required_check_key_def)
  with policy_normalized_canonical show ?thesis by blast
qed

end
