(* ===== verification/Squash.thy ===== *)
theory Squash
  imports Domain
begin

text \<open>
  The squash-equivalence receipt of \<open>src/squash_equivalence.rs\<close>: the outcome of comparing a stacked
  prefix with the target, and the queries the rest of the program makes of a receipt.
\<close>

datatype squash_equivalence_outcome = NoEquivalence | Reconcilable | ResidualConflict | Indeterminate

definition authorizes_reconciliation :: "squash_equivalence_outcome \<Rightarrow> bool" where
  "authorizes_reconciliation out = (out = Reconcilable)"

datatype reconciliation_action = Dropped | Retained

record represented_path =
  rp_path :: string
  rp_mode :: string
  rp_blob :: string
  rp_deleted :: bool

record analyzed_commit =
  ac_oid :: commit_oid
  ac_tree_oid :: commit_oid
  ac_action :: reconciliation_action
  ac_paths :: "string list"

record merge_evidence =
  me_merge_base :: commit_oid
  me_outcome :: compatibility_outcome
  me_result_tree :: commit_oid
  me_conflicting_paths :: "string list"

record squash_equivalence_report =
  sq_schema_version :: nat
  sq_candidate :: branch_snapshot
  sq_target :: branch_snapshot
  sq_candidate_oid :: commit_oid
  sq_target_oid :: commit_oid
  sq_merge_base :: "commit_oid option"
  sq_outcome :: squash_equivalence_outcome
  sq_before :: "merge_evidence option"
  sq_after :: "merge_evidence option"
  sq_proven_boundary :: "commit_oid option"
  sq_boundary_tree :: "commit_oid option"
  sq_target_tree :: "commit_oid option"
  sq_commits :: "analyzed_commit list"
  sq_represented_paths :: "represented_path list"
  sq_represented_paths_truncated :: bool
  sq_candidate_commit_count :: nat
  sq_analyzed_prefix_complete :: bool
  sq_evaluated_boundaries :: nat
  sq_evaluation_bounded :: bool
  sq_reason :: string
  sq_policy :: string

definition authorized_range_base :: "squash_equivalence_report \<Rightarrow> commit_oid option" where
  "authorized_range_base r =
     (if authorizes_reconciliation (sq_outcome r) then sq_proven_boundary r else None)"

definition reconciliation_required :: "squash_equivalence_report \<Rightarrow> bool" where
  "reconciliation_required r =
     (case sq_before r of None \<Rightarrow> False | Some e \<Rightarrow> me_outcome e \<noteq> Clean)"

definition dropped_commits :: "squash_equivalence_report \<Rightarrow> commit_oid list" where
  "dropped_commits r = map ac_oid (filter (\<lambda>c. ac_action c = Dropped) (sq_commits r))"

definition retained_commits :: "squash_equivalence_report \<Rightarrow> commit_oid list" where
  "retained_commits r = map ac_oid (filter (\<lambda>c. ac_action c = Retained) (sq_commits r))"

definition affected_paths :: "squash_equivalence_report \<Rightarrow> string list" where
  "affected_paths r = map rp_path (sq_represented_paths r)"

end
