(* ===== verification/Graph.thy ===== *)
theory Graph
  imports Required_Policy Squash
begin

text \<open>
  Derivation of the caravan graph from one discovery snapshot: \<open>derive_for_actor\<close> of
  \<open>src/graph.rs\<close>, one definition per phase of the function, each loop a \<open>fold\<close> of its body over the
  \<open>BTreeMap\<close> it iterates. Problems are appended in the order the source pushes them. The source
  panics (\<open>expect\<close>) where it relies on two facts about its own maps; the phases that contain such
  an \<open>expect\<close> return \<open>None\<close> there, and the properties show that they never do.
\<close>

record graph_analysis =
  ga_fleet :: caravan_fleet
  ga_required_policy :: "required_contexts_read option"
  ga_pull_requests :: "(pr_number, pull_request_snapshot) btree_map"
  ga_compatibility :: "compatibility_report list"
  ga_cumulative_trees :: "cumulative_tree_proof list"
  ga_squash_reconciliations :: "squash_equivalence_report list"

subsection \<open>Fleet health\<close>

text \<open>The loop over \<open>problem.prs\<close>, with \<open>parked_caravan_observed\<close> as its state.\<close>

fun blocks_active_prs :: "caravan_fleet \<Rightarrow> bool \<Rightarrow> pr_number list \<Rightarrow> bool" where
  "blocks_active_prs f parked_seen [] = (\<not> parked_seen)"
| "blocks_active_prs f parked_seen (n # ns) =
     (case fleet_containing f n of
        None \<Rightarrow> blocks_active_prs f parked_seen ns
      | Some c \<Rightarrow> if \<not> cv_parked c then True else blocks_active_prs f True ns)"

definition problem_blocks_active_fleet :: "graph_analysis \<Rightarrow> graph_problem \<Rightarrow> bool" where
  "problem_blocks_active_fleet a p =
     (if \<not> blocks_fleet (gp_kind p) then False
      else blocks_active_prs (ga_fleet a) False (gp_prs p))"

definition healthy :: "graph_analysis \<Rightarrow> bool" where
  "healthy a = (\<not> (\<exists>p\<in>set (fl_problems (ga_fleet a)). problem_blocks_active_fleet a p))"

subsection \<open>Phase 1: index the snapshot by number\<close>

definition duplicate_problem :: "pull_request_snapshot \<Rightarrow> graph_problem" where
  "duplicate_problem p =
     mk_problem DuplicateMember [pr_num p]
       (''PR #'' @ show_nat (pr_num p) @ '' appeared more than once in one discovery snapshot'')"

definition index_pull_request ::
    "pull_request_snapshot
     \<Rightarrow> (pr_number, pull_request_snapshot) btree_map \<times> graph_problem list
     \<Rightarrow> (pr_number, pull_request_snapshot) btree_map \<times> graph_problem list" where
  "index_pull_request p s =
     (bt_insert (pr_num p) p (fst s),
      if bt_get (fst s) (pr_num p) \<noteq> None
      then snd s @ [duplicate_problem p]
      else snd s)"

definition index_pull_requests ::
    "pull_request_snapshot list \<Rightarrow> (pr_number, pull_request_snapshot) btree_map \<times> graph_problem list" where
  "index_pull_requests ps = fold index_pull_request ps ([], [])"

subsection \<open>Phase 2: active, merged and departed members\<close>

record membership =
  mb_active :: "(pr_number, pull_request_snapshot) btree_map"
  mb_merged_by_head :: "(string, pr_number) btree_map"
  mb_departed_by_head :: "(string, pr_number) btree_map"
  mb_problems :: "graph_problem list"

definition note_merged :: "pull_request_snapshot \<Rightarrow> membership \<Rightarrow> membership" where
  "note_merged p s =
     (if pr_state p = Merged \<and> has_label p ''caravan''
      then s\<lparr>mb_merged_by_head := bt_insert (br_name (pr_head p)) (pr_num p) (mb_merged_by_head s)\<rparr>
      else s)"

definition dissolved_problem :: "pull_request_snapshot \<Rightarrow> graph_problem" where
  "dissolved_problem p =
     mk_problem DissolvedMember [pr_num p]
       (''caravan member #'' @ show_nat (pr_num p)
        @ '' was closed without merging, so its caravan no longer exists; requeue the work through its successor or remove the `caravan` label to acknowledge the dissolution'')"

definition note_departed :: "pull_request_snapshot \<Rightarrow> membership \<Rightarrow> membership" where
  "note_departed p s =
     (if pr_state p = Closed \<and> has_label p ''caravan''
      then s\<lparr>mb_problems := mb_problems s @ [dissolved_problem p],
             mb_departed_by_head := bt_insert (br_name (pr_head p)) (pr_num p) (mb_departed_by_head s)\<rparr>
      else s)"

definition evicted_problem :: "pull_request_snapshot \<Rightarrow> graph_problem" where
  "evicted_problem p =
     mk_problem ActiveAndEvicted [pr_num p]
       (''PR #'' @ show_nat (pr_num p) @ '' has both caravan and caravan-evicted labels'')"

definition note_active :: "pull_request_snapshot \<Rightarrow> membership \<Rightarrow> membership" where
  "note_active p s =
     (if pr_state p = Open \<and> has_label p ''caravan'' \<and> has_label p ''caravan-evicted''
      then s\<lparr>mb_problems := mb_problems s @ [evicted_problem p]\<rparr>
      else if is_active_caravan_member p
      then s\<lparr>mb_active := bt_insert (pr_num p) p (mb_active s)\<rparr>
      else s)"

definition classify_member :: "pull_request_snapshot \<Rightarrow> membership \<Rightarrow> membership" where
  "classify_member p s = note_active p (note_departed p (note_merged p s))"

definition classify_members ::
    "(pr_number, pull_request_snapshot) btree_map \<Rightarrow> graph_problem list \<Rightarrow> membership" where
  "classify_members prs problems =
     fold classify_member (bt_values prs)
       \<lparr>mb_active = [], mb_merged_by_head = [], mb_departed_by_head = [], mb_problems = problems\<rparr>"

subsection \<open>Phase 3: head branches of the active members\<close>

definition fork_problem :: "pull_request_snapshot \<Rightarrow> graph_problem" where
  "fork_problem p =
     mk_problem ForkOnlyPredecessor [pr_num p]
       (''PR #'' @ show_nat (pr_num p)
        @ '' has a fork-only head branch which cannot be a GitHub PR base'')"

definition is_fork_head :: "repository_snapshot \<Rightarrow> pull_request_snapshot \<Rightarrow> bool" where
  "is_fork_head snap p =
     (pr_cross_repository p \<or> br_repository (pr_head p) \<noteq> snap_repository snap)"

definition note_head ::
    "repository_snapshot \<Rightarrow> pull_request_snapshot
     \<Rightarrow> (string, pr_number list) btree_map \<times> graph_problem list
     \<Rightarrow> (string, pr_number list) btree_map \<times> graph_problem list" where
  "note_head snap p s =
     (bt_push (br_name (pr_head p)) (pr_num p) (fst s),
      if is_fork_head snap p then snd s @ [fork_problem p]
      else snd s)"

definition duplicate_head_problems :: "(string, pr_number list) btree_map \<Rightarrow> graph_problem list" where
  "duplicate_head_problems heads =
     map (\<lambda>members. mk_problem DuplicateMember members ''multiple active PRs expose the same head branch'')
       (filter (\<lambda>members. length members > 1) (bt_values heads))"

definition heads_by_branch ::
    "repository_snapshot \<Rightarrow> (pr_number, pull_request_snapshot) btree_map \<Rightarrow> graph_problem list
     \<Rightarrow> (string, pr_number list) btree_map \<times> graph_problem list" where
  "heads_by_branch snap active problems =
     (let (heads, probs) = fold (note_head snap) (bt_values active) ([], problems);
          sorted_heads = bt_map_values sort heads
      in (sorted_heads, probs @ duplicate_head_problems sorted_heads))"

subsection \<open>Phase 4: parents, children and roots\<close>

record links =
  lk_roots :: "pr_number btree_set"
  lk_parent_of :: "(pr_number, pr_number) btree_map"
  lk_children :: "(pr_number, pr_number list) btree_map"
  lk_problems :: "graph_problem list"

definition opt_list :: "'a option \<Rightarrow> 'a list" where
  "opt_list x = (case x of None \<Rightarrow> [] | Some a \<Rightarrow> [a])"

definition add_root :: "pr_number \<Rightarrow> links \<Rightarrow> links" where
  "add_root n s = s\<lparr>lk_roots := bs_insert n (lk_roots s)\<rparr>"

definition add_root_problem :: "pr_number \<Rightarrow> graph_problem \<Rightarrow> links \<Rightarrow> links" where
  "add_root_problem n problem s =
     s\<lparr>lk_roots := bs_insert n (lk_roots s), lk_problems := lk_problems s @ [problem]\<rparr>"

definition add_link :: "pr_number \<Rightarrow> pr_number \<Rightarrow> links \<Rightarrow> links" where
  "add_link child parent s =
     s\<lparr>lk_parent_of := bt_insert child parent (lk_parent_of s),
       lk_children := bt_push parent child (lk_children s)\<rparr>"

definition reused_problem ::
    "pull_request_snapshot \<Rightarrow> pr_number \<Rightarrow> pr_number option \<Rightarrow> graph_problem" where
  "reused_problem p parent reused =
     mk_problem ReusedBranchProvenance ([pr_num p, parent] @ opt_list reused)
       (''PR #'' @ show_nat (pr_num p) @ '' records base `'' @ br_name (pr_base p) @ ''` at ''
        @ br_oid (pr_base p) @ '' but active PR #'' @ show_nat parent
        @ '' now holds that branch; a merged caravan member also used it, so the predecessor is ambiguous'')"

definition ambiguous_problem :: "pull_request_snapshot \<Rightarrow> pr_number list \<Rightarrow> graph_problem" where
  "ambiguous_problem p parents =
     mk_problem MultipleHeads (pr_num p # parents)
       (''PR #'' @ show_nat (pr_num p) @ '' targets ambiguous branch `'' @ br_name (pr_base p) @ ''`'')"

definition dangling_problem ::
    "repository_snapshot \<Rightarrow> membership \<Rightarrow> pull_request_snapshot \<Rightarrow> graph_problem" where
  "dangling_problem snap mb p =
     (let merged = bt_get (mb_merged_by_head mb) (br_name (pr_base p));
          departed = (if merged = None then bt_get (mb_departed_by_head mb) (br_name (pr_base p)) else None)
      in mk_problem DanglingBase ([pr_num p] @ opt_list merged @ opt_list departed)
           (case (merged, departed) of
              (Some m, _) \<Rightarrow>
                ''PR #'' @ show_nat (pr_num p) @ '' still targets merged predecessor #'' @ show_nat m
                @ ''; sync must advance it to `'' @ br_name (snap_default_branch snap) @ ''`''
            | (None, Some d) \<Rightarrow>
                ''PR #'' @ show_nat (pr_num p) @ '' is stranded on branch `'' @ br_name (pr_base p)
                @ ''` of caravan member #'' @ show_nat d
                @ '', which was closed without merging; the caravan lost that member and this PR must be rebased onto `''
                @ br_name (snap_default_branch snap) @ ''` or evicted''
            | (None, None) \<Rightarrow>
                ''PR #'' @ show_nat (pr_num p) @ '' targets non-member branch `'' @ br_name (pr_base p) @ ''`''))"

definition link_member ::
    "repository_snapshot \<Rightarrow> membership \<Rightarrow> (string, pr_number list) btree_map
     \<Rightarrow> pull_request_snapshot \<Rightarrow> links \<Rightarrow> links" where
  "link_member snap mb heads p s =
     (if br_name (pr_base p) = br_name (snap_default_branch snap) then add_root (pr_num p) s
      else case bt_get heads (br_name (pr_base p)) of
          Some [parent] \<Rightarrow>
            (let reused = bt_get (mb_merged_by_head mb) (br_name (pr_base p));
                 parent_head = map_option (\<lambda>q. br_oid (pr_head q)) (bt_get (mb_active mb) parent);
                 provenance_matches =
                   (case parent_head of None \<Rightarrow> True | Some oid \<Rightarrow> oid = br_oid (pr_base p))
             in if reused \<noteq> None \<and> \<not> provenance_matches
                then add_root_problem (pr_num p) (reused_problem p parent reused) s
                else add_link (pr_num p) parent s)
        | Some parents \<Rightarrow> add_root_problem (pr_num p) (ambiguous_problem p parents) s
        | None \<Rightarrow> add_root_problem (pr_num p) (dangling_problem snap mb p) s)"

definition link_members ::
    "repository_snapshot \<Rightarrow> membership \<Rightarrow> (string, pr_number list) btree_map
     \<Rightarrow> graph_problem list \<Rightarrow> links" where
  "link_members snap mb heads problems =
     fold (link_member snap mb heads) (bt_values (mb_active mb))
       \<lparr>lk_roots = [], lk_parent_of = [], lk_children = [], lk_problems = problems\<rparr>"

subsection \<open>Phase 5: branching\<close>

text \<open>
  The parent of a child list is found again by scanning \<open>parent_of\<close> in key order for the first of
  the children; \<open>expect("a child list always has a parent")\<close> is the \<open>None\<close> result.
\<close>

definition branching_parent ::
    "(pr_number, pr_number) btree_map \<Rightarrow> pr_number list \<Rightarrow> pr_number option" where
  "branching_parent parent_of child_list =
     map_option snd (find (\<lambda>e. fst e \<in> set child_list) parent_of)"

definition branching_problem :: "pr_number \<Rightarrow> pr_number list \<Rightarrow> graph_problem" where
  "branching_problem parent child_list =
     mk_problem Branching (parent # child_list)
       (''PR #'' @ show_nat parent @ '' has multiple active caravan children'')"

fun branching_problems ::
    "(pr_number, pr_number) btree_map \<Rightarrow> pr_number list list \<Rightarrow> graph_problem list option" where
  "branching_problems parent_of [] = Some []"
| "branching_problems parent_of (child_list # rest) =
     (case branching_problems parent_of rest of
        None \<Rightarrow> None
      | Some later \<Rightarrow>
          if length child_list > 1
          then (case branching_parent parent_of child_list of
                  None \<Rightarrow> None
                | Some parent \<Rightarrow> Some (branching_problem parent child_list # later))
          else Some later)"

subsection \<open>Phase 6: cycles of the parent map\<close>

text \<open>
  One walk from a start node. \<open>positions\<close> of the source maps a node of \<open>path\<close> to its index, which
  is \<open>position_of\<close>; the walk ends at a node already on the path (a cycle) or at a node without a
  parent.
\<close>

function cycle_from :: "(pr_number, pr_number) btree_map \<Rightarrow> pr_number list \<Rightarrow> pr_number
    \<Rightarrow> pr_number list option" where
  "cycle_from parent_of path current =
     (case position_of current path of
        Some position \<Rightarrow> Some (sort (drop position path))
      | None \<Rightarrow>
          (case bt_get parent_of current of
             None \<Rightarrow> None
           | Some parent \<Rightarrow> cycle_from parent_of (path @ [current]) parent))"
  by pat_completeness auto
termination
proof (relation "measure (\<lambda>(parent_of, path, current). card (set (bt_keys parent_of) - set path))")
  fix parent_of :: "(pr_number, pr_number) btree_map" and path current parent
  assume "position_of current path = None" and "bt_get parent_of current = Some parent"
  then have "current \<notin> set path" and "current \<in> set (bt_keys parent_of)"
    by (auto simp: position_of_None bt_keys_get)
  then have "set (bt_keys parent_of) - set (path @ [current]) \<subset> set (bt_keys parent_of) - set path"
    by auto
  then show "((parent_of, path @ [current], parent), parent_of, path, current)
      \<in> measure (\<lambda>(parent_of, path, current). card (set (bt_keys parent_of) - set path))"
    by (simp add: psubset_card_mono)
qed simp

declare cycle_from.simps [simp del]

definition record_cycle ::
    "(pr_number, pr_number) btree_map \<Rightarrow> pr_number
     \<Rightarrow> pr_number list btree_set \<times> graph_problem list
     \<Rightarrow> pr_number list btree_set \<times> graph_problem list" where
  "record_cycle parent_of start s =
     (case cycle_from parent_of [] start of
        None \<Rightarrow> s
      | Some cycle \<Rightarrow>
          if bs_contains (fst s) cycle then s
          else (bs_insert cycle (fst s),
                snd s @ [mk_problem Cycle cycle ''active caravan base graph contains a cycle'']))"

definition detect_cycles ::
    "(pr_number, pull_request_snapshot) btree_map \<Rightarrow> (pr_number, pr_number) btree_map
     \<Rightarrow> graph_problem list" where
  "detect_cycles active parent_of = snd (fold (record_cycle parent_of) (bt_keys active) ([], []))"

subsection \<open>Phase 7: walk the chains\<close>

function walk_linear ::
    "(pr_number, pr_number list) btree_map \<Rightarrow> pr_number \<Rightarrow> pr_number btree_set
     \<Rightarrow> pr_number list \<times> pr_number btree_set" where
  "walk_linear children current visited =
     (if bs_contains visited current then ([], visited)
      else let visited' = bs_insert current visited
           in case bt_get children current of
                Some [child] \<Rightarrow>
                  (let (members, visited'') = walk_linear children child visited'
                   in (current # members, visited''))
              | _ \<Rightarrow> ([current], visited'))"
  by pat_completeness auto
termination
proof (relation "measure (\<lambda>(children, current, visited).
    card ((insert current (\<Union> (set ` set (bt_values children)))) - set visited))")
  fix children :: "(pr_number, pr_number list) btree_map" and current visited visited' x2 child tl
  assume "\<not> bs_contains visited current" and "visited' = bs_insert current visited"
    and "bt_get children current = Some x2" and "x2 = child # tl" and "tl = []"
  then have "child \<in> \<Union> (set ` set (bt_values children))" and "current \<notin> set visited"
    and v: "set visited' = insert current (set visited)"
    by (force simp: bt_get_def bt_values_def dest: map_of_SomeD)+
  then have "insert child (\<Union> (set ` set (bt_values children))) - set visited'
      \<subset> insert current (\<Union> (set ` set (bt_values children))) - set visited"
    by auto
  then show "((children, child, visited'), children, current, visited)
      \<in> measure (\<lambda>(children, current, visited).
          card ((insert current (\<Union> (set ` set (bt_values children)))) - set visited))"
    by (simp add: psubset_card_mono)
qed simp

declare walk_linear.simps [simp del]

definition push_caravan :: "pr_number list \<Rightarrow> caravan list \<Rightarrow> caravan list" where
  "push_caravan members cs = cs @ opt_list (caravan_new members)"

definition walk_root ::
    "(pr_number, pr_number list) btree_map \<Rightarrow> pr_number
     \<Rightarrow> caravan list \<times> pr_number btree_set \<Rightarrow> caravan list \<times> pr_number btree_set" where
  "walk_root children root s =
     (if bs_contains (snd s) root then s
      else let (members, visited) = walk_linear children root (snd s)
           in (push_caravan members (fst s), visited))"

definition walk_rest ::
    "(pr_number, pr_number list) btree_map \<Rightarrow> pr_number
     \<Rightarrow> (caravan list \<times> pr_number btree_set) \<times> graph_problem list
     \<Rightarrow> (caravan list \<times> pr_number btree_set) \<times> graph_problem list" where
  "walk_rest children number s =
     (if bs_contains (snd (fst s)) number then s
      else let (members, visited) = walk_linear children number (snd (fst s))
           in ((push_caravan members (fst (fst s)), visited),
               snd s @ [mk_problem MissingHead members
                          ''active component has no unique default-branch head'']))"

definition walk_chains ::
    "(pr_number, pull_request_snapshot) btree_map \<Rightarrow> links \<Rightarrow> caravan list \<times> graph_problem list" where
  "walk_chains active lk =
     (let after_roots = fold (walk_root (lk_children lk)) (lk_roots lk) ([], []);
          (found, problems) = fold (walk_rest (lk_children lk)) (bt_keys active) (after_roots, [])
      in (fst found, problems))"

definition set_parked ::
    "(pr_number, pull_request_snapshot) btree_map \<Rightarrow> caravan \<Rightarrow> caravan" where
  "set_parked active c =
     c\<lparr>cv_parked := (case bt_get active (cv_id c) of None \<Rightarrow> False
                     | Some head \<Rightarrow> has_label head ''caravan-parked'')\<rparr>"

subsection \<open>Phase 8: the auto-merge invariant\<close>

definition root_must_be_armed :: "head_merge_actor \<Rightarrow> caravan \<Rightarrow> nat \<Rightarrow> bool" where
  "root_must_be_armed actor c position = (actor_github actor \<and> position = 0 \<and> \<not> cv_parked c)"

definition auto_merge_valid ::
    "head_merge_actor \<Rightarrow> caravan \<Rightarrow> nat \<Rightarrow> pull_request_snapshot \<Rightarrow> bool" where
  "auto_merge_valid actor c position p =
     (let native_squash_armed =
            am_enabled (pr_auto_merge p) \<and> am_merge_method (pr_auto_merge p) = Some Squash
      in if root_must_be_armed actor c position then native_squash_armed
         else \<not> am_enabled (pr_auto_merge p))"

definition auto_merge_problem :: "head_merge_actor \<Rightarrow> caravan \<Rightarrow> nat \<Rightarrow> pr_number \<Rightarrow> graph_problem" where
  "auto_merge_problem actor c position number =
     mk_problem AutoMergeInvariant [number]
       (if root_must_be_armed actor c position
        then ''caravan head #'' @ show_nat number @ '' must have squash auto-merge enabled''
        else if position = 0
        then ''caravan head #'' @ show_nat number
             @ '' must not delegate merging to native auto-merge; cara is the single merge actor''
        else ''non-head caravan PR #'' @ show_nat number @ '' must have auto-merge disabled'')"

text \<open>\<open>expect("derived caravan members are active")\<close> is the \<open>None\<close> result.\<close>

fun member_auto_merge_problems ::
    "head_merge_actor \<Rightarrow> (pr_number, pull_request_snapshot) btree_map \<Rightarrow> caravan \<Rightarrow> nat
     \<Rightarrow> pr_number list \<Rightarrow> graph_problem list option" where
  "member_auto_merge_problems actor active c position [] = Some []"
| "member_auto_merge_problems actor active c position (n # ns) =
     (case bt_get active n of
        None \<Rightarrow> None
      | Some p \<Rightarrow>
          (case member_auto_merge_problems actor active c (Suc position) ns of
             None \<Rightarrow> None
           | Some later \<Rightarrow>
               Some (if auto_merge_valid actor c position p then later
                     else auto_merge_problem actor c position n # later)))"

fun auto_merge_problems ::
    "head_merge_actor \<Rightarrow> (pr_number, pull_request_snapshot) btree_map \<Rightarrow> caravan list
     \<Rightarrow> graph_problem list option" where
  "auto_merge_problems actor active [] = Some []"
| "auto_merge_problems actor active (c # cs) =
     (case member_auto_merge_problems actor active c 0 (cv_members c) of
        None \<Rightarrow> None
      | Some here \<Rightarrow> map_option (\<lambda>later. here @ later) (auto_merge_problems actor active cs))"

subsection \<open>Phase 9: unqueued pull requests and history\<close>

definition is_unqueued :: "pull_request_snapshot \<Rightarrow> bool" where
  "is_unqueued p =
     (pr_state p = Open \<and> \<not> pr_draft p \<and> \<not> has_label p ''caravan'' \<and> \<not> has_label p ''caravan-evicted'')"

definition unqueued_prs :: "(pr_number, pull_request_snapshot) btree_map \<Rightarrow> pr_number list" where
  "unqueued_prs prs = map pr_num (filter is_unqueued (bt_values prs))"

definition derive_history :: "pull_request_snapshot list \<Rightarrow> caravan_history" where
  "derive_history ps =
     (let merged_members = filter (\<lambda>p. pr_state p = Merged \<and> has_label p ''caravan'') ps;
          stamps = sort (List.map_filter pr_merged_at merged_members)
      in \<lparr>merged_members_observed = length merged_members,
          earliest_merged_at = (if stamps = [] then None else Some (hd stamps)),
          latest_merged_at = (if stamps = [] then None else Some (last stamps)),
          unlabelled_merged_rows =
            length (filter (\<lambda>p. pr_state p = Merged \<and> \<not> has_label p ''caravan'') ps)\<rparr>)"

subsection \<open>The whole derivation\<close>

definition derive_for_actor :: "repository_snapshot \<Rightarrow> head_merge_actor \<Rightarrow> graph_analysis option" where
  "derive_for_actor snap actor =
     (let (prs, dup_problems) = index_pull_requests (snap_pull_requests snap);
          mb = classify_members prs dup_problems;
          (heads, head_problems) = heads_by_branch snap (mb_active mb) (mb_problems mb);
          lk = link_members snap mb heads head_problems;
          lk' = lk\<lparr>lk_children := bt_map_values sort (lk_children lk)\<rparr>
      in case branching_problems (lk_parent_of lk') (bt_values (lk_children lk')) of
           None \<Rightarrow> None
         | Some branch_problems \<Rightarrow>
             (let cycle_problems = detect_cycles (mb_active mb) (lk_parent_of lk');
                  (found, missing_problems) = walk_chains (mb_active mb) lk';
                  caravans = map (set_parked (mb_active mb)) (sort_key cv_id found)
              in case auto_merge_problems actor (mb_active mb) caravans of
                   None \<Rightarrow> None
                 | Some arm_problems \<Rightarrow>
                     Some \<lparr>ga_fleet =
                             \<lparr>fl_repository = snap_repository snap,
                              fl_default_branch = snap_default_branch snap,
                              fl_caravans = caravans,
                              fl_unqueued = unqueued_prs prs,
                              fl_problems = lk_problems lk @ branch_problems @ cycle_problems
                                            @ missing_problems @ arm_problems,
                              fl_history = derive_history (snap_pull_requests snap)\<rparr>,
                           ga_required_policy = None,
                           ga_pull_requests = prs,
                           ga_compatibility = [],
                           ga_cumulative_trees = [],
                           ga_squash_reconciliations = []\<rparr>))"

definition derive :: "repository_snapshot \<Rightarrow> graph_analysis option" where
  "derive snap = derive_for_actor snap ActorGithub"

end
