(* ===== verification/Text.thy ===== *)
theory Text
  imports Prelude
begin

text \<open>
  The text functions of the Rust standard library that the parsers call, on UTF-8 byte strings:
  \<open>str::lines\<close>, \<open>trim\<close> (with the multi-byte white space characters of Unicode written out),
  \<open>strip_prefix\<close>, \<open>strip_suffix\<close>, \<open>split\<close> at a class of ASCII characters, \<open>contains\<close> and
  \<open>trim_matches\<close>.
\<close>

subsection \<open>White space\<close>

text \<open>
  The number of bytes of the white space character a string starts with: \<open>U+0009..U+000D\<close> and
  \<open>U+0020\<close>; \<open>U+0085\<close>, \<open>U+00A0\<close>; \<open>U+1680\<close>, \<open>U+2000..U+200A\<close>, \<open>U+2028\<close>, \<open>U+2029\<close>, \<open>U+202F\<close>,
  \<open>U+205F\<close> and \<open>U+3000\<close>, in UTF-8.
\<close>

definition ascii_space :: "nat \<Rightarrow> bool" where
  "ascii_space b = (b = 32 \<or> 9 \<le> b \<and> b \<le> 13)"

definition wide_space2 :: "nat \<Rightarrow> nat \<Rightarrow> bool" where
  "wide_space2 a b = (a = 0xC2 \<and> (b = 0x85 \<or> b = 0xA0))"

definition wide_space3 :: "nat \<Rightarrow> nat \<Rightarrow> nat \<Rightarrow> bool" where
  "wide_space3 a b c =
     (a = 0xE1 \<and> b = 0x9A \<and> c = 0x80
      \<or> a = 0xE2 \<and> b = 0x80 \<and> (0x80 \<le> c \<and> c \<le> 0x8A \<or> c = 0xA8 \<or> c = 0xA9 \<or> c = 0xAF)
      \<or> a = 0xE2 \<and> b = 0x81 \<and> c = 0x9F
      \<or> a = 0xE3 \<and> b = 0x80 \<and> c = 0x80)"

fun trim_start_bytes :: "nat list \<Rightarrow> nat list" where
  "trim_start_bytes (a # b # c # s) =
     (if ascii_space a then trim_start_bytes (b # c # s)
      else if wide_space2 a b then trim_start_bytes (c # s)
      else if wide_space3 a b c then trim_start_bytes s
      else a # b # c # s)"
| "trim_start_bytes [a, b] =
     (if ascii_space a then trim_start_bytes [b] else if wide_space2 a b then [] else [a, b])"
| "trim_start_bytes [a] = (if ascii_space a then [] else [a])"
| "trim_start_bytes [] = []"

text \<open>The same from the end, on the reversed bytes.\<close>

fun trim_end_bytes :: "nat list \<Rightarrow> nat list" where
  "trim_end_bytes (c # b # a # s) =
     (if ascii_space c then trim_end_bytes (b # a # s)
      else if wide_space2 b c then trim_end_bytes (a # s)
      else if wide_space3 a b c then trim_end_bytes s
      else c # b # a # s)"
| "trim_end_bytes [b, a] =
     (if ascii_space b then trim_end_bytes [a] else if wide_space2 a b then [] else [b, a])"
| "trim_end_bytes [a] = (if ascii_space a then [] else [a])"
| "trim_end_bytes [] = []"

definition bytes_of :: "string \<Rightarrow> nat list" where
  "bytes_of s = map of_char s"

definition of_bytes :: "nat list \<Rightarrow> string" where
  "of_bytes bs = map char_of bs"

definition trim_start :: "string \<Rightarrow> string" where
  "trim_start s = of_bytes (trim_start_bytes (bytes_of s))"

definition trim_end :: "string \<Rightarrow> string" where
  "trim_end s = of_bytes (rev (trim_end_bytes (rev (bytes_of s))))"

definition trim :: "string \<Rightarrow> string" where
  "trim s = trim_end (trim_start s)"

subsection \<open>Splitting\<close>

text \<open>\<open>split(p)\<close> for a class of single-byte characters: always at least one piece.\<close>

fun split_chars :: "(char \<Rightarrow> bool) \<Rightarrow> string \<Rightarrow> string list" where
  "split_chars p [] = [[]]"
| "split_chars p (c # cs) =
     (if p c then [] # split_chars p cs
      else case split_chars p cs of [] \<Rightarrow> [[c]] | w # ws \<Rightarrow> (c # w) # ws)"

text \<open>\<open>split_whitespace\<close>: the maximal runs of characters that are not Unicode white space.\<close>

definition flush_word :: "nat list \<Rightarrow> nat list list \<Rightarrow> nat list list" where
  "flush_word word ws = (if word = [] then ws else rev word # ws)"

fun split_whitespace_bytes :: "nat list \<Rightarrow> nat list \<Rightarrow> nat list list" where
  "split_whitespace_bytes word (a # b # c # s) =
     (if ascii_space a then flush_word word (split_whitespace_bytes [] (b # c # s))
      else if wide_space2 a b then flush_word word (split_whitespace_bytes [] (c # s))
      else if wide_space3 a b c then flush_word word (split_whitespace_bytes [] s)
      else split_whitespace_bytes (a # word) (b # c # s))"
| "split_whitespace_bytes word [a, b] =
     (if ascii_space a then flush_word word (split_whitespace_bytes [] [b])
      else if wide_space2 a b then flush_word word []
      else split_whitespace_bytes (a # word) [b])"
| "split_whitespace_bytes word [a] =
     (if ascii_space a then flush_word word [] else flush_word (a # word) [])"
| "split_whitespace_bytes word [] = flush_word word []"

definition split_whitespace :: "string \<Rightarrow> string list" where
  "split_whitespace s = map of_bytes (split_whitespace_bytes [] (bytes_of s))"

definition newline :: char where
  "newline = CHR 0x0A"

definition strip_cr :: "string \<Rightarrow> string" where
  "strip_cr l = (if l \<noteq> [] \<and> last l = CHR 0x0D then butlast l else l)"

text \<open>
  \<open>str::lines\<close>: split after each newline, drop the newline and a carriage return before it; a last
  piece without newline keeps its carriage return, and a trailing newline ends the last line.
\<close>

definition lines_of :: "string \<Rightarrow> string list" where
  "lines_of s =
     (let pieces = split_chars (\<lambda>c. c = newline) s
      in map strip_cr (butlast pieces) @ (if last pieces = [] then [] else [last pieces]))"

definition strip_prefix :: "string \<Rightarrow> string \<Rightarrow> string option" where
  "strip_prefix p s = (if starts_with s p then Some (drop (length p) s) else None)"

definition ends_with :: "string \<Rightarrow> string \<Rightarrow> bool" where
  "ends_with s p = (length p \<le> length s \<and> drop (length s - length p) s = p)"

definition strip_suffix :: "string \<Rightarrow> string \<Rightarrow> string option" where
  "strip_suffix p s = (if ends_with s p then Some (take (length s - length p) s) else None)"

definition str_contains :: "string \<Rightarrow> string \<Rightarrow> bool" where
  "str_contains s p = (split_once p s \<noteq> None)"

text \<open>\<open>rsplit_once\<close>: the first occurrence from the right.\<close>

definition rsplit_once :: "string \<Rightarrow> string \<Rightarrow> (string \<times> string) option" where
  "rsplit_once p s = map_option (\<lambda>(a, b). (rev b, rev a)) (split_once (rev p) (rev s))"

definition trim_matches :: "char \<Rightarrow> string \<Rightarrow> string" where
  "trim_matches c s = rev (dropWhile (\<lambda>x. x = c) (rev (dropWhile (\<lambda>x. x = c) s)))"

fun find_map :: "('a \<Rightarrow> 'b option) \<Rightarrow> 'a list \<Rightarrow> 'b option" where
  "find_map f [] = None"
| "find_map f (x # xs) = (case f x of Some y \<Rightarrow> Some y | None \<Rightarrow> find_map f xs)"

subsection \<open>Lemmas\<close>

lemma split_chars_nonempty [simp]: "split_chars p s \<noteq> []"
  by (induction s) (auto split: list.split)

lemma split_chars_append:
  "p c \<Longrightarrow> \<forall>x\<in>set w. \<not> p x \<Longrightarrow> split_chars p (w @ c # s) = w # split_chars p s"
  by (induction w) auto

lemma split_chars_single: "\<forall>x\<in>set w. \<not> p x \<Longrightarrow> split_chars p w = [w]"
  by (induction w) auto

lemma bytes_roundtrip [simp]: "of_bytes (bytes_of s) = s"
  by (simp add: bytes_of_def of_bytes_def comp_def)

lemma find_map_Some: "find_map f xs = Some y \<Longrightarrow> \<exists>x\<in>set xs. f x = Some y"
  by (induction xs) (auto split: option.splits)

lemma strip_prefix_Some: "strip_prefix p s = Some r \<longleftrightarrow> s = p @ r"
proof -
  have "starts_with s p \<longleftrightarrow> s = p @ drop (length p) s"
    by (metis append_eq_conv_conj append_take_drop_id starts_with_def)
  then show ?thesis by (auto simp: strip_prefix_def starts_with_def)
qed

subsection \<open>Words of visible ASCII characters\<close>

definition ascii_word :: "char \<Rightarrow> bool" where
  "ascii_word c = (let n = (of_char c :: nat) in 33 \<le> n \<and> n < 128)"

lemma trim_start_id: "ascii_word c \<Longrightarrow> trim_start (c # s) = c # s"
proof -
  assume "ascii_word c"
  then have "\<not> ascii_space (of_char c)" "\<not> wide_space2 (of_char c) b" "\<not> wide_space3 (of_char c) b d" for b d
    by (auto simp: ascii_word_def ascii_space_def wide_space2_def wide_space3_def Let_def)
  then have "trim_start_bytes (of_char c # bs) = of_char c # bs" for bs
    by (cases bs rule: trim_start_bytes.cases) simp_all
  then show ?thesis by (simp add: trim_start_def bytes_of_def of_bytes_def comp_def)
qed

lemma trim_end_id: "ascii_word c \<Longrightarrow> trim_end (s @ [c]) = s @ [c]"
proof -
  assume "ascii_word c"
  then have "\<not> ascii_space (of_char c)" "\<not> wide_space2 b (of_char c)" "\<not> wide_space3 b d (of_char c)" for b d
    by (auto simp: ascii_word_def ascii_space_def wide_space2_def wide_space3_def Let_def)
  then have "trim_end_bytes (of_char c # bs) = of_char c # bs" for bs
    by (cases bs rule: trim_end_bytes.cases) simp_all
  then show ?thesis by (simp add: trim_end_def bytes_of_def of_bytes_def comp_def rev_map)
qed

lemma trim_id: "s \<noteq> [] \<Longrightarrow> ascii_word (hd s) \<Longrightarrow> ascii_word (last s) \<Longrightarrow> trim s = s"
  using trim_start_id [of "hd s" "tl s"] trim_end_id [of "last s" "butlast s"] by (simp add: trim_def)

lemma trim_Nil: "trim [] = []"
  by (simp add: trim_def trim_start_def trim_end_def bytes_of_def of_bytes_def)

lemma ascii_word_bytes:
  assumes "ascii_word c"
  shows "\<not> ascii_space (of_char c)" "\<not> wide_space2 (of_char c) b" "\<not> wide_space3 (of_char c) b d"
  using assms by (auto simp: ascii_word_def ascii_space_def wide_space2_def wide_space3_def Let_def)

lemma trim_word_newline:
  assumes "w \<noteq> []" "\<forall>c\<in>set w. ascii_word c"
  shows "trim (w @ [newline]) = w"
proof -
  have "trim_start (w @ [newline]) = w @ [newline]"
    using assms trim_start_id [of "hd w" "tl w @ [newline]"] by (cases w) auto
  moreover have "trim_end_bytes (10 # bs) = trim_end_bytes bs" for bs
    by (cases bs rule: trim_end_bytes.cases) (simp_all add: ascii_space_def)
  then have "trim_end (w @ [newline]) = trim_end w"
    by (simp add: trim_end_def bytes_of_def newline_def)
  moreover have "trim_end w = w" using assms trim_end_id [of "last w" "butlast w"] by simp
  ultimately show ?thesis by (simp add: trim_def)
qed

lemma split_whitespace_bytes_step:
  "ascii_word c \<Longrightarrow> split_whitespace_bytes word (of_char c # bs) = split_whitespace_bytes (of_char c # word) bs"
  "split_whitespace_bytes word (32 # bs) = flush_word word (split_whitespace_bytes [] bs)"
proof -
  assume "ascii_word c"
  then show "split_whitespace_bytes word (of_char c # bs) = split_whitespace_bytes (of_char c # word) bs"
    using ascii_word_bytes [of c] by (cases bs rule: trim_start_bytes.cases) simp_all
next
  show "split_whitespace_bytes word (32 # bs) = flush_word word (split_whitespace_bytes [] bs)"
    by (cases bs rule: trim_start_bytes.cases) (simp_all add: ascii_space_def flush_word_def)
qed

lemma split_whitespace_bytes_word:
  "\<forall>c\<in>set w. ascii_word c \<Longrightarrow>
     split_whitespace_bytes word (bytes_of w @ bs) = split_whitespace_bytes (rev (bytes_of w) @ word) bs"
  by (induction w arbitrary: word) (simp_all add: bytes_of_def split_whitespace_bytes_step)

lemma split_whitespace_word:
  assumes "w \<noteq> []" "\<forall>c\<in>set w. ascii_word c"
  shows "split_whitespace (w @ CHR '' '' # s) = w # split_whitespace s" and "split_whitespace w = [w]"
proof -
  have "split_whitespace_bytes [] (bytes_of w @ 32 # bytes_of s) = bytes_of w # split_whitespace_bytes [] (bytes_of s)"
    using assms by (simp only: split_whitespace_bytes_word split_whitespace_bytes_step)
      (simp add: flush_word_def bytes_of_def)
  then show "split_whitespace (w @ CHR '' '' # s) = w # split_whitespace s"
    by (simp add: split_whitespace_def) (simp add: bytes_of_def of_bytes_def comp_def)
  have "split_whitespace_bytes [] (bytes_of w @ []) = [bytes_of w]"
    using assms by (simp only: split_whitespace_bytes_word) (simp add: flush_word_def bytes_of_def)
  then show "split_whitespace w = [w]" by (simp add: split_whitespace_def)
qed

lemma lines_of_Nil [simp]: "lines_of [] = []"
  by (simp add: lines_of_def)

lemma lines_of_word:
  assumes "\<forall>c\<in>set w. ascii_word c \<or> c = CHR '' ''"
  shows "lines_of (w @ newline # s) = w # lines_of s"
proof -
  have "newline \<notin> set w" "CHR 0x0D \<notin> set w" using assms by (auto simp: newline_def ascii_word_def)
  then have "split_chars (\<lambda>c. c = newline) (w @ newline # s) = w # split_chars (\<lambda>c. c = newline) s"
    and "strip_cr w = w"
    using split_chars_append [of "\<lambda>c. c = newline" newline w s]
    by (auto simp: strip_cr_def) (metis last_in_set)
  then show "lines_of (w @ newline # s) = w # lines_of s" by (simp add: lines_of_def Let_def)
qed

end
