(* ===== verification/Fnv.thy ===== *)
theory Fnv
  imports Prelude "HOL-Library.Word"
begin

text \<open>
  The evidence hash of \<open>src/membership.rs\<close>: FNV-1a on 64-bit words with wrapping multiplication,
  printed as sixteen hexadecimal digits. Receipts and fingerprints are sealed with it; the property
  shows that it detects every change of a single byte.
\<close>

unbundle bit_operations_syntax

definition fnv_offset :: "64 word" where
  "fnv_offset = 0xcbf29ce484222325"

definition fnv_prime :: "64 word" where
  "fnv_prime = 0x100000001b3"

definition fnv_step :: "char \<Rightarrow> 64 word \<Rightarrow> 64 word" where
  "fnv_step b h = (h XOR of_nat (of_char b)) * fnv_prime"

definition hex_digit :: "nat \<Rightarrow> char" where
  "hex_digit d = (if d < 10 then char_of (48 + d) else char_of (87 + d))"

text \<open>\<open>{hash:016x}\<close>: the \<open>k\<close> low hexadecimal digits, most significant first.\<close>

fun hex_digits :: "nat \<Rightarrow> nat \<Rightarrow> string" where
  "hex_digits 0 n = []"
| "hex_digits (Suc k) n = hex_digits k (n div 16) @ [hex_digit (n mod 16)]"

definition fnv1a64 :: "string \<Rightarrow> string" where
  "fnv1a64 bytes = ''fnv1a64:'' @ hex_digits 16 (unat (fold fnv_step bytes fnv_offset))"

subsection \<open>Hexadecimal digits are injective\<close>

lemma hex_digit_inject: "a < 16 \<Longrightarrow> b < 16 \<Longrightarrow> hex_digit a = hex_digit b \<Longrightarrow> a = b"
proof -
  assume ab: "a < 16" "b < 16" and eq: "hex_digit a = hex_digit b"
  have val: "of_char (hex_digit d) = (if d < 10 then 48 + d else 87 + d)" if "d < 16" for d :: nat
    using that by (simp add: hex_digit_def)
  have "(of_char (hex_digit a) :: nat) = of_char (hex_digit b)" using eq by simp
  with val ab show "a = b" by (auto split: if_splits)
qed

lemma length_hex_digits [simp]: "length (hex_digits k n) = k"
  by (induction k n rule: hex_digits.induct) simp_all

lemma hex_digits_inject: "m < 16 ^ k \<Longrightarrow> n < 16 ^ k \<Longrightarrow> hex_digits k m = hex_digits k n \<Longrightarrow> m = n"
proof (induction k arbitrary: m n)
  case (Suc k)
  from Suc.prems(3) have "hex_digits k (m div 16) = hex_digits k (n div 16)" "m mod 16 = n mod 16"
    by (auto intro: hex_digit_inject)
  moreover have "m div 16 < 16 ^ k" "n div 16 < 16 ^ k" using Suc.prems(1,2) by (simp_all add: less_mult_imp_div_less mult.commute)
  ultimately have "m div 16 = n div 16" using Suc.IH by blast
  with \<open>m mod 16 = n mod 16\<close> show ?case by (metis div_mult_mod_eq)
qed simp

subsection \<open>Every step of the hash is a bijection of the state\<close>

text \<open>The multiplier is odd, so it has an inverse modulo \<open>2 ^ 64\<close>.\<close>

definition fnv_prime_inverse :: "64 word" where
  "fnv_prime_inverse = 0xce965057aff6957b"

lemma fnv_prime_unit: "fnv_prime * fnv_prime_inverse = 1"
  by (simp add: fnv_prime_def fnv_prime_inverse_def)

lemma fnv_mult_inject: "a * fnv_prime = b * fnv_prime \<longleftrightarrow> a = b"
proof
  assume "a * fnv_prime = b * fnv_prime"
  then have "a * (fnv_prime * fnv_prime_inverse) = b * (fnv_prime * fnv_prime_inverse)"
    by (simp add: mult.assoc [symmetric])
  then show "a = b" by (simp add: fnv_prime_unit)
qed simp

lemma xor_cancel_right: "(a XOR c = b XOR c) = (a = (b :: 64 word))"
proof
  assume "a XOR c = b XOR c"
  then have "(a XOR c) XOR c = (b XOR c) XOR c" by simp
  then show "a = b" by (simp add: ac_simps)
qed simp

lemma xor_cancel_left: "(c XOR a = c XOR b) = (a = (b :: 64 word))"
  by (simp add: xor.commute [of c] xor_cancel_right)

lemma fnv_step_state: "fnv_step b h = fnv_step b h' \<longleftrightarrow> h = h'"
  by (simp add: fnv_step_def fnv_mult_inject xor_cancel_right)

lemma byte_word_inject: "(of_nat (of_char a) :: 64 word) = of_nat (of_char b) \<longleftrightarrow> a = b"
proof
  assume eq: "(of_nat (of_char a) :: 64 word) = of_nat (of_char b)"
  have small: "(of_char c :: nat) < 256" for c by (rule nat_of_char_less_256)
  have "unat (of_nat (of_char c) :: 64 word) = of_char c" for c
    using less_trans [OF small, of "2 ^ 64" c] by (simp add: unat_of_nat)
  then have "(of_char a :: nat) = of_char b" using eq by metis
  then show "a = b" by simp
qed simp

lemma fnv_step_byte: "fnv_step a h = fnv_step b h \<longleftrightarrow> a = b"
  by (simp add: fnv_step_def fnv_mult_inject xor_cancel_left byte_word_inject)

lemma fold_fnv_state: "fold fnv_step bs h = fold fnv_step bs h' \<longleftrightarrow> h = h'"
  by (induction bs arbitrary: h h') (simp_all add: fnv_step_state)

lemma fnv1a64_byte_inject:
  "fnv1a64 (before @ a # after) = fnv1a64 (before @ b # after) \<longleftrightarrow> a = b"
proof
  let ?h = "\<lambda>c. fold fnv_step (before @ c # after) fnv_offset"
  have bound: "unat w < 16 ^ 16" for w :: "64 word" using unsigned_less [of w] by simp
  assume "fnv1a64 (before @ a # after) = fnv1a64 (before @ b # after)"
  then have "unat (?h a) = unat (?h b)"
    using hex_digits_inject [OF bound bound, of "?h a" "?h b"] by (simp only: fnv1a64_def same_append_eq)
  then have "?h a = ?h b" by (rule unsigned_word_eqI)
  then show "a = b" by (simp add: fold_fnv_state fnv_step_byte)
qed simp

text \<open>
  The evidence hash detects every change of one byte: two byte strings that differ in exactly
  one position have different printed hashes, wherever the position is and whatever surrounds it.
\<close>

theorem fnv1a64_detects_single_byte:
  "fnv1a64 (before @ a # after) = fnv1a64 (before @ b # after) \<longleftrightarrow> a = b"
  by (rule fnv1a64_byte_inject)

end
