(* ===== verification/Generation.thy ===== *)
theory Generation
  imports Domain Text Fnv
begin

text \<open>
  Cacophony generation integrity, from \<open>src/generation.rs\<close>: the parser of generation metadata, the
  grouping of open pull requests into streams, the choice of one canonical generation per stream by
  reviewed link or by exact containment, owner supersession declarations, lifecycle policy and the
  admission guard. The provider's commit comparison and JSON serialisation are parameters. An entry
  of the source's \<open>valid\<close> map is the pair of a fact and its provenance; a stream component is carried
  as its entries, so that the source's lookups \<open>valid[pr]\<close> are projections.
\<close>

subsection \<open>Data\<close>

record cacophony_generation_provenance =
  cg_generation :: string
  cg_agent :: string
  cg_source_head :: commit_oid
  cg_bead_ids :: "string btree_set"
  cg_stack_base :: string
  cg_stack_state :: string

record pull_request_generation_fact =
  gf_pr :: pr_number
  gf_provider_head :: commit_oid
  gf_created_at :: "string option"
  gf_provenance :: "cacophony_generation_provenance option"
  gf_metadata_error :: "string option"
  gf_supersedes :: "pr_number btree_set"

datatype commit_relation = Ahead | Behind | Identical | Diverged | RelUnknown string

datatype generation_disposition =
    CurrentGeneration | SupersededGeneration | AmbiguousGeneration | InvalidGenerationMetadata

datatype generation_lifecycle = Active | TemporaryDeferral | DurableSupersession | InvalidMetadata

datatype superseded_generation_action = Preserve | ProposeClosure | CloseAction

record generation_supersession_evidence =
  se_superseded_pr :: pr_number
  se_superseded_provider_head :: commit_oid
  se_canonical_pr :: pr_number
  se_canonical_provider_head :: commit_oid
  se_authority :: string
  se_closure_eligible :: bool

record generation_finding =
  fd_pr :: pr_number
  fd_disposition :: generation_disposition
  fd_lifecycle :: generation_lifecycle
  fd_lifecycle_action :: superseded_generation_action
  fd_supersession :: "generation_supersession_evidence option"
  fd_canonical_pr :: "pr_number option"
  fd_related_prs :: "pr_number list"
  fd_agent :: "string option"
  fd_bead_ids :: "string btree_set"
  fd_reason :: string
  fd_safe_next_action :: string

record generation_integrity_status =
  gi_schema_version :: nat
  gi_fingerprint :: string
  gi_findings :: "generation_finding list"
  gi_comparisons_used :: nat
  gi_comparisons_truncated :: bool

definition integrity_default :: generation_integrity_status where
  "integrity_default =
     \<lparr>gi_schema_version = 1, gi_fingerprint = fnv1a64 ''[]'', gi_findings = [],
      gi_comparisons_used = 0, gi_comparisons_truncated = False\<rparr>"

definition finding_for :: "generation_integrity_status \<Rightarrow> pr_number \<Rightarrow> generation_finding option" where
  "finding_for st pr = find (\<lambda>f. fd_pr f = pr) (gi_findings st)"

subsection \<open>Metadata\<close>

definition is_ascii_hexdigit :: "char \<Rightarrow> bool" where
  "is_ascii_hexdigit c =
     (let n = (of_char c :: nat) in 48 \<le> n \<and> n \<le> 57 \<or> 65 \<le> n \<and> n \<le> 70 \<or> 97 \<le> n \<and> n \<le> 102)"

definition is_oid :: "string \<Rightarrow> bool" where
  "is_oid s = (length s = 40 \<and> (\<forall>c\<in>set s. is_ascii_hexdigit c))"

definition is_ascii_alphanumeric :: "char \<Rightarrow> bool" where
  "is_ascii_alphanumeric c =
     (let n = (of_char c :: nat) in 48 \<le> n \<and> n \<le> 57 \<or> 65 \<le> n \<and> n \<le> 90 \<or> 97 \<le> n \<and> n \<le> 122)"

definition safe_identity :: "string \<Rightarrow> bool" where
  "safe_identity s =
     (s \<noteq> [] \<and> (\<forall>c\<in>set s. is_ascii_alphanumeric c \<or> c \<in> set ''/._-:@''))"

definition unquote :: "string \<Rightarrow> string" where
  "unquote s =
     (case Option.bind (strip_prefix ''`'' s) (strip_suffix ''`'') of Some v \<Rightarrow> v | None \<Rightarrow> s)"

definition metadata_value :: "string \<Rightarrow> string \<Rightarrow> string option" where
  "metadata_value body name =
     find_map (\<lambda>line.
       case strip_prefix (name @ '':'') (trim line) of
         None \<Rightarrow> None
       | Some v \<Rightarrow> let value = trim (unquote (trim v)) in if value \<noteq> [] then Some value else None)
       (lines_of body)"

definition is_ascii_whitespace :: "char \<Rightarrow> bool" where
  "is_ascii_whitespace c = (let n = (of_char c :: nat) in n = 32 \<or> n = 9 \<or> n = 10 \<or> n = 12 \<or> n = 13)"

definition is_bead :: "string \<Rightarrow> bool" where
  "is_bead s =
     (case strip_prefix ''bd-'' s of
        None \<Rightarrow> False
      | Some suffix \<Rightarrow> length suffix = 6 \<and> (\<forall>c\<in>set suffix. is_ascii_hexdigit c))"

definition parse_beads :: "string \<Rightarrow> string btree_set" where
  "parse_beads body =
     (case find_map (\<lambda>line. case strip_prefix ''Beads:'' (trim line) of
                         None \<Rightarrow> None
                       | Some v \<Rightarrow> if trim v \<noteq> [] then Some (trim v) else None) (lines_of body) of
        None \<Rightarrow> []
      | Some value \<Rightarrow>
          bs_of_list (map (map ascii_lower)
            (take 32 (filter is_bead
              (map (trim_matches CHR ''`'')
                (split_chars (\<lambda>c. c = CHR '','' \<or> is_ascii_whitespace c) value))))))"

definition invalid_fact ::
    "pr_number \<Rightarrow> commit_oid \<Rightarrow> string option \<Rightarrow> string \<Rightarrow> pull_request_generation_fact" where
  "invalid_fact pr provider_head created_at message =
     \<lparr>gf_pr = pr, gf_provider_head = provider_head, gf_created_at = created_at, gf_provenance = None,
      gf_metadata_error = Some message, gf_supersedes = []\<rparr>"

definition generation_markers :: "string list" where
  "generation_markers =
     [''Cacophony-Generation'', ''Cacophony-Agent'', ''Cacophony-Head'', ''Cacophony-Stack-Base'',
      ''Cacophony-Stack-State'']"

definition generation_shaped :: "string \<Rightarrow> string \<Rightarrow> bool" where
  "generation_shaped head_ref body =
     ((case rsplit_once ''-pr-g'' head_ref of None \<Rightarrow> False | Some (_, suffix) \<Rightarrow> is_oid suffix)
      \<or> (\<exists>line\<in>set (lines_of body). \<exists>m\<in>set generation_markers. starts_with (trim_start line) (m @ '':'')))"

definition missing_metadata :: "string \<Rightarrow> string list" where
  "missing_metadata body =
     filter (\<lambda>name. metadata_value body name = None \<or> metadata_value body name = Some []) generation_markers
     @ (if parse_beads body = [] then [''Beads''] else [])"

text \<open>The checks on complete metadata, in source order: the first failing one is the error.\<close>

definition metadata_problem :: "string \<Rightarrow> cacophony_generation_provenance \<Rightarrow> string option" where
  "metadata_problem head_ref p =
     (if length (cg_generation p) > 512 \<or> length (cg_agent p) > 256 \<or> length (cg_stack_base p) > 512
         \<or> length (cg_stack_state p) > 64 \<or> \<not> safe_identity (cg_generation p)
         \<or> \<not> safe_identity (cg_agent p) \<or> \<not> safe_identity (cg_stack_base p)
         \<or> \<not> safe_identity (cg_stack_state p)
      then Some ''generation metadata contains an oversized or unsafe identity''
      else if \<not> is_oid (cg_source_head p)
      then Some ''Cacophony-Head is not one exact 40-character OID''
      else if \<not> ends_with (cg_generation p) (cg_source_head p) \<or> cg_generation p \<noteq> head_ref
      then Some ''Cacophony-Generation must equal the provider head ref and end in Cacophony-Head''
      else if \<not> (cg_stack_state p = ''root'' \<or> cg_stack_state p = ''blocked_on_parent'')
      then Some ''Cacophony-Stack-State must be root or blocked_on_parent''
      else None)"

text \<open>The five \<open>expect("checked")\<close> of the source are the \<open>None\<close> result.\<close>

definition parse_generation_fact ::
    "pr_number \<Rightarrow> commit_oid \<Rightarrow> string \<Rightarrow> string option \<Rightarrow> string
     \<Rightarrow> pull_request_generation_fact option" where
  "parse_generation_fact pr provider_head head_ref created_at body =
     (let plain = \<lparr>gf_pr = pr, gf_provider_head = provider_head, gf_created_at = created_at,
                   gf_provenance = None, gf_metadata_error = None, gf_supersedes = []\<rparr>
      in if \<not> generation_shaped head_ref body then Some plain
         else if missing_metadata body \<noteq> []
         then Some (invalid_fact pr provider_head created_at
                (''missing exact generation metadata: '' @ join_str '', '' (missing_metadata body)))
         else case (metadata_value body ''Cacophony-Generation'', metadata_value body ''Cacophony-Agent'',
                    metadata_value body ''Cacophony-Head'', metadata_value body ''Cacophony-Stack-Base'',
                    metadata_value body ''Cacophony-Stack-State'') of
                (Some generation, Some agent, Some source_head, Some stack_base, Some stack_state) \<Rightarrow>
                  (let p = \<lparr>cg_generation = generation, cg_agent = agent, cg_source_head = source_head,
                            cg_bead_ids = parse_beads body, cg_stack_base = stack_base,
                            cg_stack_state = stack_state\<rparr>
                   in Some (case metadata_problem head_ref p of
                              Some message \<Rightarrow> invalid_fact pr provider_head created_at message
                            | None \<Rightarrow> plain\<lparr>gf_provenance := Some p\<rparr>))
              | _ \<Rightarrow> None)"

subsection \<open>Streams\<close>

definition bs_disjoint :: "'a btree_set \<Rightarrow> 'a btree_set \<Rightarrow> bool" where
  "bs_disjoint s t = (\<forall>x\<in>set s. x \<notin> set t)"

definition same_stream_slot ::
    "cacophony_generation_provenance \<Rightarrow> cacophony_generation_provenance \<Rightarrow> bool" where
  "same_stream_slot l r =
     (if cg_agent l \<noteq> cg_agent r \<or> bs_disjoint (cg_bead_ids l) (cg_bead_ids r) then False
      else if cg_generation l = cg_stack_base r \<or> cg_generation r = cg_stack_base l then False
      else if cg_stack_state l = ''root'' \<and> cg_stack_state r = ''root''
              \<or> cg_stack_state l = ''blocked_on_parent'' \<and> cg_stack_state r = ''blocked_on_parent''
      then cg_stack_base l = cg_stack_base r
      else False)"

fun ordered_pairs :: "'a list \<Rightarrow> ('a \<times> 'a) list" where
  "ordered_pairs [] = []"
| "ordered_pairs (x # xs) = map (Pair x) xs @ ordered_pairs xs"

definition duplicate_stream_prs :: "pull_request_generation_fact list \<Rightarrow> pr_number btree_set" where
  "duplicate_stream_prs facts =
     (let valid = List.map_filter (\<lambda>f. map_option (Pair (gf_pr f)) (gf_provenance f)) facts
      in fold (\<lambda>(l, r) dups.
           if same_stream_slot (snd l) (snd r) then bs_insert (fst r) (bs_insert (fst l) dups) else dups)
           (ordered_pairs valid) [])"

subsection \<open>Owner supersession declarations\<close>

definition supersession_marker :: "pr_number \<Rightarrow> commit_oid \<Rightarrow> string" where
  "supersession_marker canonical head =
     ''<!-- caravan-generation-supersession:v1:'' @ show_nat canonical @ '':'' @ head @ '' -->''"

definition show_pr_list :: "string \<Rightarrow> pr_number list \<Rightarrow> string" where
  "show_pr_list sep prs = join_str sep (map (\<lambda>pr. CHR ''#'' # show_nat pr) prs)"

definition supersession_body ::
    "pr_number \<Rightarrow> commit_oid \<Rightarrow> pr_number btree_set \<Rightarrow> string \<Rightarrow> string \<Rightarrow> string" where
  "supersession_body canonical head superseded actor reason =
     supersession_marker canonical head @ [newline, newline]
     @ ''**Caravan canonical generation declared.**'' @ [newline, newline]
     @ ''- **Canonical:** #'' @ show_nat canonical @ '' at `'' @ head @ ''`'' @ [newline]
     @ ''- **Superseded:** '' @ show_pr_list '', '' superseded @ [newline]
     @ ''- **Actor:** '' @ actor @ [newline]
     @ ''- **Reason:** '' @ reason @ [newline]"

definition pr_numbers_in :: "pr_number \<Rightarrow> string \<Rightarrow> pr_number btree_set option" where
  "pr_numbers_in canonical text =
     (let values = bs_of_list (filter (\<lambda>n. n \<noteq> 0 \<and> n \<noteq> canonical)
            (List.map_filter (parse_unsigned 64) (split_chars (\<lambda>c. digit_val c = None) text)))
      in if values \<noteq> [] then Some values else None)"

definition declared_supersessions ::
    "pr_number \<Rightarrow> commit_oid \<Rightarrow> string list \<Rightarrow> pr_number btree_set option" where
  "declared_supersessions canonical_pr canonical_head comment_bodies =
     (case find (\<lambda>body. str_contains body (supersession_marker canonical_pr canonical_head))
             (rev comment_bodies) of None \<Rightarrow> None | Some body \<Rightarrow>
      case find_map (\<lambda>line. strip_prefix ''- **Superseded:**'' (trim line)) (lines_of body) of
        None \<Rightarrow> None
      | Some line \<Rightarrow> pr_numbers_in canonical_pr line)"

definition priority_comment_supersessions :: "pr_number \<Rightarrow> string list \<Rightarrow> pr_number btree_set option" where
  "priority_comment_supersessions canonical_pr comment_bodies =
     (case find (\<lambda>body. str_contains body ''<!-- caravan-control-label-audit:v2:priority_'')
             (rev comment_bodies) of None \<Rightarrow> None | Some body \<Rightarrow>
      if \<not> str_contains body (''<!-- caravan-control-label-audit:v2:priority_set:''
               @ show_nat canonical_pr @ '':'')
         \<or> \<not> str_contains body ''- **Actor/source:** caravan-dogfood-controller''
      then None
      else case find_map (\<lambda>line. map_option trim (strip_prefix ''- **Reason:**'' (trim line)))
                  (lines_of body) of None \<Rightarrow> None | Some reason \<Rightarrow>
           case split_once ''superseding PRs '' reason of None \<Rightarrow> None | Some (_, suffix) \<Rightarrow>
           pr_numbers_in canonical_pr suffix)"

text \<open>The first fact of the pull request is updated in place.\<close>

fun set_supersedes :: "pr_number \<Rightarrow> pr_number btree_set \<Rightarrow> pull_request_generation_fact list
    \<Rightarrow> pull_request_generation_fact list" where
  "set_supersedes pr s [] = []"
| "set_supersedes pr s (f # fs) =
     (if gf_pr f = pr then f\<lparr>gf_supersedes := s\<rparr> # fs else f # set_supersedes pr s fs)"

definition attach_reviewed_supersession_links ::
    "pull_request_generation_fact list \<Rightarrow> pr_number \<Rightarrow> string list \<Rightarrow> pull_request_generation_fact list" where
  "attach_reviewed_supersession_links facts canonical_pr comment_bodies =
     (case Option.bind (find (\<lambda>f. gf_pr f = canonical_pr) facts)
             (\<lambda>f. declared_supersessions canonical_pr (gf_provider_head f) comment_bodies) of
        Some declared \<Rightarrow> set_supersedes canonical_pr declared facts
      | None \<Rightarrow>
          (case priority_comment_supersessions canonical_pr comment_bodies of
             None \<Rightarrow> facts
           | Some s \<Rightarrow> set_supersedes canonical_pr s facts))"

subsection \<open>Classification\<close>

type_synonym stream_entry = "pull_request_generation_fact \<times> cacophony_generation_provenance"

abbreviation entry_pr :: "stream_entry \<Rightarrow> pr_number" where
  "entry_pr e \<equiv> gf_pr (fst e)"

definition current_finding ::
    "pull_request_generation_fact \<Rightarrow> cacophony_generation_provenance \<Rightarrow> pr_number list
     \<Rightarrow> generation_finding" where
  "current_finding f p related =
     \<lparr>fd_pr = gf_pr f, fd_disposition = CurrentGeneration, fd_lifecycle = Active,
      fd_lifecycle_action = Preserve, fd_supersession = None, fd_canonical_pr = Some (gf_pr f),
      fd_related_prs = related, fd_agent = Some (cg_agent p), fd_bead_ids = cg_bead_ids p,
      fd_reason = ''unique newest contained generation for this exact Cacophony agent/bead/stack slot'',
      fd_safe_next_action =
        ''normal admission preflight may continue under immediate generation revalidation''\<rparr>"

definition invalid_finding :: "pull_request_generation_fact \<Rightarrow> string \<Rightarrow> generation_finding" where
  "invalid_finding f reason =
     \<lparr>fd_pr = gf_pr f, fd_disposition = InvalidGenerationMetadata, fd_lifecycle = InvalidMetadata,
      fd_lifecycle_action = Preserve, fd_supersession = None, fd_canonical_pr = None,
      fd_related_prs = [gf_pr f], fd_agent = None, fd_bead_ids = [], fd_reason = reason,
      fd_safe_next_action =
        ''repair exact Cacophony PR metadata or close the stale PR after owner review; Cara never auto-closes it''\<rparr>"

definition superseded_finding ::
    "stream_entry list \<Rightarrow> stream_entry \<Rightarrow> string \<Rightarrow> stream_entry \<Rightarrow> generation_finding" where
  "superseded_finding component canonical authority e =
     \<lparr>fd_pr = entry_pr e, fd_disposition = SupersededGeneration, fd_lifecycle = DurableSupersession,
      fd_lifecycle_action = Preserve,
      fd_supersession = Some
        \<lparr>se_superseded_pr = entry_pr e, se_superseded_provider_head = gf_provider_head (fst e),
         se_canonical_pr = entry_pr canonical,
         se_canonical_provider_head = gf_provider_head (fst canonical),
         se_authority = authority, se_closure_eligible = True\<rparr>,
      fd_canonical_pr = Some (entry_pr canonical), fd_related_prs = map entry_pr component,
      fd_agent = Some (cg_agent (snd e)), fd_bead_ids = cg_bead_ids (snd e),
      fd_reason = ''generation '' @ cg_generation (snd e) @ '' is superseded by canonical open PR #''
        @ show_nat (entry_pr canonical) @ '' ('' @ authority @ '')'',
      fd_safe_next_action = ''preserve PR #'' @ show_nat (entry_pr canonical)
        @ ''; exact evidence permits a configured closure proposal for PR #'' @ show_nat (entry_pr e)
        @ '', but no provider mutation occurs without reviewed policy''\<rparr>"

definition canonical_finding ::
    "stream_entry list \<Rightarrow> string \<Rightarrow> stream_entry \<Rightarrow> generation_finding" where
  "canonical_finding component authority e =
     (current_finding (fst e) (snd e) (map entry_pr component))
       \<lparr>fd_reason := ''unique canonical generation for this exact Cacophony agent/bead/stack slot (''
          @ authority @ '')''\<rparr>"

definition record_canonical_component ::
    "stream_entry list \<Rightarrow> stream_entry \<Rightarrow> string
     \<Rightarrow> (pr_number, generation_finding) btree_map \<Rightarrow> (pr_number, generation_finding) btree_map" where
  "record_canonical_component component canonical authority findings =
     fold (\<lambda>e. bt_insert (entry_pr e)
             (if entry_pr e = entry_pr canonical then canonical_finding component authority e
              else superseded_finding component canonical authority e))
       component findings"

definition ambiguous_finding ::
    "stream_entry list \<Rightarrow> string \<Rightarrow> string \<Rightarrow> stream_entry \<Rightarrow> generation_finding" where
  "ambiguous_finding component reason next_action e =
     \<lparr>fd_pr = entry_pr e, fd_disposition = AmbiguousGeneration, fd_lifecycle = TemporaryDeferral,
      fd_lifecycle_action = Preserve, fd_supersession = None, fd_canonical_pr = None,
      fd_related_prs = map entry_pr component, fd_agent = Some (cg_agent (snd e)),
      fd_bead_ids = cg_bead_ids (snd e), fd_reason = reason, fd_safe_next_action = next_action\<rparr>"

definition record_ambiguous_component ::
    "stream_entry list \<Rightarrow> string \<Rightarrow> string
     \<Rightarrow> (pr_number, generation_finding) btree_map \<Rightarrow> (pr_number, generation_finding) btree_map" where
  "record_ambiguous_component component reason next_action findings =
     fold (\<lambda>e. bt_insert (entry_pr e) (ambiguous_finding component reason next_action e))
       component findings"

subsubsection \<open>Stream components\<close>

text \<open>The inner \<open>while let\<close>: breadth-first over the entries not seen yet.\<close>

function stream_component :: "stream_entry list \<Rightarrow> stream_entry list \<Rightarrow> stream_entry list
    \<Rightarrow> stream_entry list \<times> stream_entry list" where
  "stream_component component [] unseen = (component, unseen)"
| "stream_component component (current # queue) unseen =
     stream_component (component @ [current])
       (queue @ filter (\<lambda>peer. same_stream_slot (snd current) (snd peer)) unseen)
       (filter (\<lambda>peer. \<not> same_stream_slot (snd current) (snd peer)) unseen)"
  by pat_completeness auto
termination
  by (relation "measure (\<lambda>(component, queue, unseen). length queue + length unseen)")
    (auto simp: sum_length_filter_compl)

lemma stream_component_unseen:
  "length (snd (stream_component component queue unseen)) \<le> length unseen"
  by (induction component queue unseen rule: stream_component.induct)
    (auto intro: le_trans length_filter_le)

function stream_components :: "stream_entry list \<Rightarrow> stream_entry list list" where
  "stream_components [] = []"
| "stream_components (start # unseen) =
     (let (component, rest) = stream_component [] [start] unseen
      in sort_key entry_pr component # stream_components rest)"
  by pat_completeness auto
termination
proof (relation "measure length")
  fix start :: stream_entry and unseen x component rest
  assume "x = stream_component [] [start] unseen" "(component, rest) = x"
  then show "(rest, start # unseen) \<in> measure length"
    using stream_component_unseen [of "[]" "[start]" unseen] by (metis in_measure length_Cons
        less_Suc_eq_le snd_conv)
qed simp

subsubsection \<open>Choosing the canonical generation\<close>

definition linked_canonicals :: "stream_entry list \<Rightarrow> stream_entry list" where
  "linked_canonicals component =
     filter (\<lambda>candidate. \<forall>other\<in>set component.
        entry_pr other = entry_pr candidate \<or> bs_contains (gf_supersedes (fst candidate)) (entry_pr other))
       component"

definition max_stream_comparisons :: nat where
  "max_stream_comparisons = 64"

record comparison_state =
  cmp_relations :: "(pr_number \<times> pr_number, commit_relation) btree_map"
  cmp_used :: nat
  cmp_truncated :: bool

definition compare_pair ::
    "(commit_oid \<Rightarrow> commit_oid \<Rightarrow> commit_relation) \<Rightarrow> stream_entry \<times> stream_entry
     \<Rightarrow> comparison_state \<Rightarrow> comparison_state" where
  "compare_pair compare pair s =
     (let l = fst pair; r = snd pair; key = (entry_pr l, entry_pr r)
      in if cmp_used s \<ge> max_stream_comparisons
         then s\<lparr>cmp_truncated := True,
                cmp_relations := bt_insert key
                  (RelUnknown (''generation comparison bound '' @ show_nat max_stream_comparisons
                     @ '' exhausted'')) (cmp_relations s)\<rparr>
         else s\<lparr>cmp_used := cmp_used s + 1,
                cmp_relations := bt_insert key
                  (compare (cg_source_head (snd l)) (cg_source_head (snd r))) (cmp_relations s)\<rparr>)"

definition contains ::
    "(pr_number \<times> pr_number, commit_relation) btree_map \<Rightarrow> pr_number \<Rightarrow> pr_number \<Rightarrow> bool" where
  "contains relations candidate other =
     (if candidate = other then True
      else let (low, high, reversed) =
                 (if other < candidate then (other, candidate, False) else (candidate, other, True))
           in case bt_get relations (low, high) of
                Some Identical \<Rightarrow> True
              | Some Ahead \<Rightarrow> \<not> reversed
              | Some Behind \<Rightarrow> reversed
              | _ \<Rightarrow> False)"

definition created_key :: "stream_entry \<Rightarrow> string \<times> nat" where
  "created_key e = (case gf_created_at (fst e) of None \<Rightarrow> [] | Some t \<Rightarrow> t, entry_pr e)"

definition maxima ::
    "(pr_number \<times> pr_number, commit_relation) btree_map \<Rightarrow> stream_entry list \<Rightarrow> stream_entry list" where
  "maxima relations component =
     (let found = filter (\<lambda>candidate. \<forall>other\<in>set component.
                contains relations (entry_pr candidate) (entry_pr other)) component
      in if length found > 1 then [last (sort_key created_key found)] else found)"

text \<open>
  \<open>{:?}\<close> of a relation; \<open>quote\<close> stands for the escaped and quoted form of a string.
\<close>

fun debug_relation :: "(string \<Rightarrow> string) \<Rightarrow> commit_relation option \<Rightarrow> string" where
  "debug_relation quote None = ''None''"
| "debug_relation quote (Some Ahead) = ''Some(Ahead)''"
| "debug_relation quote (Some Behind) = ''Some(Behind)''"
| "debug_relation quote (Some Identical) = ''Some(Identical)''"
| "debug_relation quote (Some Diverged) = ''Some(Diverged)''"
| "debug_relation quote (Some (RelUnknown r)) = ''Some(Unknown { reason: '' @ quote r @ '' })''"

definition relation_row ::
    "(string \<Rightarrow> string) \<Rightarrow> (pr_number \<times> pr_number, commit_relation) btree_map
     \<Rightarrow> stream_entry \<times> stream_entry \<Rightarrow> string" where
  "relation_row quote relations pair =
     (let l = entry_pr (fst pair); r = entry_pr (snd pair)
      in show_nat l @ ''...'' @ show_nat r @ ''='' @ debug_relation quote (bt_get relations (l, r)))"

definition unproved_row ::
    "(pr_number \<times> pr_number, commit_relation) btree_map \<Rightarrow> stream_entry \<times> stream_entry \<Rightarrow> string option" where
  "unproved_row relations pair =
     (let l = entry_pr (fst pair); r = entry_pr (snd pair)
      in case bt_get relations (l, r) of
           Some (RelUnknown reason) \<Rightarrow>
             Some (''#'' @ show_nat l @ ''...#'' @ show_nat r @ '' ('' @ reason @ '')'')
         | _ \<Rightarrow> None)"

definition ambiguity_evidence ::
    "(string \<Rightarrow> string) \<Rightarrow> (pr_number \<times> pr_number, commit_relation) btree_map \<Rightarrow> stream_entry list
     \<Rightarrow> string \<times> string" where
  "ambiguity_evidence quote relations component =
     (let pairs = ordered_pairs component;
          rows = map (relation_row quote relations) pairs;
          unproved = List.map_filter (unproved_row relations) pairs;
          diverged = (\<exists>p\<in>set pairs. bt_get relations (entry_pr (fst p), entry_pr (snd p)) = Some Diverged)
      in if diverged \<or> unproved = []
         then (''same-stream open generations are divergent or unproved: '' @ join_str '', '' rows,
               ''the owning agent/controller must choose one exact canonical generation; do not admit, close, or rewrite any sibling automatically'')
         else (''same-stream ancestry is unproved because '' @ show_nat (length unproved)
                 @ '' provider comparison(s) were unreachable: '' @ join_str '', '' unproved,
               ''no divergence was observed; re-run discovery once the referenced commits are reachable, or declare the exact canonical generation. Cara excludes these rows without wedging selection''))"

subsubsection \<open>The whole classification\<close>

record analysis_state =
  an_findings :: "(pr_number, generation_finding) btree_map"
  an_used :: nat
  an_truncated :: bool

definition conflicting_links_reason :: "stream_entry list \<Rightarrow> string" where
  "conflicting_links_reason linked =
     ''conflicting reviewed canonical-generation links name PRs [''
     @ join_str '', '' (map (\<lambda>e. ''PrNumber('' @ show_nat (entry_pr e) @ '')'') linked) @ '']''"

definition compare_component ::
    "(commit_oid \<Rightarrow> commit_oid \<Rightarrow> commit_relation) \<Rightarrow> stream_entry list \<Rightarrow> analysis_state
     \<Rightarrow> comparison_state" where
  "compare_component compare component s =
     fold (compare_pair compare) (ordered_pairs component)
       \<lparr>cmp_relations = [], cmp_used = an_used s, cmp_truncated = an_truncated s\<rparr>"

definition contained_findings ::
    "(string \<Rightarrow> string) \<Rightarrow> (pr_number \<times> pr_number, commit_relation) btree_map \<Rightarrow> stream_entry list
     \<Rightarrow> (pr_number, generation_finding) btree_map \<Rightarrow> (pr_number, generation_finding) btree_map" where
  "contained_findings quote relations component findings =
     (case maxima relations component of
        [canonical] \<Rightarrow>
          record_canonical_component component canonical ''exact source containment'' findings
      | _ \<Rightarrow>
          (let (reason, next_action) = ambiguity_evidence quote relations component
           in record_ambiguous_component component reason next_action findings))"

definition classify_component ::
    "(string \<Rightarrow> string) \<Rightarrow> (commit_oid \<Rightarrow> commit_oid \<Rightarrow> commit_relation) \<Rightarrow> stream_entry list
     \<Rightarrow> analysis_state \<Rightarrow> analysis_state" where
  "classify_component quote compare component s =
     (case component of
        [e] \<Rightarrow> s\<lparr>an_findings := bt_insert (entry_pr e)
                  (current_finding (fst e) (snd e) [entry_pr e]) (an_findings s)\<rparr>
      | _ \<Rightarrow>
        (case linked_canonicals component of
           [canonical] \<Rightarrow>
             s\<lparr>an_findings := record_canonical_component component canonical
                 ''reviewed provider-visible canonical supersession link'' (an_findings s)\<rparr>
         | first # second # others \<Rightarrow>
             s\<lparr>an_findings := record_ambiguous_component component
                 (conflicting_links_reason (first # second # others))
                 ''the owning controller must revoke the conflicting links and select one exact canonical generation''
                 (an_findings s)\<rparr>
         | [] \<Rightarrow>
             (let c = compare_component compare component s
              in s\<lparr>an_findings := contained_findings quote (cmp_relations c) component (an_findings s),
                   an_used := cmp_used c, an_truncated := cmp_truncated c\<rparr>)))"

definition note_fact ::
    "pull_request_generation_fact
     \<Rightarrow> (pr_number, generation_finding) btree_map \<times> (pr_number, stream_entry) btree_map
     \<Rightarrow> (pr_number, generation_finding) btree_map \<times> (pr_number, stream_entry) btree_map" where
  "note_fact f s =
     (case gf_metadata_error f of
        Some error \<Rightarrow> (bt_insert (gf_pr f) (invalid_finding f error) (fst s), snd s)
      | None \<Rightarrow>
          (case gf_provenance f of
             None \<Rightarrow> s
           | Some p \<Rightarrow> (fst s, bt_insert (gf_pr f) (f, p) (snd s))))"

definition classify_facts ::
    "(string \<Rightarrow> string) \<Rightarrow> (commit_oid \<Rightarrow> commit_oid \<Rightarrow> commit_relation)
     \<Rightarrow> pull_request_generation_fact list \<Rightarrow> analysis_state" where
  "classify_facts quote compare facts =
     (let (findings, valid) = fold note_fact facts ([], [])
      in fold (classify_component quote compare) (stream_components (bt_values valid))
           \<lparr>an_findings = findings, an_used = 0, an_truncated = False\<rparr>)"

text \<open>\<open>expect("generation integrity serializes")\<close> is the \<open>None\<close> result.\<close>

definition generation_analyze ::
    "(pull_request_generation_fact list \<times> generation_finding list \<Rightarrow> string option)
     \<Rightarrow> (string \<Rightarrow> string) \<Rightarrow> (commit_oid \<Rightarrow> commit_oid \<Rightarrow> commit_relation)
     \<Rightarrow> pull_request_generation_fact list \<Rightarrow> generation_integrity_status option" where
  "generation_analyze to_vec quote compare facts =
     (let s = classify_facts quote compare facts;
          findings = bt_values (an_findings s)
      in map_option (\<lambda>bytes.
           \<lparr>gi_schema_version = 1, gi_fingerprint = fnv1a64 bytes, gi_findings = findings,
            gi_comparisons_used = an_used s, gi_comparisons_truncated = an_truncated s\<rparr>)
           (to_vec (sort_key gf_pr facts, findings)))"

subsection \<open>Lifecycle policy and the admission guard\<close>

definition exact_supersession :: "generation_finding \<Rightarrow> bool" where
  "exact_supersession f =
     (fd_lifecycle f = DurableSupersession
      \<and> (case fd_supersession f of None \<Rightarrow> False | Some evidence \<Rightarrow> se_closure_eligible evidence))"

definition lifecycle_next_action :: "superseded_generation_action \<Rightarrow> pr_number \<Rightarrow> string" where
  "lifecycle_next_action action pr =
     (case action of
        Preserve \<Rightarrow> ''preserve PR #'' @ show_nat pr
          @ '' and its exact provider head; repository policy does not authorize a closure proposal''
      | ProposeClosure \<Rightarrow> ''propose closure of PR #'' @ show_nat pr
          @ '' using its exact supersession evidence; do not mutate provider state''
      | CloseAction \<Rightarrow> ''close PR #'' @ show_nat pr
          @ '' only after fresh exact-head and canonical-generation revalidation'')"

definition apply_lifecycle_policy ::
    "superseded_generation_action \<Rightarrow> generation_integrity_status \<Rightarrow> generation_integrity_status" where
  "apply_lifecycle_policy action st =
     st\<lparr>gi_findings := map (\<lambda>f.
          if exact_supersession f
          then f\<lparr>fd_lifecycle_action := action, fd_safe_next_action := lifecycle_next_action action (fd_pr f)\<rparr>
          else f\<lparr>fd_lifecycle_action := Preserve\<rparr>) (gi_findings st)\<rparr>"

text \<open>The structured error of the guard is its code.\<close>

definition require_admissible :: "generation_integrity_status \<Rightarrow> pr_number \<Rightarrow> string + unit" where
  "require_admissible st pr =
     (case finding_for st pr of
        None \<Rightarrow> Inr ()
      | Some f \<Rightarrow>
          (case fd_disposition f of
             CurrentGeneration \<Rightarrow> Inr ()
           | SupersededGeneration \<Rightarrow> Inl ''superseded_generation''
           | AmbiguousGeneration \<Rightarrow> Inl ''ambiguous_generation''
           | InvalidGenerationMetadata \<Rightarrow> Inl ''invalid_generation_metadata''))"

end
