(* ===== verification/Git.thy ===== *)
theory Git
  imports Squash Generation
begin

text \<open>
  Git as the program sees it (\<open>src/src/command.rs\<close>, \<open>src/src/compatibility.rs\<close>): a runner that maps a
  command to its exit code and output, and the parsers of that output. The runner stands for the Git
  executable and is a parameter of every definition; the commands name immutable objects by their
  ids, so one runner gives one answer to one command. Errors keep the category, the code and the
  message of \<open>AppError\<close>; its diagnostic JSON is left out.
\<close>

subsection \<open>Commands, results and errors\<close>

record git_command =
  gc_args :: "string list"
  gc_stdin :: "string option"

record command_output =
  co_code :: "int option"
  co_stdout :: string
  co_stderr :: string

text \<open>Failures to run a command, with the text of the error.\<close>

datatype command_run_error = OutputLimit string | RunTimeout string | OtherRunError string

text \<open>The categories the program gives its errors.\<close>

datatype error_category =
    Validation | ExecutionFailure | Timeout | TargetNotFound
  | ConfigError | MissingPermission | SerializationError

record app_error =
  ae_category :: error_category
  ae_code :: string
  ae_message :: string

type_synonym 'a result = "app_error + 'a"
type_synonym git_runner = "git_command \<Rightarrow> command_run_error + command_output"

text \<open>The \<open>?\<close> operator.\<close>

definition and_then :: "'a result \<Rightarrow> ('a \<Rightarrow> 'b result) \<Rightarrow> 'b result" where
  "and_then r f = (case r of Inl e \<Rightarrow> Inl e | Inr x \<Rightarrow> f x)"

lemma and_then_simps [simp]: "and_then (Inl e) f = Inl e" "and_then (Inr x) f = f x"
  by (simp_all add: and_then_def)

lemma and_then_Inr: "and_then r f = Inr y \<longleftrightarrow> (\<exists>x. r = Inr x \<and> f x = Inr y)"
  by (cases r) simp_all

definition is_success :: "command_output \<Rightarrow> bool" where
  "is_success out = (co_code out = Some 0)"

fun command_run_error_of :: "command_run_error \<Rightarrow> app_error" where
  "command_run_error_of (OutputLimit m) = \<lparr>ae_category = ExecutionFailure, ae_code = ''command_output_limit'', ae_message = m\<rparr>"
| "command_run_error_of (RunTimeout m) = \<lparr>ae_category = Timeout, ae_code = ''git_compatibility_timeout'', ae_message = m\<rparr>"
| "command_run_error_of (OtherRunError m) = \<lparr>ae_category = ExecutionFailure, ae_code = ''git_command_failed'', ae_message = m\<rparr>"

definition app_structured :: "error_category \<Rightarrow> string \<Rightarrow> string \<Rightarrow> app_error" where
  "app_structured category code message = \<lparr>ae_category = category, ae_code = code, ae_message = message\<rparr>"

definition app_validation :: "string \<Rightarrow> string \<Rightarrow> app_error" where
  "app_validation code message = app_structured Validation code message"

definition git_failure :: "string \<Rightarrow> string \<Rightarrow> app_error" where
  "git_failure code message = \<lparr>ae_category = ExecutionFailure, ae_code = code, ae_message = message\<rparr>"

definition malformed_git_output :: "string \<Rightarrow> string \<Rightarrow> app_error" where
  "malformed_git_output code message = \<lparr>ae_category = ExecutionFailure, ae_code = code, ae_message = message\<rparr>"

definition run_git :: "git_runner \<Rightarrow> git_command \<Rightarrow> command_output result" where
  "run_git runner command =
     (case runner command of Inl e \<Rightarrow> Inl (command_run_error_of e) | Inr out \<Rightarrow> Inr out)"

definition git_output :: "git_runner \<Rightarrow> string list \<Rightarrow> command_output result" where
  "git_output runner args = run_git runner \<lparr>gc_args = args, gc_stdin = None\<rparr>"

definition valid_full_oid :: "string \<Rightarrow> bool" where
  "valid_full_oid v = ((length v = 40 \<or> length v = 64) \<and> list_all is_ascii_hexdigit v)"

text \<open>
  Fields of \<open>-z\<close> output. The output is valid UTF-8 and the separator is one byte, so the lossy
  conversion of a field changes nothing.
\<close>

definition nul_fields :: "string \<Rightarrow> string list" where
  "nul_fields out = split_chars (\<lambda>c. c = CHR 0x00) out"

subsection \<open>Trees and merges\<close>

definition commit_tree_with_runner :: "git_runner \<Rightarrow> commit_oid \<Rightarrow> commit_oid result" where
  "commit_tree_with_runner runner commit =
     and_then (git_output runner [''rev-parse'', commit @ ''^{tree}'']) (\<lambda>out.
       if co_code out \<noteq> Some 0
       then Inl (git_failure ''commit_tree_failed'' ''git rev-parse could not resolve the exact commit tree'')
       else let tree = trim (co_stdout out)
            in if \<not> valid_full_oid tree
               then Inl (malformed_git_output ''commit_tree_output_invalid''
                      ''git rev-parse returned an invalid tree object ID'')
               else Inr tree)"

definition merge_tree_arguments :: "commit_oid \<Rightarrow> commit_oid \<Rightarrow> commit_oid option \<Rightarrow> string list" where
  "merge_tree_arguments candidate target base =
     [''merge-tree'', ''--write-tree'', ''--name-only'', ''--no-messages'', ''-z'']
     @ (case base of None \<Rightarrow> [] | Some b \<Rightarrow> [''--merge-base='' @ b])
     @ [target, candidate]"

definition parse_merge_tree ::
    "compatibility_outcome \<Rightarrow> string \<Rightarrow> (compatibility_outcome \<times> string \<times> string list) result" where
  "parse_merge_tree out_come stdout =
     (let fields = nul_fields stdout; tree = hd fields
      in if tree = []
         then Inl (malformed_git_output ''merge_tree_output_invalid''
                ''git merge-tree did not return a result tree'')
         else if \<not> valid_full_oid tree
         then Inl (malformed_git_output ''merge_tree_output_invalid''
                ''git merge-tree returned an invalid result tree object ID'')
         else let paths = filter (\<lambda>f. f \<noteq> []) (tl fields)
              in if out_come = Clean \<and> paths \<noteq> []
                 then Inl (malformed_git_output ''merge_tree_output_invalid''
                        ''git merge-tree reported conflict paths with a clean exit status'')
                 else Inr (out_come, tree, paths))"

definition merge_tree_with_base_with_runner ::
    "git_runner \<Rightarrow> commit_oid \<Rightarrow> commit_oid \<Rightarrow> commit_oid option
     \<Rightarrow> (compatibility_outcome \<times> string \<times> string list) result" where
  "merge_tree_with_base_with_runner runner candidate target base =
     and_then (git_output runner (merge_tree_arguments candidate target base)) (\<lambda>out.
       if co_code out = Some 0 then parse_merge_tree Clean (co_stdout out)
       else if co_code out = Some 1 then parse_merge_tree Conflict (co_stdout out)
       else Inl (git_failure ''merge_tree_failed''
              ''git merge-tree could not construct compatibility evidence''))"

definition merge_tree_with_runner ::
    "git_runner \<Rightarrow> commit_oid \<Rightarrow> commit_oid \<Rightarrow> (compatibility_outcome \<times> string \<times> string list) result" where
  "merge_tree_with_runner runner candidate target =
     merge_tree_with_base_with_runner runner candidate target None"

definition is_ancestor_with_runner :: "git_runner \<Rightarrow> commit_oid \<Rightarrow> commit_oid \<Rightarrow> bool result" where
  "is_ancestor_with_runner runner ancestor descendant =
     and_then (git_output runner [''merge-base'', ''--is-ancestor'', ancestor, descendant]) (\<lambda>out.
       if co_code out = Some 0 then Inr True
       else if co_code out = Some 1 then Inr False
       else Inl (git_failure ''merge_base_failed''
              ''git merge-base could not construct containment evidence''))"

definition cumulative_tree_proof_with_runner ::
    "git_runner \<Rightarrow> branch_snapshot \<Rightarrow> branch_snapshot \<Rightarrow> commit_oid \<Rightarrow> commit_oid
     \<Rightarrow> cumulative_tree_proof result" where
  "cumulative_tree_proof_with_runner runner candidate target candidate_oid target_oid =
     and_then (merge_tree_with_runner runner candidate_oid target_oid) (\<lambda>(_, merge_result, _).
     and_then (commit_tree_with_runner runner candidate_oid) (\<lambda>candidate_tree.
     and_then (is_ancestor_with_runner runner target_oid candidate_oid) (\<lambda>reachable.
       Inr \<lparr>ctp_candidate = candidate, ctp_target = target, ctp_candidate_tree = candidate_tree,
            ctp_merge_result_tree = merge_result, ctp_identical = (candidate_tree = merge_result),
            ctp_target_reachable_from_candidate = reachable\<rparr>)))"

end
