(* ===== verification/Saturating.thy ===== *)
theory Saturating
  imports Prelude
begin

text \<open>
  Saturating arithmetic and durations of the Rust standard library. A \<open>u64\<close> is a natural number that
  the operations keep at most \<open>u64_max\<close>; a \<open>Duration\<close> is a number of nanoseconds whose saturating sum
  stops at \<open>duration_max\<close>.
\<close>

definition u64_max :: nat where
  "u64_max = 2 ^ 64 - 1"

definition u32_max :: nat where
  "u32_max = 2 ^ 32 - 1"

definition sat_add :: "nat \<Rightarrow> nat \<Rightarrow> nat" where
  "sat_add a b = min u64_max (a + b)"

definition sat_mul :: "nat \<Rightarrow> nat \<Rightarrow> nat" where
  "sat_mul a b = min u64_max (a * b)"

definition to_u64 :: "nat \<Rightarrow> nat" where
  "to_u64 n = (if n \<le> u64_max then n else u64_max)"

definition to_u32 :: "nat \<Rightarrow> nat" where
  "to_u32 n = (if n \<le> u32_max then n else u32_max)"

definition sat_sum :: "nat list \<Rightarrow> nat" where
  "sat_sum xs = fold (\<lambda>x acc. sat_add acc x) xs 0"

definition max_or_zero :: "nat list \<Rightarrow> nat" where
  "max_or_zero xs = fold max xs 0"

type_synonym duration = nat

definition duration_max :: duration where
  "duration_max = u64_max * 10 ^ 9 + 999999999"

definition from_secs :: "nat \<Rightarrow> duration" where
  "from_secs s = s * 10 ^ 9"

definition as_secs :: "duration \<Rightarrow> nat" where
  "as_secs d = d div 10 ^ 9"

definition as_millis :: "duration \<Rightarrow> nat" where
  "as_millis d = d div 10 ^ 6"

definition duration_sat_add :: "duration \<Rightarrow> duration \<Rightarrow> duration" where
  "duration_sat_add a b = min duration_max (a + b)"

function chunks :: "nat \<Rightarrow> 'a list \<Rightarrow> 'a list list" where
  "chunks n xs = (if xs = [] \<or> n = 0 then [] else take n xs # chunks n (drop n xs))"
  by pat_completeness auto
termination by (relation "measure (\<lambda>(n, xs). length xs)") auto

declare chunks.simps [simp del]

subsection \<open>Laws\<close>

lemma sat_add_mono: "a \<le> a' \<Longrightarrow> b \<le> b' \<Longrightarrow> sat_add a b \<le> sat_add a' b'"
  by (simp add: sat_add_def min_le_iff_disj)

lemma sat_mul_mono: "a \<le> a' \<Longrightarrow> b \<le> b' \<Longrightarrow> sat_mul a b \<le> sat_mul a' b'"
  unfolding sat_mul_def by (metis min.mono mult_le_mono order_refl)

lemma sat_add_le: "sat_add a b \<le> a + b"
  by (simp add: sat_add_def)

lemma sat_mul_le: "sat_mul a b \<le> a * b"
  by (simp add: sat_mul_def)

lemma to_u64_min: "to_u64 n = min u64_max n"
  by (simp add: to_u64_def min_def)

lemma to_u64_mono: "a \<le> b \<Longrightarrow> to_u64 a \<le> to_u64 b"
  by (simp add: to_u64_min min_le_iff_disj)

lemma fold_sat_add: "fold (\<lambda>x acc. sat_add acc x) xs (min u64_max a) = min u64_max (a + sum_list xs)"
proof (induction xs arbitrary: a)
  case (Cons x xs)
  have "sat_add (min u64_max a) x = min u64_max (a + x)" by (simp add: sat_add_def min_def)
  then show ?case using Cons [of "a + x"] by (simp add: add.assoc)
qed simp

lemma sat_sum_eq: "sat_sum xs = min u64_max (sum_list xs)"
  using fold_sat_add [of xs 0] by (simp add: sat_sum_def)

lemma sat_sum_mono: "sum_list xs \<le> sum_list ys \<Longrightarrow> sat_sum xs \<le> sat_sum ys"
  by (simp add: sat_sum_eq min_le_iff_disj)

lemma sat_sum_le: "sat_sum xs \<le> sum_list xs"
  by (simp add: sat_sum_eq)

lemma fold_max: "fold max xs a = max a (fold max xs 0)" for a :: nat
proof (induction xs arbitrary: a)
  case (Cons x xs)
  show ?case using Cons [of "max x a"] Cons [of x] by (simp add: max.commute max.left_commute)
qed simp

lemma max_or_zero_Cons [simp]: "max_or_zero [] = 0" "max_or_zero (x # xs) = max x (max_or_zero xs)"
  using fold_max [of xs x] by (simp_all add: max_or_zero_def)

lemma max_or_zero_mono:
  "(\<And>x. x \<in> set xs \<Longrightarrow> f x \<le> g x) \<Longrightarrow> max_or_zero (map f xs) \<le> max_or_zero (map g xs)"
  by (induction xs) (auto intro!: max.mono simp del: max.bounded_iff)

lemma sum_list_take_mono: "k \<le> l \<Longrightarrow> sum_list (take k xs) \<le> sum_list (take l xs)" for xs :: "nat list"
  by (metis le_add1 le_add_diff_inverse sum_list_append take_add)

lemma sum_list_concat: "sum_list (concat xss) = sum_list (map sum_list xss)" for xss :: "nat list list"
  by (induction xss) simp_all

end
