(* ===== verification/Squash_Analysis.thy ===== *)
theory Squash_Analysis
  imports Git Saturating
begin

text \<open>
  The squash-equivalence analysis of \<open>src/src/squash_equivalence.rs\<close>: find the longest stacked prefix
  whose cumulative content the target already holds, and authorise dropping it only when replaying
  the rest from that boundary merges cleanly. Everything else fails closed.
\<close>

definition squash_equivalence_policy :: string where
  "squash_equivalence_policy =
     ''A stacked pre-squash prefix is reconciled only with exact cumulative proof: every path its cumulative diff changes must have an identical blob object and file mode on the exact target tip, and replaying the retained commits with that proven boundary as merge base must be independently clean. Commit messages, patch text, subjects, and authorship are never proof. Partial representation, an equal patch with a different resulting tree, a genuine three-way divergence after the equality point, a vacuous match on paths the prefix never changed, and any indeterminate range all fail closed with exact evidence and drop nothing. Reconciliation evidence never authorizes rewriting a live provider branch on its own; that remains a separately reviewed owner action.''"

definition max_analyzed_prefix_commits :: nat where
  "max_analyzed_prefix_commits = 256"

definition max_evaluated_boundaries :: nat where
  "max_evaluated_boundaries = 64"

definition max_receipt_paths :: nat where
  "max_receipt_paths = 512"

subsection \<open>The range\<close>

definition unique_merge_base :: "git_runner \<Rightarrow> commit_oid \<Rightarrow> commit_oid \<Rightarrow> commit_oid option result" where
  "unique_merge_base runner candidate target =
     and_then (git_output runner [''merge-base'', ''--all'', target, candidate]) (\<lambda>out.
       if co_code out = Some 1 then Inr None
       else if co_code out \<noteq> Some 0
       then Inl (git_failure ''merge_base_failed''
              ''git merge-base could not evaluate the candidate range boundary'')
       else case filter (\<lambda>l. trim l \<noteq> []) (lines_of (co_stdout out)) of
              [base] \<Rightarrow>
                if valid_full_oid (trim base) then Inr (Some (trim base))
                else Inl (malformed_git_output ''merge_base_output_invalid''
                       ''git merge-base returned an invalid object ID'')
            | _ \<Rightarrow> Inr None)"

record prefix_chain =
  ch_commits :: "commit_oid list"
  ch_total_commits :: nat

text \<open>The walk of \<open>linear_prefix_chain\<close>; \<open>room\<close> counts down from the bound.\<close>

fun linear_prefix :: "nat \<Rightarrow> commit_oid \<Rightarrow> string list \<Rightarrow> commit_oid list result" where
  "linear_prefix room expected [] = Inr []"
| "linear_prefix room expected (line # rest) =
     (if room = 0 then Inr []
      else case split_whitespace line of
             [] \<Rightarrow> Inr []
           | oid # parents \<Rightarrow>
               if \<not> valid_full_oid oid
               then Inl (malformed_git_output ''rev_list_output_invalid''
                      ''git rev-list returned an invalid object ID'')
               else if parents \<noteq> [expected] then Inr []
               else and_then (linear_prefix (room - 1) oid rest) (\<lambda>commits. Inr (oid # commits)))"

definition linear_prefix_chain :: "git_runner \<Rightarrow> commit_oid \<Rightarrow> commit_oid \<Rightarrow> prefix_chain result" where
  "linear_prefix_chain runner merge_base candidate =
     and_then (git_output runner
         [''rev-list'', ''--reverse'', ''--topo-order'', ''--parents'', candidate, ''^'' @ merge_base]) (\<lambda>out.
       if \<not> is_success out
       then Inl (git_failure ''rev_list_failed''
              ''git rev-list could not enumerate the exact candidate-only range'')
       else and_then (linear_prefix max_analyzed_prefix_commits merge_base (lines_of (co_stdout out)))
              (\<lambda>commits. Inr \<lparr>ch_commits = commits,
                               ch_total_commits = length (lines_of (co_stdout out))\<rparr>))"

subsection \<open>Cumulative content\<close>

record diff_target =
  dt_mode :: string
  dt_blob :: string

definition dt_deleted :: "diff_target \<Rightarrow> bool" where
  "dt_deleted t = list_all (\<lambda>c. c = CHR ''0'') (dt_mode t)"

type_synonym diff_map = "(string, diff_target) btree_map"

text \<open>The UTF-8 form of the replacement character.\<close>

definition replacement_char :: string where
  "replacement_char = [CHR 0xEF, CHR 0xBF, CHR 0xBD]"

fun parse_diff :: "string list \<Rightarrow> diff_map \<Rightarrow> diff_map option result" where
  "parse_diff [] entries = Inr (Some entries)"
| "parse_diff (meta # rest) entries =
     (case strip_prefix '':'' meta of
        None \<Rightarrow> Inl (malformed_git_output ''diff_tree_output_invalid''
                  ''git diff-tree returned a record without a raw-format marker'')
      | Some row \<Rightarrow>
          if length (split_whitespace row) < 5
          then Inl (malformed_git_output ''diff_tree_output_invalid''
                 ''git diff-tree returned an incomplete raw record'')
          else case rest of
                 [] \<Rightarrow> Inl (malformed_git_output ''diff_tree_output_invalid''
                         ''git diff-tree returned a raw record without a path'')
               | path # later \<Rightarrow>
                   if str_contains path replacement_char then Inr None
                   else parse_diff later
                     (bt_insert path \<lparr>dt_mode = split_whitespace row ! 1,
                                      dt_blob = split_whitespace row ! 3\<rparr> entries))"

definition diff_entries :: "git_runner \<Rightarrow> commit_oid \<Rightarrow> commit_oid \<Rightarrow> diff_map option result" where
  "diff_entries runner from to =
     and_then (git_output runner
         [''diff-tree'', ''-r'', ''-z'', ''--no-commit-id'', ''--no-renames'', from, to]) (\<lambda>out.
       if \<not> is_success out
       then Inl (git_failure ''diff_tree_failed''
              ''git diff-tree could not construct exact cumulative content evidence'')
       else parse_diff (filter (\<lambda>f. f \<noteq> []) (nul_fields (co_stdout out))) [])"

text \<open>Every path of the prefix has the same mode and blob on the target.\<close>

definition represented :: "diff_map \<Rightarrow> diff_map \<Rightarrow> bool" where
  "represented prefix_entries target_entries =
     list_all (\<lambda>(path, entry). bt_get target_entries path = Some entry) prefix_entries"

datatype boundary_search = Unrepresentable | NoBoundary | Proven nat diff_map

fun find_boundary ::
    "git_runner \<Rightarrow> commit_oid \<Rightarrow> diff_map \<Rightarrow> commit_oid list \<Rightarrow> nat \<Rightarrow> boundary_search result" where
  "find_boundary runner base target_entries commits 0 = Inr NoBoundary"
| "find_boundary runner base target_entries commits (Suc i) =
     and_then (diff_entries runner base (commits ! i)) (\<lambda>found.
       case found of
         None \<Rightarrow> Inr Unrepresentable
       | Some entries \<Rightarrow>
           if entries = [] then find_boundary runner base target_entries commits i
           else if represented entries target_entries then Inr (Proven i entries)
           else find_boundary runner base target_entries commits i)"

subsection \<open>Receipt rows\<close>

fun parse_trees :: "string list \<Rightarrow> commit_oid list result" where
  "parse_trees [] = Inr []"
| "parse_trees (line # rest) =
     (case split_whitespace line of
        oid # kind # _ \<Rightarrow>
          if kind \<noteq> ''tree''
          then Inl (malformed_git_output ''commit_tree_batch_invalid''
                 ''git cat-file did not resolve an expected commit tree'')
          else if \<not> valid_full_oid oid
          then Inl (malformed_git_output ''commit_tree_batch_invalid''
                 ''git cat-file returned an invalid tree object ID'')
          else and_then (parse_trees rest) (\<lambda>trees. Inr (oid # trees))
      | _ \<Rightarrow> Inl (malformed_git_output ''commit_tree_batch_invalid''
               ''git cat-file did not resolve an expected commit tree''))"

definition commit_trees :: "git_runner \<Rightarrow> commit_oid list \<Rightarrow> commit_oid list result" where
  "commit_trees runner commits =
     (if commits = [] then Inr []
      else and_then (run_git runner
          \<lparr>gc_args = [''cat-file'', ''--batch-check=%(objectname) %(objecttype)''],
           gc_stdin = Some (concat (map (\<lambda>c. c @ ''^{tree}'' @ [newline]) commits))\<rparr>) (\<lambda>out.
        if \<not> is_success out
        then Inl (git_failure ''commit_tree_batch_failed''
               ''git cat-file could not resolve the exact commit trees'')
        else and_then (parse_trees (lines_of (co_stdout out))) (\<lambda>trees.
          if length trees \<noteq> length commits
          then Inl (malformed_git_output ''commit_tree_batch_invalid''
                 ''git cat-file returned an unexpected number of commit trees'')
          else Inr trees)))"

fun describe_rows ::
    "git_runner \<Rightarrow> nat \<Rightarrow> reconciliation_action \<Rightarrow> nat \<Rightarrow> commit_oid \<Rightarrow> (commit_oid \<times> commit_oid) list
     \<Rightarrow> analyzed_commit list result" where
  "describe_rows runner dropped_through dropped_action i parent [] = Inr []"
| "describe_rows runner dropped_through dropped_action i parent ((oid, tree_oid) # rest) =
     (let action = (if i \<le> dropped_through then dropped_action else Retained)
      in and_then (if action = Dropped
                   then and_then (diff_entries runner parent oid)
                          (\<lambda>found. Inr (take max_receipt_paths
                             (case found of None \<Rightarrow> [] | Some entries \<Rightarrow> bt_keys entries)))
                   else Inr []) (\<lambda>paths.
         and_then (describe_rows runner dropped_through dropped_action (i + 1) oid rest) (\<lambda>rows.
           Inr (\<lparr>ac_oid = oid, ac_tree_oid = tree_oid, ac_action = action, ac_paths = paths\<rparr> # rows))))"

definition describe_commits ::
    "git_runner \<Rightarrow> commit_oid \<Rightarrow> commit_oid list \<Rightarrow> nat \<Rightarrow> reconciliation_action
     \<Rightarrow> analyzed_commit list result" where
  "describe_commits runner merge_base commits dropped_through dropped_action =
     and_then (commit_trees runner commits) (\<lambda>trees.
       describe_rows runner dropped_through dropped_action 0 merge_base (zip commits trees))"

subsection \<open>The analysis\<close>

definition blank_report ::
    "branch_snapshot \<Rightarrow> branch_snapshot \<Rightarrow> commit_oid \<Rightarrow> commit_oid \<Rightarrow> squash_equivalence_report" where
  "blank_report candidate target candidate_oid target_oid =
     \<lparr>sq_schema_version = 1, sq_candidate = candidate, sq_target = target,
      sq_candidate_oid = candidate_oid, sq_target_oid = target_oid, sq_merge_base = None,
      sq_outcome = Indeterminate, sq_before = None, sq_after = None, sq_proven_boundary = None,
      sq_boundary_tree = None, sq_target_tree = None, sq_commits = [], sq_represented_paths = [],
      sq_represented_paths_truncated = False, sq_candidate_commit_count = 0,
      sq_analyzed_prefix_complete = False, sq_evaluated_boundaries = 0, sq_evaluation_bounded = False,
      sq_reason = [], sq_policy = squash_equivalence_policy\<rparr>"

definition represented_rows :: "diff_map \<Rightarrow> represented_path list" where
  "represented_rows entries =
     sort_key rp_path (map (\<lambda>(path, t).
       \<lparr>rp_path = path, rp_mode = dt_mode t, rp_blob = dt_blob t, rp_deleted = dt_deleted t\<rparr>) entries)"

definition no_boundary_report ::
    "git_runner \<Rightarrow> commit_oid \<Rightarrow> commit_oid list \<Rightarrow> squash_equivalence_report \<Rightarrow> squash_equivalence_report result" where
  "no_boundary_report runner merge_base commits r =
     and_then (describe_commits runner merge_base commits u64_max Retained) (\<lambda>rows.
       Inr (r\<lparr>sq_outcome := NoEquivalence, sq_commits := rows,
              sq_reason :=
                ''no stacked prefix of the first '' @ show_nat (sq_evaluated_boundaries r) @ '' of ''
                @ show_nat (length commits) @ '' candidate-only commit(s) is byte-identical to ''
                @ br_name (sq_target r) @ ''@'' @ sq_target_oid r @ ''; every commit is retained''\<rparr>))"

definition reconcilable_report ::
    "git_runner \<Rightarrow> commit_oid \<Rightarrow> commit_oid list \<Rightarrow> nat \<Rightarrow> squash_equivalence_report
     \<Rightarrow> squash_equivalence_report result" where
  "reconcilable_report runner merge_base commits i r =
     and_then (describe_commits runner merge_base commits i Dropped) (\<lambda>rows.
       Inr (r\<lparr>sq_outcome := Reconcilable, sq_commits := rows,
              sq_reason :=
                ''commits through '' @ commits ! i @ '' are byte-identical to '' @ br_name (sq_target r)
                @ ''@'' @ sq_target_oid r @ '' on every one of the ''
                @ show_nat (length (sq_represented_paths r)) @ '' path(s) they change; replaying the ''
                @ show_nat (length commits - i - 1)
                @ '' retained commit(s) from that proven boundary merges cleanly''\<rparr>))"

definition residual_report ::
    "git_runner \<Rightarrow> commit_oid \<Rightarrow> commit_oid list \<Rightarrow> nat \<Rightarrow> string list \<Rightarrow> squash_equivalence_report
     \<Rightarrow> squash_equivalence_report result" where
  "residual_report runner merge_base commits i conflicts r =
     and_then (describe_commits runner merge_base commits u64_max Retained) (\<lambda>rows.
       Inr (r\<lparr>sq_outcome := ResidualConflict, sq_commits := rows,
              sq_reason :=
                ''commits through '' @ commits ! i @ '' are byte-identical to '' @ br_name (sq_target r)
                @ ''@'' @ sq_target_oid r
                @ '', but replaying the retained commits from that proven boundary still conflicts in ''
                @ (if conflicts = [] then ''the reconciled merge'' else join_str '', '' conflicts)
                @ ''; this is ordinary three-way divergence after the equality point and nothing is dropped''\<rparr>))"

definition proven_report ::
    "git_runner \<Rightarrow> commit_oid \<Rightarrow> commit_oid list \<Rightarrow> nat \<Rightarrow> diff_map \<Rightarrow> squash_equivalence_report
     \<Rightarrow> squash_equivalence_report result" where
  "proven_report runner merge_base commits i entries r =
     (let boundary = commits ! i
      in and_then (commit_tree_with_runner runner boundary) (\<lambda>boundary_tree.
         and_then (merge_tree_with_base_with_runner runner (sq_candidate_oid r) (sq_target_oid r) (Some boundary))
           (\<lambda>(after_outcome, after_tree, conflicts).
           let rows = represented_rows entries;
               r' = r\<lparr>sq_proven_boundary := Some boundary, sq_boundary_tree := Some boundary_tree,
                      sq_after := Some \<lparr>me_merge_base = boundary, me_outcome = after_outcome,
                                         me_result_tree = after_tree, me_conflicting_paths = conflicts\<rparr>,
                      sq_represented_paths_truncated := (length rows > max_receipt_paths),
                      sq_represented_paths := take max_receipt_paths rows\<rparr>
           in if after_outcome = Clean then reconcilable_report runner merge_base commits i r'
              else residual_report runner merge_base commits i conflicts r')))"

definition analyze_range ::
    "git_runner \<Rightarrow> commit_oid \<Rightarrow> prefix_chain \<Rightarrow> squash_equivalence_report
     \<Rightarrow> squash_equivalence_report result" where
  "analyze_range runner merge_base chain r =
     (let commits = ch_commits chain;
          r = r\<lparr>sq_candidate_commit_count := ch_total_commits chain,
                sq_analyzed_prefix_complete := (length commits = ch_total_commits chain \<and> commits \<noteq> [])\<rparr>
      in if commits = []
         then Inr (r\<lparr>sq_outcome := NoEquivalence,
                     sq_reason := (if ch_total_commits chain = 0
                       then ''candidate has no commits beyond the merge base; there is no stacked history to reconcile''
                       else ''candidate history is not linear at the merge base; only an ancestor-closed linear range may be reconciled'')\<rparr>)
         else if \<not> sq_analyzed_prefix_complete r
         then Inr (r\<lparr>sq_reason :=
                ''candidate-only range is not an ancestor-closed linear range ('' @ show_nat (length commits)
                @ '' of '' @ show_nat (ch_total_commits chain)
                @ '' commits are linear from the merge base); reconciliation requires a linear range''\<rparr>)
         else and_then (diff_entries runner merge_base (sq_target_oid r)) (\<lambda>found.
           case found of
             None \<Rightarrow> Inr (r\<lparr>sq_reason :=
               ''target diff contains a path Git could not represent exactly; failing closed''\<rparr>)
           | Some target_entries \<Rightarrow>
               (let evaluated = min (length commits) max_evaluated_boundaries;
                    r = r\<lparr>sq_evaluated_boundaries := evaluated,
                          sq_evaluation_bounded := (evaluated < length commits)\<rparr>
                in and_then (find_boundary runner merge_base target_entries commits evaluated) (\<lambda>search.
                  case search of
                    Unrepresentable \<Rightarrow> Inr (r\<lparr>sq_reason :=
                      ''candidate prefix diff contains a path Git could not represent exactly; failing closed''\<rparr>)
                  | NoBoundary \<Rightarrow> no_boundary_report runner merge_base commits r
                  | Proven i entries \<Rightarrow> proven_report runner merge_base commits i entries r))))"

definition analyze_with_runner ::
    "git_runner \<Rightarrow> branch_snapshot \<Rightarrow> branch_snapshot \<Rightarrow> commit_oid \<Rightarrow> commit_oid
     \<Rightarrow> squash_equivalence_report result" where
  "analyze_with_runner runner candidate target candidate_oid target_oid =
     (let r = blank_report candidate target candidate_oid target_oid
      in and_then (unique_merge_base runner candidate_oid target_oid) (\<lambda>base.
         case base of
           None \<Rightarrow> Inr (r\<lparr>sq_reason :=
             ''candidate and target do not share exactly one merge base; no exact cumulative proof is possible''\<rparr>)
         | Some merge_base \<Rightarrow>
             and_then (commit_tree_with_runner runner target_oid) (\<lambda>target_tree.
             and_then (merge_tree_with_runner runner candidate_oid target_oid)
               (\<lambda>(before_outcome, before_tree, before_conflicts).
             and_then (linear_prefix_chain runner merge_base candidate_oid) (\<lambda>chain.
               analyze_range runner merge_base chain
                 (r\<lparr>sq_merge_base := Some merge_base, sq_target_tree := Some target_tree,
                    sq_before := Some \<lparr>me_merge_base = merge_base, me_outcome = before_outcome,
                      me_result_tree = before_tree, me_conflicting_paths = before_conflicts\<rparr>\<rparr>))))))"

definition unauthorized :: "squash_equivalence_report \<Rightarrow> app_error" where
  "unauthorized r = app_structured Validation ''squash_equivalence_unproven''
     (''squash-equivalence reconciliation is not authorized: '' @ sq_reason r)"

end
