(* ===== verification/Command.thy ===== *)
theory Command
  imports Git Saturating BTree
begin

text \<open>
  Subprocess requests of \<open>src/src/command.rs\<close>: the request builder, the classification of writes, the
  redacted rendering of diagnostics, the typed refusals and run errors, the fenced runner, the
  request budget and the bounded capture of a child's output. Spawning itself is a runner parameter.
\<close>

subsection \<open>Requests\<close>

datatype command_intent = ReadIntent | ProviderWrite | GitWrite

fun is_write :: "command_intent \<Rightarrow> bool" where
  "is_write ReadIntent = False"
| "is_write ProviderWrite = True"
| "is_write GitWrite = True"

record command_io =
  ci_env :: "(string, string) btree_map"
  ci_stdin :: "string option"
  ci_intent :: command_intent

record command_spec =
  cs_program :: string
  cs_args :: "string list"
  cs_io :: "command_io option"

definition command_io_default :: command_io where
  "command_io_default = \<lparr>ci_env = [], ci_stdin = None, ci_intent = ReadIntent\<rparr>"

definition cs_new :: "string \<Rightarrow> command_spec" where
  "cs_new program = \<lparr>cs_program = program, cs_args = [], cs_io = None\<rparr>"

definition cs_arg :: "string \<Rightarrow> command_spec \<Rightarrow> command_spec" where
  "cs_arg a c = c\<lparr>cs_args := cs_args c @ [a]\<rparr>"

definition cs_with_args :: "string list \<Rightarrow> command_spec \<Rightarrow> command_spec" where
  "cs_with_args as c = c\<lparr>cs_args := cs_args c @ as\<rparr>"

text \<open>\<open>get_or_insert_with(CommandIo::default)\<close> followed by an update of the boxed value.\<close>

definition cs_io_or_default :: "command_spec \<Rightarrow> command_io" where
  "cs_io_or_default c = (case cs_io c of None \<Rightarrow> command_io_default | Some i \<Rightarrow> i)"

definition cs_env :: "string \<Rightarrow> string \<Rightarrow> command_spec \<Rightarrow> command_spec" where
  "cs_env name val c =
     c\<lparr>cs_io := Some ((cs_io_or_default c)\<lparr>ci_env := bt_insert name val (ci_env (cs_io_or_default c))\<rparr>)\<rparr>"

definition cs_provider_write :: "command_spec \<Rightarrow> command_spec" where
  "cs_provider_write c = c\<lparr>cs_io := Some ((cs_io_or_default c)\<lparr>ci_intent := ProviderWrite\<rparr>)\<rparr>"

definition cs_git_write :: "command_spec \<Rightarrow> command_spec" where
  "cs_git_write c = c\<lparr>cs_io := Some ((cs_io_or_default c)\<lparr>ci_intent := GitWrite\<rparr>)\<rparr>"

definition cs_stdin :: "string \<Rightarrow> command_spec \<Rightarrow> command_spec" where
  "cs_stdin input c = c\<lparr>cs_io := Some ((cs_io_or_default c)\<lparr>ci_stdin := Some input\<rparr>)\<rparr>"

definition cs_intent :: "command_spec \<Rightarrow> command_intent" where
  "cs_intent c = (case cs_io c of None \<Rightarrow> ReadIntent | Some i \<Rightarrow> ci_intent i)"

definition cs_has_env :: "command_spec \<Rightarrow> string \<Rightarrow> bool" where
  "cs_has_env c name = (case cs_io c of None \<Rightarrow> False | Some i \<Rightarrow> bt_get (ci_env i) name \<noteq> None)"

text \<open>
  \<open>Path::file_name\<close>: empty and \<open>.\<close> components vanish, and a path that then ends in \<open>..\<close> or is
  empty has no name. A program is a \<open>str\<close>, so the name is valid Unicode.
\<close>

definition file_name :: "string \<Rightarrow> string option" where
  "file_name path =
     (let parts = filter (\<lambda>p. p \<noteq> [] \<and> p \<noteq> ''.'') (split_chars (\<lambda>c. c = CHR ''/'') path)
      in if parts = [] \<or> last parts = ''..'' then None else Some (last parts))"

definition cs_first :: "command_spec \<Rightarrow> string option" where
  "cs_first c = (case cs_args c of [] \<Rightarrow> None | a # _ \<Rightarrow> Some a)"

definition cs_second :: "command_spec \<Rightarrow> string option" where
  "cs_second c = (case cs_args c of _ # a # _ \<Rightarrow> Some a | _ \<Rightarrow> None)"

definition gh_write_subcommand :: "string option \<Rightarrow> string option \<Rightarrow> bool" where
  "gh_write_subcommand first second =
     (first = Some ''pr'' \<and> second \<in> Some ` {''create'', ''edit'', ''merge'', ''comment'', ''close'', ''reopen''}
      \<or> first = Some ''label'' \<and> second \<in> Some ` {''create'', ''edit'', ''delete''}
      \<or> first = Some ''run'' \<and> second \<in> Some ` {''rerun'', ''cancel'', ''delete''}
      \<or> first = Some ''repo'' \<and> second = Some ''edit'')"

definition explicit_write_method :: "string list \<Rightarrow> bool" where
  "explicit_write_method args =
     list_ex (\<lambda>(a, b). a = ''--method'' \<and> b \<in> {''POST'', ''PATCH'', ''PUT'', ''DELETE''}) (zip args (tl args))"

definition graphql_mutation :: "string list \<Rightarrow> bool" where
  "graphql_mutation args =
     list_ex (\<lambda>a. case strip_prefix ''query='' a of
                    None \<Rightarrow> False | Some query \<Rightarrow> starts_with (trim_start query) ''mutation'') args"

definition inferred_write_intent :: "command_spec \<Rightarrow> command_intent option" where
  "inferred_write_intent c =
     (case file_name (cs_program c) of
        None \<Rightarrow> None
      | Some program \<Rightarrow>
          if program = ''git''
          then if ''push'' \<in> set (cs_args c) \<and> ''--dry-run'' \<notin> set (cs_args c) then Some GitWrite else None
          else if program \<noteq> ''gh'' then None
          else if gh_write_subcommand (cs_first c) (cs_second c) then Some ProviderWrite
          else if cs_first c \<noteq> Some ''api'' then None
          else if explicit_write_method (cs_args c) \<or> graphql_mutation (cs_args c) then Some ProviderWrite
          else None)"

subsection \<open>Diagnostics\<close>

definition redact_scheme :: "string \<Rightarrow> string \<Rightarrow> string option" where
  "redact_scheme scheme v =
     (case strip_prefix scheme v of
        None \<Rightarrow> None
      | Some rest \<Rightarrow>
          (case split_once ''@'' rest of
             None \<Rightarrow> None
           | Some (userinfo, host_and_path) \<Rightarrow>
               if userinfo \<noteq> [] \<and> CHR ''/'' \<in> set host_and_path
               then Some (scheme @ ''<redacted>@'' @ host_and_path) else None))"

definition redact_url_userinfo :: "string \<Rightarrow> string" where
  "redact_url_userinfo v =
     (case find_map (\<lambda>scheme. redact_scheme scheme v) [''https://'', ''http://''] of
        Some r \<Rightarrow> r | None \<Rightarrow> v)"

definition is_ascii_alphanumeric :: "char \<Rightarrow> bool" where
  "is_ascii_alphanumeric c =
     (let n = (of_char c :: nat) in 48 \<le> n \<and> n \<le> 57 \<or> 65 \<le> n \<and> n \<le> 90 \<or> 97 \<le> n \<and> n \<le> 122)"

definition quote_for_diagnostic :: "string \<Rightarrow> string" where
  "quote_for_diagnostic v =
     (if list_all (\<lambda>c. is_ascii_alphanumeric c \<or> c \<in> set ''-._/:,='') v then v
      else [CHR 0x27] @ concat (map (\<lambda>c. if c = CHR 0x27 then [c, CHR 0x5C, c, c] else [c]) v) @ [CHR 0x27])"

definition cs_display :: "command_spec \<Rightarrow> string" where
  "cs_display c =
     join_str '' '' (map quote_for_diagnostic (cs_program c # map redact_url_userinfo (cs_args c)))"

subsection \<open>Refusals and run errors\<close>

datatype app_refusal_stage =
    StageConfiguration | StageRepositoryResolution | StageCredentialBroker | StageCredentialValidation
  | StagePrincipalBinding | StageRepositoryProbe | StageGitTransport

fun stage_as_str :: "app_refusal_stage \<Rightarrow> string" where
  "stage_as_str StageConfiguration = ''configuration''"
| "stage_as_str StageRepositoryResolution = ''repository_resolution''"
| "stage_as_str StageCredentialBroker = ''credential_broker''"
| "stage_as_str StageCredentialValidation = ''credential_validation''"
| "stage_as_str StagePrincipalBinding = ''principal_binding''"
| "stage_as_str StageRepositoryProbe = ''repository_probe''"
| "stage_as_str StageGitTransport = ''git_transport''"

datatype app_refusal_category =
    CatConfiguration | CatSpawnOrIo | CatTimeout | CatDeadlineExhausted | CatOutputLimit | CatInvalidUtf8
  | CatRequestBudget | CatNonzeroExit | CatInvalidJson | CatInvalidCredential | CatIdentityMismatch
  | CatRepositoryNotFound | CatRepositoryForbidden | CatTokenRejected | CatProviderUnavailable
  | CatProviderUnclassified

fun category_as_str :: "app_refusal_category \<Rightarrow> string" where
  "category_as_str CatConfiguration = ''configuration''"
| "category_as_str CatSpawnOrIo = ''spawn_or_io''"
| "category_as_str CatTimeout = ''timeout''"
| "category_as_str CatDeadlineExhausted = ''deadline_exhausted''"
| "category_as_str CatOutputLimit = ''output_limit''"
| "category_as_str CatInvalidUtf8 = ''invalid_utf8''"
| "category_as_str CatRequestBudget = ''request_budget''"
| "category_as_str CatNonzeroExit = ''nonzero_exit''"
| "category_as_str CatInvalidJson = ''invalid_json''"
| "category_as_str CatInvalidCredential = ''invalid_credential''"
| "category_as_str CatIdentityMismatch = ''identity_mismatch''"
| "category_as_str CatRepositoryNotFound = ''repository_not_found''"
| "category_as_str CatRepositoryForbidden = ''repository_forbidden''"
| "category_as_str CatTokenRejected = ''token_rejected''"
| "category_as_str CatProviderUnavailable = ''provider_unavailable''"
| "category_as_str CatProviderUnclassified = ''provider_unclassified''"

definition category_retryable :: "app_refusal_category \<Rightarrow> bool" where
  "category_retryable k = (k \<in> {CatTimeout, CatDeadlineExhausted, CatRequestBudget, CatProviderUnavailable})"

record app_refusal =
  rf_stage :: app_refusal_stage
  rf_category :: app_refusal_category
  rf_message :: string
  rf_retryable :: bool
  rf_attempts :: nat
  rf_timeout_ms :: "nat option"

definition refusal_new :: "app_refusal_stage \<Rightarrow> app_refusal_category \<Rightarrow> string \<Rightarrow> app_refusal" where
  "refusal_new stage category message =
     \<lparr>rf_stage = stage, rf_category = category, rf_message = message,
      rf_retryable = category_retryable category, rf_attempts = 1, rf_timeout_ms = None\<rparr>"

definition refusal_configuration :: "app_refusal_stage \<Rightarrow> string \<Rightarrow> app_refusal" where
  "refusal_configuration stage message = refusal_new stage CatConfiguration message"

definition with_attempts :: "nat \<Rightarrow> app_refusal \<Rightarrow> app_refusal" where
  "with_attempts n r = r\<lparr>rf_attempts := max (rf_attempts r) n\<rparr>"

definition show_bool :: "bool \<Rightarrow> string" where
  "show_bool b = (if b then ''true'' else ''false'')"

definition refusal_text :: "app_refusal \<Rightarrow> string" where
  "refusal_text r =
     rf_message r @ '' (stage='' @ stage_as_str (rf_stage r) @ '', category='' @ category_as_str (rf_category r)
     @ '', attempts='' @ show_nat (rf_attempts r)
     @ (case rf_timeout_ms r of None \<Rightarrow> [] | Some t \<Rightarrow> '', timeout_ms='' @ show_nat t)
     @ '', retryable='' @ show_bool (rf_retryable r) @ '')''"

record stream_capture_evidence =
  se_limit_bytes :: nat
  se_total_bytes :: nat
  se_truncated :: bool
  se_prefix :: string
  se_suffix :: string

datatype run_error =
    BudgetExceeded command_spec nat nat
  | AppAuthRefused command_spec app_refusal
  | AppGitTransportRefused command_spec app_refusal
  | MutationFenceRefused command_spec command_intent string
  | SpawnError command_spec string
  | InvalidUtf8 command_spec string string
  | OutputLimitExceeded command_spec "int option" stream_capture_evidence stream_capture_evidence
  | DeadlineExceeded command_spec "nat option" nat string string

type_synonym 'a run_result = "run_error + 'a"

fun intent_debug :: "command_intent \<Rightarrow> string" where
  "intent_debug ReadIntent = ''Read''"
| "intent_debug ProviderWrite = ''ProviderWrite''"
| "intent_debug GitWrite = ''GitWrite''"

fun run_error_text :: "run_error \<Rightarrow> string" where
  "run_error_text (BudgetExceeded c limit used) =
     ''`'' @ cs_display c @ ''` would exceed the GitHub request budget ('' @ show_nat used @ ''/''
     @ show_nat limit @ '' already used)''"
| "run_error_text (AppAuthRefused c r) =
     ''GitHub App authentication refused `'' @ cs_display c @ ''`: '' @ refusal_text r"
| "run_error_text (AppGitTransportRefused c r) =
     ''GitHub App git transport refused `'' @ cs_display c @ ''`: '' @ refusal_text r"
| "run_error_text (MutationFenceRefused c intent m) =
     ''remote '' @ intent_debug intent @ '' fence refused `'' @ cs_display c @ ''` before execution: '' @ m"
| "run_error_text (SpawnError c m) = ''could not run `'' @ cs_display c @ ''`: '' @ m"
| "run_error_text (InvalidUtf8 c stream m) =
     ''`'' @ cs_display c @ ''` emitted invalid UTF-8 on '' @ stream @ '': '' @ m"
| "run_error_text (OutputLimitExceeded c code stdout stderr) =
     ''`'' @ cs_display c @ ''` exceeded its output capture bound (stdout '' @ show_nat (se_total_bytes stdout)
     @ ''/'' @ show_nat (se_limit_bytes stdout) @ '', stderr '' @ show_nat (se_total_bytes stderr) @ ''/''
     @ show_nat (se_limit_bytes stderr) @ '')''"
| "run_error_text (DeadlineExceeded c pgid timeout_ms stdout stderr) =
     ''`'' @ cs_display c @ ''` exceeded its '' @ show_nat timeout_ms @ ''ms deadline and was terminated''"

fun app_refusal_of :: "run_error \<Rightarrow> app_refusal option" where
  "app_refusal_of (AppAuthRefused c r) = Some r"
| "app_refusal_of (AppGitTransportRefused c r) = Some r"
| "app_refusal_of _ = None"

text \<open>\<open>from_runner_error\<close>: the category and deadline of an error that is not itself a refusal.\<close>

fun runner_error_category :: "run_error \<Rightarrow> app_refusal_category \<times> nat option" where
  "runner_error_category (DeadlineExceeded c None timeout_ms _ _) = (CatDeadlineExhausted, Some timeout_ms)"
| "runner_error_category (DeadlineExceeded c (Some _) timeout_ms _ _) = (CatTimeout, Some timeout_ms)"
| "runner_error_category (BudgetExceeded _ _ _) = (CatRequestBudget, None)"
| "runner_error_category (OutputLimitExceeded _ _ _ _) = (CatOutputLimit, None)"
| "runner_error_category (InvalidUtf8 _ _ _) = (CatInvalidUtf8, None)"
| "runner_error_category _ = (CatSpawnOrIo, None)"

definition runner_error_message :: "app_refusal_stage \<Rightarrow> app_refusal_category \<Rightarrow> string" where
  "runner_error_message stage category =
     (let subject = (if stage = StageCredentialBroker then ''credential broker''
                     else ''GitHub App exact-repository access probe'')
      in if category = CatTimeout then subject @ '' exceeded its deadline and was terminated''
         else if category = CatDeadlineExhausted
         then subject @ '' was not started: the operation deadline was exhausted''
         else if category = CatRequestBudget then subject @ '' would exceed the GitHub request budget''
         else if category = CatOutputLimit then subject @ '' exceeded its output capture bound''
         else if category = CatInvalidUtf8 then subject @ '' emitted invalid UTF-8''
         else if stage = StageCredentialBroker then ''credential broker could not be executed''
         else ''GitHub App exact-repository access probe hit a transport failure'')"

definition refusal_from_runner_error :: "app_refusal_stage \<Rightarrow> run_error \<Rightarrow> app_refusal" where
  "refusal_from_runner_error stage e =
     (case app_refusal_of e of
        Some r \<Rightarrow> r
      | None \<Rightarrow>
          (let (category, timeout_ms) = runner_error_category e
           in (refusal_new stage category (runner_error_message stage category))
                \<lparr>rf_timeout_ms := timeout_ms\<rparr>))"

subsection \<open>The fenced runner\<close>

text \<open>
  A runner answers a request in a world it may change, and so does a fence. The fenced runner asks
  the fence before every marked write and refuses a request that looks like a write without its mark.
\<close>

type_synonym 'w runner = "'w \<Rightarrow> command_spec \<Rightarrow> 'w \<times> command_output run_result"
type_synonym 'w fence = "'w \<Rightarrow> command_intent \<Rightarrow> 'w \<times> (string + unit)"

definition marked_run :: "'w runner \<Rightarrow> 'w fence \<Rightarrow> 'w runner" where
  "marked_run inner fence w c =
     (if is_write (cs_intent c)
      then (case fence w (cs_intent c) of
              (w', Inl message) \<Rightarrow> (w', Inl (MutationFenceRefused c (cs_intent c) message))
            | (w', Inr _) \<Rightarrow> inner w' c)
      else inner w c)"

definition fenced_run :: "'w runner \<Rightarrow> 'w fence \<Rightarrow> 'w runner" where
  "fenced_run inner fence w c =
     (case inferred_write_intent c of
        Some inferred \<Rightarrow>
          if cs_intent c \<noteq> inferred
          then (w, Inl (MutationFenceRefused c inferred
                  ''write command is missing its explicit mutation-intent marker''))
          else marked_run inner fence w c
      | None \<Rightarrow> marked_run inner fence w c)"

subsection \<open>Budget and deadline\<close>

record request_budget =
  rb_limit :: nat
  rb_used :: nat

definition budget_new :: "nat \<Rightarrow> request_budget" where
  "budget_new limit = \<lparr>rb_limit = limit, rb_used = 0\<rparr>"

definition reserve :: "request_budget \<Rightarrow> command_spec \<Rightarrow> request_budget \<times> unit run_result" where
  "reserve b c =
     (if rb_used b < rb_limit b then (b\<lparr>rb_used := rb_used b + 1\<rparr>, Inr ())
      else (b, Inl (BudgetExceeded c (rb_limit b) (rb_used b))))"

definition minimum_command_budget :: duration where
  "minimum_command_budget = 750 * 10 ^ 6"

definition default_command_timeout :: duration where
  "default_command_timeout = from_secs 30"

text \<open>Instants are nanoseconds of the monotonic clock; \<open>now\<close> is the clock's reading.\<close>

definition remaining_budget :: "nat option \<Rightarrow> nat \<Rightarrow> duration option" where
  "remaining_budget deadline now = map_option (\<lambda>d. d - now) deadline"

definition effective_timeout :: "duration \<Rightarrow> nat option \<Rightarrow> nat \<Rightarrow> command_spec \<Rightarrow> duration run_result" where
  "effective_timeout limit deadline now c =
     (let remaining = remaining_budget deadline now;
          timeout = (case remaining of None \<Rightarrow> limit | Some r \<Rightarrow> min limit r);
          exhausted = (case remaining of None \<Rightarrow> False | Some r \<Rightarrow> r < minimum_command_budget)
      in if timeout = 0 \<or> exhausted
         then Inl (DeadlineExceeded c None (to_u64 (as_millis timeout)) []
                (''operation deadline exhausted before this phase: '' @ show_nat (as_millis timeout)
                 @ ''ms remained, below the '' @ show_nat (as_millis minimum_command_budget)
                 @ ''ms minimum any command can use; raise sync.max_duration_secs or lower sync.max_candidates_per_tick so a tick completes within its budget''))
         else Inr timeout)"

subsection \<open>Bounded capture\<close>

definition output_limit_evidence_bytes :: nat where
  "output_limit_evidence_bytes = 4 * 1024"

definition max_stdout_capture_bytes :: nat where
  "max_stdout_capture_bytes = 32 * 1024 * 1024"

definition max_stderr_capture_bytes :: nat where
  "max_stderr_capture_bytes = 64 * 1024"

record captured_stream =
  cp_bytes :: string
  cp_suffix :: string
  cp_total_bytes :: nat
  cp_truncated :: bool

definition keep_suffix :: "string \<Rightarrow> string \<Rightarrow> string" where
  "keep_suffix suffix chunk =
     (if length chunk \<ge> output_limit_evidence_bytes
      then drop (length chunk - output_limit_evidence_bytes) chunk
      else let joined = suffix @ chunk
           in if length joined > output_limit_evidence_bytes
              then drop (length joined - output_limit_evidence_bytes) joined else joined)"

text \<open>
  The reads of a stream in order: an error, or the bytes of one read. An empty read, or the end of
  the list, is the end of the stream. \<open>usize\<close> is 64 bits wide.
\<close>

fun capture_loop ::
    "nat \<Rightarrow> (string + string) list \<Rightarrow> string \<Rightarrow> string \<Rightarrow> nat \<Rightarrow> string + captured_stream" where
  "capture_loop limit [] captured suffix seen =
     Inr \<lparr>cp_bytes = captured, cp_suffix = suffix, cp_total_bytes = seen,
          cp_truncated = seen > to_u64 limit\<rparr>"
| "capture_loop limit (Inl e # reads) captured suffix seen = Inl e"
| "capture_loop limit (Inr chunk # reads) captured suffix seen =
     (if chunk = []
      then Inr \<lparr>cp_bytes = captured, cp_suffix = suffix, cp_total_bytes = seen,
                cp_truncated = seen > to_u64 limit\<rparr>
      else capture_loop limit reads (captured @ take (limit - length captured) chunk)
             (keep_suffix suffix chunk) (sat_add seen (to_u64 (length chunk))))"

definition capture :: "nat \<Rightarrow> (string + string) list \<Rightarrow> string + captured_stream" where
  "capture limit reads = capture_loop limit reads [] [] 0"

end
