(* ===== verification/App_Auth.thy ===== *)
theory App_Auth
  imports Command
begin

text \<open>
  GitHub authentication of \<open>src/src/command.rs\<close>: naming the repository of a request, the explicit App
  mode with its credential broker, bounded retries and principal binding, the Git transport binding,
  and the order in which the process runner consults them. Child execution, clocks and JSON decoding
  are parameters collected in a record.
\<close>

subsection \<open>Repositories named by text\<close>

datatype git_transport = TransportHttps | TransportHttp | TransportSsh

record github_repository =
  gr_host :: string
  gr_owner :: string
  gr_name :: string
  gr_git_transport :: git_transport

definition cache_key :: "github_repository \<Rightarrow> string" where
  "cache_key r = gr_host r @ ''/'' @ gr_owner r @ ''/'' @ gr_name r"

definition api_path :: "github_repository \<Rightarrow> string" where
  "api_path r = ''repos/'' @ gr_owner r @ ''/'' @ gr_name r"

definition trim_end_char :: "char \<Rightarrow> string \<Rightarrow> string" where
  "trim_end_char c s = rev (dropWhile (\<lambda>x. x = c) (rev s))"

text \<open>\<open>trim_end_matches\<close> with a string pattern removes it as often as it is a suffix.\<close>

function trim_end_str :: "string \<Rightarrow> string \<Rightarrow> string" where
  "trim_end_str p s =
     (if p \<noteq> [] \<and> ends_with s p then trim_end_str p (take (length s - length p) s) else s)"
  by pat_completeness auto
termination by (relation "measure (\<lambda>(p, s). length s)") (auto simp: ends_with_def neq_Nil_conv)

declare trim_end_str.simps [simp del]

definition last_piece :: "char \<Rightarrow> string \<Rightarrow> string" where
  "last_piece c s = last (split_chars (\<lambda>x. x = c) s)"

definition remote_location :: "string \<Rightarrow> (string \<times> string \<times> git_transport) option" where
  "remote_location remote =
     (case strip_prefix ''ssh://'' remote of
        Some rest \<Rightarrow>
          map_option (\<lambda>(authority, path). (last_piece (CHR ''@'') authority, path, TransportSsh)) (split_once ''/'' rest)
      | None \<Rightarrow>
     (case strip_prefix ''https://'' remote of
        Some rest \<Rightarrow>
          (case split_once ''/'' rest of
             None \<Rightarrow> None
           | Some (host, path) \<Rightarrow> if CHR ''@'' \<in> set host then None else Some (host, path, TransportHttps))
      | None \<Rightarrow>
     (case strip_prefix ''http://'' remote of
        Some rest \<Rightarrow>
          (case split_once ''/'' rest of
             None \<Rightarrow> None
           | Some (host, path) \<Rightarrow> if CHR ''@'' \<in> set host then None else Some (host, path, TransportHttp))
      | None \<Rightarrow>
          map_option (\<lambda>(authority, path). (last_piece (CHR ''@'') authority, path, TransportSsh)) (split_once '':'' remote))))"

definition parse_github_remote :: "string \<Rightarrow> github_repository option" where
  "parse_github_remote remote =
     (case remote_location remote of
        None \<Rightarrow> None
      | Some (host, path, transport) \<Rightarrow>
          (case split_chars (\<lambda>x. x = CHR ''/'') (trim_end_str ''.git'' (trim_end_char (CHR ''/'') path)) of
             [owner, name] \<Rightarrow>
               if owner = [] \<or> name = [] then None
               else Some \<lparr>gr_host = host, gr_owner = owner, gr_name = name, gr_git_transport = transport\<rparr>
           | _ \<Rightarrow> None))"

definition is_gh_request :: "command_spec \<Rightarrow> bool" where
  "is_gh_request c = (file_name (cs_program c) = Some ''gh'')"

definition is_remote_git_request :: "command_spec \<Rightarrow> bool" where
  "is_remote_git_request c =
     (file_name (cs_program c) = Some ''git''
      \<and> list_ex (\<lambda>a. a \<in> {''fetch'', ''push'', ''ls-remote'', ''clone''}) (cs_args c))"

definition github_repository_from_slug :: "string \<Rightarrow> github_repository option" where
  "github_repository_from_slug slug =
     (case split_once ''/'' (trim_end_str ''.git'' (trim slug)) of
        None \<Rightarrow> None
      | Some (owner, name) \<Rightarrow>
          if owner = [] \<or> name = [] \<or> CHR ''/'' \<in> set name \<or> hd owner = CHR ''-'' \<or> hd name = CHR ''-''
          then None
          else Some \<lparr>gr_host = ''github.com'', gr_owner = owner, gr_name = name,
                     gr_git_transport = TransportHttps\<rparr>)"

text \<open>The loop over the flags: the first \<open>--repo\<close> or \<open>-R\<close> decides, even when it names nothing.\<close>

fun flag_repository :: "string list \<Rightarrow> github_repository option option" where
  "flag_repository [] = None"
| "flag_repository (a # rest) =
     (if a = ''--repo'' \<or> a = ''-R''
      then Some (case rest of [] \<Rightarrow> None | slug # _ \<Rightarrow> github_repository_from_slug slug)
      else case strip_prefix ''--repo='' a of
             Some slug \<Rightarrow> Some (github_repository_from_slug slug)
           | None \<Rightarrow>
               (case strip_prefix ''-R='' a of
                  Some slug \<Rightarrow> Some (github_repository_from_slug slug)
                | None \<Rightarrow> flag_repository rest))"

definition api_path_repository :: "string \<Rightarrow> github_repository option" where
  "api_path_repository argument =
     (case split_chars (\<lambda>x. x = CHR ''/'') (dropWhile (\<lambda>x. x = CHR ''/'') argument) of
        root # owner # name # _ \<Rightarrow>
          if root = ''repos'' then github_repository_from_slug (owner @ ''/'' @ name) else None
      | _ \<Rightarrow> None)"

definition quote_char :: string where
  "quote_char = [CHR 0x22]"

definition graphql_repository :: "string \<Rightarrow> github_repository option" where
  "graphql_repository argument =
     (case split_once (''repository(owner:'' @ quote_char) argument of
        None \<Rightarrow> None
      | Some (_, tail1) \<Rightarrow>
     (case split_once quote_char tail1 of
        None \<Rightarrow> None
      | Some (owner, tail2) \<Rightarrow>
     (case split_once (''name:'' @ quote_char) tail2 of
        None \<Rightarrow> None
      | Some (_, tail3) \<Rightarrow>
     (case split_once quote_char tail3 of
        None \<Rightarrow> None
      | Some (name, _) \<Rightarrow> github_repository_from_slug (owner @ ''/'' @ name)))))"

definition field_repository :: "string list \<Rightarrow> github_repository option" where
  "field_repository args =
     (case (find_map (strip_prefix ''owner='') args, find_map (strip_prefix ''name='') args) of
        (Some owner, Some name) \<Rightarrow> github_repository_from_slug (owner @ ''/'' @ name)
      | _ \<Rightarrow> None)"

definition api_repository :: "string list \<Rightarrow> github_repository option" where
  "api_repository args =
     (case find_map api_path_repository (tl args) of
        Some r \<Rightarrow> Some r
      | None \<Rightarrow>
          (case find_map graphql_repository args of
             Some r \<Rightarrow> Some r
           | None \<Rightarrow> field_repository args))"

definition explicit_gh_repository :: "command_spec \<Rightarrow> github_repository option" where
  "explicit_gh_repository c =
     (if \<not> is_gh_request c then None
      else case flag_repository (cs_args c) of
             Some r \<Rightarrow> r
           | None \<Rightarrow>
               if cs_first c = Some ''repo'' \<and> cs_second c = Some ''view''
               then (case drop 2 (cs_args c) of
                       [] \<Rightarrow> None
                     | a # _ \<Rightarrow> if starts_with a ''-'' then None else github_repository_from_slug a)
               else if cs_first c = Some ''api'' then api_repository (cs_args c)
               else None)"

fun select_remote :: "string list \<Rightarrow> github_repository option \<Rightarrow> string + github_repository option" where
  "select_remote [] selected = Inr selected"
| "select_remote (a # rest) selected =
     (if redact_url_userinfo a \<noteq> a then Inl ''credential-bearing remote URLs are forbidden in App mode''
      else case parse_github_remote a of
             None \<Rightarrow> select_remote rest selected
           | Some r \<Rightarrow>
               if (case selected of None \<Rightarrow> False
                   | Some s \<Rightarrow> cache_key s \<noteq> cache_key r \<or> gr_git_transport s \<noteq> gr_git_transport r)
               then Inl ''command names more than one repository or transport''
               else select_remote rest (Some r))"

definition explicit_github_repository :: "command_spec \<Rightarrow> string + github_repository option" where
  "explicit_github_repository c = select_remote (cs_args c) None"

definition names_other_remote :: "github_repository \<Rightarrow> string \<Rightarrow> bool" where
  "names_other_remote r a =
     (case parse_github_remote a of
        None \<Rightarrow> False
      | Some e \<Rightarrow> cache_key e \<noteq> cache_key r \<or> gr_git_transport e \<noteq> TransportHttps)"

definition validate_github_app_git_repository :: "github_repository \<Rightarrow> command_spec \<Rightarrow> string + unit" where
  "validate_github_app_git_repository r c =
     (if gr_git_transport r = TransportHttp then Inl ''plaintext HTTP remotes are forbidden in App mode''
      else if list_ex (names_other_remote r) (cs_args c)
      then Inl ''command names a different repository or non-HTTPS remote''
      else Inr ())"

subsection \<open>App mode and credentials\<close>

record app_credential =
  ac_token :: string
  ac_app_slug :: string
  ac_installation_id :: nat
  ac_expires_unix_secs :: nat

definition usable :: "nat \<Rightarrow> app_credential \<Rightarrow> bool" where
  "usable now k = (sat_add now 60 < ac_expires_unix_secs k)"

record app_git_auth =
  ag_credential :: app_credential
  ag_repository :: github_repository

record app_mode =
  am_credential_command :: string
  am_expected_slug :: string
  am_expected_installation_id :: nat

record app_credential_response =
  ar_token :: string
  ar_app_slug :: string
  ar_installation_id :: nat
  ar_repository :: string
  ar_expires_unix_secs :: nat

datatype auth_selection =
    AuthAmbient | AuthToken string | AuthApp app_credential | AuthRefused app_refusal

definition nonempty_trimmed :: "string option \<Rightarrow> string option" where
  "nonempty_trimmed v =
     (case v of None \<Rightarrow> None | Some s \<Rightarrow> if trim s = [] then None else Some (trim s))"

definition github_app_mode_from_values ::
    "string \<Rightarrow> string option \<Rightarrow> string option \<Rightarrow> string option \<Rightarrow> string + app_mode option" where
  "github_app_mode_from_values mode command slug installation =
     (if trim mode \<in> {[], ''ambient''} then Inr None
      else if trim mode = ''app_installation''
      then (case nonempty_trimmed command of
              None \<Rightarrow> Inl ''App mode requires a credential broker command''
            | Some command' \<Rightarrow>
           (case nonempty_trimmed slug of
              None \<Rightarrow> Inl ''App mode requires an expected App slug''
            | Some slug' \<Rightarrow>
           (case Option.bind installation (\<lambda>v. parse_unsigned 64 (trim v)) of
              None \<Rightarrow> Inl ''App mode requires an expected installation ID''
            | Some n \<Rightarrow>
                if n > 0
                then Inr (Some \<lparr>am_credential_command = command', am_expected_slug = slug',
                                am_expected_installation_id = n\<rparr>)
                else Inl ''App mode requires an expected installation ID'')))
      else Inl ''unknown CARA_GITHUB_AUTH_MODE; expected ambient or app_installation'')"

definition validate_github_app_credential ::
    "nat \<Rightarrow> app_credential_response \<Rightarrow> github_repository \<Rightarrow> string + app_credential" where
  "validate_github_app_credential now response r =
     (if trim (ar_token response) = [] then Inl ''credential broker returned an empty token''
      else if ar_repository response \<noteq> gr_owner r @ ''/'' @ gr_name r
      then Inl ''credential broker response names a different repository''
      else if trim (ar_app_slug response) = [] \<or> ar_installation_id response = 0
      then Inl ''credential broker returned invalid App installation identity''
      else let k = \<lparr>ac_token = ar_token response, ac_app_slug = ar_app_slug response,
                    ac_installation_id = ar_installation_id response,
                    ac_expires_unix_secs = ar_expires_unix_secs response\<rparr>
           in if \<not> usable now k then Inl ''credential broker returned an expired or near-expiry token''
              else Inr k)"

type_synonym principals = "string \<rightharpoonup> string \<times> nat"

definition bind_github_app_principal ::
    "principals \<Rightarrow> github_repository \<Rightarrow> app_credential \<Rightarrow> principals \<times> (string + unit)" where
  "bind_github_app_principal ps r k =
     (let expected = (ac_app_slug k, ac_installation_id k)
      in case ps (cache_key r) of
           Some bound \<Rightarrow>
             if bound \<noteq> expected
             then (ps, Inl ''credential refresh changed the bound App installation principal'')
             else (ps, Inr ())
         | None \<Rightarrow> (ps(cache_key r \<mapsto> expected), Inr ()))"

definition to_ascii_lowercase :: "string \<Rightarrow> string" where
  "to_ascii_lowercase s = map ascii_lower s"

definition transient_provider_read_failure :: "string \<Rightarrow> bool" where
  "transient_provider_read_failure stderr =
     (let d = to_ascii_lowercase stderr
      in list_ex (str_contains d) [''http 502'', ''http 503'', ''http 504'', ''status code: 502'',
           ''status code: 503'', ''status code: 504'']
         \<or> (str_contains d ''stream error:'' \<and> str_contains d ''cancel'' \<and> str_contains d ''received from peer'')
         \<or> (str_contains d ''connection reset by peer'' \<or> str_contains d ''connection reset before response''
            \<or> str_contains d ''connection was reset before a response'')
         \<or> str_contains d ''something went wrong while executing your query'')"

definition classify_github_app_repository_access :: "command_output \<Rightarrow> app_refusal + unit" where
  "classify_github_app_repository_access out =
     (let refuse = (\<lambda>category message. Inl (refusal_new StageRepositoryProbe category message));
          d = to_ascii_lowercase (co_stderr out)
      in if is_success out then Inr ()
         else if str_contains d ''http 404'' \<or> str_contains d ''not found''
         then refuse CatRepositoryNotFound
           ''exact repository is absent, renamed, or no longer granted to the selected GitHub App installation''
         else if str_contains d ''http 403'' \<or> str_contains d ''forbidden''
         then refuse CatRepositoryForbidden
           ''selected GitHub App installation lacks an exact repository grant or required metadata permission''
         else if str_contains d ''http 401'' \<or> str_contains d ''bad credentials''
         then refuse CatTokenRejected ''selected GitHub App installation token was rejected by the provider''
         else if transient_provider_read_failure (co_stderr out)
         then refuse CatProviderUnavailable
           ''GitHub App exact-repository access probe hit a transient provider failure''
         else refuse CatProviderUnclassified
           ''GitHub App exact-repository access probe failed with an unclassified provider response'')"

subsection \<open>Bounded retries\<close>

text \<open>
  What the resolution reads of its surroundings: the monotonic clock in nanoseconds, the Unix clock
  in seconds, sleeping, and the strict decoding of the broker's answer.
\<close>

record 'w surroundings =
  su_monotonic :: "'w \<Rightarrow> nat"
  su_unix_secs :: "'w \<Rightarrow> nat"
  su_sleep :: "duration \<Rightarrow> 'w \<Rightarrow> 'w"
  su_decode :: "string \<Rightarrow> app_credential_response option"

record probe_retry =
  pt_attempts :: nat
  pt_backoff :: "duration list"
  pt_operation_deadline :: "nat option"

definition github_app_probe_attempts :: nat where
  "github_app_probe_attempts = 3"

definition github_app_probe_backoff :: "duration list" where
  "github_app_probe_backoff = [500 * 10 ^ 6, 1500 * 10 ^ 6]"

definition production_retry :: "nat option \<Rightarrow> probe_retry" where
  "production_retry deadline = \<lparr>pt_attempts = github_app_probe_attempts,
     pt_backoff = github_app_probe_backoff, pt_operation_deadline = deadline\<rparr>"

definition backoff_delay :: "probe_retry \<Rightarrow> nat \<Rightarrow> duration" where
  "backoff_delay retry attempt =
     (let index = attempt - 1
      in if index < length (pt_backoff retry) then pt_backoff retry ! index
         else if pt_backoff retry = [] then 0 else last (pt_backoff retry))"

definition wait_before_retry ::
    "'w surroundings \<Rightarrow> probe_retry \<Rightarrow> nat \<Rightarrow> app_refusal \<Rightarrow> 'w \<Rightarrow> 'w \<times> bool" where
  "wait_before_retry su retry attempt refusal w =
     (if \<not> category_retryable (rf_category refusal)
         \<or> rf_category refusal \<in> {CatDeadlineExhausted, CatRequestBudget}
         \<or> attempt \<ge> pt_attempts retry
      then (w, False)
      else let delay = backoff_delay retry attempt;
               short = (case pt_operation_deadline retry of
                          None \<Rightarrow> False
                        | Some d \<Rightarrow> d - su_monotonic su w < duration_sat_add delay minimum_command_budget)
           in if short then (w, False)
              else (if delay = 0 then w else su_sleep su delay w, True))"

lemma wait_before_retry_attempt: "wait_before_retry su retry attempt r w = (w', True) \<Longrightarrow> attempt < pt_attempts retry"
  by (auto simp: wait_before_retry_def split: if_splits)

text \<open>
  The retry loop shared by the broker call and the access probe: one attempt is a step of the world
  that answers or refuses.
\<close>

function retry_loop ::
    "'w surroundings \<Rightarrow> probe_retry \<Rightarrow> ('w \<Rightarrow> 'w \<times> (app_refusal + 'a)) \<Rightarrow> nat \<Rightarrow> 'w
     \<Rightarrow> 'w \<times> (app_refusal + 'a \<times> nat)" where
  "retry_loop su retry step attempt w =
     (case step w of
        (w', Inr x) \<Rightarrow> (w', Inr (x, attempt))
      | (w', Inl r) \<Rightarrow>
          (let refusal = with_attempts attempt r
           in case wait_before_retry su retry attempt refusal w' of
                (w'', again) \<Rightarrow>
                  if again then retry_loop su retry step (attempt + 1) w'' else (w'', Inl refusal)))"
  by pat_completeness auto
termination
  by (relation "measure (\<lambda>(su, retry, step, attempt, w). pt_attempts retry - attempt)")
    (auto dest!: wait_before_retry_attempt [OF sym])

declare retry_loop.simps [simp del]

definition broker_step_of :: "'w runner \<Rightarrow> command_spec \<Rightarrow> 'w \<Rightarrow> 'w \<times> (app_refusal + command_output)" where
  "broker_step_of run c w =
     (case run w c of
        (w', Inl e) \<Rightarrow> (w', Inl (refusal_from_runner_error StageCredentialBroker e))
      | (w', Inr out) \<Rightarrow> (w', Inr out))"

definition probe_step_of :: "'w runner \<Rightarrow> command_spec \<Rightarrow> 'w \<Rightarrow> 'w \<times> (app_refusal + unit)" where
  "probe_step_of run c w =
     (case run w c of
        (w', Inl e) \<Rightarrow> (w', Inl (refusal_from_runner_error StageRepositoryProbe e))
      | (w', Inr out) \<Rightarrow> (w', classify_github_app_repository_access out))"

definition github_repository_access_command :: "github_repository \<Rightarrow> string \<Rightarrow> command_spec" where
  "github_repository_access_command r token =
     cs_env ''GH_TOKEN'' token
       (cs_with_args [''api'', ''--hostname'', gr_host r, ''--silent'', api_path r] (cs_new ''gh''))"

definition github_app_token_repository_access ::
    "'w surroundings \<Rightarrow> 'w runner \<Rightarrow> github_repository \<Rightarrow> string \<Rightarrow> probe_retry \<Rightarrow> 'w \<Rightarrow> 'w \<times> (app_refusal + unit)" where
  "github_app_token_repository_access su run r token retry w =
     (case retry_loop su retry (probe_step_of run (github_repository_access_command r token)) 1 w of
        (w', Inl refusal) \<Rightarrow> (w', Inl refusal)
      | (w', Inr _) \<Rightarrow> (w', Inr ()))"

subsection \<open>Resolving an App credential\<close>

definition broker_command :: "github_repository \<Rightarrow> app_mode \<Rightarrow> command_spec" where
  "broker_command r mode =
     cs_env ''CARA_GITHUB_APP_HOST'' (gr_host r)
       (cs_env ''CARA_GITHUB_APP_REPOSITORY'' (gr_owner r @ ''/'' @ gr_name r)
         (cs_new (am_credential_command mode)))"

definition credential_of_output ::
    "'w surroundings \<Rightarrow> nat \<Rightarrow> github_repository \<Rightarrow> app_mode \<Rightarrow> nat \<Rightarrow> command_output
     \<Rightarrow> app_refusal + app_credential" where
  "credential_of_output su now r mode attempts out =
     (if \<not> is_success out
      then Inl (with_attempts attempts (refusal_new StageCredentialBroker CatNonzeroExit
             ''credential broker returned a nonzero exit status''))
      else case su_decode su (co_stdout out) of
             None \<Rightarrow> Inl (with_attempts attempts (refusal_new StageCredentialBroker CatInvalidJson
                      ''credential broker returned invalid JSON''))
           | Some response \<Rightarrow>
               (case validate_github_app_credential now response r of
                  Inl message \<Rightarrow> Inl (refusal_new StageCredentialValidation
                    (if str_contains message ''different repository'' then CatIdentityMismatch
                     else CatInvalidCredential) message)
                | Inr k \<Rightarrow>
                    if ac_app_slug k \<noteq> am_expected_slug mode
                    then Inl (refusal_new StageCredentialValidation CatIdentityMismatch
                           ''credential broker response names a different App slug'')
                    else if ac_installation_id k \<noteq> am_expected_installation_id mode
                    then Inl (refusal_new StageCredentialValidation CatIdentityMismatch
                           ''credential broker response names a different installation'')
                    else Inr k))"

definition resolve_github_app_credential_with ::
    "'w surroundings \<Rightarrow> 'w runner \<Rightarrow> github_repository \<Rightarrow> app_mode \<Rightarrow> probe_retry \<Rightarrow> principals \<Rightarrow> 'w
     \<Rightarrow> principals \<times> 'w \<times> (app_refusal + app_credential)" where
  "resolve_github_app_credential_with su run r mode retry ps w =
     (case retry_loop su retry (broker_step_of run (broker_command r mode)) 1 w of
        (w1, Inl refusal) \<Rightarrow> (ps, w1, Inl refusal)
      | (w1, Inr (out, attempts)) \<Rightarrow>
          (case credential_of_output su (su_unix_secs su w1) r mode attempts out of
             Inl refusal \<Rightarrow> (ps, w1, Inl refusal)
           | Inr k \<Rightarrow>
               (case bind_github_app_principal ps r k of
                  (ps', Inl message) \<Rightarrow>
                    (ps', w1, Inl (refusal_new StagePrincipalBinding CatIdentityMismatch message))
                | (ps', Inr _) \<Rightarrow>
                    (case github_app_token_repository_access su run r (ac_token k) retry w1 of
                       (w2, Inl refusal) \<Rightarrow> (ps', w2, Inl refusal)
                     | (w2, Inr _) \<Rightarrow> (ps', w2, Inr k)))))"

definition resolve_github_app_credential ::
    "'w surroundings \<Rightarrow> 'w runner \<Rightarrow> nat option \<Rightarrow> github_repository \<Rightarrow> app_mode \<Rightarrow> principals \<Rightarrow> 'w
     \<Rightarrow> principals \<times> 'w \<times> (app_refusal + app_credential)" where
  "resolve_github_app_credential su run deadline r mode ps w =
     resolve_github_app_credential_with su run r mode (production_retry deadline) ps w"

end
