(* ===== verification/App_Runner.thy ===== *)
theory App_Runner
  imports App_Auth
begin

text \<open>
  The process runner of \<open>src/src/command.rs\<close> around one child execution: request budget, deadline,
  inference of GitHub authentication with its cache, the child's environment, telemetry, and the
  single refresh after a rejected App token. Spawning, capturing and reaping the child is the
  parameter \<open>pe_child\<close>; JSON parsing is the parameter \<open>pe_json\<close>.
\<close>

subsection \<open>JSON values\<close>

text \<open>The accessors of \<open>serde_json::Value\<close> the sources use. Numbers that are no \<open>u64\<close> are opaque.\<close>

datatype json =
    JNull | JBool bool | JU64 nat | JNumber string | JString string | JArray "json list"
  | JObject "(string \<times> json) list"

fun json_get :: "string \<Rightarrow> json \<Rightarrow> json option" where
  "json_get k (JObject entries) = map_of entries k"
| "json_get k _ = None"

fun json_u64 :: "json \<Rightarrow> nat option" where
  "json_u64 (JU64 n) = Some n"
| "json_u64 _ = None"

fun json_str :: "json \<Rightarrow> string option" where
  "json_str (JString s) = Some s"
| "json_str _ = None"

fun json_bool :: "json \<Rightarrow> bool option" where
  "json_bool (JBool b) = Some b"
| "json_bool _ = None"

fun json_array :: "json \<Rightarrow> json list option" where
  "json_array (JArray xs) = Some xs"
| "json_array _ = None"

subsection \<open>Telemetry\<close>

record rate_limit =
  rl_cost :: nat
  rl_remaining :: nat
  rl_reset_at :: string

record api_telemetry =
  at_authenticated :: "bool option"
  at_auth_source :: "string option"
  at_github_app_slug :: "string option"
  at_github_app_installation_id :: "nat option"
  at_github_app_token_expires_unix_secs :: "nat option"
  at_github_app_git_transport :: "string option"
  at_github_app_git_repository :: "string option"
  at_github_app_refusal_stage :: "string option"
  at_github_app_refusal_category :: "string option"
  at_calls :: nat
  at_graphql_calls :: nat
  at_rest_calls :: nat
  at_gh_cli_calls :: nat
  at_cache_hits :: nat
  at_cache_age_ms :: "nat option"
  at_rate_limit :: "rate_limit option"

definition count_call :: "command_spec \<Rightarrow> api_telemetry \<Rightarrow> api_telemetry" where
  "count_call c t =
     (let t' = t\<lparr>at_calls := sat_add (at_calls t) 1\<rparr>;
          is_api = (cs_first c = Some ''api'')
      in if is_api \<and> ''graphql'' \<in> set (cs_args c) then t'\<lparr>at_graphql_calls := sat_add (at_graphql_calls t) 1\<rparr>
         else if is_api then t'\<lparr>at_rest_calls := sat_add (at_rest_calls t) 1\<rparr>
         else t'\<lparr>at_gh_cli_calls := sat_add (at_gh_cli_calls t) 1\<rparr>)"

definition explicit_token :: "command_spec \<Rightarrow> bool" where
  "explicit_token c = (cs_has_env c ''GH_TOKEN'' \<or> cs_has_env c ''GITHUB_TOKEN'')"

text \<open>\<open>vars\<close> is the process environment, \<open>unresolved\<close> whether the origin was probed and is not GitHub.\<close>

definition auth_source ::
    "(string \<Rightarrow> string option) \<Rightarrow> bool \<Rightarrow> auth_selection option \<Rightarrow> string" where
  "auth_source vars unresolved auth =
     (case auth of
        Some AuthAmbient \<Rightarrow>
          (case vars ''CARA_GITHUB_AUTH_KIND'' of
             None \<Rightarrow> ''ambient_token''
           | Some v \<Rightarrow> if trim v = [] then ''ambient_token'' else v)
      | Some (AuthToken _) \<Rightarrow> ''gh_auth_account''
      | Some (AuthApp _) \<Rightarrow> ''github_app_installation''
      | Some (AuthRefused _) \<Rightarrow> ''github_app_refused''
      | None \<Rightarrow> if unresolved then ''repository_unresolved_from_git_remotes''
                else ''gh_default_or_unauthenticated'')"

definition note_selection :: "auth_selection option \<Rightarrow> api_telemetry \<Rightarrow> api_telemetry" where
  "note_selection auth t =
     (case auth of
        Some (AuthApp k) \<Rightarrow>
          t\<lparr>at_github_app_slug := Some (ac_app_slug k),
            at_github_app_installation_id := Some (ac_installation_id k),
            at_github_app_token_expires_unix_secs := Some (ac_expires_unix_secs k)\<rparr>
      | Some (AuthRefused r) \<Rightarrow>
          t\<lparr>at_github_app_refusal_stage := Some (stage_as_str (rf_stage r)),
            at_github_app_refusal_category := Some (category_as_str (rf_category r))\<rparr>
      | _ \<Rightarrow> t)"

definition selection_authenticates :: "auth_selection option \<Rightarrow> bool" where
  "selection_authenticates auth =
     (case auth of None \<Rightarrow> False | Some (AuthRefused _) \<Rightarrow> False | Some _ \<Rightarrow> True)"

definition record_github_request ::
    "(string \<Rightarrow> string option) \<Rightarrow> bool \<Rightarrow> command_spec \<Rightarrow> auth_selection option \<Rightarrow> api_telemetry \<Rightarrow> api_telemetry" where
  "record_github_request vars unresolved c auth t =
     (if \<not> is_gh_request c then t
      else let t' = (count_call c t)\<lparr>at_authenticated := Some (explicit_token c \<or> selection_authenticates auth)\<rparr>
           in if explicit_token c then t'\<lparr>at_auth_source := Some ''explicit_command_token''\<rparr>
              else (note_selection auth t')\<lparr>at_auth_source := Some (auth_source vars unresolved auth)\<rparr>)"

definition record_github_app_git_transport :: "app_git_auth option \<Rightarrow> api_telemetry \<Rightarrow> api_telemetry" where
  "record_github_app_git_transport auth t =
     (case auth of
        None \<Rightarrow> t
      | Some a \<Rightarrow>
          t\<lparr>at_authenticated := Some True, at_auth_source := Some ''github_app_installation'',
            at_github_app_slug := Some (ac_app_slug (ag_credential a)),
            at_github_app_installation_id := Some (ac_installation_id (ag_credential a)),
            at_github_app_token_expires_unix_secs := Some (ac_expires_unix_secs (ag_credential a)),
            at_github_app_git_transport := Some ''https_credential_helper'',
            at_github_app_git_repository := Some (gr_owner (ag_repository a) @ ''/'' @ gr_name (ag_repository a))\<rparr>)"

definition rate_limit_of :: "json \<Rightarrow> rate_limit option" where
  "rate_limit_of v =
     (case (case Option.bind (json_get ''data'' v) (json_get ''rateLimit'') of
              Some r \<Rightarrow> Some r | None \<Rightarrow> json_get ''rateLimit'' v) of
        None \<Rightarrow> None
      | Some rate \<Rightarrow>
          (case (Option.bind (json_get ''cost'' rate) json_u64, Option.bind (json_get ''remaining'' rate) json_u64,
                 Option.bind (json_get ''resetAt'' rate) json_str) of
             (Some cost, Some remaining, Some reset_at) \<Rightarrow>
               Some \<lparr>rl_cost = cost, rl_remaining = remaining, rl_reset_at = reset_at\<rparr>
           | _ \<Rightarrow> None))"

definition record_github_response ::
    "(string \<Rightarrow> json option) \<Rightarrow> command_spec \<Rightarrow> command_output \<Rightarrow> api_telemetry \<Rightarrow> api_telemetry" where
  "record_github_response parse c out t =
     (if \<not> is_gh_request c \<or> \<not> is_success out then t
      else case Option.bind (parse (co_stdout out)) rate_limit_of of
             None \<Rightarrow> t
           | Some r \<Rightarrow> t\<lparr>at_rate_limit := Some r\<rparr>)"

subsection \<open>Selecting an authentication\<close>

record 'w process_env =
  pe_monotonic :: "'w \<Rightarrow> nat"
  pe_unix_secs :: "'w \<Rightarrow> nat"
  pe_sleep :: "duration \<Rightarrow> 'w \<Rightarrow> 'w"
  pe_vars :: "string \<Rightarrow> string option"
  pe_json :: "string \<Rightarrow> json option"
  pe_credential :: "string \<Rightarrow> app_credential_response option"

text \<open>The caches of the process, the shared request budget and the world outside.\<close>

record 'w process_state =
  st_world :: 'w
  st_budget :: "request_budget option"
  st_cache :: "string \<rightharpoonup> auth_selection option"
  st_principals :: principals
  st_origin_is_github :: "string \<rightharpoonup> bool"
  st_telemetry :: api_telemetry

definition github_app_mode :: "(string \<Rightarrow> string option) \<Rightarrow> string + app_mode option" where
  "github_app_mode vars =
     github_app_mode_from_values (case vars ''CARA_GITHUB_AUTH_MODE'' of None \<Rightarrow> [] | Some v \<Rightarrow> v)
       (vars ''CARA_GITHUB_APP_CREDENTIAL_COMMAND'') (vars ''CARA_GITHUB_APP_SLUG'')
       (vars ''CARA_GITHUB_APP_INSTALLATION_ID'')"

definition surroundings_of :: "'w process_env \<Rightarrow> 'w process_state surroundings" where
  "surroundings_of pe = \<lparr>su_monotonic = (\<lambda>st. pe_monotonic pe (st_world st)),
     su_unix_secs = (\<lambda>st. pe_unix_secs pe (st_world st)),
     su_sleep = (\<lambda>d st. st\<lparr>st_world := pe_sleep pe d (st_world st)\<rparr>), su_decode = pe_credential pe\<rparr>"

type_synonym 'w probe = "'w process_state \<Rightarrow> command_spec \<Rightarrow> 'w process_state \<times> command_output run_result"

definition github_token_for_login ::
    "'w probe \<Rightarrow> github_repository \<Rightarrow> string \<Rightarrow> 'w process_state \<Rightarrow> 'w process_state \<times> string option" where
  "github_token_for_login probe r login st =
     (case probe st (cs_env ''GITHUB_TOKEN'' [] (cs_env ''GH_TOKEN'' []
             (cs_with_args [''auth'', ''token'', ''--hostname'', gr_host r, ''--user'', login] (cs_new ''gh'')))) of
        (st', Inl _) \<Rightarrow> (st', None)
      | (st', Inr out) \<Rightarrow>
          (st', if is_success out \<and> trim (co_stdout out) \<noteq> [] then Some (trim (co_stdout out)) else None))"

definition github_token_can_access ::
    "'w probe \<Rightarrow> github_repository \<Rightarrow> string \<Rightarrow> 'w process_state \<Rightarrow> 'w process_state \<times> bool" where
  "github_token_can_access probe r token st =
     (case probe st (github_repository_access_command r token) of
        (st', Inl _) \<Rightarrow> (st', False)
      | (st', Inr out) \<Rightarrow> (st', is_success out))"

definition account_login :: "bool \<Rightarrow> json \<Rightarrow> string option" where
  "account_login active account =
     (let login = (case Option.bind (json_get ''login'' account) json_str of None \<Rightarrow> [] | Some l \<Rightarrow> l)
      in if Option.bind (json_get ''state'' account) json_str = Some ''success''
            \<and> Option.bind (json_get ''active'' account) json_bool = Some active \<and> login \<noteq> []
         then Some login else None)"

fun push_new :: "string list \<Rightarrow> string list \<Rightarrow> string list" where
  "push_new seen [] = seen"
| "push_new seen (l # ls) = push_new (if l \<in> set seen then seen else seen @ [l]) ls"

definition github_auth_candidates ::
    "(string \<Rightarrow> json option) \<Rightarrow> github_repository \<Rightarrow> string option \<Rightarrow> string list" where
  "github_auth_candidates parse r status =
     (case Option.bind (Option.bind (Option.bind (Option.bind status parse) (json_get ''hosts''))
             (json_get (gr_host r))) json_array of
        None \<Rightarrow> [gr_owner r]
      | Some accounts \<Rightarrow>
          push_new [gr_owner r] (concat (map (\<lambda>active. List.map_filter (account_login active) accounts) [True, False])))"

fun try_logins ::
    "'w probe \<Rightarrow> github_repository \<Rightarrow> string list \<Rightarrow> 'w process_state \<Rightarrow> 'w process_state \<times> auth_selection option" where
  "try_logins probe r [] st = (st, None)"
| "try_logins probe r (login # logins) st =
     (case github_token_for_login probe r login st of
        (st1, None) \<Rightarrow> try_logins probe r logins st1
      | (st1, Some token) \<Rightarrow>
          (case github_token_can_access probe r token st1 of
             (st2, True) \<Rightarrow> (st2, Some (AuthToken token))
           | (st2, False) \<Rightarrow> try_logins probe r logins st2))"

definition set_nonblank :: "string option \<Rightarrow> bool" where
  "set_nonblank v = (case v of None \<Rightarrow> False | Some s \<Rightarrow> trim s \<noteq> [])"

definition status_command :: "github_repository \<Rightarrow> command_spec" where
  "status_command r =
     cs_env ''GITHUB_TOKEN'' [] (cs_env ''GH_TOKEN'' []
       (cs_with_args [''auth'', ''status'', ''--hostname'', gr_host r, ''--json'', ''hosts''] (cs_new ''gh'')))"

definition resolve_account ::
    "'w process_env \<Rightarrow> 'w probe \<Rightarrow> github_repository \<Rightarrow> 'w process_state \<Rightarrow> 'w process_state \<times> auth_selection option" where
  "resolve_account pe probe r st =
     (case try_logins probe r [gr_owner r] st of
        (st1, Some selection) \<Rightarrow> (st1, Some selection)
      | (st1, None) \<Rightarrow>
          (case probe st1 (status_command r) of
             (st2, answer) \<Rightarrow>
               let status = (case answer of Inl _ \<Rightarrow> None
                             | Inr out \<Rightarrow> if is_success out then Some (co_stdout out) else None)
               in try_logins probe r
                    (filter (\<lambda>l. l \<noteq> gr_owner r) (github_auth_candidates (pe_json pe) r status)) st2))"

definition resolve_github_auth_uncached ::
    "'w process_env \<Rightarrow> 'w probe \<Rightarrow> nat option \<Rightarrow> github_repository \<Rightarrow> 'w process_state
     \<Rightarrow> 'w process_state \<times> auth_selection option" where
  "resolve_github_auth_uncached pe probe deadline r st =
     (case github_app_mode (pe_vars pe) of
        Inl message \<Rightarrow> (st, Some (AuthRefused (refusal_configuration StageConfiguration message)))
      | Inr (Some mode) \<Rightarrow>
          (case resolve_github_app_credential (surroundings_of pe) probe deadline r mode (st_principals st) st of
             (ps, st', Inl refusal) \<Rightarrow> (st'\<lparr>st_principals := ps\<rparr>, Some (AuthRefused refusal))
           | (ps, st', Inr k) \<Rightarrow> (st'\<lparr>st_principals := ps\<rparr>, Some (AuthApp k)))
      | Inr None \<Rightarrow>
          if set_nonblank (pe_vars pe ''GH_TOKEN'') \<or> set_nonblank (pe_vars pe ''GITHUB_TOKEN'')
          then (st, Some AuthAmbient)
          else resolve_account pe probe r st)"

definition cached_selection ::
    "bool \<Rightarrow> nat \<Rightarrow> auth_selection option option \<Rightarrow> auth_selection option option" where
  "cached_selection app_mode now entry =
     (case entry of
        None \<Rightarrow> None
      | Some (Some (AuthApp k)) \<Rightarrow> if app_mode \<and> usable now k then entry else None
      | Some _ \<Rightarrow> if app_mode then None else entry)"

definition resolve_github_auth_for_repository ::
    "'w process_env \<Rightarrow> 'w probe \<Rightarrow> nat option \<Rightarrow> github_repository \<Rightarrow> 'w process_state
     \<Rightarrow> 'w process_state \<times> auth_selection option" where
  "resolve_github_auth_for_repository pe probe deadline r st =
     (case cached_selection (github_app_mode (pe_vars pe) \<noteq> Inr None) (pe_unix_secs pe (st_world st))
             (st_cache st (cache_key r)) of
        Some selection \<Rightarrow> (st, selection)
      | None \<Rightarrow>
          (case resolve_github_auth_uncached pe probe deadline r st of
             (st', selection) \<Rightarrow>
               (case selection of
                  Some (AuthRefused _) \<Rightarrow> (st', selection)
                | _ \<Rightarrow> (st'\<lparr>st_cache := (st_cache st')(cache_key r \<mapsto> selection)\<rparr>, selection))))"

subsection \<open>Inference for one request\<close>

record process_runner =
  pn_cwd :: "string option"
  pn_timeout :: duration
  pn_operation_deadline :: "nat option"
  pn_budgeted :: bool
  pn_infer_github_auth :: bool
  pn_github_app_auth_retry :: bool
  pn_stdout_capture_limit :: nat
  pn_stderr_capture_limit :: nat

text \<open>A variable of the child is set, or removed from what it inherits.\<close>

record child_request =
  ch_program :: string
  ch_args :: "string list"
  ch_env :: "(string, string option) btree_map"
  ch_stdin :: "string option"
  ch_cwd :: "string option"
  ch_timeout :: duration
  ch_stdout_limit :: nat
  ch_stderr_limit :: nat

type_synonym 'w child = "'w \<Rightarrow> command_spec \<Rightarrow> child_request \<Rightarrow> 'w \<times> command_output run_result"

text \<open>\<open>depth\<close> counts the enclosing operations that disable inference for this thread.\<close>

definition in_directory :: "nat \<Rightarrow> string \<Rightarrow> process_runner" where
  "in_directory depth path = \<lparr>pn_cwd = Some path, pn_timeout = default_command_timeout, pn_operation_deadline = None,
     pn_budgeted = False, pn_infer_github_auth = (depth = 0), pn_github_app_auth_retry = True,
     pn_stdout_capture_limit = max_stdout_capture_bytes, pn_stderr_capture_limit = max_stderr_capture_bytes\<rparr>"

definition with_timeout :: "duration \<Rightarrow> process_runner \<Rightarrow> process_runner" where
  "with_timeout d pn = pn\<lparr>pn_timeout := max d (10 ^ 6)\<rparr>"

definition github_account_probe_timeout :: duration where
  "github_account_probe_timeout = from_secs 5"

definition github_auth_probe_timeout :: "duration \<Rightarrow> bool \<Rightarrow> duration" where
  "github_auth_probe_timeout caller app_mode =
     (if app_mode then caller else min caller github_account_probe_timeout)"

definition auth_probe_runner ::
    "(string \<Rightarrow> string option) \<Rightarrow> string \<Rightarrow> duration \<Rightarrow> nat option \<Rightarrow> process_runner" where
  "auth_probe_runner vars cwd caller deadline =
     (let app_mode = (case github_app_mode vars of Inr (Some _) \<Rightarrow> True | _ \<Rightarrow> False)
      in (with_timeout (github_auth_probe_timeout caller app_mode) (in_directory 0 cwd))
           \<lparr>pn_infer_github_auth := False, pn_operation_deadline := deadline\<rparr>)"

definition reserve_for ::
    "process_runner \<Rightarrow> command_spec \<Rightarrow> 'w process_state \<Rightarrow> 'w process_state \<times> unit run_result" where
  "reserve_for pn c st =
     (if is_gh_request c \<and> pn_budgeted pn
      then (case st_budget st of
              None \<Rightarrow> (st, Inr ())
            | Some b \<Rightarrow> (case reserve b c of (b', r) \<Rightarrow> (st\<lparr>st_budget := Some b'\<rparr>, r)))
      else (st, Inr ()))"

definition base_env :: "command_spec \<Rightarrow> (string, string option) btree_map" where
  "base_env c = (case cs_io c of None \<Rightarrow> [] | Some i \<Rightarrow> bt_map_values Some (ci_env i))"

definition child_of ::
    "process_runner \<Rightarrow> command_spec \<Rightarrow> (string, string option) btree_map \<Rightarrow> duration \<Rightarrow> child_request" where
  "child_of pn c env timeout =
     \<lparr>ch_program = cs_program c, ch_args = cs_args c, ch_env = env,
      ch_stdin = Option.bind (cs_io c) ci_stdin, ch_cwd = pn_cwd pn, ch_timeout = timeout,
      ch_stdout_limit = pn_stdout_capture_limit pn, ch_stderr_limit = pn_stderr_capture_limit pn\<rparr>"

definition run_child ::
    "'w child \<Rightarrow> process_runner \<Rightarrow> command_spec \<Rightarrow> (string, string option) btree_map \<Rightarrow> duration
     \<Rightarrow> 'w process_state \<Rightarrow> 'w process_state \<times> command_output run_result" where
  "run_child child pn c env timeout st =
     (case child (st_world st) c (child_of pn c env timeout) of (w, r) \<Rightarrow> (st\<lparr>st_world := w\<rparr>, r))"

text \<open>A runner without inference, as the probes use it; its telemetry is its own.\<close>

definition probe_run :: "'w process_env \<Rightarrow> 'w child \<Rightarrow> process_runner \<Rightarrow> 'w probe" where
  "probe_run pe child pn st c =
     (case reserve_for pn c st of
        (st1, Inl e) \<Rightarrow> (st1, Inl e)
      | (st1, Inr _) \<Rightarrow>
          (case effective_timeout (pn_timeout pn) (pn_operation_deadline pn) (pe_monotonic pe (st_world st1)) c of
             Inl e \<Rightarrow> (st1, Inl e)
           | Inr timeout \<Rightarrow> run_child child pn c (base_env c) timeout st1))"

definition sole_remote :: "string \<Rightarrow> github_repository option" where
  "sole_remote stdout =
     (case filter (\<lambda>url. trim url \<noteq> []) (lines_of stdout) of
        [url] \<Rightarrow> parse_github_remote url
      | _ \<Rightarrow> None)"

definition discover_github_repository ::
    "'w probe \<Rightarrow> string \<Rightarrow> 'w process_state \<Rightarrow> 'w process_state \<times> github_repository option" where
  "discover_github_repository probe cwd st =
     (case probe st (cs_with_args [''config'', ''--get-all'', ''remote.origin.url''] (cs_new ''git'')) of
        (st', Inl _) \<Rightarrow> (st', None)
      | (st', Inr out) \<Rightarrow>
          if \<not> is_success out then (st', None)
          else let parsed = sole_remote (co_stdout out)
               in (st'\<lparr>st_origin_is_github := (st_origin_is_github st')(cwd \<mapsto> parsed \<noteq> None)\<rparr>, parsed))"

definition runner_cwd :: "process_runner \<Rightarrow> string" where
  "runner_cwd pn = (case pn_cwd pn of None \<Rightarrow> ''.'' | Some d \<Rightarrow> d)"

definition probe_runner_for :: "'w process_env \<Rightarrow> process_runner \<Rightarrow> process_runner" where
  "probe_runner_for pe pn = auth_probe_runner (pe_vars pe) (runner_cwd pn) (pn_timeout pn) (pn_operation_deadline pn)"

definition request_repository ::
    "'w probe \<Rightarrow> process_runner \<Rightarrow> command_spec \<Rightarrow> 'w process_state
     \<Rightarrow> 'w process_state \<times> github_repository option" where
  "request_repository probe pn c st =
     (case explicit_gh_repository c of
        Some r \<Rightarrow> (st, Some r)
      | None \<Rightarrow> discover_github_repository probe (runner_cwd pn) st)"

definition inferred_github_auth ::
    "'w process_env \<Rightarrow> 'w child \<Rightarrow> process_runner \<Rightarrow> command_spec \<Rightarrow> 'w process_state
     \<Rightarrow> 'w process_state \<times> auth_selection option" where
  "inferred_github_auth pe child pn c st =
     (if \<not> pn_infer_github_auth pn \<or> \<not> is_gh_request c \<or> explicit_token c then (st, None)
      else let probe = probe_run pe child ((probe_runner_for pe pn)\<lparr>pn_budgeted := pn_budgeted pn\<rparr>);
               resolve = resolve_github_auth_for_repository pe probe (pn_operation_deadline pn)
           in case request_repository probe pn c st of
                (st1, repository) \<Rightarrow>
                  (case github_app_mode (pe_vars pe) of
                     Inl message \<Rightarrow> (st1, Some (AuthRefused (refusal_configuration StageConfiguration message)))
                   | Inr (Some _) \<Rightarrow>
                       (case (case repository of None \<Rightarrow> (st1, None) | Some r \<Rightarrow> resolve r st1) of
                          (st2, selection) \<Rightarrow>
                            (st2, Some (case selection of
                               Some s \<Rightarrow> s
                             | None \<Rightarrow> AuthRefused (refusal_configuration StageRepositoryResolution
                                 ''App mode could not resolve the exact repository from the request or checkout''))))
                   | Inr None \<Rightarrow>
                       (case repository of
                          None \<Rightarrow> (st1, None)
                        | Some r \<Rightarrow> resolve r st1)))"

definition validate_github_app_git_configuration ::
    "'w probe \<Rightarrow> 'w process_state \<Rightarrow> 'w process_state \<times> (string + unit)" where
  "validate_github_app_git_configuration probe st =
     (case probe st (cs_with_args [''config'', ''--get-regexp'',
             ''^(url'' @ [CHR 0x5C] @ ''..*'' @ [CHR 0x5C] @ ''.insteadof|remote'' @ [CHR 0x5C] @ ''..*'' @ [CHR 0x5C]
             @ ''.pushurl|http'' @ [CHR 0x5C] @ ''..*'' @ [CHR 0x5C] @ ''.sslverify)$''] (cs_new ''git'')) of
        (st', Inl _) \<Rightarrow> (st', Inl ''could not inspect Git transport configuration'')
      | (st', Inr out) \<Rightarrow>
          (st', if co_code out \<in> {Some 0, Some 1} \<and> trim (co_stdout out) = [] then Inr ()
                else if co_code out = Some 0
                then Inl ''Git URL rewrites, pushurl, and URL-specific TLS overrides are forbidden in App mode''
                else Inl ''could not inspect Git transport configuration''))"

definition transport_refusal :: "string \<Rightarrow> app_refusal" where
  "transport_refusal message = refusal_configuration StageGitTransport message"

definition git_repository_of :: "command_spec \<Rightarrow> github_repository option \<Rightarrow> app_refusal + github_repository" where
  "git_repository_of c origin =
     (case explicit_github_repository c of
        Inl message \<Rightarrow> Inl (transport_refusal message)
      | Inr explicit \<Rightarrow>
          (case (case explicit of Some r \<Rightarrow> Some r | None \<Rightarrow> origin) of
             None \<Rightarrow> Inl (refusal_configuration StageRepositoryResolution
                      ''no exact GitHub repository remote is available'')
           | Some r \<Rightarrow>
               (case validate_github_app_git_repository r c of
                  Inl message \<Rightarrow> Inl (transport_refusal message)
                | Inr _ \<Rightarrow> Inr r)))"

definition git_auth_of_selection :: "github_repository \<Rightarrow> auth_selection option \<Rightarrow> app_refusal + app_git_auth option" where
  "git_auth_of_selection r selection =
     (case selection of
        Some (AuthApp k) \<Rightarrow> Inr (Some \<lparr>ag_credential = k, ag_repository = r\<rparr>)
      | Some (AuthRefused refusal) \<Rightarrow> Inl refusal
      | _ \<Rightarrow> Inl (transport_refusal ''App mode did not resolve an installation credential''))"

definition inferred_github_app_git_auth ::
    "'w process_env \<Rightarrow> 'w child \<Rightarrow> process_runner \<Rightarrow> command_spec \<Rightarrow> 'w process_state
     \<Rightarrow> 'w process_state \<times> (app_refusal + app_git_auth option)" where
  "inferred_github_app_git_auth pe child pn c st =
     (if \<not> pn_infer_github_auth pn \<or> \<not> is_remote_git_request c then (st, Inr None)
      else case github_app_mode (pe_vars pe) of
             Inl message \<Rightarrow> (st, Inl (refusal_configuration StageConfiguration message))
           | Inr None \<Rightarrow> (st, Inr None)
           | Inr (Some _) \<Rightarrow>
               let probe = probe_run pe child (probe_runner_for pe pn)
               in case discover_github_repository probe (runner_cwd pn) st of
                    (st1, origin) \<Rightarrow>
                      (case git_repository_of c origin of
                         Inl refusal \<Rightarrow> (st1, Inl refusal)
                       | Inr r \<Rightarrow>
                           (case validate_github_app_git_configuration probe st1 of
                              (st2, Inl message) \<Rightarrow> (st2, Inl (transport_refusal message))
                            | (st2, Inr _) \<Rightarrow>
                                (case resolve_github_auth_for_repository pe probe (pn_operation_deadline pn) r st2 of
                                   (st3, selection) \<Rightarrow> (st3, git_auth_of_selection r selection)))))"

subsection \<open>Running a request\<close>

definition github_app_git_token_env :: string where
  "github_app_git_token_env = ''CARA_GITHUB_APP_GIT_TOKEN''"

definition github_app_git_credential_helper :: string where
  "github_app_git_credential_helper =
     ''!f() { if test '' @ quote_char @ ''$1'' @ quote_char @ '' = get; then printf '' @ [CHR 0x27] @ ''%s''
     @ [CHR 0x5C] @ ''n'' @ [CHR 0x27] @ '' '' @ [CHR 0x27] @ ''username=x-access-token'' @ [CHR 0x27] @ '' ''
     @ quote_char @ ''password=$CARA_GITHUB_APP_GIT_TOKEN'' @ quote_char @ ''; fi; }; f''"

definition github_app_git_environment :: "app_git_auth \<Rightarrow> (string, string) btree_map" where
  "github_app_git_environment auth =
     (let environment = fold (\<lambda>(k, v). bt_insert k v)
        [(github_app_git_token_env, ac_token (ag_credential auth)), (''GIT_TERMINAL_PROMPT'', ''0''),
         (''GCM_INTERACTIVE'', ''Never''), (''GIT_CONFIG_COUNT'', ''5''),
         (''GIT_CONFIG_KEY_0'', ''credential.helper''), (''GIT_CONFIG_VALUE_0'', []),
         (''GIT_CONFIG_KEY_1'', ''credential.helper''), (''GIT_CONFIG_VALUE_1'', github_app_git_credential_helper),
         (''GIT_CONFIG_KEY_2'', ''credential.useHttpPath''), (''GIT_CONFIG_VALUE_2'', ''true''),
         (''GIT_CONFIG_KEY_3'', ''core.hooksPath''), (''GIT_CONFIG_VALUE_3'', ''/dev/null''),
         (''GIT_CONFIG_KEY_4'', ''http.sslVerify''), (''GIT_CONFIG_VALUE_4'', ''true'')] [];
          r = ag_repository auth
      in if gr_git_transport r = TransportSsh
         then bt_insert ''GIT_CONFIG_VALUE_5'' (''https://'' @ gr_host r @ ''/'' @ gr_owner r @ ''/'' @ gr_name r @ ''.git'')
                (bt_insert ''GIT_CONFIG_KEY_5'' ''remote.origin.url''
                  (bt_insert ''GIT_CONFIG_COUNT'' ''6'' environment))
         else environment)"

definition removed_git_variables :: "string list" where
  "removed_git_variables =
     [''GIT_SSL_NO_VERIFY'', ''GIT_TRACE'', ''GIT_TRACE_CURL'', ''GIT_CURL_VERBOSE'', ''GIT_CONFIG_PARAMETERS'']"

definition child_env ::
    "command_spec \<Rightarrow> auth_selection option \<Rightarrow> app_git_auth option \<Rightarrow> (string, string option) btree_map" where
  "child_env c auth git_auth =
     (let env1 = (case auth of
                    Some (AuthToken token) \<Rightarrow> bt_insert ''GH_TOKEN'' (Some token) (base_env c)
                  | Some (AuthApp k) \<Rightarrow> bt_insert ''GH_TOKEN'' (Some (ac_token k)) (base_env c)
                  | _ \<Rightarrow> base_env c)
      in case git_auth of
           None \<Rightarrow> env1
         | Some a \<Rightarrow>
             fold (\<lambda>(k, v). bt_insert k (Some v)) (github_app_git_environment a)
               (fold (\<lambda>k. bt_insert k None) removed_git_variables env1))"

definition should_refresh_github_app_auth :: "auth_selection option \<Rightarrow> command_output \<Rightarrow> bool \<Rightarrow> bool" where
  "should_refresh_github_app_auth auth out retry_allowed =
     (retry_allowed \<and> (case auth of Some (AuthApp _) \<Rightarrow> True | _ \<Rightarrow> False) \<and> co_code out = Some 1
      \<and> (str_contains (co_stderr out) ''HTTP 401''
         \<or> str_contains (to_ascii_lowercase (co_stderr out)) ''bad credentials''))"

definition should_refresh_github_app_git_auth :: "app_git_auth option \<Rightarrow> command_output \<Rightarrow> bool \<Rightarrow> bool" where
  "should_refresh_github_app_git_auth git_auth out retry_allowed =
     (if \<not> retry_allowed \<or> git_auth = None \<or> is_success out then False
      else let stderr = to_ascii_lowercase (co_stderr out)
           in str_contains stderr ''authentication failed'' \<or> str_contains stderr ''bad credentials''
              \<or> str_contains stderr ''http 401'' \<or> str_contains stderr ''could not read username'')"

definition invalidate_github_app_auth_cache :: "'w process_state \<Rightarrow> 'w process_state" where
  "invalidate_github_app_auth_cache st =
     st\<lparr>st_cache := (\<lambda>k. case st_cache st k of Some (Some (AuthApp _)) \<Rightarrow> None | entry \<Rightarrow> entry)\<rparr>"

definition origin_is_not_github :: "process_runner \<Rightarrow> 'w process_state \<Rightarrow> bool" where
  "origin_is_not_github pn st =
     (case pn_cwd pn of None \<Rightarrow> False | Some d \<Rightarrow> st_origin_is_github st d = Some False)"

text \<open>
  One attempt at a request: everything up to the end of the child, with the authentication that was
  used for it.
\<close>

definition run_authenticated ::
    "'w process_env \<Rightarrow> 'w child \<Rightarrow> process_runner \<Rightarrow> command_spec \<Rightarrow> duration
     \<Rightarrow> auth_selection option \<Rightarrow> app_git_auth option \<Rightarrow> 'w process_state
     \<Rightarrow> 'w process_state \<times> (command_output \<times> auth_selection option \<times> app_git_auth option) run_result" where
  "run_authenticated pe child pn c timeout auth git_auth st =
     (let st' = st\<lparr>st_telemetry := record_github_app_git_transport git_auth
                 (record_github_request (pe_vars pe) (origin_is_not_github pn st) c auth (st_telemetry st))\<rparr>
      in case auth of
           Some (AuthRefused refusal) \<Rightarrow> (st', Inl (AppAuthRefused c refusal))
         | _ \<Rightarrow>
             (case run_child child pn c (child_env c auth git_auth) timeout st' of
                (st'', Inl e) \<Rightarrow> (st'', Inl e)
              | (st'', Inr out) \<Rightarrow> (st'', Inr (out, auth, git_auth))))"

definition run_attempt ::
    "'w process_env \<Rightarrow> 'w child \<Rightarrow> process_runner \<Rightarrow> command_spec \<Rightarrow> 'w process_state
     \<Rightarrow> 'w process_state \<times> (command_output \<times> auth_selection option \<times> app_git_auth option) run_result" where
  "run_attempt pe child pn c st =
     (case reserve_for pn c st of
        (st1, Inl e) \<Rightarrow> (st1, Inl e)
      | (st1, Inr _) \<Rightarrow>
          (case effective_timeout (pn_timeout pn) (pn_operation_deadline pn) (pe_monotonic pe (st_world st1)) c of
             Inl e \<Rightarrow> (st1, Inl e)
           | Inr timeout \<Rightarrow>
               (case inferred_github_auth pe child pn c st1 of
                  (st2, auth) \<Rightarrow>
                    (case inferred_github_app_git_auth pe child pn c st2 of
                       (st3, Inl refusal) \<Rightarrow> (st3, Inl (AppGitTransportRefused c refusal))
                     | (st3, Inr git_auth) \<Rightarrow> run_authenticated pe child pn c timeout auth git_auth st3))))"

definition finish_run ::
    "'w process_env \<Rightarrow> command_spec \<Rightarrow> command_output \<Rightarrow> 'w process_state \<Rightarrow> 'w process_state" where
  "finish_run pe c out st = st\<lparr>st_telemetry := record_github_response (pe_json pe) c out (st_telemetry st)\<rparr>"

text \<open>The retry runs with retrying switched off, so it is the last attempt.\<close>

definition process_run :: "'w process_env \<Rightarrow> 'w child \<Rightarrow> process_runner \<Rightarrow> 'w probe" where
  "process_run pe child pn st c =
     (case run_attempt pe child pn c st of
        (st1, Inl e) \<Rightarrow> (st1, Inl e)
      | (st1, Inr (out, auth, git_auth)) \<Rightarrow>
          if should_refresh_github_app_auth auth out (pn_github_app_auth_retry pn)
             \<or> should_refresh_github_app_git_auth git_auth out (pn_github_app_auth_retry pn)
          then (case run_attempt pe child (pn\<lparr>pn_github_app_auth_retry := False\<rparr>) c
                       (invalidate_github_app_auth_cache st1) of
                  (st2, Inl e) \<Rightarrow> (st2, Inl e)
                | (st2, Inr (out', _, _)) \<Rightarrow> (finish_run pe c out' st2, Inr out'))
          else (finish_run pe c out st1, Inr out))"

end
