(* ===== verification/Compat_Git.thy ===== *)
theory Compat_Git
  imports Squash_Analysis App_Runner
begin

text \<open>
  Exact-revision Git work of \<open>src/src/compatibility.rs\<close>: the checks of a remote, a branch name and an
  object id, the proof that the remote advertises a revision before and after it is fetched, the
  batch preparation of a branch set, and the merge report of two prepared revisions. Fetching changes
  the object database, so a command runs in a world it may change; the pure parsers of theory
  \<open>Git\<close> read each answer.
\<close>

subsection \<open>Actions\<close>

type_synonym 'w git_io = "'w \<Rightarrow> git_command \<Rightarrow> 'w \<times> (command_run_error + command_output)"
type_synonym ('w, 'a) action = "'w \<Rightarrow> 'w \<times> 'a result"

definition act_of :: "'a result \<Rightarrow> ('w, 'a) action" where
  "act_of r w = (w, r)"

definition act_then :: "('w, 'a) action \<Rightarrow> ('a \<Rightarrow> ('w, 'b) action) \<Rightarrow> ('w, 'b) action" where
  "act_then m f w = (case m w of (w', Inl e) \<Rightarrow> (w', Inl e) | (w', Inr x) \<Rightarrow> f x w')"

text \<open>\<open>.ok()\<close>: a failure becomes \<open>None\<close>.\<close>

definition act_ok :: "('w, 'a) action \<Rightarrow> ('w, 'a option) action" where
  "act_ok m w = (case m w of (w', Inl e) \<Rightarrow> (w', Inr None) | (w', Inr x) \<Rightarrow> (w', Inr (Some x)))"

fun act_each :: "('a \<Rightarrow> ('w, 'b) action) \<Rightarrow> 'a list \<Rightarrow> ('w, 'b list) action" where
  "act_each f [] = act_of (Inr [])"
| "act_each f (x # xs) = act_then (f x) (\<lambda>y. act_then (act_each f xs) (\<lambda>ys. act_of (Inr (y # ys))))"

lemma act_of_Inr [simp]: "act_of r w = (w', Inr y) \<longleftrightarrow> w' = w \<and> r = Inr y"
  by (auto simp: act_of_def)

lemma act_then_Inr:
  "act_then m f w = (w', Inr y) \<longleftrightarrow> (\<exists>v x. m w = (v, Inr x) \<and> f x v = (w', Inr y))"
  by (auto simp: act_then_def split: prod.splits sum.splits)

lemma act_each_Inr:
  "act_each f xs w = (w', Inr ys) \<Longrightarrow> list_all2 (\<lambda>x y. \<exists>v v'. f x v = (v', Inr y)) xs ys"
  by (induction xs arbitrary: w ys) (auto simp: act_then_Inr)

subsection \<open>Running Git\<close>

definition run_io :: "'w git_io \<Rightarrow> git_command \<Rightarrow> ('w, command_output) action" where
  "run_io io command w =
     (case io w command of
        (w', Inl e) \<Rightarrow> (w', Inl (command_run_error_of e))
      | (w', Inr out) \<Rightarrow> (w', Inr out))"

definition io_output :: "'w git_io \<Rightarrow> string list \<Rightarrow> ('w, command_output) action" where
  "io_output io args = run_io io \<lparr>gc_args = args, gc_stdin = None\<rparr>"

lemma io_output_Inr:
  "io_output io args w = (w', Inr out) \<longleftrightarrow> io w \<lparr>gc_args = args, gc_stdin = None\<rparr> = (w', Inr out)"
  by (auto simp: io_output_def run_io_def split: prod.splits sum.splits)

text \<open>
  A request run by the process runner of \<open>src/src/command.rs\<close> in a checkout: \<open>git\<close> with the
  arguments and the standard input of the request, and the three kinds of failure the Git layer
  distinguishes.
\<close>

definition git_spec :: "git_command \<Rightarrow> command_spec" where
  "git_spec command =
     (let spec = cs_with_args (gc_args command) (cs_new ''git'')
      in case gc_stdin command of None \<Rightarrow> spec | Some input \<Rightarrow> cs_stdin input spec)"

fun git_run_error :: "run_error \<Rightarrow> command_run_error" where
  "git_run_error (OutputLimitExceeded c code stdout stderr) =
     OutputLimit (run_error_text (OutputLimitExceeded c code stdout stderr))"
| "git_run_error (DeadlineExceeded c pgid timeout_ms stdout stderr) =
     RunTimeout (run_error_text (DeadlineExceeded c pgid timeout_ms stdout stderr))"
| "git_run_error e = OtherRunError (run_error_text e)"

definition process_git_io :: "'w process_env \<Rightarrow> 'w child \<Rightarrow> process_runner \<Rightarrow> 'w process_state git_io" where
  "process_git_io pe child pn st command =
     (case process_run pe child pn st (git_spec command) of
        (st', Inl e) \<Rightarrow> (st', Inl (git_run_error e))
      | (st', Inr out) \<Rightarrow> (st', Inr out))"

subsection \<open>Request validation\<close>

definition contains_line_break :: "string \<Rightarrow> bool" where
  "contains_line_break v = (CHR 0x0A \<in> set v \<or> CHR 0x0D \<in> set v)"

definition validate_remote :: "string \<Rightarrow> unit result" where
  "validate_remote remote =
     (if trim remote = [] \<or> starts_with remote ''-'' \<or> contains_line_break remote
      then Inl (app_validation ''invalid_remote''
             (''a Git remote must be non-empty, single-line, and must not begin with '' @ [CHR 0x27] @ ''-'' @ [CHR 0x27]))
      else Inr ())"

definition validate_expected_oid :: "string \<Rightarrow> unit result" where
  "validate_expected_oid expected =
     (if valid_full_oid expected then Inr ()
      else Inl (app_validation ''invalid_expected_oid''
             ''an expected Git object ID must be a full 40- or 64-digit hexadecimal value''))"

definition branch_reference :: "'w git_io \<Rightarrow> string \<Rightarrow> ('w, string) action" where
  "branch_reference io branch =
     (if trim branch = [] \<or> contains_line_break branch
      then act_of (Inl (app_validation ''invalid_branch_name'' ''a branch name must be non-empty and single-line''))
      else let reference = ''refs/heads/'' @ branch
           in act_then (io_output io [''check-ref-format'', reference]) (\<lambda>out.
                act_of (if is_success out then Inr reference
                        else Inl (app_validation ''invalid_branch_name''
                               (''`'' @ branch @ ''` is not a valid Git branch name'')))))"

definition parse_single_oid :: "string \<Rightarrow> command_output \<Rightarrow> string result" where
  "parse_single_oid command out =
     (let oid = trim (co_stdout out)
      in if valid_full_oid oid then Inr oid
         else Inl (malformed_git_output ''git_oid_output_invalid''
                (command @ '' did not return one full object ID'')))"

subsection \<open>The checkout and its remote\<close>

text \<open>The trimmed answer of a probe that may fail.\<close>

definition probe_text :: "'w git_io \<Rightarrow> string list \<Rightarrow> ('w, string option) action" where
  "probe_text io args =
     act_then (act_ok (io_output io args)) (\<lambda>probe.
       act_of (Inr (case probe of
         None \<Rightarrow> None
       | Some out \<Rightarrow> if is_success out \<and> trim (co_stdout out) \<noteq> [] then Some (trim (co_stdout out)) else None)))"

definition remote_url :: "'w git_io \<Rightarrow> string \<Rightarrow> ('w, string option) action" where
  "remote_url io remote = probe_text io [''remote'', ''get-url'', remote]"

definition checkout_filter :: "'w git_io \<Rightarrow> string \<Rightarrow> ('w, string option) action" where
  "checkout_filter io remote = probe_text io [''config'', ''--get'', ''remote.'' @ remote @ ''.partialclonefilter'']"

definition shallow_probe :: "'w git_io \<Rightarrow> ('w, bool) action" where
  "shallow_probe io =
     act_then (act_ok (io_output io [''rev-parse'', ''--is-shallow-repository''])) (\<lambda>probe.
       act_of (Inr (case probe of
         None \<Rightarrow> False
       | Some out \<Rightarrow> is_success out \<and> trim (co_stdout out) = ''true'')))"

definition github_url_prefixes :: "string list" where
  "github_url_prefixes =
     [''https://github.com/'', ''http://github.com/'', ''ssh://git@github.com/'', ''git@github.com:'']"

definition github_repository_from_url :: "string \<Rightarrow> (string \<times> string) option" where
  "github_repository_from_url url =
     (case find_map (\<lambda>p. strip_prefix p url) github_url_prefixes of
        None \<Rightarrow> None
      | Some path \<Rightarrow>
          (case split_once ''/'' (trim_end_str ''.git'' (trim_end_char (CHR ''/'') path)) of
             None \<Rightarrow> None
           | Some (owner, name) \<Rightarrow>
               if owner \<noteq> [] \<and> name \<noteq> [] \<and> CHR ''/'' \<notin> set name then Some (owner, name) else None))"

definition validate_checkout_remote_identity ::
    "'w git_io \<Rightarrow> string \<Rightarrow> repository_id \<Rightarrow> ('w, unit) action" where
  "validate_checkout_remote_identity io remote expected =
     act_then (remote_url io remote) (\<lambda>url.
       act_of (case Option.bind url github_repository_from_url of
         None \<Rightarrow> Inr ()
       | Some (owner, name) \<Rightarrow>
           if eq_ignore_ascii_case owner (repo_owner expected) \<and> eq_ignore_ascii_case name (repo_name expected)
           then Inr ()
           else Inl (app_structured Validation ''checkout_repository_mismatch''
                  ''the compatibility remote points at a different provider repository'')))"

subsection \<open>Advertised revisions\<close>

definition tab :: string where
  "tab = [CHR 0x09]"

text \<open>The lines of \<open>ls-remote\<close>: object id, tab, reference.\<close>

definition advertised_rows :: "string \<Rightarrow> (string \<times> string) list" where
  "advertised_rows stdout = List.map_filter (split_once tab) (lines_of stdout)"

definition not_advertised :: "string \<Rightarrow> string \<Rightarrow> app_error" where
  "not_advertised remote reference =
     app_structured TargetNotFound ''remote_ref_not_found''
       (''remote ref `'' @ reference @ ''` is not advertised by `'' @ remote @ ''`'')"

definition stale_revision :: "string \<Rightarrow> app_error" where
  "stale_revision reference =
     app_structured Validation ''stale_remote_revision''
       (''remote ref `'' @ reference @ ''` moved since discovery'')"

definition require_advertised_oid :: "'w git_io \<Rightarrow> string \<Rightarrow> string \<Rightarrow> string \<Rightarrow> ('w, unit) action" where
  "require_advertised_oid io remote reference expected =
     act_then (io_output io [''ls-remote'', ''--refs'', ''--exit-code'', remote, reference]) (\<lambda>out.
       act_of (if \<not> is_success out then Inl (not_advertised remote reference)
               else case find_map (\<lambda>(oid, found). if found = reference then Some oid else None)
                           (advertised_rows (co_stdout out)) of
                 None \<Rightarrow> Inl (malformed_git_output ''ls_remote_output_invalid''
                          ''git ls-remote succeeded without returning the requested ref'')
               | Some advertised \<Rightarrow> if advertised \<noteq> expected then Inl (stale_revision reference) else Inr ()))"

text \<open>A branch of a batch: its reference, its expected object id and its name.\<close>

type_synonym batch_branch = "string \<times> string \<times> string"

fun advertised_check :: "string \<Rightarrow> (string, string) btree_map \<Rightarrow> batch_branch list \<Rightarrow> unit result" where
  "advertised_check remote advertised [] = Inr ()"
| "advertised_check remote advertised ((reference, expected, _) # branches) =
     (case bt_get advertised reference of
        Some actual \<Rightarrow>
          if actual = expected then advertised_check remote advertised branches
          else Inl (stale_revision reference)
      | None \<Rightarrow> Inl (not_advertised remote reference))"

definition advertised_map :: "string \<Rightarrow> (string, string) btree_map" where
  "advertised_map stdout = fold (\<lambda>(oid, reference). bt_insert reference oid) (advertised_rows stdout) []"

definition verify_advertised_batch ::
    "'w git_io \<Rightarrow> string \<Rightarrow> batch_branch list \<Rightarrow> string list \<Rightarrow> ('w, unit) action" where
  "verify_advertised_batch io remote branches references =
     act_then (io_output io ([''ls-remote'', ''--refs'', ''--exit-code'', remote] @ references)) (\<lambda>out.
       act_of (if \<not> is_success out
               then Inl (git_failure ''remote_ref_not_found'' ''Git did not advertise every prepared branch'')
               else advertised_check remote (advertised_map (co_stdout out)) branches))"

subsection \<open>Fetching one revision\<close>

definition resolve_local_commit :: "'w git_io \<Rightarrow> string \<Rightarrow> ('w, commit_oid) action" where
  "resolve_local_commit io expected =
     act_then (io_output io [''rev-parse'', ''--verify'', ''--end-of-options'', expected @ ''^{commit}'']) (\<lambda>out.
       act_of (if \<not> is_success out
               then Inl (app_structured TargetNotFound ''revision_not_found''
                      (''Git object `'' @ expected @ ''` does not resolve to a commit''))
               else and_then (parse_single_oid ''git rev-parse'' out) (\<lambda>oid.
                 if oid \<noteq> expected
                 then Inl (app_structured Validation ''resolved_revision_mismatch''
                        ''Git resolved a different commit than the canonical branch snapshot'')
                 else Inr oid)))"

definition fetch_arguments :: "string list \<Rightarrow> string \<Rightarrow> string list \<Rightarrow> string list" where
  "fetch_arguments options remote references =
     [''fetch'', ''--quiet'', ''--no-tags'', ''--no-write-fetch-head'', ''--refmap=''] @ options @ [remote] @ references"

definition resolve_branch_snapshot_with_runner ::
    "'w git_io \<Rightarrow> string \<Rightarrow> branch_snapshot \<Rightarrow> ('w, commit_oid) action" where
  "resolve_branch_snapshot_with_runner io remote snapshot =
     act_then (act_of (validate_remote remote)) (\<lambda>_.
     act_then (validate_checkout_remote_identity io remote (br_repository snapshot)) (\<lambda>_.
     act_then (act_of (validate_expected_oid (br_oid snapshot))) (\<lambda>_.
     act_then (branch_reference io (br_name snapshot)) (\<lambda>reference.
     act_then (require_advertised_oid io remote reference (br_oid snapshot)) (\<lambda>_.
     act_then (io_output io (fetch_arguments [] remote [reference])) (\<lambda>out.
       if \<not> is_success out
       then act_of (Inl (git_failure ''git_fetch_failed'' ''Git could not fetch the requested exact remote ref''))
       else act_then (require_advertised_oid io remote reference (br_oid snapshot)) (\<lambda>_.
              resolve_local_commit io (br_oid snapshot))))))))"

subsection \<open>Preparing a branch set\<close>

type_synonym prepared_revisions = "(string \<times> string, commit_oid) btree_map"

definition prepared_snapshot_key :: "branch_snapshot \<Rightarrow> string \<times> string" where
  "prepared_snapshot_key s = (br_name s, br_oid s)"

definition batch_input :: "batch_branch list \<Rightarrow> string" where
  "batch_input branches = concat (map (\<lambda>(_, oid, _). oid @ ''^{commit}'' @ [newline]) branches)"

fun collect_objects ::
    "batch_branch list \<Rightarrow> string list \<Rightarrow> prepared_revisions \<Rightarrow> prepared_revisions result" where
  "collect_objects ((_, expected, name) # branches) (line # ls) prepared =
     (if take 2 (split_whitespace line) \<noteq> [expected, ''commit'']
      then Inl (malformed_git_output ''git_object_batch_invalid''
             ''git cat-file did not resolve an expected commit'')
      else collect_objects branches ls (bt_insert (name, expected) expected prepared))"
| "collect_objects _ _ prepared = Inr prepared"

definition verify_prepared_commit_objects ::
    "'w git_io \<Rightarrow> batch_branch list \<Rightarrow> ('w, prepared_revisions) action" where
  "verify_prepared_commit_objects io branches =
     act_then (run_io io \<lparr>gc_args = [''cat-file'', ''--batch-check=%(objectname) %(objecttype)''],
                          gc_stdin = Some (batch_input branches)\<rparr>) (\<lambda>out.
       act_of (if \<not> is_success out
               then Inl (git_failure ''revision_not_found'' ''Git could not verify prepared commit objects'')
               else let ls = lines_of (co_stdout out)
                    in if length ls \<noteq> length branches
                       then Inl (malformed_git_output ''git_object_batch_invalid''
                              ''git cat-file returned an unexpected number of objects'')
                       else collect_objects branches ls []))"

definition materialize_complete_history ::
    "'w git_io \<Rightarrow> string \<Rightarrow> string list \<Rightarrow> ('w, unit) action" where
  "materialize_complete_history io remote references =
     act_then (io_output io [''rev-parse'', ''--is-shallow-repository'']) (\<lambda>shallow.
       if \<not> is_success shallow
       then act_of (Inl (git_failure ''checkout_topology_probe_failed''
              ''Git could not inspect checkout history materialization''))
       else if trim (co_stdout shallow) \<noteq> ''true'' then act_of (Inr ())
       else act_then (io_output io (fetch_arguments [''--unshallow''] remote references)) (\<lambda>fetched.
         if is_success fetched then act_of (Inr ())
         else act_then (checkout_filter io remote) (\<lambda>_.
                act_of (Inl (app_structured Validation ''checkout_history_incomplete''
                  ''the compatibility checkout is shallow and its provider history could not be fully materialized'')))))"

definition validate_common_ancestry_with_runner ::
    "'w git_io \<Rightarrow> string \<Rightarrow> commit_oid \<Rightarrow> commit_oid \<Rightarrow> ('w, commit_oid) action" where
  "validate_common_ancestry_with_runner io remote first second =
     act_then (io_output io [''merge-base'', first, second]) (\<lambda>out.
       if is_success out then act_of (parse_single_oid ''git merge-base'' out)
       else act_then (shallow_probe io) (\<lambda>shallow.
            act_then (remote_url io remote) (\<lambda>_.
            act_then (checkout_filter io remote) (\<lambda>_.
              act_of (Inl (if shallow
                then app_structured Validation ''checkout_history_incomplete''
                  ''the compatibility checkout still lacks history required to prove a common ancestor''
                else app_structured Validation ''unrelated_repository_histories''
                  ''the exact provider revisions have no common ancestor in this checkout''))))))"

definition prepare_branch :: "'w git_io \<Rightarrow> branch_snapshot \<Rightarrow> ('w, batch_branch) action" where
  "prepare_branch io s =
     act_then (act_of (validate_expected_oid (br_oid s))) (\<lambda>_.
     act_then (branch_reference io (br_name s)) (\<lambda>reference.
       act_of (Inr (reference, br_oid s, br_name s))))"

definition common_ancestry :: "'w git_io \<Rightarrow> string \<Rightarrow> commit_oid list \<Rightarrow> ('w, unit) action" where
  "common_ancestry io remote commits =
     (case commits of
        [] \<Rightarrow> act_of (Inr ())
      | first # rest \<Rightarrow>
          act_then (act_each (validate_common_ancestry_with_runner io remote first) rest) (\<lambda>_. act_of (Inr ())))"

definition prepare_branches :: "'w git_io \<Rightarrow> string \<Rightarrow> batch_branch list \<Rightarrow> ('w, prepared_revisions) action" where
  "prepare_branches io remote branches =
     (let references = map fst branches in
      act_then (verify_advertised_batch io remote branches references) (\<lambda>_.
      act_then (io_output io (fetch_arguments [] remote references)) (\<lambda>fetched.
        if \<not> is_success fetched
        then act_of (Inl (git_failure ''git_fetch_failed'' ''Git could not fetch the requested exact remote refs''))
        else
          act_then (verify_advertised_batch io remote branches references) (\<lambda>_.
          act_then (materialize_complete_history io remote references) (\<lambda>_.
          act_then (verify_prepared_commit_objects io branches) (\<lambda>prepared.
          act_then (common_ancestry io remote (bt_values prepared)) (\<lambda>_.
            act_of (Inr prepared))))))))"

definition prepare_branch_snapshots_with_runner ::
    "'w git_io \<Rightarrow> string \<Rightarrow> branch_snapshot list \<Rightarrow> ('w, prepared_revisions) action" where
  "prepare_branch_snapshots_with_runner io remote snapshots =
     act_then (act_of (validate_remote remote)) (\<lambda>_.
       case snapshots of
         [] \<Rightarrow> act_of (Inr [])
       | s # _ \<Rightarrow>
           if list_ex (\<lambda>s'. br_repository s' \<noteq> br_repository s) snapshots
           then act_of (Inl (app_validation ''cross_repository_compatibility_unsupported''
                  ''one compatibility preparation cannot mix provider repositories''))
           else
             act_then (validate_checkout_remote_identity io remote (br_repository s)) (\<lambda>_.
             act_then (act_each (prepare_branch io) snapshots) (\<lambda>branches.
               prepare_branches io remote branches)))"

subsection \<open>Merge reports\<close>

text \<open>One command whose answer the pure parsers of \<open>Git\<close> read.\<close>

definition merge_tree_io ::
    "'w git_io \<Rightarrow> commit_oid \<Rightarrow> commit_oid \<Rightarrow> ('w, compatibility_outcome \<times> string \<times> string list) action" where
  "merge_tree_io io candidate target =
     act_then (io_output io (merge_tree_arguments candidate target None)) (\<lambda>out.
       act_of (merge_tree_with_runner (\<lambda>_. Inr out) candidate target))"

definition check_resolved_compatibility_with_provenance_runner ::
    "'w git_io \<Rightarrow> string \<Rightarrow> branch_snapshot \<Rightarrow> branch_snapshot \<Rightarrow> commit_oid \<Rightarrow> commit_oid
     \<Rightarrow> ('w, compatibility_report) action" where
  "check_resolved_compatibility_with_provenance_runner io remote candidate target candidate_oid target_oid =
     act_then (validate_common_ancestry_with_runner io remote candidate_oid target_oid) (\<lambda>merge_base.
     act_then (merge_tree_io io candidate_oid target_oid) (\<lambda>(out_come, merge_tree_oid, conflicting_paths).
     act_then (shallow_probe io) (\<lambda>shallow.
     act_then (remote_url io remote) (\<lambda>url.
     act_then (checkout_filter io remote) (\<lambda>blob_filter.
       act_of (Inr \<lparr>rep_candidate = candidate, rep_target = target, rep_outcome = out_come,
         rep_conflicting_paths = conflicting_paths,
         rep_diagnostic = Some (''repository='' @ repo_slug (br_repository candidate) @ '' remote='' @ remote
           @ '' remote_url='' @ (case url of None \<Rightarrow> ''unresolved'' | Some u \<Rightarrow> u)
           @ '' object_source=exact_remote_refs objects_present=true shallow='' @ show_bool shallow
           @ '' filter='' @ (case blob_filter of None \<Rightarrow> ''none'' | Some f \<Rightarrow> f)
           @ '' merge_base='' @ merge_base @ '' merge_tree='' @ merge_tree_oid)\<rparr>))))))"

text \<open>The value is \<open>None\<close> where an \<open>expect\<close> on the prepared map would panic.\<close>

definition check_compatibility_with_runner ::
    "'w git_io \<Rightarrow> string \<Rightarrow> branch_snapshot \<Rightarrow> branch_snapshot \<Rightarrow> ('w, compatibility_report option) action" where
  "check_compatibility_with_runner io remote candidate target =
     (if br_repository candidate \<noteq> br_repository target
      then act_of (Inl (app_validation ''cross_repository_compatibility_unsupported''
             ''Caravan v1 compatibility checks require candidate and target branches in one repository''))
      else
        act_then (prepare_branch_snapshots_with_runner io remote [candidate, target]) (\<lambda>prepared.
          case (bt_get prepared (prepared_snapshot_key candidate), bt_get prepared (prepared_snapshot_key target)) of
            (Some candidate_oid, Some target_oid) \<Rightarrow>
              act_then (check_resolved_compatibility_with_provenance_runner io remote candidate target
                candidate_oid target_oid) (\<lambda>report. act_of (Inr (Some report)))
          | _ \<Rightarrow> act_of (Inr None)))"

end
