(* ===== verification/Compat_Analysis.thy ===== *)
theory Compat_Analysis
  imports Graph Compat_Git
begin

text \<open>
  The mechanical half of \<open>src/src/graph.rs\<close>: after derivation, every caravan head is merged into the
  default branch, every member onto its predecessor, every caravan onto every other one, and the
  first unqueued candidates into the default branch, by an injected checker. A bounded run stops at a
  deadline and names what it deferred. The checker acts in a world that also holds the clock.
\<close>

subsection \<open>The checker interface\<close>

record 'w checker =
  ck_prepare :: "branch_snapshot list \<Rightarrow> ('w, unit) action"
  ck_check :: "branch_snapshot \<Rightarrow> branch_snapshot \<Rightarrow> ('w, compatibility_report) action"
  ck_cumulative_tree :: "branch_snapshot \<Rightarrow> branch_snapshot \<Rightarrow> ('w, cumulative_tree_proof option) action"
  ck_squash_equivalence :: "branch_snapshot \<Rightarrow> branch_snapshot \<Rightarrow> ('w, squash_equivalence_report option) action"
  ck_now :: "'w \<Rightarrow> nat"

text \<open>A closure is a checker with the default methods: nothing to prepare, no further evidence.\<close>

definition closure_checker ::
    "('w \<Rightarrow> nat) \<Rightarrow> (branch_snapshot \<Rightarrow> branch_snapshot \<Rightarrow> ('w, compatibility_report) action) \<Rightarrow> 'w checker" where
  "closure_checker now f =
     \<lparr>ck_prepare = (\<lambda>_. act_of (Inr ())), ck_check = f, ck_cumulative_tree = (\<lambda>_ _. act_of (Inr None)),
      ck_squash_equivalence = (\<lambda>_ _. act_of (Inr None)), ck_now = now\<rparr>"

subsection \<open>Progress\<close>

record compatibility_analysis_progress =
  cp_complete :: bool
  cp_revision_preparation_complete :: bool
  cp_candidate_count :: nat
  cp_unqueued_candidate_count :: nat
  cp_caravan_count :: nat
  cp_branch_count :: nat
  cp_planned_analyses :: nat
  cp_completed_analyses :: nat
  cp_deferred_analyses :: "string list"
  cp_deferred_analyses_truncated :: nat
  cp_skipped_analyses :: "string list"
  cp_skipped_analyses_truncated :: nat

definition progress_default :: compatibility_analysis_progress where
  "progress_default = \<lparr>cp_complete = False, cp_revision_preparation_complete = False, cp_candidate_count = 0,
     cp_unqueued_candidate_count = 0, cp_caravan_count = 0, cp_branch_count = 0, cp_planned_analyses = 0,
     cp_completed_analyses = 0, cp_deferred_analyses = [], cp_deferred_analyses_truncated = 0,
     cp_skipped_analyses = [], cp_skipped_analyses_truncated = 0\<rparr>"

record bounded_graph_analysis =
  bg_analysis :: graph_analysis
  bg_progress :: compatibility_analysis_progress

definition max_analysis_progress_samples :: nat where
  "max_analysis_progress_samples = 64"

definition push_progress_sample :: "string \<Rightarrow> string list \<times> nat \<Rightarrow> string list \<times> nat" where
  "push_progress_sample sample = (\<lambda>(samples, truncated).
     if length samples < max_analysis_progress_samples then (samples @ [sample], truncated)
     else (samples, sat_add truncated 1))"

subsection \<open>Tasks\<close>

datatype compatibility_analysis_task =
    FleetTask string branch_snapshot branch_snapshot "pr_number list" string
  | CumulativeTreeTask string branch_snapshot branch_snapshot
  | AdmissionCandidateTask string branch_snapshot branch_snapshot pr_number

fun task_description :: "compatibility_analysis_task \<Rightarrow> string" where
  "task_description (FleetTask d _ _ _ _) = d"
| "task_description (CumulativeTreeTask d _ _) = d"
| "task_description (AdmissionCandidateTask d _ _ _) = d"

definition push_problem :: "graph_problem \<Rightarrow> graph_analysis \<Rightarrow> graph_analysis" where
  "push_problem p a = a\<lparr>ga_fleet := (ga_fleet a)\<lparr>fl_problems := fl_problems (ga_fleet a) @ [p]\<rparr>\<rparr>"

definition push_report :: "compatibility_report \<Rightarrow> graph_analysis \<Rightarrow> graph_analysis" where
  "push_report r a = a\<lparr>ga_compatibility := ga_compatibility a @ [r]\<rparr>"

definition record_candidate_compatibility ::
    "compatibility_report \<Rightarrow> pr_number \<Rightarrow> string \<Rightarrow> graph_analysis \<Rightarrow> graph_analysis" where
  "record_candidate_compatibility report pr message a =
     push_report report
       (if rep_outcome report \<noteq> Clean then push_problem (mk_problem CandidateIncompatible [pr] message) a else a)"

text \<open>The analysis is mutated in place, so an error keeps what was recorded before it.\<close>

definition record_compatibility ::
    "'w checker \<Rightarrow> compatibility_report \<Rightarrow> pr_number list \<Rightarrow> string \<Rightarrow> graph_analysis \<Rightarrow> 'w
     \<Rightarrow> 'w \<times> graph_analysis \<times> unit result" where
  "record_compatibility ck report prs message a w =
     (if rep_outcome report = Clean then (w, push_report report a, Inr ())
      else
        let a1 = push_problem (mk_problem Incompatible prs message) a
        in case ck_squash_equivalence ck (rep_candidate report) (rep_target report) w of
             (w', Inl e) \<Rightarrow> (w', a1, Inl e)
           | (w', Inr None) \<Rightarrow> (w', push_report report a1, Inr ())
           | (w', Inr (Some r)) \<Rightarrow>
               (w', push_report report
                      (a1\<lparr>ga_squash_reconciliations := ga_squash_reconciliations a1 @ [r]\<rparr>), Inr ()))"

fun execute_task ::
    "'w checker \<Rightarrow> compatibility_analysis_task \<Rightarrow> graph_analysis \<Rightarrow> 'w \<Rightarrow> 'w \<times> graph_analysis \<times> unit result" where
  "execute_task ck (FleetTask _ candidate target prs message) a w =
     (case ck_check ck candidate target w of
        (w', Inl e) \<Rightarrow> (w', a, Inl e)
      | (w', Inr report) \<Rightarrow> record_compatibility ck report prs message a w')"
| "execute_task ck (CumulativeTreeTask _ candidate target) a w =
     (case ck_cumulative_tree ck candidate target w of
        (w', Inl e) \<Rightarrow> (w', a, Inl e)
      | (w', Inr None) \<Rightarrow> (w', a, Inr ())
      | (w', Inr (Some proof_row)) \<Rightarrow>
          (w', a\<lparr>ga_cumulative_trees := ga_cumulative_trees a @ [proof_row]\<rparr>, Inr ()))"
| "execute_task ck (AdmissionCandidateTask _ candidate target pr) a w =
     (case ck_check ck candidate target w of
        (w', Inl e) \<Rightarrow> (w', a, Inl e)
      | (w', Inr report) \<Rightarrow>
          (w', record_candidate_compatibility report pr
             ''leading admission candidate does not merge cleanly into the current default branch'' a, Inr ()))"

definition defer_tasks ::
    "compatibility_analysis_task list \<Rightarrow> compatibility_analysis_progress \<Rightarrow> compatibility_analysis_progress" where
  "defer_tasks tasks p =
     (let (samples, truncated) = fold (\<lambda>t. push_progress_sample (task_description t)) tasks
            (cp_deferred_analyses p, cp_deferred_analyses_truncated p)
      in p\<lparr>cp_deferred_analyses := samples, cp_deferred_analyses_truncated := truncated\<rparr>)"

definition analysis_timed_out :: "app_error \<Rightarrow> bool" where
  "analysis_timed_out e = (ae_category e = Timeout)"

subsection \<open>Planning\<close>

text \<open>A value \<open>None\<close> is a panic of an \<open>expect\<close> on the pull request map.\<close>

definition head_branch :: "graph_analysis \<Rightarrow> pr_number \<Rightarrow> branch_snapshot option" where
  "head_branch a n = map_option pr_head (bt_get (ga_pull_requests a) n)"

fun concat_options :: "('a \<Rightarrow> 'b list option) \<Rightarrow> 'a list \<Rightarrow> 'b list option" where
  "concat_options f [] = Some []"
| "concat_options f (x # xs) =
     Option.bind (f x) (\<lambda>ys. Option.bind (concat_options f xs) (\<lambda>zs. Some (ys @ zs)))"

definition adjacent_task :: "graph_analysis \<Rightarrow> pr_number \<times> pr_number \<Rightarrow> compatibility_analysis_task list option" where
  "adjacent_task a = (\<lambda>(parent, child).
     Option.bind (head_branch a parent) (\<lambda>parent_branch.
     Option.bind (head_branch a child) (\<lambda>child_branch.
       Some [FleetTask (''adjacent:pr#'' @ show_nat child @ ''->pr#'' @ show_nat parent) child_branch parent_branch
               [parent, child] ''adjacent caravan PRs are not mechanically compatible''])))"

definition caravan_tasks ::
    "branch_snapshot \<Rightarrow> graph_analysis \<Rightarrow> caravan \<Rightarrow> compatibility_analysis_task list option" where
  "caravan_tasks default_branch a c =
     (case caravan_head c of
        None \<Rightarrow> Some []
      | Some h \<Rightarrow>
          Option.bind (head_branch a h) (\<lambda>head.
          Option.bind (concat_options (adjacent_task a) (zip (cv_members c) (tl (cv_members c)))) (\<lambda>adjacent.
            Some ([FleetTask (''head_to_default:pr#'' @ show_nat h) head default_branch [h]
                     ''caravan head does not merge cleanly into the current default branch'',
                   CumulativeTreeTask (''cumulative_tree:pr#'' @ show_nat h) head default_branch]
                  @ adjacent))))"

definition cross_task ::
    "graph_analysis \<Rightarrow> (nat \<times> caravan) \<times> (nat \<times> caravan) \<Rightarrow> compatibility_analysis_task list option" where
  "cross_task a = (\<lambda>((index, c), (other_index, other)).
     if index = other_index then Some []
     else case (caravan_head c, caravan_tail other) of
       (Some h, Some t) \<Rightarrow>
         Option.bind (head_branch a h) (\<lambda>head.
         Option.bind (head_branch a t) (\<lambda>tail_head.
           Some [FleetTask (''cross_caravan:pr#'' @ show_nat h @ ''->pr#'' @ show_nat t) head tail_head [h, t]
                   ''one caravan head cannot be attached after another caravan tail'']))
     | _ \<Rightarrow> Some [])"

definition unparked_caravans :: "graph_analysis \<Rightarrow> (nat \<times> caravan) list" where
  "unparked_caravans a = filter (\<lambda>(_, c). \<not> cv_parked c) (enumerate 0 (fl_caravans (ga_fleet a)))"

definition cross_tasks :: "graph_analysis \<Rightarrow> compatibility_analysis_task list option" where
  "cross_tasks a = concat_options (cross_task a) (List.product (unparked_caravans a) (unparked_caravans a))"

definition leading_candidate_compatibility_bound :: nat where
  "leading_candidate_compatibility_bound = 3"

text \<open>Why a candidate is not proved, and whether it takes one of the leading places.\<close>

definition skip_reason :: "nat \<Rightarrow> pull_request_snapshot \<Rightarrow> string option \<times> nat" where
  "skip_reason selected p =
     (if has_label p ''caravan-join-skipped'' then (Some ''generation_bound_skip'', selected)
      else if selected \<ge> leading_candidate_compatibility_bound then (Some ''leading_candidate_bound'', selected)
      else (if pr_cross_repository p then Some ''cross_repository''
            else if pr_draft p then Some ''draft'' else None, sat_add selected 1))"

fun candidate_tasks ::
    "branch_snapshot \<Rightarrow> graph_analysis \<Rightarrow> nat \<Rightarrow> pr_number list \<Rightarrow> string list \<times> nat
     \<Rightarrow> (string list \<times> nat) \<times> compatibility_analysis_task list" where
  "candidate_tasks default_branch a selected [] skipped = (skipped, [])"
| "candidate_tasks default_branch a selected (n # ns) skipped =
     (case bt_get (ga_pull_requests a) n of
        None \<Rightarrow> candidate_tasks default_branch a selected ns skipped
      | Some p \<Rightarrow>
          (case skip_reason selected p of
             (Some reason, selected') \<Rightarrow>
               candidate_tasks default_branch a selected' ns
                 (push_progress_sample (''candidate_to_default:pr#'' @ show_nat n @ '':'' @ reason) skipped)
           | (None, selected') \<Rightarrow>
               (let (skipped', tasks) = candidate_tasks default_branch a selected' ns skipped
                in (skipped', AdmissionCandidateTask (''candidate_to_default:pr#'' @ show_nat n) (pr_head p)
                                default_branch n # tasks))))"

definition compatibility_tasks ::
    "repository_snapshot \<Rightarrow> graph_analysis \<Rightarrow> compatibility_analysis_progress
     \<Rightarrow> (compatibility_analysis_progress \<times> compatibility_analysis_task list) option" where
  "compatibility_tasks snap a p =
     (let default_branch = snap_default_branch snap in
      Option.bind (concat_options (caravan_tasks default_branch a) (fl_caravans (ga_fleet a))) (\<lambda>own.
      Option.bind (cross_tasks a) (\<lambda>cross.
        let ((skipped, truncated), candidates) = candidate_tasks default_branch a 0 (fl_unqueued (ga_fleet a))
              (cp_skipped_analyses p, cp_skipped_analyses_truncated p)
        in Some (p\<lparr>cp_skipped_analyses := skipped, cp_skipped_analyses_truncated := truncated\<rparr>,
                 own @ cross @ candidates))))"

subsection \<open>The analysis\<close>

definition analysis_branches :: "repository_snapshot \<Rightarrow> graph_analysis \<Rightarrow> branch_snapshot list" where
  "analysis_branches snap a =
     dedup_by_key (\<lambda>b. (br_name b, br_oid b))
       (sort_key (\<lambda>b. (br_name b, br_oid b))
          (snap_default_branch snap
           # concat (map (\<lambda>c. List.map_filter (head_branch a) (cv_members c)) (fl_caravans (ga_fleet a)))))"

definition deadline_passed :: "'w checker \<Rightarrow> nat option \<Rightarrow> 'w \<Rightarrow> bool" where
  "deadline_passed ck deadline w = (case deadline of None \<Rightarrow> False | Some d \<Rightarrow> ck_now ck w \<ge> d)"

definition deferred_outcome ::
    "compatibility_analysis_task list \<Rightarrow> graph_analysis \<Rightarrow> compatibility_analysis_progress \<Rightarrow> bounded_graph_analysis" where
  "deferred_outcome tasks a p = \<lparr>bg_analysis = a, bg_progress = defer_tasks tasks p\<rparr>"

fun run_tasks ::
    "'w checker \<Rightarrow> nat option \<Rightarrow> compatibility_analysis_task list \<Rightarrow> graph_analysis
     \<Rightarrow> compatibility_analysis_progress \<Rightarrow> ('w, bounded_graph_analysis) action" where
  "run_tasks ck deadline [] a p w = (w, Inr \<lparr>bg_analysis = a, bg_progress = p\<lparr>cp_complete := True\<rparr>\<rparr>)"
| "run_tasks ck deadline (t # ts) a p w =
     (if deadline_passed ck deadline w then (w, Inr (deferred_outcome (t # ts) a p))
      else case execute_task ck t a w of
        (w', a', Inl e) \<Rightarrow>
          if deadline \<noteq> None \<and> analysis_timed_out e then (w', Inr (deferred_outcome (t # ts) a' p))
          else (w', Inl e)
      | (w', a', Inr _) \<Rightarrow>
          run_tasks ck deadline ts a' (p\<lparr>cp_completed_analyses := sat_add (cp_completed_analyses p) 1\<rparr>) w')"

definition initial_progress :: "repository_snapshot \<Rightarrow> graph_analysis \<Rightarrow> compatibility_analysis_progress" where
  "initial_progress snap a = progress_default
     \<lparr>cp_candidate_count := length (snap_pull_requests snap),
      cp_unqueued_candidate_count := length (fl_unqueued (ga_fleet a)),
      cp_caravan_count := length (fl_caravans (ga_fleet a)),
      cp_branch_count := length (analysis_branches snap a)\<rparr>"

definition run_analysis ::
    "'w checker \<Rightarrow> nat option \<Rightarrow> branch_snapshot list \<Rightarrow> compatibility_analysis_task list \<Rightarrow> graph_analysis
     \<Rightarrow> compatibility_analysis_progress \<Rightarrow> ('w, bounded_graph_analysis) action" where
  "run_analysis ck deadline branches tasks a p w =
     (if deadline_passed ck deadline w then (w, Inr (deferred_outcome tasks a p))
      else case ck_prepare ck branches w of
        (w', Inl e) \<Rightarrow>
          if deadline \<noteq> None \<and> analysis_timed_out e then (w', Inr (deferred_outcome tasks a p)) else (w', Inl e)
      | (w', Inr _) \<Rightarrow> run_tasks ck deadline tasks a (p\<lparr>cp_revision_preparation_complete := True\<rparr>) w')"

text \<open>The outer \<open>None\<close> is a panic, in derivation or in planning.\<close>

definition analyze_for_actor_internal ::
    "repository_snapshot \<Rightarrow> 'w checker \<Rightarrow> head_merge_actor \<Rightarrow> nat option
     \<Rightarrow> ('w, bounded_graph_analysis) action option" where
  "analyze_for_actor_internal snap ck actor deadline =
     Option.bind (derive_for_actor snap actor) (\<lambda>a.
     Option.bind (compatibility_tasks snap a (initial_progress snap a)) (\<lambda>(p, tasks).
       Some (run_analysis ck deadline (analysis_branches snap a) tasks a
               (p\<lparr>cp_planned_analyses := length tasks\<rparr>))))"

definition analyze_for_actor_with_progress ::
    "repository_snapshot \<Rightarrow> 'w checker \<Rightarrow> head_merge_actor \<Rightarrow> ('w, bounded_graph_analysis) action option" where
  "analyze_for_actor_with_progress snap ck actor = analyze_for_actor_internal snap ck actor None"

definition analyze_for_actor ::
    "repository_snapshot \<Rightarrow> 'w checker \<Rightarrow> head_merge_actor \<Rightarrow> ('w, graph_analysis) action option" where
  "analyze_for_actor snap ck actor =
     map_option (\<lambda>run. act_then run (\<lambda>b. act_of (Inr (bg_analysis b))))
       (analyze_for_actor_with_progress snap ck actor)"

definition analyze_for_actor_bounded ::
    "repository_snapshot \<Rightarrow> 'w checker \<Rightarrow> head_merge_actor \<Rightarrow> nat \<Rightarrow> ('w, bounded_graph_analysis) action option" where
  "analyze_for_actor_bounded snap ck actor deadline = analyze_for_actor_internal snap ck actor (Some deadline)"

definition compat_analyze :: "repository_snapshot \<Rightarrow> 'w checker \<Rightarrow> ('w, graph_analysis) action option" where
  "compat_analyze snap ck = analyze_for_actor snap ck ActorGithub"

end
