(* ===== verification/Compat_Checker.thy ===== *)
theory Compat_Checker
  imports Compat_Analysis
begin

text \<open>
  The production checker \<open>GitCompatibilityChecker\<close> of \<open>src/src/graph.rs\<close>, the entry points of
  \<open>src/src/compatibility.rs\<close> and of \<open>src/src/squash_equivalence.rs\<close>: each builds a process runner in
  one checkout. The checker keeps the revisions it prepared, and a cache shared by the process keeps
  them for ten minutes. The clock is a function of the world. Squash analysis asks only about immutable
  objects, so it reads one world; \<open>settle\<close> is what its commands make of that world.
\<close>

subsection \<open>Entry points\<close>

definition checkout_io ::
    "'w process_env \<Rightarrow> 'w child \<Rightarrow> nat \<Rightarrow> string \<Rightarrow> duration \<Rightarrow> nat option \<Rightarrow> 'w process_state git_io" where
  "checkout_io pe child depth repository timeout deadline =
     process_git_io pe child ((with_timeout timeout (in_directory depth repository))\<lparr>pn_operation_deadline := deadline\<rparr>)"

definition check_compatibility_with_timeout ::
    "'w process_env \<Rightarrow> 'w child \<Rightarrow> nat \<Rightarrow> string \<Rightarrow> string \<Rightarrow> branch_snapshot \<Rightarrow> branch_snapshot \<Rightarrow> duration
     \<Rightarrow> ('w process_state, compatibility_report option) action" where
  "check_compatibility_with_timeout pe child depth repository remote candidate target timeout =
     check_compatibility_with_runner (checkout_io pe child depth repository timeout None) remote candidate target"

definition check_compatibility ::
    "'w process_env \<Rightarrow> 'w child \<Rightarrow> nat \<Rightarrow> string \<Rightarrow> string \<Rightarrow> branch_snapshot \<Rightarrow> branch_snapshot
     \<Rightarrow> ('w process_state, compatibility_report option) action" where
  "check_compatibility pe child depth repository remote candidate target =
     check_compatibility_with_timeout pe child depth repository remote candidate target default_command_timeout"

definition check_adjacent ::
    "'w process_env \<Rightarrow> 'w child \<Rightarrow> nat \<Rightarrow> string \<Rightarrow> string \<Rightarrow> branch_snapshot \<Rightarrow> branch_snapshot
     \<Rightarrow> ('w process_state, compatibility_report option) action" where
  "check_adjacent pe child depth repository remote child_branch predecessor =
     check_compatibility pe child depth repository remote child_branch predecessor"

definition check_head_to_default ::
    "'w process_env \<Rightarrow> 'w child \<Rightarrow> nat \<Rightarrow> string \<Rightarrow> string \<Rightarrow> branch_snapshot \<Rightarrow> branch_snapshot
     \<Rightarrow> ('w process_state, compatibility_report option) action" where
  "check_head_to_default pe child depth repository remote head default_branch =
     check_compatibility pe child depth repository remote head default_branch"

definition check_cross_caravan ::
    "'w process_env \<Rightarrow> 'w child \<Rightarrow> nat \<Rightarrow> string \<Rightarrow> string \<Rightarrow> branch_snapshot \<Rightarrow> branch_snapshot
     \<Rightarrow> ('w process_state, compatibility_report option) action" where
  "check_cross_caravan pe child depth repository remote other_head tail_branch =
     check_compatibility pe child depth repository remote other_head tail_branch"

definition resolve_branch_snapshot_with_timeout ::
    "'w process_env \<Rightarrow> 'w child \<Rightarrow> nat \<Rightarrow> string \<Rightarrow> string \<Rightarrow> branch_snapshot \<Rightarrow> duration
     \<Rightarrow> ('w process_state, commit_oid) action" where
  "resolve_branch_snapshot_with_timeout pe child depth repository remote snapshot timeout =
     resolve_branch_snapshot_with_runner (checkout_io pe child depth repository timeout None) remote snapshot"

definition resolve_branch_snapshot ::
    "'w process_env \<Rightarrow> 'w child \<Rightarrow> nat \<Rightarrow> string \<Rightarrow> string \<Rightarrow> branch_snapshot
     \<Rightarrow> ('w process_state, commit_oid) action" where
  "resolve_branch_snapshot pe child depth repository remote snapshot =
     resolve_branch_snapshot_with_timeout pe child depth repository remote snapshot default_command_timeout"

definition io_read :: "'w git_io \<Rightarrow> ('w \<Rightarrow> 'w) \<Rightarrow> (git_runner \<Rightarrow> 'a result) \<Rightarrow> ('w, 'a) action" where
  "io_read io settle f w = (settle w, f (\<lambda>command. snd (io w command)))"

definition squash_analyze_with_timeout ::
    "'w process_env \<Rightarrow> 'w child \<Rightarrow> ('w process_state \<Rightarrow> 'w process_state) \<Rightarrow> nat \<Rightarrow> string \<Rightarrow> string
     \<Rightarrow> branch_snapshot \<Rightarrow> branch_snapshot \<Rightarrow> duration \<Rightarrow> ('w process_state, squash_equivalence_report) action" where
  "squash_analyze_with_timeout pe child settle depth repository remote candidate target timeout =
     (if br_repository candidate \<noteq> br_repository target
      then act_of (Inl (app_validation ''cross_repository_reconciliation_unsupported''
             ''squash-equivalence reconciliation requires candidate and target branches in one repository''))
      else
        let io = checkout_io pe child depth repository timeout None in
        act_then (resolve_branch_snapshot_with_runner io remote target) (\<lambda>target_oid.
        act_then (resolve_branch_snapshot_with_runner io remote candidate) (\<lambda>candidate_oid.
          io_read io settle (\<lambda>runner. analyze_with_runner runner candidate target candidate_oid target_oid))))"

definition squash_analyze ::
    "'w process_env \<Rightarrow> 'w child \<Rightarrow> ('w process_state \<Rightarrow> 'w process_state) \<Rightarrow> nat \<Rightarrow> string \<Rightarrow> string
     \<Rightarrow> branch_snapshot \<Rightarrow> branch_snapshot \<Rightarrow> ('w process_state, squash_equivalence_report) action" where
  "squash_analyze pe child settle depth repository remote candidate target =
     squash_analyze_with_timeout pe child settle depth repository remote candidate target default_command_timeout"

text \<open>The three commands of a cumulative-tree proof, each read by its pure parser.\<close>

definition cumulative_tree_io ::
    "'w git_io \<Rightarrow> branch_snapshot \<Rightarrow> branch_snapshot \<Rightarrow> commit_oid \<Rightarrow> commit_oid \<Rightarrow> ('w, cumulative_tree_proof) action" where
  "cumulative_tree_io io candidate target candidate_oid target_oid =
     act_then (merge_tree_io io candidate_oid target_oid) (\<lambda>(_, merge_result, _).
     act_then (io_output io [''rev-parse'', candidate_oid @ ''^{tree}'']) (\<lambda>out.
     act_then (act_of (commit_tree_with_runner (\<lambda>_. Inr out) candidate_oid)) (\<lambda>candidate_tree.
     act_then (io_output io [''merge-base'', ''--is-ancestor'', target_oid, candidate_oid]) (\<lambda>out'.
     act_then (act_of (is_ancestor_with_runner (\<lambda>_. Inr out') target_oid candidate_oid)) (\<lambda>reachable.
       act_of (Inr \<lparr>ctp_candidate = candidate, ctp_target = target, ctp_candidate_tree = candidate_tree,
         ctp_merge_result_tree = merge_result, ctp_identical = (candidate_tree = merge_result),
         ctp_target_reachable_from_candidate = reachable\<rparr>))))))"

subsection \<open>Prepared revisions\<close>

type_synonym shared_key = "string \<times> string \<times> (string \<times> string) \<times> string \<times> string"

record shared_prepared_revision =
  spr_inserted :: nat
  spr_resolved :: commit_oid

type_synonym shared_revisions = "(shared_key, shared_prepared_revision) btree_map"

definition shared_prepared_revision_max_age :: duration where
  "shared_prepared_revision_max_age = from_secs 600"

definition max_shared_prepared_revisions :: nat where
  "max_shared_prepared_revisions = 4096"

definition prepared_revision_key :: "branch_snapshot \<Rightarrow> string \<times> string" where
  "prepared_revision_key b = (br_name b, br_oid b)"

record git_compatibility_checker =
  gcc_repository :: string
  gcc_remote :: string
  gcc_timeout :: duration
  gcc_operation_deadline :: "nat option"

record 'w checker_state =
  ks_process :: "'w process_state"
  ks_prepared :: prepared_revisions
  ks_shared :: shared_revisions

definition gcc_new :: "(string \<Rightarrow> string option) \<Rightarrow> string \<Rightarrow> string \<Rightarrow> git_compatibility_checker" where
  "gcc_new canonicalize repository remote =
     \<lparr>gcc_repository = (case canonicalize repository of None \<Rightarrow> repository | Some path \<Rightarrow> path),
      gcc_remote = remote, gcc_timeout = default_command_timeout, gcc_operation_deadline = None\<rparr>"

definition gcc_with_timeout :: "duration \<Rightarrow> git_compatibility_checker \<Rightarrow> git_compatibility_checker" where
  "gcc_with_timeout timeout g = g\<lparr>gcc_timeout := timeout\<rparr>"

definition gcc_with_operation_deadline :: "nat \<Rightarrow> git_compatibility_checker \<Rightarrow> git_compatibility_checker" where
  "gcc_with_operation_deadline deadline g = g\<lparr>gcc_operation_deadline := Some deadline\<rparr>"

definition gcc_shared_key :: "git_compatibility_checker \<Rightarrow> branch_snapshot \<Rightarrow> shared_key" where
  "gcc_shared_key g b =
     (gcc_repository g, gcc_remote g, (repo_owner (br_repository b), repo_name (br_repository b)), br_name b, br_oid b)"

definition retain_fresh :: "nat \<Rightarrow> shared_revisions \<Rightarrow> shared_revisions" where
  "retain_fresh now shared = filter (\<lambda>(_, e). now - spr_inserted e \<le> shared_prepared_revision_max_age) shared"

definition hydrate_from_shared_cache ::
    "git_compatibility_checker \<Rightarrow> nat \<Rightarrow> branch_snapshot list \<Rightarrow> 'w checker_state \<Rightarrow> 'w checker_state" where
  "hydrate_from_shared_cache g now branches s =
     (let shared = retain_fresh now (ks_shared s)
      in s\<lparr>ks_shared := shared,
           ks_prepared := fold (\<lambda>b local. case bt_get shared (gcc_shared_key g b) of
               None \<Rightarrow> local
             | Some e \<Rightarrow> bt_insert (prepared_revision_key b) (spr_resolved e) local) branches (ks_prepared s)\<rparr>)"

text \<open>\<open>min_by_key\<close> keeps the first of several oldest entries.\<close>

definition oldest_entry :: "shared_revisions \<Rightarrow> shared_key option" where
  "oldest_entry shared = map_option fst (fold (\<lambda>(k, e) best. case best of
       None \<Rightarrow> Some (k, e)
     | Some (k', e') \<Rightarrow> if spr_inserted e < spr_inserted e' then Some (k, e) else Some (k', e')) shared None)"

definition publish_revision ::
    "git_compatibility_checker \<Rightarrow> nat \<Rightarrow> prepared_revisions \<Rightarrow> branch_snapshot \<Rightarrow> shared_revisions \<Rightarrow> shared_revisions" where
  "publish_revision g now prepared b shared =
     (case bt_get prepared (prepared_revision_key b) of
        None \<Rightarrow> shared
      | Some resolved \<Rightarrow>
          (let key = gcc_shared_key g b;
               evicted = (if bt_get shared key = None \<and> length shared \<ge> max_shared_prepared_revisions
                          then case oldest_entry shared of None \<Rightarrow> shared | Some old \<Rightarrow> bt_remove old shared
                          else shared)
           in bt_insert key \<lparr>spr_inserted = now, spr_resolved = resolved\<rparr> evicted))"

definition publish_to_shared_cache ::
    "git_compatibility_checker \<Rightarrow> nat \<Rightarrow> branch_snapshot list \<Rightarrow> prepared_revisions \<Rightarrow> shared_revisions \<Rightarrow> shared_revisions" where
  "publish_to_shared_cache g now branches prepared shared =
     fold (publish_revision g now prepared) branches (retain_fresh now shared)"

subsection \<open>The checker\<close>

definition on_process :: "('w process_state, 'a) action \<Rightarrow> ('w checker_state, 'a) action" where
  "on_process m s = (case m (ks_process s) of (st, r) \<Rightarrow> (s\<lparr>ks_process := st\<rparr>, r))"

definition ks_now :: "'w process_env \<Rightarrow> 'w checker_state \<Rightarrow> nat" where
  "ks_now pe s = pe_monotonic pe (st_world (ks_process s))"

definition gcc_io ::
    "'w process_env \<Rightarrow> 'w child \<Rightarrow> nat \<Rightarrow> git_compatibility_checker \<Rightarrow> nat \<Rightarrow> 'w process_state git_io" where
  "gcc_io pe child depth g now =
     checkout_io pe child depth (gcc_repository g) (gcc_timeout g)
       (Some (case gcc_operation_deadline g of None \<Rightarrow> now + gcc_timeout g | Some d \<Rightarrow> d))"

definition gcc_prepare ::
    "'w process_env \<Rightarrow> 'w child \<Rightarrow> nat \<Rightarrow> git_compatibility_checker \<Rightarrow> branch_snapshot list
     \<Rightarrow> ('w checker_state, unit) action" where
  "gcc_prepare pe child depth g branches s =
     (let s1 = hydrate_from_shared_cache g (ks_now pe s) branches s;
          missing = filter (\<lambda>b. bt_get (ks_prepared s1) (prepared_revision_key b) = None) branches
      in if missing = [] then (s1, Inr ())
         else case on_process (prepare_branch_snapshots_with_runner (gcc_io pe child depth g (ks_now pe s1))
                     (gcc_remote g) missing) s1 of
           (s2, Inl e) \<Rightarrow> (s2, Inl e)
         | (s2, Inr prepared) \<Rightarrow>
             (s2\<lparr>ks_shared := publish_to_shared_cache g (ks_now pe s2) missing prepared (ks_shared s2),
                 ks_prepared := fold (\<lambda>(k, v). bt_insert k v) prepared (ks_prepared s2)\<rparr>, Inr ()))"

definition prepared_pair ::
    "branch_snapshot \<Rightarrow> branch_snapshot \<Rightarrow> 'w checker_state \<Rightarrow> (commit_oid \<times> commit_oid) option" where
  "prepared_pair candidate target s =
     (case (bt_get (ks_prepared s) (prepared_revision_key candidate), bt_get (ks_prepared s) (prepared_revision_key target)) of
        (Some candidate_oid, Some target_oid) \<Rightarrow> Some (candidate_oid, target_oid)
      | _ \<Rightarrow> None)"

text \<open>A panic of the uncached path would be the error below; \<open>check_never_panics\<close> excludes it.\<close>

definition unprepared_panic :: app_error where
  "unprepared_panic = app_structured ExecutionFailure ''panic'' ''candidate snapshot was prepared''"

definition gcc_check ::
    "'w process_env \<Rightarrow> 'w child \<Rightarrow> nat \<Rightarrow> git_compatibility_checker \<Rightarrow> branch_snapshot \<Rightarrow> branch_snapshot
     \<Rightarrow> ('w checker_state, compatibility_report) action" where
  "gcc_check pe child depth g candidate target s =
     (case prepared_pair candidate target s of
        Some (candidate_oid, target_oid) \<Rightarrow>
          on_process (check_resolved_compatibility_with_provenance_runner (gcc_io pe child depth g (ks_now pe s))
            (gcc_remote g) candidate target candidate_oid target_oid) s
      | None \<Rightarrow>
          (let timeout = (case gcc_operation_deadline g of
                            None \<Rightarrow> gcc_timeout g | Some d \<Rightarrow> min (gcc_timeout g) (d - ks_now pe s))
           in act_then (on_process (check_compatibility_with_timeout pe child depth (gcc_repository g) (gcc_remote g)
                  candidate target timeout)) (\<lambda>r.
                act_of (case r of None \<Rightarrow> Inl unprepared_panic | Some report \<Rightarrow> Inr report)) s))"

definition gcc_cumulative_tree ::
    "'w process_env \<Rightarrow> 'w child \<Rightarrow> nat \<Rightarrow> git_compatibility_checker \<Rightarrow> branch_snapshot \<Rightarrow> branch_snapshot
     \<Rightarrow> ('w checker_state, cumulative_tree_proof option) action" where
  "gcc_cumulative_tree pe child depth g candidate target s =
     (case prepared_pair candidate target s of
        None \<Rightarrow> (s, Inr None)
      | Some (candidate_oid, target_oid) \<Rightarrow>
          act_then (on_process (cumulative_tree_io (gcc_io pe child depth g (ks_now pe s)) candidate target
            candidate_oid target_oid)) (\<lambda>r. act_of (Inr (Some r))) s)"

definition gcc_squash_equivalence ::
    "'w process_env \<Rightarrow> 'w child \<Rightarrow> ('w process_state \<Rightarrow> 'w process_state) \<Rightarrow> nat \<Rightarrow> git_compatibility_checker
     \<Rightarrow> branch_snapshot \<Rightarrow> branch_snapshot \<Rightarrow> ('w checker_state, squash_equivalence_report option) action" where
  "gcc_squash_equivalence pe child settle depth g candidate target s =
     (case prepared_pair candidate target s of
        None \<Rightarrow> (s, Inr None)
      | Some (candidate_oid, target_oid) \<Rightarrow>
          act_then (on_process (io_read (gcc_io pe child depth g (ks_now pe s)) settle (\<lambda>runner.
            analyze_with_runner runner candidate target candidate_oid target_oid))) (\<lambda>r. act_of (Inr (Some r))) s)"

definition git_checker ::
    "'w process_env \<Rightarrow> 'w child \<Rightarrow> ('w process_state \<Rightarrow> 'w process_state) \<Rightarrow> nat \<Rightarrow> git_compatibility_checker
     \<Rightarrow> 'w checker_state checker" where
  "git_checker pe child settle depth g =
     \<lparr>ck_prepare = gcc_prepare pe child depth g, ck_check = gcc_check pe child depth g,
      ck_cumulative_tree = gcc_cumulative_tree pe child depth g,
      ck_squash_equivalence = gcc_squash_equivalence pe child settle depth g, ck_now = ks_now pe\<rparr>"

end
