(* ===== verification/Graph_Links.thy ===== *)
theory Graph_Links
  imports Graph
begin

text \<open>
  What the maps built by phases 1 to 5 of the derivation hold: the index of the snapshot, the
  active members, the head branches, and the parent, child and root structure, each characterised
  by a lookup lemma; and which problems the phases record.
\<close>

subsection \<open>The index of the snapshot\<close>

abbreviation prs_of :: "repository_snapshot \<Rightarrow> (pr_number, pull_request_snapshot) btree_map" where
  "prs_of snap \<equiv> fst (index_pull_requests (snap_pull_requests snap))"

lemma fst_fold_index: "fst (fold index_pull_request ps s) = bt.fill pr_num id ps (fst s)"
  by (induction ps arbitrary: s) (simp_all add: index_pull_request_def bt.fill_def)

lemma index_wf: "bt_wf (fst (index_pull_requests ps))"
  by (simp add: index_pull_requests_def fst_fold_index bt.wf_fill bt.wf_empty)

lemma index_get:
  "bt_get (fst (index_pull_requests ps)) n = find (\<lambda>p. pr_num p = n) (rev ps)"
  by (simp add: index_pull_requests_def fst_fold_index bt.lookup_fill bt.lookup_empty split: option.split)

lemma index_get_num: "bt_get (fst (index_pull_requests ps)) n = Some p \<Longrightarrow> pr_num p = n \<and> p \<in> set ps"
  unfolding index_get by (drule find_map_pred) simp

text \<open>A map keyed by the number of its values.\<close>

definition keyed_by_num :: "(pr_number, pull_request_snapshot) btree_map \<Rightarrow> bool" where
  "keyed_by_num m \<longleftrightarrow> bt_wf m \<and> (\<forall>n p. bt_get m n = Some p \<longrightarrow> pr_num p = n)"

lemma index_keyed: "keyed_by_num (fst (index_pull_requests ps))"
  by (auto simp: keyed_by_num_def index_wf dest: index_get_num)

lemma keyed_values:
  assumes "keyed_by_num m"
  shows "p \<in> set (bt_values m) \<longleftrightarrow> bt_get m (pr_num p) = Some p"
  using assms bt_values_get [of m p] by (auto simp: keyed_by_num_def)

lemma keyed_keys:
  assumes "keyed_by_num m"
  shows "map pr_num (bt_values m) = bt_keys m"
proof -
  have "pr_num (snd e) = fst e" if "e \<in> set m" for e
    using assms that bt_get_entry [of m "fst e" "snd e"] by (simp add: keyed_by_num_def)
  then show ?thesis by (simp add: bt_values_def bt_keys_def)
qed

subsection \<open>Active members\<close>

lemma active_notes [simp]:
  "mb_active (note_merged p s) = mb_active s"
  "mb_active (note_departed p s) = mb_active s"
  "mb_merged_by_head (note_departed p s) = mb_merged_by_head s"
  by (simp_all add: note_merged_def note_departed_def)

lemma active_note_active:
  "mb_active (note_active p s) =
     (if is_active_caravan_member p then bt_insert (pr_num p) p (mb_active s) else mb_active s)"
  by (simp add: note_active_def is_active_caravan_member_def)

lemma active_fold_classify:
  "mb_active (fold classify_member ps s) =
     bt.fill pr_num id (filter is_active_caravan_member ps) (mb_active s)"
  unfolding bt.fill_def
  by (induction ps arbitrary: s) (auto simp: classify_member_def active_note_active)

lemma active_get:
  assumes "keyed_by_num prs"
  shows "bt_get (mb_active (classify_members prs problems)) n = Some p \<longleftrightarrow>
           bt_get prs n = Some p \<and> is_active_caravan_member p"
proof -
  let ?vs = "filter is_active_caravan_member (bt_values prs)"
  have "mb_active (classify_members prs problems) = bt.fill pr_num id ?vs []"
    by (simp add: classify_members_def active_fold_classify)
  then have eq: "bt_get (mb_active (classify_members prs problems)) n =
      find (\<lambda>p. pr_num p = n) (rev ?vs)"
    by (simp add: bt.lookup_fill bt.lookup_empty split: option.split)
  have in_vs: "p \<in> set ?vs \<longleftrightarrow> bt_get prs (pr_num p) = Some p \<and> is_active_caravan_member p" for p
    using keyed_values [OF assms, of p] by auto
  show ?thesis
  proof
    assume "bt_get (mb_active (classify_members prs problems)) n = Some p"
    with eq have "find (\<lambda>p. pr_num p = n) (rev ?vs) = Some p" by simp
    then have "pr_num p = n \<and> p \<in> set (rev ?vs)" by (rule find_map_pred)
    then show "bt_get prs n = Some p \<and> is_active_caravan_member p" using in_vs by auto
  next
    assume p: "bt_get prs n = Some p \<and> is_active_caravan_member p"
    with assms have "pr_num p = n" by (auto simp: keyed_by_num_def)
    with p in_vs have "p \<in> set (rev ?vs)" by auto
    with \<open>pr_num p = n\<close> obtain q where q: "find (\<lambda>p. pr_num p = n) (rev ?vs) = Some q"
      using find_Some_ex [of p "rev ?vs" "\<lambda>p. pr_num p = n"] by auto
    then have "pr_num q = n \<and> q \<in> set (rev ?vs)" by (rule find_map_pred)
    then have "bt_get prs n = Some q" using in_vs by auto
    with p q eq show "bt_get (mb_active (classify_members prs problems)) n = Some p" by simp
  qed
qed

lemma active_wf: "bt_wf (mb_active (classify_members prs problems))"
  by (simp add: classify_members_def active_fold_classify bt.wf_fill bt.wf_empty)

lemma active_keyed: "keyed_by_num prs \<Longrightarrow> keyed_by_num (mb_active (classify_members prs problems))"
  using active_get active_wf by (auto simp: keyed_by_num_def)

subsection \<open>Head branches\<close>

lemma fold_note_head:
  "fold (note_head snap) ps s =
     (fold (\<lambda>p. bt_push (br_name (pr_head p)) (pr_num p)) ps (fst s),
      snd s @ map fork_problem (filter (is_fork_head snap) ps))"
  by (induction ps arbitrary: s) (auto simp: note_head_def)

definition heads_of :: "(pr_number, pull_request_snapshot) btree_map \<Rightarrow> string \<Rightarrow> pr_number list" where
  "heads_of active b = sort (map pr_num (filter (\<lambda>p. br_name (pr_head p) = b) (bt_values active)))"

lemma heads_get:
  "bt_get (fst (heads_by_branch snap active problems)) b =
     (if heads_of active b = [] then None else Some (heads_of active b))"
proof -
  have "sort (xs :: nat list) = [] \<longleftrightarrow> xs = []" for xs
    by (metis length_0_conv length_sort)
  then show ?thesis
    by (auto simp: heads_by_branch_def fold_note_head bt_get_map_values bt_get_fold_push heads_of_def
        bt.lookup_empty Let_def)
qed

lemma heads_wf: "bt_wf (fst (heads_by_branch snap active problems))"
  by (simp add: heads_by_branch_def fold_note_head bt_wf_fold_push bt.wf_empty Let_def)

lemma set_heads_of:
  assumes "keyed_by_num active"
  shows "n \<in> set (heads_of active b) \<longleftrightarrow> (\<exists>p. bt_get active n = Some p \<and> br_name (pr_head p) = b)"
  using keyed_values [OF assms] assms by (auto simp: heads_of_def keyed_by_num_def)

lemma snd_heads_by_branch:
  "snd (heads_by_branch snap active problems) =
     problems @ map fork_problem (filter (is_fork_head snap) (bt_values active))
     @ duplicate_head_problems (fst (heads_by_branch snap active problems))"
  by (simp add: heads_by_branch_def fold_note_head Let_def)

subsection \<open>Parents, children and roots\<close>

text \<open>The predecessor a member is linked to, or the problem that makes it a root.\<close>

definition linked_parent ::
    "repository_snapshot \<Rightarrow> membership \<Rightarrow> (string, pr_number list) btree_map
     \<Rightarrow> pull_request_snapshot \<Rightarrow> pr_number option" where
  "linked_parent snap mb heads p =
     (if br_name (pr_base p) = br_name (snap_default_branch snap) then None
      else case bt_get heads (br_name (pr_base p)) of
          Some [parent] \<Rightarrow>
            if bt_get (mb_merged_by_head mb) (br_name (pr_base p)) \<noteq> None
               \<and> (\<exists>q. bt_get (mb_active mb) parent = Some q \<and> br_oid (pr_head q) \<noteq> br_oid (pr_base p))
            then None else Some parent
        | _ \<Rightarrow> None)"

definition root_problem ::
    "repository_snapshot \<Rightarrow> membership \<Rightarrow> (string, pr_number list) btree_map
     \<Rightarrow> pull_request_snapshot \<Rightarrow> graph_problem" where
  "root_problem snap mb heads p =
     (case bt_get heads (br_name (pr_base p)) of
        Some [parent] \<Rightarrow> reused_problem p parent (bt_get (mb_merged_by_head mb) (br_name (pr_base p)))
      | Some parents \<Rightarrow> ambiguous_problem p parents
      | None \<Rightarrow> dangling_problem snap mb p)"

lemma link_member_cases:
  "link_member snap mb heads p s =
     (case linked_parent snap mb heads p of
        Some parent \<Rightarrow> add_link (pr_num p) parent s
      | None \<Rightarrow>
          if br_name (pr_base p) = br_name (snap_default_branch snap) then add_root (pr_num p) s
          else add_root_problem (pr_num p) (root_problem snap mb heads p) s)"
  by (auto simp: link_member_def linked_parent_def root_problem_def Let_def
      split: option.splits list.splits)

text \<open>The three maps after the loop, over the members in iteration order.\<close>

lemma fold_link_member:
  fixes snap mb heads
  defines "lp \<equiv> linked_parent snap mb heads"
  defines "lk ps s \<equiv> fold (link_member snap mb heads) ps s"
  shows "lk_roots (lk ps s) = fold bs_insert (map pr_num (filter (\<lambda>p. lp p = None) ps)) (lk_roots s)"
    and "lk_parent_of (lk ps s) =
           bt.fill pr_num (\<lambda>p. the (lp p)) (filter (\<lambda>p. lp p \<noteq> None) ps) (lk_parent_of s)"
    and "lk_children (lk ps s) =
           fold (\<lambda>p. bt_push (the (lp p)) (pr_num p)) (filter (\<lambda>p. lp p \<noteq> None) ps) (lk_children s)"
    and "lk_problems (lk ps s) = lk_problems s @ map (root_problem snap mb heads)
           (filter (\<lambda>p. lp p = None \<and> br_name (pr_base p) \<noteq> br_name (snap_default_branch snap)) ps)"
proof -
  have lp_default: "lp p = None" if "br_name (pr_base p) = br_name (snap_default_branch snap)" for p
    using that by (simp add: lp_def linked_parent_def)
  have step: "link_member snap mb heads p s = (case lp p of Some parent \<Rightarrow> add_link (pr_num p) parent s
      | None \<Rightarrow> if br_name (pr_base p) = br_name (snap_default_branch snap) then add_root (pr_num p) s
                else add_root_problem (pr_num p) (root_problem snap mb heads p) s)" for p s
    by (simp add: link_member_cases lp_def)
  show "lk_roots (lk ps s) = fold bs_insert (map pr_num (filter (\<lambda>p. lp p = None) ps)) (lk_roots s)"
    unfolding lk_def
    by (induction ps arbitrary: s)
      (auto simp: step add_root_def add_root_problem_def add_link_def split: option.split)
  show "lk_parent_of (lk ps s) =
      bt.fill pr_num (\<lambda>p. the (lp p)) (filter (\<lambda>p. lp p \<noteq> None) ps) (lk_parent_of s)"
    unfolding lk_def bt.fill_def
    by (induction ps arbitrary: s)
      (auto simp: step add_root_def add_root_problem_def add_link_def split: option.split)
  show "lk_children (lk ps s) =
      fold (\<lambda>p. bt_push (the (lp p)) (pr_num p)) (filter (\<lambda>p. lp p \<noteq> None) ps) (lk_children s)"
    unfolding lk_def
    by (induction ps arbitrary: s)
      (auto simp: step add_root_def add_root_problem_def add_link_def split: option.split)
  show "lk_problems (lk ps s) = lk_problems s @ map (root_problem snap mb heads)
      (filter (\<lambda>p. lp p = None \<and> br_name (pr_base p) \<noteq> br_name (snap_default_branch snap)) ps)"
    unfolding lk_def
    by (induction ps arbitrary: s)
      (auto simp: step add_root_def add_root_problem_def add_link_def split: option.split
        dest: lp_default)
qed

end
