(* ===== verification/Graph_Walk.thy ===== *)
theory Graph_Walk
  imports Graph
begin

text \<open>
  The walks of phases 6 and 7 over a parent/child structure. The locale \<open>chain_forest\<close> is what
  they rely on: the two maps describe one relation, and the roots are the members without a
  parent. Its lemmas say what \<open>walk_linear\<close> and \<open>walk_chains\<close> compute; the linking phase
  interprets it.
\<close>

lemma successively_append_last:
  "successively P (xs @ [y]) \<longleftrightarrow> successively P xs \<and> (xs = [] \<or> P (last xs) y)"
  by (auto simp: successively_append_iff)

lemma successively_split:
  "successively P (xs @ a # b # ys) \<Longrightarrow> P a b"
  by (auto simp: successively_append_iff)

text \<open>An element of a chain that is not its first has a predecessor in it.\<close>

lemma successively_pred:
  assumes "successively P xs" "x \<in> set xs" "x \<noteq> hd xs"
  obtains as a bs where "xs = as @ a # x # bs" "P a x"
proof -
  obtain us vs where xs: "xs = us @ x # vs" using assms(2) by (auto dest: split_list)
  with assms(3) have "us \<noteq> []" by auto
  then obtain as a where us: "us = as @ [a]" by (metis rev_exhaust)
  with xs assms(1) have "P a x" by (auto simp: successively_append_iff)
  with xs us show thesis by (intro that) auto
qed

lemma distinct_concat_same:
  "distinct (concat (map f cs)) \<Longrightarrow> c \<in> set cs \<Longrightarrow> d \<in> set cs \<Longrightarrow> y \<in> set (f c) \<Longrightarrow> y \<in> set (f d)
   \<Longrightarrow> c = d"
  by (induction cs) auto

lemma distinct_concat_part: "distinct (concat (map f cs)) \<Longrightarrow> c \<in> set cs \<Longrightarrow> distinct (f c)"
  by (induction cs) auto

subsection \<open>One walk\<close>

abbreviation only_child :: "(pr_number, pr_number list) btree_map \<Rightarrow> pr_number \<Rightarrow> pr_number \<Rightarrow> bool" where
  "only_child children a b \<equiv> bt_get children a = Some [b]"

lemma walk_linear_cases:
  assumes "current \<notin> set visited"
  shows "(\<exists>child. only_child children current child
            \<and> walk_linear children current visited =
                (current # fst (walk_linear children child (bs_insert current visited)),
                 snd (walk_linear children child (bs_insert current visited))))
         \<or> ((\<forall>child. \<not> only_child children current child)
            \<and> walk_linear children current visited = ([current], bs_insert current visited))"
  using assms
  by (subst (1 2) walk_linear.simps)
    (auto simp: Let_def case_prod_beta split: option.split list.split)

lemma walk_linear_spec:
  fixes children :: "(pr_number, pr_number list) btree_map"
  assumes "walk_linear children current visited = (ms, v)"
  shows "set v = set visited \<union> set ms \<and> distinct ms \<and> set ms \<inter> set visited = {}
    \<and> (if current \<in> set visited then ms = [] else ms \<noteq> [] \<and> hd ms = current)
    \<and> successively (only_child children) ms
    \<and> (\<forall>x. ms \<noteq> [] \<longrightarrow> only_child children (last ms) x \<longrightarrow> x \<in> set v)
    \<and> set ms \<subseteq> insert current (\<Union> (set ` set (bt_values children)))"
  using assms
proof (induction children current visited arbitrary: ms v rule: walk_linear.induct)
  case (1 children current visited)
  show ?case
  proof (cases "current \<in> set visited")
    case True
    with "1.prems" show ?thesis by (simp add: walk_linear.simps [of children current visited])
  next
    case new: False
    from walk_linear_cases [OF new, of children] show ?thesis
    proof (elim disjE exE conjE)
      fix child
      assume child: "only_child children current child"
        and walk: "walk_linear children current visited =
                (current # fst (walk_linear children child (bs_insert current visited)),
                 snd (walk_linear children child (bs_insert current visited)))"
      obtain ms' v' where rec: "walk_linear children child (bs_insert current visited) = (ms', v')"
        by fastforce
      from "1.prems" walk rec have ms: "ms = current # ms'" "v = v'" by auto
      have "child \<in> \<Union> (set ` set (bt_values children))"
        using child by (force simp: bt_get_def bt_values_def dest: map_of_SomeD)
      moreover have "\<not> bs_contains visited current" using new by simp
      from "1.IH" [OF this refl child refl refl rec]
      have "set v' = set (bs_insert current visited) \<union> set ms' \<and> distinct ms'
          \<and> set ms' \<inter> set (bs_insert current visited) = {}
          \<and> (if child \<in> set (bs_insert current visited) then ms' = [] else ms' \<noteq> [] \<and> hd ms' = child)
          \<and> successively (only_child children) ms'
          \<and> (\<forall>x. ms' \<noteq> [] \<longrightarrow> only_child children (last ms') x \<longrightarrow> x \<in> set v')
          \<and> set ms' \<subseteq> insert child (\<Union> (set ` set (bt_values children)))"
        by blast
      ultimately show ?thesis
        using new child ms by (cases ms') (auto split: if_splits)
    next
      assume "\<forall>child. \<not> only_child children current child"
        and "walk_linear children current visited = ([current], bs_insert current visited)"
      with "1.prems" new show ?thesis by auto
    qed
  qed
qed

subsection \<open>The interface to the linking phase\<close>

locale chain_forest =
  fixes active :: "pr_number list"
    and roots :: "pr_number btree_set"
    and parent_of :: "(pr_number, pr_number) btree_map"
    and children :: "(pr_number, pr_number list) btree_map"
  assumes child_parent: "bt_get children q = Some cs \<Longrightarrow> n \<in> set cs \<longleftrightarrow> bt_get parent_of n = Some q"
    and child_total: "bt_get parent_of n = Some q \<Longrightarrow> \<exists>cs. bt_get children q = Some cs"
    and child_nonempty: "bt_get children q = Some cs \<Longrightarrow> cs \<noteq> [] \<and> distinct cs"
    and parent_active: "bt_get parent_of n = Some q \<Longrightarrow> n \<in> set active \<and> q \<in> set active"
    and root_iff: "n \<in> set roots \<longleftrightarrow> n \<in> set active \<and> bt_get parent_of n = None"
    and children_wf: "bt_wf children"
begin

lemma only_child_parent: "only_child children a b \<Longrightarrow> bt_get parent_of b = Some a"
  using child_parent [of a "[b]" b] by simp

text \<open>A chain as the walks build it.\<close>

definition chain_of :: "caravan \<Rightarrow> bool" where
  "chain_of c \<longleftrightarrow> cv_members c \<noteq> [] \<and> cv_id c = hd (cv_members c) \<and> \<not> cv_parked c
     \<and> successively (only_child children) (cv_members c)"

definition members_of :: "caravan list \<Rightarrow> pr_number list" where
  "members_of cs = concat (map cv_members cs)"

definition walked :: "caravan list \<Rightarrow> pr_number btree_set \<Rightarrow> bool" where
  "walked cs v \<longleftrightarrow> distinct (members_of cs) \<and> set (members_of cs) = set v \<and> set v \<subseteq> set active
     \<and> (\<forall>c\<in>set cs. chain_of c)
     \<and> (\<forall>c\<in>set cs. \<forall>x. only_child children (last (cv_members c)) x \<longrightarrow> x \<in> set v)"

lemma walked_empty: "walked [] []"
  by (simp add: walked_def members_of_def)

lemma children_active: "\<Union> (set ` set (bt_values children)) \<subseteq> set active"
proof
  fix x
  assume "x \<in> \<Union> (set ` set (bt_values children))"
  then obtain q cs where "bt_get children q = Some cs" "x \<in> set cs"
    using bt_values_get [OF children_wf] by auto
  with child_parent parent_active show "x \<in> set active" by blast
qed

lemma walked_step:
  assumes w: "walked cs v" and n: "n \<in> set active" "n \<notin> set v"
    and walk: "walk_linear children n v = (ms, v')"
  shows "walked (push_caravan ms cs) v' \<and> set v \<subseteq> set v' \<and> n \<in> set v'
     \<and> (\<exists>c. push_caravan ms cs = cs @ [c] \<and> cv_id c = n \<and> cv_members c = ms)"
proof -
  note spec = walk_linear_spec [OF walk]
  let ?c = "\<lparr>cv_id = n, cv_members = ms, cv_parked = False\<rparr>"
  have ms: "ms \<noteq> []" "hd ms = n" using spec n(2) by auto
  then have push: "push_caravan ms cs = cs @ [?c]"
    by (auto simp: push_caravan_def opt_list_def caravan_new_def split: list.split)
  have sub: "set v \<subseteq> set v'" and in_v': "n \<in> set v'" using spec ms by (auto dest: list.set_sel(1))
  have "set ms \<subseteq> set active" using spec children_active n(1) by blast
  then have "walked (cs @ [?c]) v'"
    using w spec ms sub unfolding walked_def members_of_def chain_of_def
    by (auto simp: n(1))
  with push sub in_v' show ?thesis by auto
qed

lemma fold_walk_root:
  assumes "walked cs v" "set rs \<subseteq> set active" "\<forall>c\<in>set cs. cv_id c \<in> set roots" "set rs \<subseteq> set roots"
  shows "walked (fst (fold (walk_root children) rs (cs, v))) (snd (fold (walk_root children) rs (cs, v)))
     \<and> set rs \<union> set v \<subseteq> set (snd (fold (walk_root children) rs (cs, v)))
     \<and> (\<forall>c\<in>set (fst (fold (walk_root children) rs (cs, v))). cv_id c \<in> set roots)"
  using assms
proof (induction rs arbitrary: cs v)
  case Nil
  then show ?case by simp
next
  case (Cons r rs)
  show ?case
  proof (cases "r \<in> set v")
    case True
    with Cons.IH [of cs v] Cons.prems show ?thesis by (auto simp: walk_root_def)
  next
    case False
    obtain ms v' where walk: "walk_linear children r v = (ms, v')" by fastforce
    with Cons.prems False
    have step: "walked (push_caravan ms cs) v' \<and> set v \<subseteq> set v' \<and> r \<in> set v'
     \<and> (\<exists>c. push_caravan ms cs = cs @ [c] \<and> cv_id c = r \<and> cv_members c = ms)"
      by (intro walked_step) auto
    with Cons.prems have "\<forall>c\<in>set (push_caravan ms cs). cv_id c \<in> set roots" by auto
    with Cons.IH [of "push_caravan ms cs" v'] Cons.prems step False walk
    show ?thesis by (auto simp: walk_root_def)
  qed
qed

lemma fold_walk_rest:
  assumes "walked cs v" "set ns \<subseteq> set active"
  shows "\<exists>cs' v' ps'. fold (walk_rest children) ns ((cs, v), ps) = ((cs @ cs', v'), ps @ ps')
     \<and> walked (cs @ cs') v' \<and> set ns \<union> set v \<subseteq> set v'
     \<and> map gp_prs ps' = map cv_members cs' \<and> (\<forall>p\<in>set ps'. gp_kind p = MissingHead)"
  using assms
proof (induction ns arbitrary: cs v ps)
  case Nil
  then show ?case by (auto intro!: exI [of _ "[]"])
next
  case (Cons n ns)
  show ?case
  proof (cases "n \<in> set v")
    case True
    with Cons.prems have "walked cs v" "set ns \<subseteq> set active" by auto
    from Cons.IH [OF this, of ps] True show ?thesis
      by (force simp: walk_rest_def)
  next
    case False
    obtain ms v' where walk: "walk_linear children n v = (ms, v')" by fastforce
    with Cons.prems False obtain c where step: "walked (cs @ [c]) v'" "set v \<subseteq> set v'" "n \<in> set v'"
      and push: "push_caravan ms cs = cs @ [c]" and c: "cv_members c = ms"
      using walked_step [of cs v n ms v'] by auto
    let ?p = "mk_problem MissingHead ms ''active component has no unique default-branch head''"
    have "set ns \<subseteq> set active" using Cons.prems by simp
    from Cons.IH [OF step(1) this, of "ps @ [?p]"] obtain cs' v'' ps' where
      IH: "fold (walk_rest children) ns ((cs @ [c], v'), ps @ [?p]) = (((cs @ [c]) @ cs', v''), (ps @ [?p]) @ ps')"
        "walked ((cs @ [c]) @ cs') v''" "set ns \<union> set v' \<subseteq> set v''"
        "map gp_prs ps' = map cv_members cs'" "\<forall>p\<in>set ps'. gp_kind p = MissingHead"
      by blast
    have "fold (walk_rest children) (n # ns) ((cs, v), ps) =
        fold (walk_rest children) ns ((cs @ [c], v'), ps @ [?p])"
      using False walk push by (simp add: walk_rest_def)
    with IH step c show ?thesis
      by (intro exI [of _ "c # cs'"] exI [of _ v''] exI [of _ "?p # ps'"]) (auto simp: mk_problem_def)
  qed
qed

text \<open>
  The whole phase: the chains partition the active members, each is a chain of only children, and
  those that do not start at a root are reported as \<open>MissingHead\<close>.
\<close>

lemma walk_chains_spec:
  assumes "roots = lk_roots lk" "children = lk_children lk" "active = bt_keys act"
  shows "\<exists>rooted rest ps. walk_chains act lk = (rooted @ rest, ps)
     \<and> distinct (members_of (rooted @ rest)) \<and> set (members_of (rooted @ rest)) = set active
     \<and> (\<forall>c\<in>set (rooted @ rest). chain_of c)
     \<and> (\<forall>c\<in>set rooted. cv_id c \<in> set roots)
     \<and> (\<forall>c\<in>set rooted. \<forall>x. \<not> only_child children (last (cv_members c)) x)
     \<and> map gp_prs ps = map cv_members rest \<and> (\<forall>p\<in>set ps. gp_kind p = MissingHead)"
proof -
  have "set roots \<subseteq> set active" using root_iff by blast
  obtain rooted v where rooted: "fold (walk_root children) roots ([], []) = (rooted, v)" by fastforce
  from fold_walk_root [OF walked_empty \<open>set roots \<subseteq> set active\<close>] rooted
  have w: "walked rooted v" and heads: "\<forall>c\<in>set rooted. cv_id c \<in> set roots" by auto
  have "set active \<subseteq> set active" by simp
  from fold_walk_rest [OF w this, of "[]"] obtain rest v' ps where
    rest: "fold (walk_rest children) active ((rooted, v), []) = ((rooted @ rest, v'), ps)"
    and w': "walked (rooted @ rest) v'" "set active \<union> set v \<subseteq> set v'"
    and ps: "map gp_prs ps = map cv_members rest" "\<forall>p\<in>set ps. gp_kind p = MissingHead"
    by auto
  have maximal: "\<not> only_child children (last (cv_members c)) x" if c: "c \<in> set rooted" for c x
  proof
    let ?t = "last (cv_members c)"
    assume child: "only_child children ?t x"
    with w c have "x \<in> set (members_of rooted)" by (auto simp: walked_def)
    then obtain c' where c': "c' \<in> set rooted" "x \<in> set (cv_members c')" by (auto simp: members_of_def)
    have chain: "chain_of c'" "chain_of c" using w c c' by (auto simp: walked_def)
    have "x \<noteq> hd (cv_members c')"
      using heads c'(1) chain(1) root_iff only_child_parent [OF child] by (auto simp: chain_of_def)
    with chain(1) c'(2) obtain as a bs where split: "cv_members c' = as @ a # x # bs"
      and "only_child children a x"
      unfolding chain_of_def by (elim conjE successively_pred [of _ _ x]) blast
    then have "a = ?t"
      using only_child_parent [OF child] only_child_parent [OF \<open>only_child children a x\<close>] by simp
    moreover have "?t \<in> set (cv_members c)" using chain(2) by (simp add: chain_of_def)
    moreover have "distinct (members_of rooted)" using w by (simp add: walked_def)
    ultimately have "c' = c" and "distinct (cv_members c)"
      using c c'(1) split distinct_concat_same [of cv_members rooted c' c ?t]
      by (auto simp: members_of_def dest: distinct_concat_part)
    from split \<open>c' = c\<close> have "?t = last (x # bs)" by simp
    then have "?t \<in> set (x # bs)" by (metis last_in_set list.distinct(1))
    with split \<open>c' = c\<close> \<open>a = ?t\<close> \<open>distinct (cv_members c)\<close> show False by (metis distinct.simps(2) distinct_append)
  qed
  have "walk_chains act lk = (rooted @ rest, ps)"
    using rooted rest assms by (simp add: walk_chains_def)
  with w' heads maximal ps show ?thesis
    by (intro exI [of _ rooted] exI [of _ rest] exI [of _ ps]) (auto simp: walked_def)
qed

end

end
