(* ===== verification/Samples.thy ===== *)
theory Samples
  imports Graph
begin

text \<open>
  A small concrete repository: the default branch \<open>main\<close> and three active members stacked on each
  other, the head armed for squash auto-merge. The witnesses of the graph properties evaluate the
  derivation on it.
\<close>

definition sample_repository :: repository_id where
  "sample_repository = \<lparr>repo_owner = ''o'', repo_name = ''r''\<rparr>"

definition sample_branch :: "string \<Rightarrow> branch_snapshot" where
  "sample_branch n = \<lparr>br_repository = sample_repository, br_name = n, br_oid = n\<rparr>"

definition sample_pr :: "pr_number \<Rightarrow> string \<Rightarrow> string \<Rightarrow> auto_merge_state \<Rightarrow> pull_request_snapshot" where
  "sample_pr n head_name base_name arm =
     \<lparr>pr_num = n, pr_title = [], pr_url = [], pr_state = Open, pr_draft = False,
      pr_head = sample_branch head_name, pr_base = sample_branch base_name,
      pr_cross_repository = False, pr_labels = [''caravan''], pr_auto_merge = arm, pr_checks = [],
      pr_created_at = None, pr_merged_at = None, pr_updated_at = None,
      pr_merge_state_status = None\<rparr>"

definition sample_snapshot :: repository_snapshot where
  "sample_snapshot =
     \<lparr>snap_repository = sample_repository, snap_default_branch = sample_branch ''m'',
      snap_current_pr = None,
      snap_pull_requests =
        [sample_pr 2 ''b'' ''a'' auto_merge_disabled,
         sample_pr 1 ''a'' ''m'' auto_merge_squash,
         sample_pr 3 ''c'' ''b'' auto_merge_disabled]\<rparr>"

definition sample_caravan :: caravan where
  "sample_caravan = \<lparr>cv_id = 1, cv_members = [1, 2, 3], cv_parked = False\<rparr>"

definition sample_analysis :: graph_analysis where
  "sample_analysis =
     \<lparr>ga_fleet =
        \<lparr>fl_repository = sample_repository, fl_default_branch = sample_branch ''m'',
         fl_caravans = [sample_caravan], fl_unqueued = [], fl_problems = [],
         fl_history = \<lparr>merged_members_observed = 0, earliest_merged_at = None,
                       latest_merged_at = None, unlabelled_merged_rows = 0\<rparr>\<rparr>,
      ga_required_policy = None,
      ga_pull_requests =
        [(1, sample_pr 1 ''a'' ''m'' auto_merge_squash),
         (2, sample_pr 2 ''b'' ''a'' auto_merge_disabled),
         (3, sample_pr 3 ''c'' ''b'' auto_merge_disabled)],
      ga_compatibility = [], ga_cumulative_trees = [], ga_squash_reconciliations = []\<rparr>"

lemmas sample_defs =
  sample_repository_def sample_branch_def sample_pr_def sample_snapshot_def sample_caravan_def
  sample_analysis_def auto_merge_disabled_def auto_merge_squash_def

lemma sample_member:
  "is_active_caravan_member (sample_pr n h b arm)" "has_label (sample_pr n h b arm) ''caravan''"
  "\<not> has_label (sample_pr n h b arm) ''caravan-evicted''"
  "\<not> has_label (sample_pr n h b arm) ''caravan-parked''"
  "pr_num (sample_pr n h b arm) = n" "pr_state (sample_pr n h b arm) = Open"
  "br_name (pr_head (sample_pr n h b arm)) = h" "br_name (pr_base (sample_pr n h b arm)) = b"
  "br_oid (pr_head (sample_pr n h b arm)) = h" "br_oid (pr_base (sample_pr n h b arm)) = b"
  "br_repository (pr_head (sample_pr n h b arm)) = sample_repository"
  "pr_labels (sample_pr n h b arm) = [''caravan'']"
  "pr_auto_merge (sample_pr n h b arm) = arm" "\<not> pr_cross_repository (sample_pr n h b arm)"
  by (simp_all add: sample_pr_def sample_branch_def is_active_caravan_member_def has_label_def
      bs_contains_def)

lemma sample_indexed:
  "index_pull_requests (snap_pull_requests sample_snapshot) = (ga_pull_requests sample_analysis, [])"
  by (simp add: sample_snapshot_def sample_analysis_def index_pull_requests_def index_pull_request_def
      sample_member bt_get_def)

lemma sample_classified:
  "classify_members (ga_pull_requests sample_analysis) [] =
     \<lparr>mb_active = ga_pull_requests sample_analysis, mb_merged_by_head = [], mb_departed_by_head = [],
      mb_problems = []\<rparr>"
  by (simp add: sample_analysis_def classify_members_def classify_member_def note_active_def
      note_departed_def note_merged_def sample_member bt_values_def)

lemma sample_heads:
  "heads_by_branch sample_snapshot (ga_pull_requests sample_analysis) [] =
     ([(''a'', [1]), (''b'', [2]), (''c'', [3])], [])"
  by (simp add: sample_analysis_def sample_snapshot_def heads_by_branch_def note_head_def
      is_fork_head_def sample_member bt_values_def bt_push_def bt_get_def bt_map_values_def
      duplicate_head_problems_def)

lemma sample_links:
  "link_members sample_snapshot
     \<lparr>mb_active = ga_pull_requests sample_analysis, mb_merged_by_head = [], mb_departed_by_head = [],
      mb_problems = []\<rparr> [(''a'', [1]), (''b'', [2]), (''c'', [3])] [] =
   \<lparr>lk_roots = [1], lk_parent_of = [(2, 1), (3, 2)], lk_children = [(1, [2]), (2, [3])],
    lk_problems = []\<rparr>"
  by (simp add: sample_analysis_def sample_snapshot_def link_members_def link_member_def add_root_def
      add_link_def sample_member sample_branch_def bt_values_def bt_push_def bt_get_def)

lemma sample_no_cycle:
  "detect_cycles (ga_pull_requests sample_analysis) [(2, 1), (3, 2)] = []"
  by (simp add: sample_analysis_def detect_cycles_def record_cycle_def cycle_from.simps bt_keys_def
      bt_get_def)

lemma sample_walk:
  "walk_chains (ga_pull_requests sample_analysis)
     \<lparr>lk_roots = [1], lk_parent_of = [(2, 1), (3, 2)], lk_children = [(1, [2]), (2, [3])],
      lk_problems = []\<rparr> = ([sample_caravan], [])"
  by (simp add: sample_analysis_def sample_caravan_def walk_chains_def walk_root_def walk_rest_def
      walk_linear.simps bs_contains_def bt_keys_def bt_get_def push_caravan_def caravan_new_def
      opt_list_def)

lemma sample_armed:
  "auto_merge_problems ActorGithub (ga_pull_requests sample_analysis)
     [sample_caravan] = Some []"
  by (simp add: sample_analysis_def sample_caravan_def set_parked_def bt_get_def auto_merge_valid_def
      root_must_be_armed_def sample_member auto_merge_squash_def auto_merge_disabled_def
      actor_github_def)

lemma sample_derived: "derive_for_actor sample_snapshot ActorGithub = Some sample_analysis"
proof -
  have unqueued: "unqueued_prs (ga_pull_requests sample_analysis) = []"
    by (simp add: sample_analysis_def unqueued_prs_def bt_values_def is_unqueued_def sample_member)
  have parked: "set_parked (ga_pull_requests sample_analysis) sample_caravan = sample_caravan"
    by (simp add: sample_analysis_def sample_caravan_def set_parked_def bt_get_def sample_member)
  have history: "derive_history (snap_pull_requests sample_snapshot) = fl_history (ga_fleet sample_analysis)"
    by (simp add: sample_analysis_def sample_snapshot_def derive_history_def sample_member
        List.map_filter_def)
  show ?thesis
    unfolding derive_for_actor_def sample_indexed Let_def prod.case sample_classified
      membership.simps sample_heads sample_links
    by (simp add: bt_map_values_def bt_values_def sample_no_cycle sample_walk unqueued parked history
        sample_armed del: One_nat_def auto_merge_problems.simps)
      (simp add: sample_analysis_def sample_snapshot_def)
qed

end
