(* ===== verification/Graph_Cycles.thy ===== *)
theory Graph_Cycles
  imports Graph_Walk Samples
begin

text \<open>
  Cycle detection (phase 6): the walk from every active member reports exactly the cycles of the
  parent map, each once. Cycles are stated with the transitive closure of the parent relation,
  which is a partial function.
\<close>

definition parent_edges :: "(pr_number, pr_number) btree_map \<Rightarrow> (pr_number \<times> pr_number) set" where
  "parent_edges parent_of = {(a, b). bt_get parent_of a = Some b}"

definition on_cycle :: "(pr_number, pr_number) btree_map \<Rightarrow> pr_number \<Rightarrow> bool" where
  "on_cycle parent_of n \<longleftrightarrow> (n, n) \<in> (parent_edges parent_of)\<^sup>+"

abbreviation parent_step :: "(pr_number, pr_number) btree_map \<Rightarrow> pr_number \<Rightarrow> pr_number \<Rightarrow> bool" where
  "parent_step parent_of a b \<equiv> bt_get parent_of a = Some b"

lemma parent_edges_fun: "(a, b) \<in> parent_edges m \<Longrightarrow> (a, c) \<in> parent_edges m \<Longrightarrow> b = c"
  by (simp add: parent_edges_def)

text \<open>On a functional relation, everything reachable from a node of a cycle leads back to it.\<close>

lemma cycle_returns:
  assumes "on_cycle m n" "(n, x) \<in> (parent_edges m)\<^sup>*"
  shows "(x, n) \<in> (parent_edges m)\<^sup>*"
  using assms(2)
proof (induction rule: rtrancl_induct)
  case base
  show ?case by simp
next
  case (step x y)
  show ?case
  proof (cases "x = n")
    case True
    with assms(1) obtain z where "(x, z) \<in> parent_edges m" "(z, n) \<in> (parent_edges m)\<^sup>*"
      by (auto simp: on_cycle_def dest: tranclD)
    with step.hyps(2) parent_edges_fun show ?thesis by blast
  next
    case False
    with step.IH obtain z where "(x, z) \<in> parent_edges m" "(z, n) \<in> (parent_edges m)\<^sup>*"
      by (blast elim: converse_rtranclE)
    with step.hyps(2) parent_edges_fun show ?thesis by blast
  qed
qed

lemma chain_reaches:
  "successively (parent_step m) (xs @ [y]) \<Longrightarrow> x \<in> set xs \<Longrightarrow> (x, y) \<in> (parent_edges m)\<^sup>+"
proof (induction xs arbitrary: x)
  case (Cons a xs)
  have edge: "(a, hd (xs @ [y])) \<in> parent_edges m"
    using Cons.prems(1) by (cases xs) (auto simp: parent_edges_def)
  have tl: "successively (parent_step m) (xs @ [y])"
    using Cons.prems(1) by (cases xs) auto
  show ?case
  proof (cases "x \<in> set xs")
    case True
    with Cons.IH tl show ?thesis by blast
  next
    case False
    with Cons.prems(2) have "x = a" by simp
    show ?thesis
    proof (cases xs)
      case Nil
      with edge \<open>x = a\<close> show ?thesis by auto
    next
      case (Cons b bs)
      with Cons.IH tl have "(b, y) \<in> (parent_edges m)\<^sup>+" by simp
      with edge \<open>x = a\<close> \<open>xs = b # bs\<close> show ?thesis by (simp add: trancl_into_trancl2)
    qed
  qed
qed simp

text \<open>A closed walk is the whole of the cycle it starts on.\<close>

lemma closed_walk_is_cycle:
  assumes chain: "successively (parent_step m) (ds @ [y])" and hd: "ds \<noteq> []" "hd ds = y"
  shows "on_cycle m y \<and> set ds = {x. (y, x) \<in> (parent_edges m)\<^sup>+}"
proof -
  have returns: "(x, y) \<in> (parent_edges m)\<^sup>+" if "x \<in> set ds" for x
    using chain_reaches [OF chain that] .
  then have cyc: "on_cycle m y" using hd by (auto simp: on_cycle_def)
  have closed: "b \<in> set ds" if ab: "a \<in> set ds" "(a, b) \<in> parent_edges m" for a b
  proof -
    obtain us vs where ds: "ds = us @ a # vs" using split_list [OF ab(1)] by blast
    with chain have "parent_step m a (hd (vs @ [y]))"
      by (cases vs) (auto simp: successively_append_iff)
    moreover have "parent_step m a b" using ab(2) by (simp add: parent_edges_def)
    ultimately have "b = hd (vs @ [y])" by (metis option.inject)
    moreover have "y \<in> set ds" using hd list.set_sel(1) by blast
    ultimately show ?thesis using ds by (cases vs) auto
  qed
  have "x \<in> set ds" if "(y, x) \<in> (parent_edges m)\<^sup>+" for x
    using that
  proof (induction rule: trancl_induct)
    case (base x)
    then show ?case using closed hd by (metis list.set_sel(1))
  next
    case (step a b)
    then show ?case using closed by blast
  qed
  moreover have "(y, x) \<in> (parent_edges m)\<^sup>+" if x: "x \<in> set ds" for x
  proof -
    have "(x, y) \<in> (parent_edges m)\<^sup>+" using returns [OF x] .
    moreover have "(y, x) \<in> (parent_edges m)\<^sup>*"
    proof -
      obtain us vs where ds: "ds = us @ x # vs" using split_list [OF x] by blast
      show ?thesis
      proof (cases us)
        case Nil
        with ds hd show ?thesis by simp
      next
        case (Cons u us')
        have "successively (parent_step m) ((us @ [x]) @ (vs @ [y]))" using ds chain by simp
        then have "successively (parent_step m) ((u # us') @ [x])"
          unfolding successively_append_iff [of _ "us @ [x]"] using Cons by blast
        from chain_reaches [OF this, of u] ds Cons hd show ?thesis by (auto intro: trancl_into_rtrancl)
      qed
    qed
    ultimately show ?thesis using cyc by (auto simp: on_cycle_def intro: trancl_rtrancl_trancl)
  qed
  ultimately show ?thesis using cyc by auto
qed

lemma cycle_from_spec:
  assumes "successively (parent_step m) (path @ [current])" "distinct path"
    and "cycle_from m path current = Some cycle"
  shows "sorted cycle \<and> distinct cycle \<and> (\<exists>y. on_cycle m y \<and> set cycle = {x. (y, x) \<in> (parent_edges m)\<^sup>+}
           \<and> (hd (path @ [current]), y) \<in> (parent_edges m)\<^sup>*)"
  using assms
proof (induction m path current rule: cycle_from.induct)
  case (1 m path current)
  show ?case
  proof (cases "position_of current path")
    case (Some i)
    then have i: "i < length path" "path ! i = current" by (auto dest: position_of_Some)
    have split: "path = take i path @ drop i path" by simp
    have ds: "drop i path \<noteq> []" "hd (drop i path) = current" using i by (auto simp: hd_drop_conv_nth)
    have "successively (parent_step m) (drop i path @ [current])"
      using "1.prems"(1) split by (metis append.assoc successively_append_iff)
    from closed_walk_is_cycle [OF this ds]
    have "on_cycle m current \<and> set (drop i path) = {x. (current, x) \<in> (parent_edges m)\<^sup>+}" .
    moreover have "cycle = sort (drop i path)"
      using Some "1.prems"(3) by (simp add: cycle_from.simps [of m path current])
    moreover have "(hd (path @ [current]), current) \<in> (parent_edges m)\<^sup>*"
    proof (cases path)
      case (Cons a list)
      with chain_reaches [OF "1.prems"(1), of a] show ?thesis by (auto intro: trancl_into_rtrancl)
    qed simp
    ultimately show ?thesis using "1.prems"(2) by auto
  next
    case None
    then have new: "current \<notin> set path" by (simp add: position_of_None)
    with None "1.prems"(3) obtain q where q: "bt_get m current = Some q"
      and rec: "cycle_from m (path @ [current]) q = Some cycle"
      by (auto simp: cycle_from.simps [of m path current] split: option.splits)
    have "successively (parent_step m) ((path @ [current]) @ [q])"
      using "1.prems"(1) q by (simp add: successively_append_iff)
    moreover have "distinct (path @ [current])" using "1.prems"(2) new by simp
    ultimately show ?thesis using "1.IH" [OF None q] rec by (auto simp: hd_append)
  qed
qed

lemma cycle_from_total:
  assumes "on_cycle m n" "(n, current) \<in> (parent_edges m)\<^sup>*"
  shows "cycle_from m path current \<noteq> None"
  using assms
proof (induction m path current rule: cycle_from.induct)
  case (1 m path current)
  show ?case
  proof (cases "position_of current path")
    case (Some i)
    then show ?thesis by (simp add: cycle_from.simps [of m path current])
  next
    case None
    have "(current, n) \<in> (parent_edges m)\<^sup>*" using cycle_returns "1.prems" by blast
    with "1.prems"(1) have "(current, n) \<in> (parent_edges m)\<^sup>+"
      by (auto simp: on_cycle_def rtrancl_eq_or_trancl)
    then obtain q where q: "bt_get m current = Some q" by (auto dest: tranclD simp: parent_edges_def)
    then have "(n, q) \<in> (parent_edges m)\<^sup>*"
      using "1.prems"(2) by (auto simp: parent_edges_def intro: rtrancl.rtrancl_into_rtrancl)
    with "1.IH" [OF None q "1.prems"(1)] None q show ?thesis
      by (simp add: cycle_from.simps [of m path current])
  qed
qed

lemma cycle_from_start:
  assumes "on_cycle m n"
  shows "\<exists>cycle. cycle_from m [] n = Some cycle \<and> n \<in> set cycle"
proof -
  obtain cycle where c: "cycle_from m [] n = Some cycle"
    using cycle_from_total [OF assms, of n "[]"] by auto
  from cycle_from_spec [OF _ _ c] obtain y where y: "on_cycle m y"
    "set cycle = {x. (y, x) \<in> (parent_edges m)\<^sup>+}" "(n, y) \<in> (parent_edges m)\<^sup>*" by auto
  from cycle_returns [OF assms y(3)] y(1) have "(y, n) \<in> (parent_edges m)\<^sup>+"
    by (auto simp: on_cycle_def intro: trancl_rtrancl_trancl)
  with c y(2) show ?thesis by auto
qed

text \<open>The recorded cycles are the distinct results of the walks.\<close>

lemma fold_record_cycle:
  assumes "set (fst s) = set (map gp_prs (snd s))" "distinct (map gp_prs (snd s))"
    and "\<forall>p\<in>set (snd s). gp_kind p = Cycle"
  shows "set (map gp_prs (snd (fold (record_cycle m) ns s))) =
           set (map gp_prs (snd s)) \<union> {c. \<exists>n\<in>set ns. cycle_from m [] n = Some c}
     \<and> distinct (map gp_prs (snd (fold (record_cycle m) ns s)))
     \<and> (\<forall>p\<in>set (snd (fold (record_cycle m) ns s)). gp_kind p = Cycle)"
  using assms
proof (induction ns arbitrary: s)
  case (Cons n ns)
  let ?s = "record_cycle m n s"
  have "set (fst ?s) = set (map gp_prs (snd ?s))" "distinct (map gp_prs (snd ?s))"
    "\<forall>p\<in>set (snd ?s). gp_kind p = Cycle"
    and s': "set (map gp_prs (snd ?s)) =
      set (map gp_prs (snd s)) \<union> {c. cycle_from m [] n = Some c}"
    using Cons.prems by (auto simp: record_cycle_def mk_problem_def split: option.split)
  from Cons.IH [OF this(1-3)] s' show ?case by auto
qed simp

lemma detect_cycles_spec:
  "\<forall>p\<in>set (detect_cycles active m). gp_kind p = Cycle"
  "distinct (map gp_prs (detect_cycles active m))"
  "set (map gp_prs (detect_cycles active m)) =
     {c. \<exists>n\<in>set (bt_keys active). cycle_from m [] n = Some c}"
proof -
  have "set (fst ([] :: pr_number list btree_set, [] :: graph_problem list)) =
      set (map gp_prs (snd ([] :: pr_number list btree_set, [] :: graph_problem list)))" by simp
  from fold_record_cycle [OF this, of m "bt_keys active"]
  show "\<forall>p\<in>set (detect_cycles active m). gp_kind p = Cycle"
    "distinct (map gp_prs (detect_cycles active m))"
    "set (map gp_prs (detect_cycles active m)) =
     {c. \<exists>n\<in>set (bt_keys active). cycle_from m [] n = Some c}"
    unfolding detect_cycles_def by simp_all
qed

text \<open>
  C7. Cycle detection is exact: every reported \<open>Cycle\<close> problem names all the members of one cycle
  of the base graph, in ascending order, no cycle is reported twice, and every active member that
  lies on a cycle is named by a report. In particular the walk ends on every base graph.
\<close>

theorem detect_cycles_exact:
  "(\<forall>p\<in>set (detect_cycles active m). gp_kind p = Cycle \<and> sorted (gp_prs p) \<and> distinct (gp_prs p)
      \<and> (\<exists>y. on_cycle m y \<and> set (gp_prs p) = {x. (y, x) \<in> (parent_edges m)\<^sup>+}))
   \<and> distinct (map gp_prs (detect_cycles active m))
   \<and> (\<forall>n\<in>set (bt_keys active). on_cycle m n \<longrightarrow> (\<exists>p\<in>set (detect_cycles active m). n \<in> set (gp_prs p)))"
proof (intro conjI ballI impI)
  fix p
  assume p: "p \<in> set (detect_cycles active m)"
  then have "gp_prs p \<in> set (map gp_prs (detect_cycles active m))" by auto
  then obtain n where c: "cycle_from m [] n = Some (gp_prs p)" unfolding detect_cycles_spec by auto
  note spec = cycle_from_spec [OF _ _ c]
  show "gp_kind p = Cycle"
    using p detect_cycles_spec(1) by blast
  show "sorted (gp_prs p)" "distinct (gp_prs p)" using spec by auto
  show "\<exists>y. on_cycle m y \<and> set (gp_prs p) = {x. (y, x) \<in> (parent_edges m)\<^sup>+}" using spec by auto
next
  show "distinct (map gp_prs (detect_cycles active m))" by (rule detect_cycles_spec)
next
  fix n
  assume n: "n \<in> set (bt_keys active)" and "on_cycle m n"
  from cycle_from_start [OF this(2)] obtain c where c: "cycle_from m [] n = Some c" "n \<in> set c" by blast
  then have "c \<in> set (map gp_prs (detect_cycles active m))" using n unfolding detect_cycles_spec by auto
  with c(2) show "\<exists>p\<in>set (detect_cycles active m). n \<in> set (gp_prs p)" by auto
qed

definition sample_cycle_active :: "(pr_number, pull_request_snapshot) btree_map" where
  "sample_cycle_active =
     [(1, sample_pr 1 ''a'' ''b'' auto_merge_disabled), (2, sample_pr 2 ''b'' ''a'' auto_merge_disabled)]"

theorem detect_cycles_exact_witness:
  "on_cycle [(1, 2), (2, 1)] 1
   \<and> (\<exists>p\<in>set (detect_cycles sample_cycle_active [(1, 2), (2, 1)]). 1 \<in> set (gp_prs p))
   \<and> map gp_prs (detect_cycles sample_cycle_active [(1, 2), (2, 1)]) = [[1, 2]]"
proof -
  have "(1, 2) \<in> parent_edges [(1, 2), (2, 1)]" "(2, 1) \<in> parent_edges [(1, 2), (2, 1)]"
    by (simp_all add: parent_edges_def bt_get_def)
  then have c: "on_cycle [(1, 2), (2, 1)] 1" unfolding on_cycle_def by (rule trancl.intros(2) [OF trancl.intros(1)])
  have "1 \<in> set (bt_keys sample_cycle_active)" by (simp add: sample_cycle_active_def bt_keys_def)
  with detect_cycles_exact [of sample_cycle_active "[(1, 2), (2, 1)]"] c
  have "\<exists>p\<in>set (detect_cycles sample_cycle_active [(1, 2), (2, 1)]). 1 \<in> set (gp_prs p)" by blast
  moreover have "map gp_prs (detect_cycles sample_cycle_active [(1, 2), (2, 1)]) = [[1, 2]]"
    by (simp add: sample_cycle_active_def detect_cycles_def record_cycle_def cycle_from.simps bt_keys_def
        bt_get_def bs_contains_def mk_problem_def)
  ultimately show ?thesis using c by blast
qed

end
