(* ===== verification/Graph_Facts.thy ===== *)
theory Graph_Facts
  imports Graph_Links Graph_Cycles
begin

text \<open>
  The derivation as a whole: the linking phase interprets \<open>chain_forest\<close>, so the lemmas on the
  walks apply to the maps \<open>derive_for_actor\<close> builds; \<open>derive_spec\<close> collects what the result holds,
  and the properties of the derived fleet follow from it.
\<close>

subsection \<open>The intermediate maps of one derivation\<close>

abbreviation mb_of :: "repository_snapshot \<Rightarrow> membership" where
  "mb_of snap \<equiv> classify_members (prs_of snap) (snd (index_pull_requests (snap_pull_requests snap)))"

abbreviation active_of :: "repository_snapshot \<Rightarrow> (pr_number, pull_request_snapshot) btree_map" where
  "active_of snap \<equiv> mb_active (mb_of snap)"

abbreviation heads_in :: "repository_snapshot \<Rightarrow> (string, pr_number list) btree_map \<times> graph_problem list" where
  "heads_in snap \<equiv> heads_by_branch snap (active_of snap) (mb_problems (mb_of snap))"

abbreviation raw_links :: "repository_snapshot \<Rightarrow> links" where
  "raw_links snap \<equiv> link_members snap (mb_of snap) (fst (heads_in snap)) (snd (heads_in snap))"

abbreviation links_of :: "repository_snapshot \<Rightarrow> links" where
  "links_of snap \<equiv> (raw_links snap)\<lparr>lk_children := bt_map_values sort (lk_children (raw_links snap))\<rparr>"

abbreviation parent_in :: "repository_snapshot \<Rightarrow> pull_request_snapshot \<Rightarrow> pr_number option" where
  "parent_in snap \<equiv> linked_parent snap (mb_of snap) (fst (heads_in snap))"

lemma active_keyed_of: "keyed_by_num (active_of snap)"
  by (rule active_keyed) (rule index_keyed)

lemma fill_keyed_get:
  assumes "keyed_by_num m"
  shows "bt_get (bt.fill pr_num f (filter P (bt_values m)) []) n = Some v \<longleftrightarrow>
           (\<exists>p. bt_get m n = Some p \<and> P p \<and> f p = v)"
proof -
  let ?vs = "rev (filter P (bt_values m))"
  have eq: "bt_get (bt.fill pr_num f (filter P (bt_values m)) []) n =
      map_option f (find (\<lambda>p. pr_num p = n) ?vs)"
    by (simp add: bt.lookup_fill bt.lookup_empty split: option.split)
  have in_vs: "p \<in> set ?vs \<longleftrightarrow> bt_get m (pr_num p) = Some p \<and> P p" for p
    using keyed_values [OF assms, of p] by auto
  have "find (\<lambda>p. pr_num p = n) ?vs = Some p \<longleftrightarrow> bt_get m n = Some p \<and> P p" for p
  proof
    assume "find (\<lambda>p. pr_num p = n) ?vs = Some p"
    then have "pr_num p = n \<and> p \<in> set ?vs" by (rule find_map_pred)
    with in_vs show "bt_get m n = Some p \<and> P p" by blast
  next
    assume p: "bt_get m n = Some p \<and> P p"
    with assms have num: "pr_num p = n" by (auto simp: keyed_by_num_def)
    with p in_vs have "p \<in> set ?vs" by blast
    with num obtain q where q: "find (\<lambda>p. pr_num p = n) ?vs = Some q"
      using find_Some_ex [of p ?vs "\<lambda>p. pr_num p = n"] by blast
    then have "pr_num q = n \<and> q \<in> set ?vs" by (rule find_map_pred)
    with in_vs p q show "find (\<lambda>p. pr_num p = n) ?vs = Some p" by auto
  qed
  with eq show ?thesis by auto
qed

lemma roots_of:
  "n \<in> set (lk_roots (links_of snap)) \<longleftrightarrow>
     (\<exists>p. bt_get (active_of snap) n = Some p \<and> parent_in snap p = None)"
proof -
  have "set (fold bs_insert (xs :: pr_number list) ys) = set xs \<union> set ys" for xs ys
    by (induction xs arbitrary: ys) auto
  moreover have "p \<in> set (bt_values (active_of snap)) \<longleftrightarrow> bt_get (active_of snap) (pr_num p) = Some p" for p
    by (rule keyed_values) (rule active_keyed_of)
  moreover have "bt_get (active_of snap) n = Some p \<Longrightarrow> pr_num p = n" for p
    using active_keyed_of [of snap] by (auto simp: keyed_by_num_def)
  ultimately show ?thesis
    by (auto simp: link_members_def fold_link_member(1))
qed

lemma parents_of:
  "bt_get (lk_parent_of (links_of snap)) n = Some q \<longleftrightarrow>
     (\<exists>p. bt_get (active_of snap) n = Some p \<and> parent_in snap p = Some q)"
  by (auto simp: link_members_def fold_link_member(2) fill_keyed_get [OF active_keyed_of])

lemma children_of:
  "bt_get (lk_children (links_of snap)) q =
     (let cs = sort (map pr_num (filter (\<lambda>p. parent_in snap p = Some q) (bt_values (active_of snap))))
      in if cs = [] then None else Some cs)"
proof -
  have "sort (xs :: nat list) = [] \<longleftrightarrow> xs = []" for xs by (metis length_0_conv length_sort)
  moreover have "(parent_in snap p \<noteq> None \<and> the (parent_in snap p) = q) = (parent_in snap p = Some q)" for p
    by auto
  ultimately show ?thesis
    by (simp add: link_members_def fold_link_member(3) bt_get_map_values bt_get_fold_push
        bt.lookup_empty Let_def conj_commute cong: filter_cong)
qed

lemma children_wf_of: "bt_wf (lk_children (links_of snap))"
  by (simp add: link_members_def fold_link_member(3) bt_wf_fold_push bt.wf_empty)

lemma parent_wf_of: "bt_wf (lk_parent_of (links_of snap))"
  by (simp add: link_members_def fold_link_member(2) bt.wf_fill bt.wf_empty)

text \<open>A linked predecessor is the active member that holds the base branch.\<close>

lemma parent_in_Some:
  assumes "parent_in snap p = Some q"
  shows "br_name (pr_base p) \<noteq> br_name (snap_default_branch snap)
     \<and> heads_of (active_of snap) (br_name (pr_base p)) = [q]
     \<and> (\<exists>pq. bt_get (active_of snap) q = Some pq \<and> br_name (pr_head pq) = br_name (pr_base p))"
proof -
  from assms have base: "br_name (pr_base p) \<noteq> br_name (snap_default_branch snap)"
    and "bt_get (fst (heads_in snap)) (br_name (pr_base p)) = Some [q]"
    by (auto simp: linked_parent_def split: if_splits option.splits list.splits)
  then have heads: "heads_of (active_of snap) (br_name (pr_base p)) = [q]"
    by (auto simp: heads_get split: if_splits)
  then have "q \<in> set (heads_of (active_of snap) (br_name (pr_base p)))" by simp
  with set_heads_of [OF active_keyed_of] base heads show ?thesis by blast
qed

interpretation forest: chain_forest "bt_keys (active_of snap)" "lk_roots (links_of snap)"
  "lk_parent_of (links_of snap)" "lk_children (links_of snap)" for snap
proof unfold_locales
  let ?vs = "bt_values (active_of snap)"
  have vs: "p \<in> set ?vs \<longleftrightarrow> bt_get (active_of snap) (pr_num p) = Some p" for p
    by (rule keyed_values) (rule active_keyed_of)
  have num: "bt_get (active_of snap) n = Some p \<Longrightarrow> pr_num p = n" for n p
    using active_keyed_of [of snap] by (auto simp: keyed_by_num_def)
  have keys: "n \<in> set (bt_keys (active_of snap)) \<longleftrightarrow> bt_get (active_of snap) n \<noteq> None" for n
    by (rule bt_keys_get)
  fix q cs n
  show "bt_get (lk_children (links_of snap)) q = Some cs \<Longrightarrow>
      (n \<in> set cs) = (bt_get (lk_parent_of (links_of snap)) n = Some q)"
  proof -
    assume "bt_get (lk_children (links_of snap)) q = Some cs"
    then have "cs = sort (map pr_num (filter (\<lambda>p. parent_in snap p = Some q) ?vs))"
      unfolding children_of Let_def by (simp split: if_splits)
    then have "n \<in> set cs \<longleftrightarrow> (\<exists>p. p \<in> set ?vs \<and> pr_num p = n \<and> parent_in snap p = Some q)"
      by auto
    also have "\<dots> \<longleftrightarrow> (\<exists>p. bt_get (active_of snap) n = Some p \<and> parent_in snap p = Some q)"
      using vs num by blast
    finally show ?thesis unfolding parents_of .
  qed
  show "bt_get (lk_parent_of (links_of snap)) n = Some q \<Longrightarrow>
      \<exists>cs. bt_get (lk_children (links_of snap)) q = Some cs"
  proof -
    assume "bt_get (lk_parent_of (links_of snap)) n = Some q"
    then obtain p where p: "bt_get (active_of snap) n = Some p" "parent_in snap p = Some q"
      unfolding parents_of by blast
    then have "p \<in> set ?vs" using vs num by blast
    with p have "pr_num p \<in> set (sort (map pr_num (filter (\<lambda>p. parent_in snap p = Some q) ?vs)))"
      by simp
    then show ?thesis unfolding children_of Let_def by (metis empty_iff list.set(1))
  qed
  show "bt_get (lk_children (links_of snap)) q = Some cs \<Longrightarrow> cs \<noteq> [] \<and> distinct cs"
  proof -
    have "distinct (map pr_num ?vs)"
      using keyed_keys [OF active_keyed_of, of snap] active_keyed_of [of snap]
      by (simp add: keyed_by_num_def bt.keys_distinct)
    then have "distinct (sort (map pr_num (filter P ?vs)))" for P
      by (simp add: distinct_map_filter)
    then show "bt_get (lk_children (links_of snap)) q = Some cs \<Longrightarrow> cs \<noteq> [] \<and> distinct cs"
      unfolding children_of Let_def by (auto split: if_splits)
  qed
  show "bt_get (lk_parent_of (links_of snap)) n = Some q \<Longrightarrow>
      n \<in> set (bt_keys (active_of snap)) \<and> q \<in> set (bt_keys (active_of snap))"
  proof -
    assume "bt_get (lk_parent_of (links_of snap)) n = Some q"
    then obtain p where p: "bt_get (active_of snap) n = Some p" "parent_in snap p = Some q"
      unfolding parents_of by blast
    with parent_in_Some [OF p(2)] show ?thesis unfolding keys by auto
  qed
  show "(n \<in> set (lk_roots (links_of snap))) =
      (n \<in> set (bt_keys (active_of snap)) \<and> bt_get (lk_parent_of (links_of snap)) n = None)"
  proof -
    have "bt_get (lk_parent_of (links_of snap)) n = None \<longleftrightarrow>
        (\<forall>q. bt_get (lk_parent_of (links_of snap)) n \<noteq> Some q)"
      by (simp only: not_Some_eq)
    also have "\<dots> \<longleftrightarrow> (\<forall>p q. bt_get (active_of snap) n = Some p \<longrightarrow> parent_in snap p \<noteq> Some q)"
      unfolding parents_of by blast
    finally have "bt_get (lk_parent_of (links_of snap)) n = None \<longleftrightarrow>
        (\<forall>p q. bt_get (active_of snap) n = Some p \<longrightarrow> parent_in snap p \<noteq> Some q)" .
    then show ?thesis unfolding roots_of keys by (cases "bt_get (active_of snap) n") simp_all
  qed
  show "bt_wf (lk_children (links_of snap))" by (rule children_wf_of)
qed

subsection \<open>The derivation never panics\<close>

lemma branching_parent_of:
  assumes "bt_get (lk_children (links_of snap)) q = Some cs"
  shows "branching_parent (lk_parent_of (links_of snap)) cs = Some q"
proof -
  let ?m = "lk_parent_of (links_of snap)"
  obtain n where "n \<in> set cs" using forest.child_nonempty [OF assms] by (cases cs) auto
  then have "bt_get ?m n = Some q" using forest.child_parent [OF assms] by blast
  then have "(n, q) \<in> set ?m" using bt_get_entry [OF parent_wf_of] by blast
  then obtain e where e: "find (\<lambda>e. fst e \<in> set cs) ?m = Some e"
    using \<open>n \<in> set cs\<close> find_Some_ex [of "(n, q)" ?m "\<lambda>e. fst e \<in> set cs"] by auto
  then have "fst e \<in> set cs \<and> e \<in> set ?m" by (rule find_map_pred)
  then have "bt_get ?m (fst e) = Some (snd e)" and "bt_get ?m (fst e) = Some q"
    using bt_get_entry [OF parent_wf_of, of snap "fst e" "snd e"] forest.child_parent [OF assms]
    by simp_all
  with e show ?thesis by (simp add: branching_parent_def)
qed

lemma branching_problems_some:
  assumes "\<And>cs. cs \<in> set css \<Longrightarrow> branching_parent m cs \<noteq> None"
  shows "\<exists>ps. branching_problems m css = Some ps
     \<and> (\<forall>cs\<in>set css. length cs > 1 \<longrightarrow>
          (\<exists>q. branching_parent m cs = Some q \<and> branching_problem q cs \<in> set ps))"
  using assms
proof (induction css)
  case (Cons cs css)
  have "\<And>cs. cs \<in> set css \<Longrightarrow> branching_parent m cs \<noteq> None" using Cons.prems by simp
  from Cons.IH [OF this] obtain ps where ps: "branching_problems m css = Some ps"
    "\<forall>cs\<in>set css. length cs > 1 \<longrightarrow>
          (\<exists>q. branching_parent m cs = Some q \<and> branching_problem q cs \<in> set ps)" by blast
  obtain q where "branching_parent m cs = Some q" using Cons.prems [of cs] by auto
  with ps show ?case by (cases "length cs > 1") auto
qed simp

lemma member_auto_merge_some:
  assumes "\<forall>n\<in>set ns. bt_get active n \<noteq> None"
  shows "\<exists>ps. member_auto_merge_problems actor active c pos ns = Some ps
     \<and> (\<forall>i<length ns. \<forall>p. bt_get active (ns ! i) = Some p \<and> \<not> auto_merge_valid actor c (pos + i) p
          \<longrightarrow> auto_merge_problem actor c (pos + i) (ns ! i) \<in> set ps)"
  using assms
proof (induction ns arbitrary: pos)
  case (Cons n ns)
  have "\<forall>n\<in>set ns. bt_get active n \<noteq> None" using Cons.prems by simp
  from Cons.IH [OF this, of "Suc pos"]
  obtain ps where ps: "member_auto_merge_problems actor active c (Suc pos) ns = Some ps"
    "\<forall>i<length ns. \<forall>p. bt_get active (ns ! i) = Some p \<and> \<not> auto_merge_valid actor c (Suc pos + i) p
          \<longrightarrow> auto_merge_problem actor c (Suc pos + i) (ns ! i) \<in> set ps" by blast
  obtain p where "bt_get active n = Some p" using Cons.prems by auto
  with ps show ?case by (auto simp: nth_Cons split: nat.splits)
qed simp

lemma auto_merge_some:
  assumes "\<forall>c\<in>set cs. \<forall>n\<in>set (cv_members c). bt_get active n \<noteq> None"
  shows "\<exists>ps. auto_merge_problems actor active cs = Some ps
     \<and> (\<forall>c\<in>set cs. \<forall>i<length (cv_members c). \<forall>p. bt_get active (cv_members c ! i) = Some p
          \<and> \<not> auto_merge_valid actor c i p \<longrightarrow> auto_merge_problem actor c i (cv_members c ! i) \<in> set ps)"
  using assms
proof (induction cs)
  case (Cons c cs)
  have "\<forall>c\<in>set cs. \<forall>n\<in>set (cv_members c). bt_get active n \<noteq> None"
    using Cons.prems by simp
  from Cons.IH [OF this] obtain ps where ps: "auto_merge_problems actor active cs = Some ps"
    "\<forall>c\<in>set cs. \<forall>i<length (cv_members c). \<forall>p. bt_get active (cv_members c ! i) = Some p
          \<and> \<not> auto_merge_valid actor c i p \<longrightarrow> auto_merge_problem actor c i (cv_members c ! i) \<in> set ps"
    by blast
  have "\<forall>n\<in>set (cv_members c). bt_get active n \<noteq> None" using Cons.prems by simp
  from member_auto_merge_some [OF this, of actor c 0] obtain here where here: "member_auto_merge_problems actor active c 0 (cv_members c) = Some here"
    "\<forall>i<length (cv_members c). \<forall>p. bt_get active (cv_members c ! i) = Some p
       \<and> \<not> auto_merge_valid actor c (0 + i) p
          \<longrightarrow> auto_merge_problem actor c (0 + i) (cv_members c ! i) \<in> set here"
    by blast
  show ?case
    using ps here by (intro exI [of _ "here @ ps"]) auto
qed simp

subsection \<open>What a derivation returns\<close>

lemma set_parked_simps [simp]:
  "cv_id (set_parked active c) = cv_id c" "cv_members (set_parked active c) = cv_members c"
  by (simp_all add: set_parked_def)

text \<open>The result, with the problem lists of the phases named.\<close>

definition derived ::
    "repository_snapshot \<Rightarrow> head_merge_actor \<Rightarrow> graph_analysis \<Rightarrow> caravan list \<Rightarrow> caravan list
     \<Rightarrow> graph_problem list \<Rightarrow> graph_problem list \<Rightarrow> graph_problem list \<Rightarrow> bool" where
  "derived snap actor a rooted rest branch missing arm \<longleftrightarrow>
     derive_for_actor snap actor = Some a
     \<and> fl_caravans (ga_fleet a) = map (set_parked (active_of snap)) (sort_key cv_id (rooted @ rest))
     \<and> fl_problems (ga_fleet a) = lk_problems (raw_links snap) @ branch
          @ detect_cycles (active_of snap) (lk_parent_of (links_of snap)) @ missing @ arm
     \<and> fl_unqueued (ga_fleet a) = unqueued_prs (prs_of snap)
     \<and> fl_default_branch (ga_fleet a) = snap_default_branch snap
     \<and> ga_pull_requests a = prs_of snap
     \<and> distinct (forest.members_of (rooted @ rest))
     \<and> set (forest.members_of (rooted @ rest)) = set (bt_keys (active_of snap))
     \<and> (\<forall>c\<in>set (rooted @ rest). forest.chain_of snap c)
     \<and> (\<forall>c\<in>set rooted. cv_id c \<in> set (lk_roots (links_of snap)))
     \<and> (\<forall>c\<in>set rooted. \<forall>x. \<not> only_child (lk_children (links_of snap)) (last (cv_members c)) x)
     \<and> map gp_prs missing = map cv_members rest \<and> (\<forall>p\<in>set missing. gp_kind p = MissingHead)
     \<and> (\<forall>q cs. bt_get (lk_children (links_of snap)) q = Some cs \<and> length cs > 1
          \<longrightarrow> branching_problem q cs \<in> set branch)
     \<and> (\<forall>c\<in>set (fl_caravans (ga_fleet a)). \<forall>i<length (cv_members c). \<forall>p.
          bt_get (active_of snap) (cv_members c ! i) = Some p \<and> \<not> auto_merge_valid actor c i p
          \<longrightarrow> auto_merge_problem actor c i (cv_members c ! i) \<in> set arm)"

lemma derive_spec: "\<exists>a rooted rest branch missing arm. derived snap actor a rooted rest branch missing arm"
proof -
  let ?lk = "links_of snap" and ?act = "active_of snap"
  obtain rooted rest missing where walk: "walk_chains ?act ?lk = (rooted @ rest, missing)"
    and walked: "distinct (forest.members_of (rooted @ rest))"
      "set (forest.members_of (rooted @ rest)) = set (bt_keys ?act)"
      "\<forall>c\<in>set (rooted @ rest). forest.chain_of snap c"
      "\<forall>c\<in>set rooted. cv_id c \<in> set (lk_roots ?lk)"
      "\<forall>c\<in>set rooted. \<forall>x. \<not> only_child (lk_children ?lk) (last (cv_members c)) x"
      "map gp_prs missing = map cv_members rest" "\<forall>p\<in>set missing. gp_kind p = MissingHead"
    using forest.walk_chains_spec [OF refl refl refl, of snap] by blast
  have listed: "\<exists>q. bt_get (lk_children ?lk) q = Some cs" if "cs \<in> set (bt_values (lk_children ?lk))" for cs
    using that bt_values_get [OF children_wf_of] by blast
  then have "branching_parent (lk_parent_of ?lk) cs \<noteq> None"
    if "cs \<in> set (bt_values (lk_children ?lk))" for cs
    using that branching_parent_of by (metis option.distinct(1))
  from branching_problems_some [OF this] obtain branch where
    branch: "branching_problems (lk_parent_of ?lk) (bt_values (lk_children ?lk)) = Some branch"
    and has_branch: "\<forall>cs\<in>set (bt_values (lk_children ?lk)). length cs > 1 \<longrightarrow>
          (\<exists>q. branching_parent (lk_parent_of ?lk) cs = Some q \<and> branching_problem q cs \<in> set branch)"
    by blast
  have branch': "branching_problem q cs \<in> set branch"
    if "bt_get (lk_children ?lk) q = Some cs" "length cs > 1" for q cs
  proof -
    have "cs \<in> set (bt_values (lk_children ?lk))" using that(1) bt_values_get [OF children_wf_of] by blast
    with has_branch that(2) branching_parent_of [OF that(1)] show ?thesis by fastforce
  qed
  let ?cs = "map (set_parked ?act) (sort_key cv_id (rooted @ rest))"
  have "bt_get ?act n \<noteq> None" if "c \<in> set ?cs" "n \<in> set (cv_members c)" for c n
  proof -
    have "n \<in> set (forest.members_of (rooted @ rest))"
      using that by (auto simp: forest.members_of_def)
    with walked(2) show ?thesis by (simp add: bt_keys_get)
  qed
  then have "\<forall>c\<in>set ?cs. \<forall>n\<in>set (cv_members c). bt_get ?act n \<noteq> None" by blast
  from auto_merge_some [OF this, of actor] obtain arm where
    arm: "auto_merge_problems actor ?act ?cs = Some arm"
    and has_arm: "\<forall>c\<in>set ?cs. \<forall>i<length (cv_members c). \<forall>p. bt_get ?act (cv_members c ! i) = Some p
          \<and> \<not> auto_merge_valid actor c i p \<longrightarrow> auto_merge_problem actor c i (cv_members c ! i) \<in> set arm"
    by blast
  obtain a where a: "derive_for_actor snap actor = Some a"
    "fl_caravans (ga_fleet a) = ?cs"
    "fl_problems (ga_fleet a) = lk_problems (raw_links snap) @ branch
        @ detect_cycles ?act (lk_parent_of ?lk) @ missing @ arm"
    "fl_unqueued (ga_fleet a) = unqueued_prs (prs_of snap)"
    "fl_default_branch (ga_fleet a) = snap_default_branch snap"
    "ga_pull_requests a = prs_of snap"
    using walk branch arm unfolding derive_for_actor_def
    by (simp add: Let_def case_prod_beta)
  with walked branch' has_arm show ?thesis
    unfolding derived_def by (intro exI conjI) auto
qed

end
