(* ===== verification/Graph_Health.thy ===== *)
theory Graph_Health
  imports Graph_Facts Samples
begin

text \<open>
  Properties of the derived fleet: the caravans partition the active members, each is a chain of
  bases, and \<open>healthy\<close> implies that every unparked caravan is a complete, well-formed chain.
\<close>

subsection \<open>Facts about a derivation\<close>

lemma derived_some: "derived snap actor a rooted rest branch missing arm \<Longrightarrow> derive_for_actor snap actor = Some a"
  by (simp add: derived_def)

lemma active_of_get:
  "bt_get (active_of snap) n = Some p \<longleftrightarrow> bt_get (prs_of snap) n = Some p \<and> is_active_caravan_member p"
  by (rule active_get) (rule index_keyed)

lemma derived_members:
  assumes "derived snap actor a rooted rest branch missing arm"
  shows "distinct (concat (map cv_members (fl_caravans (ga_fleet a))))"
    and "set (concat (map cv_members (fl_caravans (ga_fleet a)))) = set (bt_keys (active_of snap))"
    and "set (fl_caravans (ga_fleet a)) = set_parked (active_of snap) ` set (rooted @ rest)"
proof -
  let ?cs = "sort_key cv_id (rooted @ rest)"
  have cs: "fl_caravans (ga_fleet a) = map (set_parked (active_of snap)) ?cs"
    using assms by (simp add: derived_def)
  have members: "map cv_members (fl_caravans (ga_fleet a)) = map cv_members ?cs"
    unfolding cs by simp
  have "mset (concat (map cv_members ?cs)) = mset (concat (map cv_members (rooted @ rest)))"
    by (simp only: mset_concat_map mset_sort)
  then have m: "mset (concat (map cv_members ?cs)) = mset (forest.members_of (rooted @ rest))"
    by (simp add: forest.members_of_def)
  have "distinct (forest.members_of (rooted @ rest))"
    "set (forest.members_of (rooted @ rest)) = set (bt_keys (active_of snap))"
    using assms by (simp_all add: derived_def)
  with m members show "distinct (concat (map cv_members (fl_caravans (ga_fleet a))))"
    "set (concat (map cv_members (fl_caravans (ga_fleet a)))) = set (bt_keys (active_of snap))"
    by (metis mset_eq_imp_distinct_iff, metis mset_eq_setD)
  show "set (fl_caravans (ga_fleet a)) = set_parked (active_of snap) ` set (rooted @ rest)"
    unfolding cs by simp
qed

lemma derived_chain:
  assumes d: "derived snap actor a rooted rest branch missing arm" and c: "c \<in> set (fl_caravans (ga_fleet a))"
  shows "cv_members c \<noteq> []" "cv_id c = hd (cv_members c)"
    and "successively (only_child (lk_children (links_of snap))) (cv_members c)"
proof -
  obtain c' where "c' \<in> set (rooted @ rest)" "c = set_parked (active_of snap) c'"
    using c derived_members(3) [OF d] by blast
  moreover from this d have "forest.chain_of snap c'" by (auto simp: derived_def)
  ultimately show "cv_members c \<noteq> []" "cv_id c = hd (cv_members c)"
    "successively (only_child (lk_children (links_of snap))) (cv_members c)"
    unfolding forest.chain_of_def by auto
qed

lemma distinct_heads:
  "distinct (concat (map f cs)) \<Longrightarrow> \<forall>c\<in>set cs. f c \<noteq> [] \<Longrightarrow> distinct (map hd (map f cs))"
proof (induction cs)
  case (Cons c cs)
  have "\<forall>x\<in>set cs. hd (f x) \<noteq> hd (f c)"
  proof (intro ballI notI)
    fix x
    assume x: "x \<in> set cs"
    assume "hd (f x) = hd (f c)"
    then have "hd (f c) \<in> set (f x)" and "hd (f c) \<in> set (f c)"
      using Cons.prems x hd_in_set [of "f x"] hd_in_set [of "f c"] by auto
    with x have "hd (f c) \<in> set (f c) \<inter> set (concat (map f cs))" by auto
    with Cons.prems show False by auto
  qed
  then have "hd (f c) \<notin> set (map hd (map f cs))" by (metis (no_types, lifting) imageE list.set_map)
  with Cons show ?case by simp
qed simp

lemma derived_ids_ascending:
  assumes d: "derived snap actor a rooted rest branch missing arm"
  shows "sorted_wrt (<) (map cv_id (fl_caravans (ga_fleet a)))"
proof -
  let ?cs = "fl_caravans (ga_fleet a)"
  have ids: "map cv_id ?cs = map cv_id (sort_key cv_id (rooted @ rest))"
    using d by (simp add: derived_def)
  have "distinct (map hd (map cv_members ?cs))"
    using derived_members(1) [OF d] derived_chain(1) [OF d] by (intro distinct_heads) auto
  moreover have "map cv_id ?cs = map hd (map cv_members ?cs)"
    using derived_chain(2) [OF d] by simp
  ultimately have "distinct (map cv_id ?cs)" by (simp only:)
  moreover have "sorted (map cv_id ?cs)" unfolding ids by simp
  ultimately show ?thesis by (simp add: strict_sorted_iff)
qed

text \<open>
  C1. Derivation is total and loses nobody: for every discovery snapshot and merge actor it returns
  an analysis (neither \<open>expect\<close> in it can fire) whose caravans, listed in strictly ascending id
  order, contain every active member exactly once and nothing else.
\<close>

theorem derive_partitions_active_members:
  "\<exists>a. derive_for_actor snap actor = Some a
     \<and> distinct (concat (map cv_members (fl_caravans (ga_fleet a))))
     \<and> set (concat (map cv_members (fl_caravans (ga_fleet a))))
         = {n. \<exists>p. bt_get (ga_pull_requests a) n = Some p \<and> is_active_caravan_member p}
     \<and> sorted_wrt (<) (map cv_id (fl_caravans (ga_fleet a)))"
proof -
  obtain a rooted rest branch missing arm where
    d: "derived snap actor a rooted rest branch missing arm" using derive_spec by blast
  have "set (bt_keys (active_of snap)) =
      {n. \<exists>p. bt_get (ga_pull_requests a) n = Some p \<and> is_active_caravan_member p}"
    using d active_of_get [of snap] by (auto simp: bt_keys_get derived_def)
  with derived_members [OF d] derived_some [OF d] derived_ids_ascending [OF d] show ?thesis by auto
qed

text \<open>Pull request \<open>n\<close> is stacked on \<open>q\<close>: its base is the head branch of \<open>q\<close>, not the default.\<close>

definition stacked_on ::
    "branch_snapshot \<Rightarrow> (pr_number, pull_request_snapshot) btree_map \<Rightarrow> pr_number \<Rightarrow> pr_number \<Rightarrow> bool" where
  "stacked_on default_branch prs q n \<longleftrightarrow>
     (\<exists>pq pn. bt_get prs q = Some pq \<and> bt_get prs n = Some pn
        \<and> br_name (pr_base pn) = br_name (pr_head pq) \<and> br_name (pr_base pn) \<noteq> br_name default_branch)"

lemma only_child_stacked:
  assumes "only_child (lk_children (links_of snap)) q n"
  shows "stacked_on (snap_default_branch snap) (prs_of snap) q n"
proof -
  have "bt_get (lk_parent_of (links_of snap)) n = Some q" using forest.only_child_parent [OF assms] .
  then obtain pn where pn: "bt_get (active_of snap) n = Some pn" "parent_in snap pn = Some q"
    unfolding parents_of by blast
  with parent_in_Some [OF pn(2)] show ?thesis unfolding stacked_on_def active_of_get by auto
qed

text \<open>
  C3. Every derived caravan is a chain of bases: it is not empty, its id is its head, and each
  later member is based on the head branch of the member before it, not on the default branch.
\<close>

theorem derive_chains_follow_bases:
  "\<exists>a. derive_for_actor snap actor = Some a
     \<and> (\<forall>c\<in>set (fl_caravans (ga_fleet a)).
          caravan_head c = Some (cv_id c)
          \<and> successively (stacked_on (snap_default_branch snap) (ga_pull_requests a)) (cv_members c))"
proof -
  obtain a rooted rest branch missing arm where
    d: "derived snap actor a rooted rest branch missing arm" using derive_spec by blast
  have prs: "ga_pull_requests a = prs_of snap" using d by (simp add: derived_def)
  have "caravan_head c = Some (cv_id c)
      \<and> successively (stacked_on (snap_default_branch snap) (ga_pull_requests a)) (cv_members c)"
    if c: "c \<in> set (fl_caravans (ga_fleet a))" for c
  proof -
    note chain = derived_chain [OF d c]
    have "successively (stacked_on (snap_default_branch snap) (prs_of snap)) (cv_members c)"
      by (rule successively_mono [OF chain(3)]) (rule only_child_stacked)
    with chain(1,2) prs show ?thesis by (cases "cv_members c") (auto simp: caravan_head_def)
  qed
  with derived_some [OF d] show ?thesis by blast
qed

theorem derive_chains_follow_bases_witness:
  "derive_for_actor sample_snapshot ActorGithub = Some sample_analysis
   \<and> caravan_head sample_caravan = Some 1
   \<and> successively (stacked_on (sample_branch ''m'') (ga_pull_requests sample_analysis)) [1, 2, 3]"
  using derive_chains_follow_bases [of sample_snapshot ActorGithub] sample_derived
  by (simp add: sample_analysis_def sample_caravan_def sample_snapshot_def)

subsection \<open>Health\<close>

lemma blocks_active_prs_unparked:
  "n \<in> set ns \<Longrightarrow> fleet_containing f n = Some c \<Longrightarrow> \<not> cv_parked c \<Longrightarrow> blocks_active_prs f seen ns"
  by (induction ns arbitrary: seen) (auto split: option.splits)

lemma derived_containing:
  assumes d: "derived snap actor a rooted rest branch missing arm"
    and c: "c \<in> set (fl_caravans (ga_fleet a))" "n \<in> set (cv_members c)"
  shows "fleet_containing (ga_fleet a) n = Some c"
proof -
  obtain c' where c': "fleet_containing (ga_fleet a) n = Some c'"
    using c unfolding fleet_containing_def
    using find_Some_ex [of c "fl_caravans (ga_fleet a)" "\<lambda>c. n \<in> set (cv_members c)"] by blast
  from fleet_containing_Some [OF c'] c distinct_concat_same [OF derived_members(1) [OF d]]
  have "c' = c" by blast
  with c' show ?thesis by simp
qed

text \<open>
  A blocking problem that names a member of an unparked caravan makes the fleet unhealthy. This is
  the one fact the next lemmas use of \<open>healthy\<close>.
\<close>

lemma healthy_no_problem:
  assumes d: "derived snap actor a rooted rest branch missing arm" and h: "healthy a"
    and c: "c \<in> set (fl_caravans (ga_fleet a))" "\<not> cv_parked c" "n \<in> set (cv_members c)"
  shows "\<not> (\<exists>p\<in>set (fl_problems (ga_fleet a)). blocks_fleet (gp_kind p) \<and> n \<in> set (gp_prs p))"
  using h blocks_active_prs_unparked [OF _ derived_containing [OF d c(1,3)] c(2)]
  by (auto simp: healthy_def problem_blocks_active_fleet_def)

lemma derived_problems:
  assumes d: "derived snap actor a rooted rest branch missing arm"
  shows "set (lk_problems (raw_links snap)) \<subseteq> set (fl_problems (ga_fleet a))"
    and "set branch \<subseteq> set (fl_problems (ga_fleet a))"
    and "set missing \<subseteq> set (fl_problems (ga_fleet a))"
    and "set arm \<subseteq> set (fl_problems (ga_fleet a))"
  using d by (auto simp: derived_def)

lemma link_problems:
  "lk_problems (raw_links snap) =
     snd (heads_in snap)
     @ map (root_problem snap (mb_of snap) (fst (heads_in snap)))
         (filter (\<lambda>p. parent_in snap p = None \<and> br_name (pr_base p) \<noteq> br_name (snap_default_branch snap))
            (bt_values (active_of snap)))"
  by (simp add: link_members_def fold_link_member(4))

lemma root_problem_blocks:
  "blocks_fleet (gp_kind (root_problem snap mb heads p)) \<and> pr_num p \<in> set (gp_prs (root_problem snap mb heads p))"
  by (auto simp: root_problem_def reused_problem_def ambiguous_problem_def dangling_problem_def
      mk_problem_def Let_def split: option.splits list.splits)

lemma active_value:
  "bt_get (active_of snap) n = Some p \<Longrightarrow> p \<in> set (bt_values (active_of snap)) \<and> pr_num p = n"
  using keyed_values [OF active_keyed_of] active_keyed_of [of snap] by (auto simp: keyed_by_num_def)

lemma root_problem_recorded:
  assumes "bt_get (active_of snap) n = Some p" "parent_in snap p = None"
    and "br_name (pr_base p) \<noteq> br_name (snap_default_branch snap)"
  shows "root_problem snap (mb_of snap) (fst (heads_in snap)) p \<in> set (lk_problems (raw_links snap))"
  using active_value [OF assms(1)] assms(2,3) unfolding link_problems by auto

lemma fork_problem_recorded:
  assumes "bt_get (active_of snap) n = Some p" "is_fork_head snap p"
  shows "fork_problem p \<in> set (lk_problems (raw_links snap))"
proof -
  have "fork_problem p \<in> set (snd (heads_in snap))"
    using active_value [OF assms(1)] assms(2) unfolding snd_heads_by_branch by auto
  then show ?thesis unfolding link_problems by simp
qed

lemma duplicate_head_recorded:
  assumes "length (heads_of (active_of snap) b) > 1"
  shows "\<exists>p\<in>set (lk_problems (raw_links snap)).
           gp_kind p = DuplicateMember \<and> gp_prs p = heads_of (active_of snap) b"
proof -
  have "heads_of (active_of snap) b \<noteq> []" using assms by auto
  then have "bt_get (fst (heads_in snap)) b = Some (heads_of (active_of snap) b)"
    by (simp add: heads_get)
  then have "heads_of (active_of snap) b \<in> set (bt_values (fst (heads_in snap)))"
    using bt_values_get [OF heads_wf] by blast
  with assms have "\<exists>p\<in>set (duplicate_head_problems (fst (heads_in snap))).
      gp_kind p = DuplicateMember \<and> gp_prs p = heads_of (active_of snap) b"
    by (force simp: duplicate_head_problems_def mk_problem_def)
  then have "\<exists>p\<in>set (snd (heads_in snap)).
      gp_kind p = DuplicateMember \<and> gp_prs p = heads_of (active_of snap) b"
    unfolding snd_heads_by_branch [of snap] by auto
  then show ?thesis unfolding link_problems by auto
qed

lemma derived_missing:
  assumes "derived snap actor a rooted rest branch missing arm"
  shows "map gp_prs missing = map cv_members rest" "\<forall>p\<in>set missing. gp_kind p = MissingHead"
  using assms unfolding derived_def by blast+

lemma derived_rooted:
  assumes "derived snap actor a rooted rest branch missing arm"
  shows "c \<in> set rooted \<Longrightarrow> cv_id c \<in> set (lk_roots (links_of snap))"
    and "c \<in> set rooted \<Longrightarrow> \<not> only_child (lk_children (links_of snap)) (last (cv_members c)) x"
  using assms unfolding derived_def by blast+

lemma derived_branch:
  assumes "derived snap actor a rooted rest branch missing arm"
    and "bt_get (lk_children (links_of snap)) q = Some cs" "length cs > 1"
  shows "branching_problem q cs \<in> set branch"
  using assms unfolding derived_def by blast

lemma derived_arm:
  assumes "derived snap actor a rooted rest branch missing arm"
    and "c \<in> set (fl_caravans (ga_fleet a))" "i < length (cv_members c)"
    and "bt_get (active_of snap) (cv_members c ! i) = Some p"
  shows "auto_merge_valid actor c i p \<or> auto_merge_problem actor c i (cv_members c ! i) \<in> set arm"
  using assms unfolding derived_def by blast

text \<open>The conclusions of \<open>healthy\<close> for one member and for one caravan.\<close>

lemma healthy_member:
  assumes d: "derived snap actor a rooted rest branch missing arm" and h: "healthy a"
    and c: "c \<in> set (fl_caravans (ga_fleet a))" "\<not> cv_parked c" and n: "n \<in> set (cv_members c)"
  obtains p where "bt_get (active_of snap) n = Some p" "\<not> is_fork_head snap p"
    and "heads_of (active_of snap) (br_name (pr_head p)) = [n]"
proof -
  note quiet = healthy_no_problem [OF d h c n]
  have "n \<in> set (concat (map cv_members (fl_caravans (ga_fleet a))))" using c(1) n by auto
  then obtain p where p: "bt_get (active_of snap) n = Some p"
    unfolding derived_members(2) [OF d] by (auto simp: bt_keys_get)
  have "\<not> is_fork_head snap p"
  proof
    assume "is_fork_head snap p"
    from fork_problem_recorded [OF p this] derived_problems(1) [OF d] active_value [OF p] quiet
    show False by (fastforce simp: fork_problem_def mk_problem_def)
  qed
  moreover have "heads_of (active_of snap) (br_name (pr_head p)) = [n]"
  proof -
    let ?hs = "heads_of (active_of snap) (br_name (pr_head p))"
    have in_hs: "n \<in> set ?hs" using p set_heads_of [OF active_keyed_of] by blast
    have "\<not> length ?hs > 1"
      using duplicate_head_recorded derived_problems(1) [OF d] in_hs quiet by fastforce
    with in_hs show ?thesis by (cases ?hs) auto
  qed
  ultimately show thesis using p that by blast
qed

lemma healthy_rooted:
  assumes d: "derived snap actor a rooted rest branch missing arm" and h: "healthy a"
    and c: "c \<in> set (fl_caravans (ga_fleet a))" "\<not> cv_parked c"
  shows "\<exists>c'\<in>set rooted. c = set_parked (active_of snap) c'"
proof -
  obtain c' where c': "c' \<in> set (rooted @ rest)" "c = set_parked (active_of snap) c'"
    using c(1) derived_members(3) [OF d] by blast
  have "c' \<notin> set rest"
  proof
    assume "c' \<in> set rest"
    then have "cv_members c' \<in> set (map gp_prs missing)"
      unfolding derived_missing(1) [OF d] by simp
    then obtain p where p: "p \<in> set missing" "gp_prs p = cv_members c" using c'(2) by auto
    have hd: "hd (cv_members c) \<in> set (cv_members c)" using derived_chain(1) [OF d c(1)] by simp
    have "p \<in> set (fl_problems (ga_fleet a))" "blocks_fleet (gp_kind p)"
      using p(1) derived_problems(3) [OF d] derived_missing(2) [OF d] by auto
    then have "hd (cv_members c) \<notin> set (gp_prs p)"
      using healthy_no_problem [OF d h c hd] by (metis (no_types))
    with p(2) hd show False by simp
  qed
  with c' show ?thesis by auto
qed

lemma healthy_head_on_default:
  assumes d: "derived snap actor a rooted rest branch missing arm" and h: "healthy a"
    and c: "c \<in> set (fl_caravans (ga_fleet a))" "\<not> cv_parked c"
  shows "\<exists>p. bt_get (active_of snap) (cv_id c) = Some p
           \<and> br_name (pr_base p) = br_name (snap_default_branch snap)"
proof -
  obtain c' where "c' \<in> set rooted" "c = set_parked (active_of snap) c'"
    using healthy_rooted [OF d h c] by blast
  then have "cv_id c \<in> set (lk_roots (links_of snap))" using derived_rooted(1) [OF d] by simp
  then obtain p where p: "bt_get (active_of snap) (cv_id c) = Some p" "parent_in snap p = None"
    unfolding roots_of by blast
  let ?r = "root_problem snap (mb_of snap) (fst (heads_in snap)) p"
  have id: "cv_id c \<in> set (cv_members c)" using derived_chain(1,2) [OF d c(1)] by simp
  have "?r \<notin> set (fl_problems (ga_fleet a))"
    using healthy_no_problem [OF d h c id]
      root_problem_blocks [of snap "mb_of snap" "fst (heads_in snap)" p] active_value [OF p(1)]
    by (metis (no_types))
  with root_problem_recorded [OF p] derived_problems(1) [OF d] p(1) show ?thesis by blast
qed

lemma healthy_tail_closed:
  assumes d: "derived snap actor a rooted rest branch missing arm" and h: "healthy a"
    and c: "c \<in> set (fl_caravans (ga_fleet a))" "\<not> cv_parked c"
    and q: "bt_get (active_of snap) m = Some q"
  shows "\<not> stacked_on (snap_default_branch snap) (prs_of snap) (last (cv_members c)) m"
proof
  let ?t = "last (cv_members c)" and ?problems = "set (fl_problems (ga_fleet a))"
  assume st: "stacked_on (snap_default_branch snap) (prs_of snap) ?t m"
  have t: "?t \<in> set (cv_members c)" using derived_chain(1) [OF d c(1)] by simp
  note quiet = healthy_no_problem [OF d h c t]
  obtain pt where pt: "bt_get (active_of snap) ?t = Some pt"
    "heads_of (active_of snap) (br_name (pr_head pt)) = [?t]" using healthy_member [OF d h c t] by blast
  from st q pt(1) have base: "br_name (pr_base q) = br_name (pr_head pt)"
    "br_name (pr_base q) \<noteq> br_name (snap_default_branch snap)"
    unfolding stacked_on_def active_of_get by auto
  have heads: "bt_get (fst (heads_in snap)) (br_name (pr_base q)) = Some [?t]"
    using pt(2) base(1) by (simp add: heads_get)
  show False
  proof (cases "parent_in snap q")
    case None
    let ?r = "root_problem snap (mb_of snap) (fst (heads_in snap)) q"
    have "?t \<in> set (gp_prs ?r)"
      using heads by (simp add: root_problem_def reused_problem_def mk_problem_def)
    moreover have "?r \<in> ?problems" "blocks_fleet (gp_kind ?r)"
      using root_problem_recorded [OF q None base(2)] derived_problems(1) [OF d] root_problem_blocks by blast+
    ultimately show False using quiet by blast
  next
    case (Some x)
    have "x = ?t" using parent_in_Some [OF Some] pt(2) base(1) by simp
    then have "bt_get (lk_parent_of (links_of snap)) m = Some ?t" unfolding parents_of using q Some by blast
    from forest.child_total [OF this] obtain cs where
      cs: "bt_get (lk_children (links_of snap)) ?t = Some cs" by blast
    obtain c' where "c' \<in> set rooted" "c = set_parked (active_of snap) c'"
      using healthy_rooted [OF d h c] by blast
    then have "cs \<noteq> [y]" for y using derived_rooted(2) [OF d, of c'] cs by auto
    then have "length cs > 1" using forest.child_nonempty [OF cs] by (cases cs; cases "tl cs") auto
    from derived_branch [OF d cs this] derived_problems(2) [OF d]
    have "branching_problem ?t cs \<in> ?problems" by blast
    then show False using quiet by (auto simp: branching_problem_def mk_problem_def)
  qed
qed

lemma healthy_auto_merge:
  assumes d: "derived snap actor a rooted rest branch missing arm" and h: "healthy a"
    and c: "c \<in> set (fl_caravans (ga_fleet a))" "\<not> cv_parked c" and i: "i < length (cv_members c)"
  shows "\<exists>p. bt_get (active_of snap) (cv_members c ! i) = Some p \<and> auto_merge_valid actor c i p"
proof -
  have n: "cv_members c ! i \<in> set (cv_members c)" using i by simp
  obtain p where p: "bt_get (active_of snap) (cv_members c ! i) = Some p"
    using healthy_member [OF d h c n] by blast
  have "auto_merge_problem actor c i (cv_members c ! i) \<notin> set (fl_problems (ga_fleet a))"
    using healthy_no_problem [OF d h c n] by (auto simp: auto_merge_problem_def mk_problem_def)
  with derived_arm [OF d c(1) i p] derived_problems(4) [OF d] p show ?thesis by blast
qed

text \<open>
  C2. A healthy fleet is well formed. Whenever \<open>healthy\<close> holds of a derivation, every unparked
  caravan is a complete chain: its head is based on the default branch; every member's head branch
  is in the repository and is the head branch of no other active member; no active member is
  stacked on its tail; and every member satisfies the auto-merge rule of the configured merge
  actor. (That it is a chain of bases is C3.)
\<close>

theorem healthy_caravans_well_formed:
  assumes a: "derive_for_actor snap actor = Some a" and h: "healthy a"
    and c: "c \<in> set (fl_caravans (ga_fleet a))" "\<not> cv_parked c"
  shows "(\<exists>p. bt_get (ga_pull_requests a) (cv_id c) = Some p
            \<and> br_name (pr_base p) = br_name (snap_default_branch snap))
     \<and> (\<forall>n\<in>set (cv_members c). \<exists>p. bt_get (ga_pull_requests a) n = Some p \<and> \<not> is_fork_head snap p
           \<and> (\<forall>m q. bt_get (ga_pull_requests a) m = Some q \<and> is_active_caravan_member q
                \<and> br_name (pr_head q) = br_name (pr_head p) \<longrightarrow> m = n))
     \<and> (\<forall>m q. bt_get (ga_pull_requests a) m = Some q \<and> is_active_caravan_member q
           \<longrightarrow> \<not> stacked_on (snap_default_branch snap) (ga_pull_requests a) (last (cv_members c)) m)
     \<and> (\<forall>i<length (cv_members c). \<exists>p. bt_get (ga_pull_requests a) (cv_members c ! i) = Some p
           \<and> auto_merge_valid actor c i p)"
proof -
  obtain a' rooted rest branch missing arm where
    "derived snap actor a' rooted rest branch missing arm" using derive_spec by blast
  with a have d: "derived snap actor a rooted rest branch missing arm" by (simp add: derived_def)
  have prs: "ga_pull_requests a = prs_of snap" using d by (simp add: derived_def)
  have "\<exists>p. bt_get (prs_of snap) n = Some p \<and> \<not> is_fork_head snap p
      \<and> (\<forall>m q. bt_get (prs_of snap) m = Some q \<and> is_active_caravan_member q
                \<and> br_name (pr_head q) = br_name (pr_head p) \<longrightarrow> m = n)"
    if n: "n \<in> set (cv_members c)" for n
  proof -
    obtain p where p: "bt_get (active_of snap) n = Some p" "\<not> is_fork_head snap p"
      "heads_of (active_of snap) (br_name (pr_head p)) = [n]" using healthy_member [OF d h c n] by blast
    have "m = n" if "bt_get (active_of snap) m = Some q" "br_name (pr_head q) = br_name (pr_head p)" for m q
      using set_heads_of [OF active_keyed_of, of m snap "br_name (pr_head p)"] that p(3) by auto
    with p show ?thesis unfolding active_of_get by blast
  qed
  then show ?thesis
    using healthy_head_on_default [OF d h c] healthy_tail_closed [OF d h c] healthy_auto_merge [OF d h c]
    unfolding prs active_of_get by blast
qed

theorem healthy_caravans_well_formed_witness:
  "healthy sample_analysis \<and> sample_caravan \<in> set (fl_caravans (ga_fleet sample_analysis))
   \<and> \<not> stacked_on (sample_branch ''m'') (ga_pull_requests sample_analysis) 3 1
   \<and> auto_merge_valid ActorGithub sample_caravan 0 (sample_pr 1 ''a'' ''m'' auto_merge_squash)"
proof -
  have h: "healthy sample_analysis" by (simp add: healthy_def sample_analysis_def)
  have c: "sample_caravan \<in> set (fl_caravans (ga_fleet sample_analysis))" "\<not> cv_parked sample_caravan"
    by (simp_all add: sample_analysis_def sample_caravan_def)
  have m: "cv_members sample_caravan = [1, 2, 3]" by (simp add: sample_caravan_def)
  have b: "snap_default_branch sample_snapshot = sample_branch ''m''" by (simp add: sample_snapshot_def)
  have p: "bt_get (ga_pull_requests sample_analysis) 1 = Some (sample_pr 1 ''a'' ''m'' auto_merge_squash)"
    by (simp add: sample_analysis_def bt_get_def)
  note facts = healthy_caravans_well_formed [OF sample_derived h c, unfolded m b]
  have "\<exists>p. bt_get (ga_pull_requests sample_analysis) ([1, 2, 3] ! 0) = Some p
      \<and> auto_merge_valid ActorGithub sample_caravan 0 p"
    using facts by auto
  then have "auto_merge_valid ActorGithub sample_caravan 0 (sample_pr 1 ''a'' ''m'' auto_merge_squash)"
    using p by simp
  moreover have "\<not> stacked_on (sample_branch ''m'') (ga_pull_requests sample_analysis) 3 1"
    using facts p sample_member(1) by auto
  ultimately show ?thesis using h c(1) by simp
qed

end
