(* ===== verification/Compat_Facts.thy ===== *)
theory Compat_Facts
  imports Compat_Analysis Graph_Health
begin

text \<open>
  What a compatibility analysis proves. A task leaves topology alone and only adds evidence; a run
  with no deadline that returns executed every task; a healthy result therefore carries a clean
  report for every attachment of the active fleet. Progress counts every planned task once.
\<close>

subsection \<open>Planning never panics\<close>

lemma concat_options_total:
  "(\<And>x. x \<in> set xs \<Longrightarrow> f x \<noteq> None) \<Longrightarrow> concat_options f xs \<noteq> None"
  by (induction xs) (auto split: bind_splits)

lemma concat_options_mem:
  "concat_options f xs = Some zs \<Longrightarrow> x \<in> set xs \<Longrightarrow> f x = Some ys \<Longrightarrow> set ys \<subseteq> set zs"
proof (induction xs arbitrary: zs)
  case (Cons y xs)
  from Cons.prems(1) obtain us vs where uv: "f y = Some us" "concat_options f xs = Some vs" "zs = us @ vs"
    by (auto split: bind_splits)
  show ?case
  proof (cases "x = y")
    case True
    with uv Cons.prems(3) show ?thesis by simp
  next
    case False
    with Cons.prems(2) have "x \<in> set xs" by simp
    from Cons.IH [OF uv(2) this Cons.prems(3)] uv(3) show ?thesis by auto
  qed
qed simp

text \<open>Every member of a derived caravan has its pull request in the analysis.\<close>

lemma derived_head_branch:
  assumes d: "derived snap actor a rooted rest branch missing arm"
    and c: "c \<in> set (fl_caravans (ga_fleet a))" "n \<in> set (cv_members c)"
  shows "\<exists>p. bt_get (ga_pull_requests a) n = Some p \<and> head_branch a n = Some (pr_head p)"
proof -
  have "n \<in> set (concat (map cv_members (fl_caravans (ga_fleet a))))" using c by auto
  then have "n \<in> set (bt_keys (active_of snap))" unfolding derived_members(2) [OF d] .
  then obtain p where "bt_get (prs_of snap) n = Some p" by (auto simp: bt_keys_get active_of_get)
  moreover have "ga_pull_requests a = prs_of snap" using d by (simp add: derived_def)
  ultimately show ?thesis by (simp add: head_branch_def)
qed

lemma derived_head:
  assumes d: "derived snap actor a rooted rest branch missing arm"
    and c: "c \<in> set (fl_caravans (ga_fleet a))"
  shows "caravan_head c = Some (cv_id c)" "cv_id c \<in> set (cv_members c)"
    and "caravan_tail c = Some (last (cv_members c))" "last (cv_members c) \<in> set (cv_members c)"
  using derived_chain(1,2) [OF d c]
  by (auto simp: caravan_head_def caravan_tail_def hd_in_set split: list.splits) 

lemma adjacent_task_total:
  assumes d: "derived snap actor a rooted rest branch missing arm"
    and c: "c \<in> set (fl_caravans (ga_fleet a))" "x \<in> set (cv_members c)" "y \<in> set (cv_members c)"
  shows "adjacent_task a (x, y) \<noteq> None"
proof -
  obtain p q where "head_branch a x = Some p" "head_branch a y = Some q"
    using derived_head_branch [OF d c(1)] c(2,3) by blast
  then show ?thesis by (simp add: adjacent_task_def)
qed

lemma caravan_tasks_total:
  assumes d: "derived snap actor a rooted rest branch missing arm"
    and c: "c \<in> set (fl_caravans (ga_fleet a))"
  shows "caravan_tasks b a c \<noteq> None"
proof -
  obtain p where "head_branch a (cv_id c) = Some p"
    using derived_head_branch [OF d c derived_head(2) [OF d c]] by blast
  moreover have "concat_options (adjacent_task a) (zip (cv_members c) (tl (cv_members c))) \<noteq> None"
  proof (rule concat_options_total)
    fix e
    assume "e \<in> set (zip (cv_members c) (tl (cv_members c)))"
    then obtain x y where e: "e = (x, y)" "x \<in> set (cv_members c)" "y \<in> set (tl (cv_members c))"
      by (metis prod.exhaust set_zip_leftD set_zip_rightD)
    then have "y \<in> set (cv_members c)" by (cases "cv_members c") auto
    with adjacent_task_total [OF d c e(2)] e(1) show "adjacent_task a e \<noteq> None" by blast
  qed
  ultimately show ?thesis using derived_head(1) [OF d c] by (auto simp: caravan_tasks_def)
qed

lemma unparked_mem:
  "(i, c) \<in> set (unparked_caravans a) \<longleftrightarrow>
     i < length (fl_caravans (ga_fleet a)) \<and> fl_caravans (ga_fleet a) ! i = c \<and> \<not> cv_parked c"
  by (auto simp: unparked_caravans_def in_set_enumerate_eq)

lemma cross_tasks_total:
  assumes d: "derived snap actor a rooted rest branch missing arm"
  shows "cross_tasks a \<noteq> None"
proof -
  have "cross_task a ((i, c), (j, e)) \<noteq> None"
    if "(i, c) \<in> set (unparked_caravans a)" "(j, e) \<in> set (unparked_caravans a)" for i c j e
  proof -
    have c: "c \<in> set (fl_caravans (ga_fleet a))" and e: "e \<in> set (fl_caravans (ga_fleet a))"
      using that by (auto simp: unparked_mem)
    obtain p q where "head_branch a (cv_id c) = Some p"
      "head_branch a (last (cv_members e)) = Some q"
      using derived_head_branch [OF d c derived_head(2) [OF d c]]
        derived_head_branch [OF d e derived_head(4) [OF d e]] by blast
    then show ?thesis using derived_head(1,3) [OF d c] derived_head(1,3) [OF d e] by (simp add: cross_task_def)
  qed
  then show ?thesis unfolding cross_tasks_def by (intro concat_options_total) auto
qed

lemma planned:
  assumes d: "derived snap actor a rooted rest branch missing arm"
  obtains q own cross candidates where "compatibility_tasks snap a p = Some (q, own @ cross @ candidates)"
    and "concat_options (caravan_tasks (snap_default_branch snap) a) (fl_caravans (ga_fleet a)) = Some own"
    and "cross_tasks a = Some cross"
    and "cp_deferred_analyses q = cp_deferred_analyses p"
    and "cp_deferred_analyses_truncated q = cp_deferred_analyses_truncated p"
    and "cp_completed_analyses q = cp_completed_analyses p" and "cp_complete q = cp_complete p"
proof -
  obtain own where own:
    "concat_options (caravan_tasks (snap_default_branch snap) a) (fl_caravans (ga_fleet a)) = Some own"
    using concat_options_total [of _ "caravan_tasks (snap_default_branch snap) a"] caravan_tasks_total [OF d] by blast
  obtain cross where cross: "cross_tasks a = Some cross" using cross_tasks_total [OF d] by blast
  obtain skipped truncated candidates where cand:
    "candidate_tasks (snap_default_branch snap) a 0 (fl_unqueued (ga_fleet a))
       (cp_skipped_analyses p, cp_skipped_analyses_truncated p) = ((skipped, truncated), candidates)"
    by (metis prod.exhaust)
  show thesis
    by (rule that [of "p\<lparr>cp_skipped_analyses := skipped, cp_skipped_analyses_truncated := truncated\<rparr>" own cross candidates])
      (use own cross cand in \<open>simp_all add: compatibility_tasks_def Let_def\<close>)
qed

subsection \<open>Executing tasks\<close>

text \<open>A task leaves the topology of the fleet alone and only adds problems and reports.\<close>

definition extends :: "graph_analysis \<Rightarrow> graph_analysis \<Rightarrow> bool" where
  "extends a b \<longleftrightarrow> ga_pull_requests b = ga_pull_requests a
     \<and> fl_caravans (ga_fleet b) = fl_caravans (ga_fleet a)
     \<and> set (fl_problems (ga_fleet a)) \<subseteq> set (fl_problems (ga_fleet b))
     \<and> set (ga_compatibility a) \<subseteq> set (ga_compatibility b)"

lemma extends_refl [simp]: "extends a a"
  by (simp add: extends_def)

lemma extends_trans: "extends a b \<Longrightarrow> extends b c \<Longrightarrow> extends a c"
  by (auto simp: extends_def)

lemmas push_defs = push_problem_def push_report_def record_candidate_compatibility_def

lemma execute_extends: "execute_task ck t a w = (w', a', r) \<Longrightarrow> extends a a'"
  by (cases t) (auto simp: extends_def record_compatibility_def push_defs Let_def
      split: prod.splits sum.splits option.splits if_splits)

lemma run_tasks_extends: "run_tasks ck d ts a p w = (w', Inr b) \<Longrightarrow> extends a (bg_analysis b)"
proof (induction ts arbitrary: a p w)
  case (Cons t ts)
  obtain v a' r where step: "execute_task ck t a w = (v, a', r)" by (metis prod.exhaust)
  have grown: "extends a a'" using execute_extends [OF step] .
  show ?case
  proof (cases "deadline_passed ck d w")
    case True
    with Cons.prems show ?thesis by (auto simp: deferred_outcome_def)
  next
    case False
    show ?thesis
    proof (cases r)
      case (Inl e)
      with Cons.prems False step grown show ?thesis by (auto simp: deferred_outcome_def split: if_splits)
    next
      case (Inr u)
      with Cons.prems False step
      have "run_tasks ck d ts a' (p\<lparr>cp_completed_analyses := sat_add (cp_completed_analyses p) 1\<rparr>) v = (w', Inr b)"
        by simp
      from extends_trans [OF grown Cons.IH [OF this]] show ?thesis .
    qed
  qed
qed auto

text \<open>An analysis that only grew and is healthy has no blocking problem at an unparked caravan.\<close>

lemma extends_healthy:
  assumes "extends a b" "healthy b" "\<not> cv_parked c"
    and "fleet_containing (ga_fleet a) n = Some c" "mk_problem Incompatible prs message \<in> set (fl_problems (ga_fleet b))"
  shows "n \<notin> set prs"
proof
  assume n: "n \<in> set prs"
  have "fleet_containing (ga_fleet b) n = Some c"
    using assms(1,4) by (simp add: extends_def fleet_containing_def)
  from blocks_active_prs_unparked [OF n this assms(3)] assms(2,5) show False
    by (auto simp: healthy_def problem_blocks_active_fleet_def mk_problem_def)
qed

subsection \<open>The contract of a checker\<close>

text \<open>
  What the analysis relies on: the checker keeps its invariant in every operation, and a report it
  returns for two branches is evidence about them. The lemmas hold for every checker with such a
  contract.
\<close>

locale checker_contract =
  fixes ck :: "'w checker"
    and inv :: "'w \<Rightarrow> bool"
    and evidence :: "branch_snapshot \<Rightarrow> branch_snapshot \<Rightarrow> compatibility_report \<Rightarrow> bool"
  assumes prepare_inv: "inv w \<Longrightarrow> ck_prepare ck bs w = (w', r1) \<Longrightarrow> inv w'"
    and check_inv: "inv w \<Longrightarrow> ck_check ck c t w = (w', r2) \<Longrightarrow> inv w'"
    and check_evidence: "inv w \<Longrightarrow> ck_check ck c t w = (w', Inr report) \<Longrightarrow> evidence c t report"
    and cumulative_inv: "inv w \<Longrightarrow> ck_cumulative_tree ck c t w = (w', r3) \<Longrightarrow> inv w'"
    and squash_inv: "inv w \<Longrightarrow> ck_squash_equivalence ck c t w = (w', r4) \<Longrightarrow> inv w'"
begin

lemma execute_inv: "inv w \<Longrightarrow> execute_task ck t a w = (w', a', r) \<Longrightarrow> inv w'"
  by (cases t) (auto simp: record_compatibility_def Let_def
      dest: check_inv cumulative_inv squash_inv split: prod.splits sum.splits option.splits if_splits)

definition settled :: "branch_snapshot \<Rightarrow> branch_snapshot \<Rightarrow> pr_number list \<Rightarrow> string \<Rightarrow> graph_analysis \<Rightarrow> bool" where
  "settled c t prs message a \<longleftrightarrow>
     (\<exists>report\<in>set (ga_compatibility a). evidence c t report
        \<and> (rep_outcome report = Clean \<or> mk_problem Incompatible prs message \<in> set (fl_problems (ga_fleet a))))"

lemma execute_settles:
  assumes "inv w" "execute_task ck (FleetTask d c t prs message) a w = (w', a', Inr u)"
  shows "settled c t prs message a'"
proof -
  obtain v report where check: "ck_check ck c t w = (v, Inr report)"
    and rest: "record_compatibility ck report prs message a v = (w', a', Inr u)"
    using assms(2) by (auto split: prod.splits sum.splits)
  have "evidence c t report" using check_evidence [OF assms(1) check] .
  with rest show ?thesis unfolding settled_def
    by (intro bexI [of _ report])
      (auto simp: record_compatibility_def push_defs Let_def split: prod.splits sum.splits option.splits if_splits)
qed

lemma run_tasks_settle:
  assumes "inv w" "run_tasks ck None ts a p w = (w', Inr b)" "FleetTask d c t prs message \<in> set ts"
  shows "settled c t prs message (bg_analysis b)"
  using assms
proof (induction ts arbitrary: a p w)
  case (Cons s ts)
  obtain v a' r where step: "execute_task ck s a w = (v, a', r)" by (metis prod.exhaust)
  with Cons.prems(2) obtain u where r: "r = Inr u" by (cases r) (auto simp: deadline_passed_def)
  with Cons.prems(2) step
  have rest: "run_tasks ck None ts a' (p\<lparr>cp_completed_analyses := sat_add (cp_completed_analyses p) 1\<rparr>) v = (w', Inr b)"
    by (simp add: deadline_passed_def)
  show ?case
  proof (cases "FleetTask d c t prs message \<in> set ts")
    case True
    from Cons.IH [OF execute_inv [OF Cons.prems(1) step] rest True] show ?thesis .
  next
    case False
    with Cons.prems(3) have "s = FleetTask d c t prs message" by simp
    with execute_settles [OF Cons.prems(1)] step r have "settled c t prs message a'" by blast
    with run_tasks_extends [OF rest] show ?thesis by (auto simp: settled_def extends_def)
  qed
qed simp

end

subsection \<open>What is planned\<close>

lemma caravan_tasks_Some:
  assumes "caravan_tasks target a c = Some ts" "caravan_head c = Some h"
  shows "\<exists>p d m k us. head_branch a h = Some p
           \<and> concat_options (adjacent_task a) (zip (cv_members c) (tl (cv_members c))) = Some us
           \<and> ts = FleetTask d p target [h] m # CumulativeTreeTask k p target # us"
  using assms by (auto simp: caravan_tasks_def bind_eq_Some_conv)

lemma head_planned:
  assumes d: "derived snap actor a rooted rest branch missing arm" and c: "c \<in> set (fl_caravans (ga_fleet a))"
    and own: "concat_options (caravan_tasks target a) (fl_caravans (ga_fleet a)) = Some own"
    and p: "head_branch a (cv_id c) = Some p"
  shows "\<exists>d m. FleetTask d p target [cv_id c] m \<in> set own"
proof -
  obtain ts where ts: "caravan_tasks target a c = Some ts" using caravan_tasks_total [OF d c] by blast
  then have "\<exists>d m. FleetTask d p target [cv_id c] m \<in> set ts"
    using caravan_tasks_Some [OF ts derived_head(1) [OF d c]] p by fastforce
  with concat_options_mem [OF own c ts] show ?thesis by blast
qed

lemma adjacent_planned:
  assumes d: "derived snap actor a rooted rest branch missing arm" and c: "c \<in> set (fl_caravans (ga_fleet a))"
    and own: "concat_options (caravan_tasks target a) (fl_caravans (ga_fleet a)) = Some own"
    and i: "Suc i < length (cv_members c)"
    and p: "head_branch a (cv_members c ! i) = Some p" and q: "head_branch a (cv_members c ! Suc i) = Some q"
  shows "\<exists>d m. FleetTask d q p [cv_members c ! i, cv_members c ! Suc i] m \<in> set own"
proof -
  let ?pairs = "zip (cv_members c) (tl (cv_members c))" and ?pair = "(cv_members c ! i, cv_members c ! Suc i)"
  obtain ts where ts: "caravan_tasks target a c = Some ts" using caravan_tasks_total [OF d c] by blast
  then obtain us where us: "concat_options (adjacent_task a) ?pairs = Some us" "set us \<subseteq> set ts"
    using caravan_tasks_Some [OF ts derived_head(1) [OF d c]] by fastforce
  have "?pairs ! i = ?pair" "i < length ?pairs" using i by (simp_all add: nth_tl)
  then have pair: "?pair \<in> set ?pairs" by (metis nth_mem)
  obtain d m where "adjacent_task a ?pair = Some [FleetTask d q p [cv_members c ! i, cv_members c ! Suc i] m]"
    using p q by (simp add: adjacent_task_def)
  from concat_options_mem [OF us(1) pair this] us(2) concat_options_mem [OF own c ts] show ?thesis by auto
qed

lemma cross_planned:
  assumes d: "derived snap actor a rooted rest branch missing arm"
    and c: "c \<in> set (fl_caravans (ga_fleet a))" "\<not> cv_parked c"
    and e: "e \<in> set (fl_caravans (ga_fleet a))" "\<not> cv_parked e" and diff: "c \<noteq> e"
    and cross: "cross_tasks a = Some cross"
    and p: "head_branch a (cv_id c) = Some p" and q: "head_branch a (last (cv_members e)) = Some q"
  shows "\<exists>d m. FleetTask d p q [cv_id c, last (cv_members e)] m \<in> set cross"
proof -
  obtain i j where ij: "i < length (fl_caravans (ga_fleet a))" "fl_caravans (ga_fleet a) ! i = c"
    "j < length (fl_caravans (ga_fleet a))" "fl_caravans (ga_fleet a) ! j = e"
    using c(1) e(1) by (auto simp: in_set_conv_nth)
  then have "((i, c), (j, e)) \<in> set (List.product (unparked_caravans a) (unparked_caravans a))"
    using c(2) e(2) by (simp add: unparked_mem)
  moreover have "i \<noteq> j" using ij diff by auto
  then obtain d m where "cross_task a ((i, c), (j, e)) = Some [FleetTask d p q [cv_id c, last (cv_members e)] m]"
    using derived_head [OF d c(1)] derived_head [OF d e(1)] p q by (simp add: cross_task_def)
  ultimately show ?thesis using concat_options_mem [OF cross [unfolded cross_tasks_def]] by fastforce
qed

subsection \<open>A healthy analysis attaches cleanly\<close>

text \<open>
  The analysis holds a clean report, backed by evidence, that pull request \<open>n\<close> merges into a branch,
  or into the head branch of another pull request.
\<close>

definition attaches ::
    "(branch_snapshot \<Rightarrow> branch_snapshot \<Rightarrow> compatibility_report \<Rightarrow> bool) \<Rightarrow> graph_analysis \<Rightarrow> pr_number
     \<Rightarrow> branch_snapshot \<Rightarrow> bool" where
  "attaches evidence a n target \<longleftrightarrow>
     (\<exists>p report. bt_get (ga_pull_requests a) n = Some p \<and> report \<in> set (ga_compatibility a)
        \<and> evidence (pr_head p) target report \<and> rep_outcome report = Clean)"

definition attaches_to ::
    "(branch_snapshot \<Rightarrow> branch_snapshot \<Rightarrow> compatibility_report \<Rightarrow> bool) \<Rightarrow> graph_analysis \<Rightarrow> pr_number
     \<Rightarrow> pr_number \<Rightarrow> bool" where
  "attaches_to evidence a n m \<longleftrightarrow>
     (\<exists>q. bt_get (ga_pull_requests a) m = Some q \<and> attaches evidence a n (pr_head q))"

context checker_contract
begin

lemma settled_clean:
  assumes "settled c t prs message b" "extends a b" "healthy b"
    and "fleet_containing (ga_fleet a) n = Some cv" "\<not> cv_parked cv" "n \<in> set prs"
  shows "\<exists>report\<in>set (ga_compatibility b). evidence c t report \<and> rep_outcome report = Clean"
  using assms extends_healthy [OF assms(2,3,5,4)] unfolding settled_def by blast

lemma analysis_runs:
  assumes d: "derived snap actor a rooted rest branch missing arm" and "inv w"
    and "analyze_for_actor snap ck actor = Some run" "run w = (w', Inr b)"
  obtains own cross where "extends a b"
    and "concat_options (caravan_tasks (snap_default_branch snap) a) (fl_caravans (ga_fleet a)) = Some own"
    and "cross_tasks a = Some cross"
    and "\<And>k c t prs m. FleetTask k c t prs m \<in> set (own @ cross) \<Longrightarrow> settled c t prs m b"
proof -
  obtain q own cross cands where plan:
    "compatibility_tasks snap a (initial_progress snap a) = Some (q, own @ cross @ cands)"
    "concat_options (caravan_tasks (snap_default_branch snap) a) (fl_caravans (ga_fleet a)) = Some own"
    "cross_tasks a = Some cross"
    using planned [OF d, of "initial_progress snap a"] by metis
  obtain v p g u where prep: "ck_prepare ck (analysis_branches snap a) w = (v, Inr u)"
    and ran: "run_tasks ck None (own @ cross @ cands) a p v = (w', Inr g)" and g: "bg_analysis g = b"
    using assms(3,4) derived_some [OF d] plan(1)
    by (auto simp: analyze_for_actor_def analyze_for_actor_with_progress_def analyze_for_actor_internal_def
        act_then_Inr run_analysis_def deadline_passed_def split: prod.splits sum.splits)
  note settles = run_tasks_settle [OF prepare_inv [OF assms(2) prep] ran, unfolded g]
  show thesis
  proof (rule that [OF _ plan(2,3)])
    show "extends a b" using run_tasks_extends [OF ran] g by simp
    show "settled c t prs m b" if "FleetTask k c t prs m \<in> set (own @ cross)" for k c t prs m
      by (rule settles [of k]) (use that in auto)
  qed
qed

lemma healthy_attaches:
  assumes "inv w" "analyze_for_actor snap ck actor = Some run" "run w = (w', Inr b)" "healthy b"
    and c: "c \<in> set (fl_caravans (ga_fleet b))" "\<not> cv_parked c"
  shows "attaches evidence b (cv_id c) (snap_default_branch snap)"
    and "successively (\<lambda>m n. attaches_to evidence b n m) (cv_members c)"
    and "e \<in> set (fl_caravans (ga_fleet b)) \<Longrightarrow> \<not> cv_parked e \<Longrightarrow> e \<noteq> c
           \<Longrightarrow> attaches_to evidence b (cv_id c) (last (cv_members e))"
proof -
  obtain a rooted rest branch missing arm where
    d: "derived snap actor a rooted rest branch missing arm" using derive_spec by blast
  obtain own cross where ext: "extends a b"
    and own: "concat_options (caravan_tasks (snap_default_branch snap) a) (fl_caravans (ga_fleet a)) = Some own"
    and cross: "cross_tasks a = Some cross"
    and settles: "\<And>k c t prs m. FleetTask k c t prs m \<in> set (own @ cross) \<Longrightarrow> settled c t prs m b"
    using analysis_runs [OF d assms(1-3)] by blast
  have ca: "c \<in> set (fl_caravans (ga_fleet a))" using ext c(1) by (simp add: extends_def)
  have prs: "ga_pull_requests b = ga_pull_requests a" using ext by (simp add: extends_def)
  note inside = derived_containing [OF d ca]
  have clean: "\<exists>report\<in>set (ga_compatibility b). evidence x y report \<and> rep_outcome report = Clean"
    if "FleetTask k x y ns m \<in> set (own @ cross)" "n \<in> set ns" "n \<in> set (cv_members c)" for k x y ns m n
    using settled_clean [OF settles [OF that(1)] ext assms(4) inside [OF that(3)] c(2) that(2)] .
  note head = derived_head_branch [OF d ca]
  obtain p where p: "bt_get (ga_pull_requests a) (cv_id c) = Some p" "head_branch a (cv_id c) = Some (pr_head p)"
    using head [OF derived_head(2) [OF d ca]] by blast
  show "attaches evidence b (cv_id c) (snap_default_branch snap)"
    using head_planned [OF d ca own p(2)] clean [of _ _ _ "[cv_id c]" _ "cv_id c"] derived_head(2) [OF d ca] p(1) prs
    unfolding attaches_def by fastforce
  show "successively (\<lambda>m n. attaches_to evidence b n m) (cv_members c)"
  proof (unfold successively_conv_nth, intro allI impI)
    fix i
    assume i: "Suc i < length (cv_members c)"
    obtain x y where x: "bt_get (ga_pull_requests a) (cv_members c ! i) = Some x" "head_branch a (cv_members c ! i) = Some (pr_head x)"
      and y: "bt_get (ga_pull_requests a) (cv_members c ! Suc i) = Some y" "head_branch a (cv_members c ! Suc i) = Some (pr_head y)"
      using head [of "cv_members c ! i"] head [of "cv_members c ! Suc i"] i by auto
    obtain k m where "FleetTask k (pr_head y) (pr_head x) [cv_members c ! i, cv_members c ! Suc i] m \<in> set own"
      using adjacent_planned [OF d ca own i x(2) y(2)] by blast
    from clean [of k _ _ _ m "cv_members c ! i"] this i x(1) y(1) prs
    show "attaches_to evidence b (cv_members c ! Suc i) (cv_members c ! i)"
      unfolding attaches_to_def attaches_def by fastforce
  qed
  assume e: "e \<in> set (fl_caravans (ga_fleet b))" "\<not> cv_parked e" "e \<noteq> c"
  then have ea: "e \<in> set (fl_caravans (ga_fleet a))" using ext by (simp add: extends_def)
  obtain x where x: "bt_get (ga_pull_requests a) (last (cv_members e)) = Some x"
    "head_branch a (last (cv_members e)) = Some (pr_head x)"
    using derived_head_branch [OF d ea derived_head(4) [OF d ea]] by blast
  obtain k m where "FleetTask k (pr_head p) (pr_head x) [cv_id c, last (cv_members e)] m \<in> set cross"
    using cross_planned [OF d ca c(2) ea e(2) _ cross p(2) x(2)] e(3) by blast
  from clean [of k _ _ _ m "cv_id c"] this derived_head(2) [OF d ca] p(1) x(1) prs
  show "attaches_to evidence b (cv_id c) (last (cv_members e))"
    unfolding attaches_to_def attaches_def by fastforce
qed

end

subsection \<open>Progress\<close>

lemma fold_samples:
  assumes "length (xs @ ds) \<le> u64_max"
  shows "fold push_progress_sample ds (take 64 xs, length xs - 64) = (take 64 (xs @ ds), length (xs @ ds) - 64)"
  using assms
proof (induction ds arbitrary: xs)
  case (Cons d ds)
  have "push_progress_sample d (take 64 xs, length xs - 64) = (take 64 (xs @ [d]), length (xs @ [d]) - 64)"
    using Cons.prems by (auto simp: push_progress_sample_def max_analysis_progress_samples_def sat_add_def)
  then show ?case using Cons.IH [of "xs @ [d]"] Cons.prems by simp
qed simp

lemma defer_tasks_samples:
  assumes "length ts \<le> u64_max" "cp_deferred_analyses p = []" "cp_deferred_analyses_truncated p = 0"
  shows "defer_tasks ts p = p\<lparr>cp_deferred_analyses := take 64 (map task_description ts),
           cp_deferred_analyses_truncated := length ts - 64\<rparr>"
proof -
  have "fold (\<lambda>t. push_progress_sample (task_description t)) ts = fold push_progress_sample (map task_description ts)"
    by (simp add: fold_map comp_def)
  with fold_samples [of "[]" "map task_description ts"] assms show ?thesis by (simp add: defer_tasks_def)
qed

text \<open>
  The account of a run that stopped before task \<open>k\<close>: the first \<open>k\<close> tasks are completed, the others
  are deferred, the first 64 of them by name.
\<close>

definition accounts ::
    "compatibility_analysis_task list \<Rightarrow> nat \<Rightarrow> compatibility_analysis_progress \<Rightarrow> bool" where
  "accounts tasks k p \<longleftrightarrow> k \<le> length tasks \<and> cp_completed_analyses p = k
     \<and> cp_deferred_analyses p = take 64 (map task_description (drop k tasks))
     \<and> cp_deferred_analyses_truncated p = length (drop k tasks) - 64
     \<and> (cp_complete p \<longrightarrow> k = length tasks)"

lemma deferred_accounts:
  assumes "length tasks \<le> u64_max" "k \<le> length tasks" "cp_deferred_analyses p = []"
    and "cp_deferred_analyses_truncated p = 0" "cp_completed_analyses p = k" "\<not> cp_complete p"
  shows "accounts tasks k (bg_progress (deferred_outcome (drop k tasks) a p))"
    and "\<not> cp_complete (bg_progress (deferred_outcome (drop k tasks) a p))"
    and "cp_planned_analyses (bg_progress (deferred_outcome (drop k tasks) a p)) = cp_planned_analyses p"
  using assms defer_tasks_samples [of "drop k tasks" p] by (simp_all add: accounts_def deferred_outcome_def)

lemma run_tasks_accounts:
  assumes "run_tasks ck d (drop k tasks) a p w = (w', Inr b)" "length tasks \<le> u64_max" "k \<le> length tasks"
    and "cp_deferred_analyses p = []" "cp_deferred_analyses_truncated p = 0" "cp_completed_analyses p = k"
    and "\<not> cp_complete p"
  shows "(\<exists>j. accounts tasks j (bg_progress b)) \<and> (d = None \<longrightarrow> cp_complete (bg_progress b))
           \<and> cp_planned_analyses (bg_progress b) = cp_planned_analyses p"
  using assms
proof (induction "length tasks - k" arbitrary: k a p w)
  case 0
  then show ?case by (auto simp: accounts_def)
next
  case (Suc n)
  then have k: "k < length tasks" by simp
  then have cons: "drop k tasks = tasks ! k # drop (Suc k) tasks" by (rule Cons_nth_drop_Suc [symmetric])
  note deferred = deferred_accounts [OF Suc.prems(2-7)]
  obtain v a' r where step: "execute_task ck (tasks ! k) a w = (v, a', r)" by (metis prod.exhaust)
  show ?case
  proof (cases "deadline_passed ck d w \<or> (\<exists>e. r = Inl e)")
    case True
    then have "d \<noteq> None \<and> (\<exists>a''. b = deferred_outcome (drop k tasks) a'' p)"
      using Suc.prems(1) step unfolding cons by (auto simp: deadline_passed_def split: if_splits option.splits)
    then show ?thesis using deferred by blast
  next
    case False
    then obtain u where r: "r = Inr u" by (cases r) auto
    let ?p = "p\<lparr>cp_completed_analyses := sat_add (cp_completed_analyses p) 1\<rparr>"
    have "run_tasks ck d (drop (Suc k) tasks) a' ?p v = (w', Inr b)"
      using Suc.prems(1) step r False unfolding cons by simp
    from Suc.hyps(1) [OF _ this] show ?thesis
      using Suc.hyps(2) Suc.prems k by (simp add: sat_add_def)
  qed
qed

lemma analysis_accounts:
  assumes "run_analysis ck d bs tasks a p w = (w', Inr b)" "length tasks \<le> u64_max"
    and "cp_deferred_analyses p = []" "cp_deferred_analyses_truncated p = 0" "cp_completed_analyses p = 0"
    and "\<not> cp_complete p"
  shows "(\<exists>j. accounts tasks j (bg_progress b)) \<and> (d = None \<longrightarrow> cp_complete (bg_progress b))
           \<and> cp_planned_analyses (bg_progress b) = cp_planned_analyses p"
proof -
  note deferred = deferred_accounts [where k = 0, OF assms(2) le0 assms(3-6), unfolded drop0]
  obtain v r where prep: "ck_prepare ck bs w = (v, r)" by (metis prod.exhaust)
  show ?thesis
  proof (cases "deadline_passed ck d w \<or> (\<exists>e. r = Inl e)")
    case True
    then have "d \<noteq> None \<and> b = deferred_outcome tasks a p"
      using assms(1) prep by (auto simp: run_analysis_def deadline_passed_def split: if_splits option.splits)
    then show ?thesis using deferred by blast
  next
    case False
    then obtain u where "r = Inr u" by (cases r) auto
    with False assms(1) prep
    have "run_tasks ck d (drop 0 tasks) a (p\<lparr>cp_revision_preparation_complete := True\<rparr>) v = (w', Inr b)"
      by (simp add: run_analysis_def)
    from run_tasks_accounts [OF this assms(2)] assms(3-6) show ?thesis by simp
  qed
qed

text \<open>
  C15. Compatibility analysis never panics and accounts for its work: for every snapshot, checker and
  deadline it plans a task list, and whenever it returns, a prefix of the list is counted as completed
  and exactly the rest is deferred, its first 64 names listed and the others counted. A complete
  receipt deferred nothing, and a run without deadline only returns complete receipts.
\<close>

theorem analysis_progress_accounts:
  "\<exists>a q tasks run. derive_for_actor snap actor = Some a
     \<and> compatibility_tasks snap a (initial_progress snap a) = Some (q, tasks)
     \<and> analyze_for_actor_internal snap ck actor deadline = Some run
     \<and> (\<forall>w w' b. run w = (w', Inr b) \<and> length tasks \<le> u64_max \<longrightarrow>
          cp_planned_analyses (bg_progress b) = length tasks
          \<and> (\<exists>k. accounts tasks k (bg_progress b))
          \<and> (deadline = None \<longrightarrow> cp_complete (bg_progress b)))"
proof -
  obtain a rooted rest branch missing arm where
    d: "derived snap actor a rooted rest branch missing arm" using derive_spec by blast
  obtain q own cross cands where plan:
    "compatibility_tasks snap a (initial_progress snap a) = Some (q, own @ cross @ cands)"
    "cp_deferred_analyses q = cp_deferred_analyses (initial_progress snap a)"
    "cp_deferred_analyses_truncated q = cp_deferred_analyses_truncated (initial_progress snap a)"
    "cp_completed_analyses q = cp_completed_analyses (initial_progress snap a)"
    "cp_complete q = cp_complete (initial_progress snap a)"
    by (rule planned [OF d, of "initial_progress snap a"])
  let ?run = "run_analysis ck deadline (analysis_branches snap a) (own @ cross @ cands) a
                (q\<lparr>cp_planned_analyses := length (own @ cross @ cands)\<rparr>)"
  have "analyze_for_actor_internal snap ck actor deadline = Some ?run"
    using derived_some [OF d] plan(1) by (simp add: analyze_for_actor_internal_def)
  moreover have "cp_planned_analyses (bg_progress b) = length (own @ cross @ cands)
          \<and> (\<exists>k. accounts (own @ cross @ cands) k (bg_progress b))
          \<and> (deadline = None \<longrightarrow> cp_complete (bg_progress b))"
    if "?run w = (w', Inr b)" "length (own @ cross @ cands) \<le> u64_max" for w w' b
    using analysis_accounts [OF that] plan(2-5) by (simp add: initial_progress_def progress_default_def)
  ultimately show ?thesis using derived_some [OF d] plan(1) by blast
qed

subsection \<open>The sample repository\<close>

lemma sample_tasks:
  "\<exists>d1 d2 d3 d4 m1 m2 m3. compatibility_tasks sample_snapshot sample_analysis p = Some (p,
     [FleetTask d1 (sample_branch ''a'') (sample_branch ''m'') [1] m1,
      CumulativeTreeTask d2 (sample_branch ''a'') (sample_branch ''m''),
      FleetTask d3 (sample_branch ''b'') (sample_branch ''a'') [1, 2] m2,
      FleetTask d4 (sample_branch ''c'') (sample_branch ''b'') [2, 3] m3])"
  by (simp add: compatibility_tasks_def sample_analysis_def sample_snapshot_def sample_caravan_def caravan_tasks_def
      caravan_head_def head_branch_def bt_get_def sample_pr_def adjacent_task_def cross_tasks_def
      unparked_caravans_def cross_task_def Let_def)

text \<open>A checker whose clock is its world: each merge takes one unit and is clean.\<close>

definition ticking_checker :: "nat checker" where
  "ticking_checker = closure_checker (\<lambda>w. w) (\<lambda>c t w. (Suc w, Inr \<lparr>rep_candidate = c, rep_target = t,
     rep_outcome = Clean, rep_conflicting_paths = [], rep_diagnostic = None\<rparr>))"

theorem analysis_progress_accounts_witness:
  "\<exists>run w' b. analyze_for_actor_internal sample_snapshot ticking_checker ActorGithub (Some 2) = Some run
     \<and> run 0 = (w', Inr b) \<and> cp_completed_analyses (bg_progress b) = 3 \<and> \<not> cp_complete (bg_progress b)
     \<and> cp_planned_analyses (bg_progress b) = 4 \<and> (\<exists>tasks k. accounts tasks k (bg_progress b))"
proof -
  obtain a q tasks run where run: "derive_for_actor sample_snapshot ActorGithub = Some a"
    "compatibility_tasks sample_snapshot a (initial_progress sample_snapshot a) = Some (q, tasks)"
    "analyze_for_actor_internal sample_snapshot ticking_checker ActorGithub (Some 2) = Some run"
    and accounts: "\<And>w w' b. run w = (w', Inr b) \<Longrightarrow> length tasks \<le> u64_max \<Longrightarrow>
        cp_planned_analyses (bg_progress b) = length tasks \<and> (\<exists>k. accounts tasks k (bg_progress b))"
    using analysis_progress_accounts [of sample_snapshot ActorGithub ticking_checker "Some 2"] by blast
  have a: "a = sample_analysis" using run(1) sample_derived by simp
  obtain d1 d2 d3 d4 m1 m2 m3 where tasks: "q = initial_progress sample_snapshot sample_analysis" "tasks =
     [FleetTask d1 (sample_branch ''a'') (sample_branch ''m'') [1] m1,
      CumulativeTreeTask d2 (sample_branch ''a'') (sample_branch ''m''),
      FleetTask d3 (sample_branch ''b'') (sample_branch ''a'') [1, 2] m2,
      FleetTask d4 (sample_branch ''c'') (sample_branch ''b'') [2, 3] m3]"
    using run(2) sample_tasks [of "initial_progress sample_snapshot sample_analysis"] a by auto
  have "run = run_analysis ticking_checker (Some 2) (analysis_branches sample_snapshot a) tasks a
          (q\<lparr>cp_planned_analyses := length tasks\<rparr>)"
    using run by (simp add: analyze_for_actor_internal_def)
  moreover have "cp_completed_analyses q = 0 \<and> \<not> cp_complete q"
    unfolding tasks(1) by (simp add: initial_progress_def progress_default_def)
  ultimately obtain w' b where "run 0 = (w', Inr b)" "cp_completed_analyses (bg_progress b) = 3"
    "\<not> cp_complete (bg_progress b)"
    unfolding tasks(2) by (auto simp: run_analysis_def deadline_passed_def ticking_checker_def closure_checker_def
        act_of_def record_compatibility_def deferred_outcome_def defer_tasks_def sat_add_def u64_max_def
        split: prod.splits)
  with accounts [of 0 w' b] run(3) show ?thesis unfolding tasks(2) by (auto simp: u64_max_def)
qed

end
