(* ===== verification/Compat_Safety.thy ===== *)
theory Compat_Safety
  imports Compat_Checker Compat_Facts
begin

text \<open>
  What the production checker guarantees: a prepared branch set holds exactly the requested revisions,
  each advertised by the remote before and after it was fetched; the checker keeps its caches exact;
  and a healthy analysis by this checker rests on successful \<open>git merge-tree\<close> runs of the exact
  revisions.
\<close>

subsection \<open>Prepared revisions are exact\<close>

abbreviation branch_ref :: "branch_snapshot \<Rightarrow> string" where
  "branch_ref s \<equiv> ''refs/heads/'' @ br_name s"

lemma branch_reference_Inr: "branch_reference io b w = (w', Inr r) \<Longrightarrow> r = ''refs/heads/'' @ b"
  unfolding branch_reference_def by (auto simp: act_then_Inr Let_def split: if_splits)

lemma prepare_branch_Inr:
  "prepare_branch io s w = (w', Inr b) \<Longrightarrow> b = (branch_ref s, br_oid s, br_name s) \<and> valid_full_oid (br_oid s)"
  by (auto simp: prepare_branch_def act_then_Inr validate_expected_oid_def
      dest!: branch_reference_Inr split: if_splits)

lemma prepare_branches_list:
  assumes "act_each (prepare_branch io) snaps w = (w', Inr bs)"
  shows "bs = map (\<lambda>s. (branch_ref s, br_oid s, br_name s)) snaps" "\<forall>s\<in>set snaps. valid_full_oid (br_oid s)"
proof -
  have "list_all2 (\<lambda>s b. b = (branch_ref s, br_oid s, br_name s) \<and> valid_full_oid (br_oid s)) snaps bs"
    using act_each_Inr [OF assms] by (rule list_all2_mono) (blast dest: prepare_branch_Inr)
  then show "bs = map (\<lambda>s. (branch_ref s, br_oid s, br_name s)) snaps" "\<forall>s\<in>set snaps. valid_full_oid (br_oid s)"
    by (induction) auto
qed

lemma collect_objects_Inr:
  assumes "collect_objects bs ls m = Inr m'" "length ls = length bs"
  shows "bt_get m' k = (if k \<in> (\<lambda>(_, e, n). (n, e)) ` set bs then Some (snd k) else bt_get m k)"
  using assms
proof (induction bs ls m rule: collect_objects.induct)
  case (1 r e n bs l ls m)
  then show ?case by (auto simp: bt_get_insert split: if_splits)
qed auto

lemma verify_prepared_Inr:
  assumes "verify_prepared_commit_objects io bs w = (w', Inr m)"
  shows "bt_get m k = (if k \<in> (\<lambda>(_, e, n). (n, e)) ` set bs then Some (snd k) else None)"
proof -
  obtain ls where "collect_objects bs ls [] = Inr m" "length ls = length bs"
    using assms by (auto simp: verify_prepared_commit_objects_def act_then_Inr Let_def split: if_splits)
  from collect_objects_Inr [OF this, of k] show ?thesis by (simp add: bt_get_def)
qed

text \<open>The commands a preparation ran with their answers, recorded by the world.\<close>

definition traced ::
    "'w git_io \<Rightarrow> ('w \<times> (git_command \<times> (command_run_error + command_output)) list) git_io" where
  "traced io = (\<lambda>(w, trace) command. case io w command of (w', r) \<Rightarrow> ((w', trace @ [(command, r)]), r))"

definition appends :: "('w \<times> 'c list, 'a) action \<Rightarrow> bool" where
  "appends m \<longleftrightarrow> (\<forall>w t w' t' r. m (w, t) = ((w', t'), r) \<longrightarrow> (\<exists>u. t' = t @ u))"

lemma appendsD: "appends m \<Longrightarrow> m (w, t) = ((w', t'), r) \<Longrightarrow> \<exists>u. t' = t @ u"
  unfolding appends_def by blast

lemma appends_of [intro!, simp]: "appends (act_of r)"
  by (simp add: appends_def act_of_def)

lemma appends_then [intro!]:
  assumes "appends m" "\<And>x. appends (f x)"
  shows "appends (act_then m f)"
  unfolding appends_def
proof (intro allI impI)
  fix w t w' t' r
  assume run: "act_then m f (w, t) = ((w', t'), r)"
  obtain v s x where m: "m (w, t) = ((v, s), x)" by (metis prod.exhaust)
  from appendsD [OF assms(1) m] obtain u where "s = t @ u" by blast
  with run m appendsD [OF assms(2)] show "\<exists>u. t' = t @ u"
    by (cases x) (fastforce simp: act_then_def)+
qed

lemma appends_ok [intro!]: "appends m \<Longrightarrow> appends (act_ok m)"
  by (fastforce simp: appends_def act_ok_def split: prod.splits sum.splits)

lemma appends_each [intro!]: "(\<And>x. appends (f x)) \<Longrightarrow> appends (act_each f xs)"
  by (induction xs) auto

lemma appends_run [intro!, simp]: "appends (run_io (traced io) c)"
  by (auto simp: appends_def run_io_def traced_def split: prod.splits sum.splits)

lemma appends_output [intro!, simp]: "appends (io_output (traced io) args)"
  by (simp add: io_output_def)

lemma appends_if [intro!]: "(b \<Longrightarrow> appends m) \<Longrightarrow> (\<not> b \<Longrightarrow> appends n) \<Longrightarrow> appends (if b then m else n)"
  by simp

lemmas probes = probe_text_def remote_url_def checkout_filter_def shallow_probe_def

lemma appends_phases [intro!, simp]:
  "appends (materialize_complete_history (traced io) remote refs)"
  "appends (validate_common_ancestry_with_runner (traced io) remote a b)"
  "appends (verify_prepared_commit_objects (traced io) bs)"
  "appends (validate_checkout_remote_identity (traced io) remote repo)"
  "appends (prepare_branch (traced io) s)"
  unfolding materialize_complete_history_def validate_common_ancestry_with_runner_def
    verify_prepared_commit_objects_def validate_checkout_remote_identity_def prepare_branch_def
    branch_reference_def probes Let_def
  by auto

lemma appends_ancestry [intro!, simp]: "appends (common_ancestry (traced io) remote cs)"
  unfolding common_ancestry_def by (cases cs) auto

definition ls_remote_command :: "string \<Rightarrow> string list \<Rightarrow> git_command" where
  "ls_remote_command remote refs =
     \<lparr>gc_args = [''ls-remote'', ''--refs'', ''--exit-code'', remote] @ refs, gc_stdin = None\<rparr>"

definition fetch_command :: "string \<Rightarrow> string list \<Rightarrow> git_command" where
  "fetch_command remote refs = \<lparr>gc_args = fetch_arguments [] remote refs, gc_stdin = None\<rparr>"

lemma traced_output:
  "io_output (traced io) args (w, t) = ((w', t'), Inr out) \<longleftrightarrow>
     io w \<lparr>gc_args = args, gc_stdin = None\<rparr> = (w', Inr out) \<and> t' = t @ [(\<lparr>gc_args = args, gc_stdin = None\<rparr>, Inr out)]"
  by (auto simp: io_output_Inr traced_def split: prod.splits)

lemma advertised_check_Inr:
  "advertised_check remote m bs = Inr u \<longleftrightarrow> (\<forall>(r, e, n)\<in>set bs. bt_get m r = Some e)"
  by (induction remote m bs rule: advertised_check.induct) (auto split: option.splits if_splits)

lemma verify_batch_Inr:
  assumes "verify_advertised_batch (traced io) remote bs refs (w, t) = ((w', t'), Inr u)"
  shows "\<exists>out. t' = t @ [(ls_remote_command remote refs, Inr out)] \<and> is_success out
           \<and> (\<forall>(r, e, n)\<in>set bs. bt_get (advertised_map (co_stdout out)) r = Some e)"
  using assms by (auto simp: verify_advertised_batch_def act_then_Inr traced_output advertised_check_Inr
      ls_remote_command_def split: if_splits)

lemma prepare_branches_trace:
  assumes "prepare_branches (traced io) remote bs (w, t) = ((w', t'), Inr m)"
  shows "\<exists>o1 f o2 post. t' = t @ [(ls_remote_command remote (map fst bs), Inr o1),
             (fetch_command remote (map fst bs), Inr f), (ls_remote_command remote (map fst bs), Inr o2)] @ post
           \<and> is_success f
           \<and> (\<forall>out\<in>{o1, o2}. is_success out \<and> (\<forall>(r, e, n)\<in>set bs. bt_get (advertised_map (co_stdout out)) r = Some e))"
    and "bt_get m k = (if k \<in> (\<lambda>(_, e, n). (n, e)) ` set bs then Some (snd k) else None)"
proof -
  let ?refs = "map fst bs"
  obtain w1 t1 u1 w2 t2 f w3 t3 u3 w4 t4 u4 w5 t5 w6 t6 u6 where
    s1: "verify_advertised_batch (traced io) remote bs ?refs (w, t) = ((w1, t1), Inr u1)"
    and s2: "io_output (traced io) (fetch_arguments [] remote ?refs) (w1, t1) = ((w2, t2), Inr f)" "is_success f"
    and s3: "verify_advertised_batch (traced io) remote bs ?refs (w2, t2) = ((w3, t3), Inr u3)"
    and s4: "materialize_complete_history (traced io) remote ?refs (w3, t3) = ((w4, t4), Inr u4)"
    and s5: "verify_prepared_commit_objects (traced io) bs (w4, t4) = ((w5, t5), Inr m)"
    and s6: "common_ancestry (traced io) remote (bt_values m) (w5, t5) = ((w6, t6), Inr u6)" "t' = t6"
    using assms by (auto simp: prepare_branches_def act_then_Inr Let_def split: if_splits)
  show "bt_get m k = (if k \<in> (\<lambda>(_, e, n). (n, e)) ` set bs then Some (snd k) else None)"
    by (rule verify_prepared_Inr [OF s5])
  obtain p4 p5 p6 where "t4 = t3 @ p4" "t5 = t4 @ p5" "t6 = t5 @ p6"
    using appendsD [OF appends_phases(1) s4] appendsD [OF appends_phases(3) s5] appendsD [OF appends_ancestry s6(1)] by blast
  moreover have "t2 = t1 @ [(fetch_command remote ?refs, Inr f)]"
    using s2(1) by (simp add: traced_output fetch_command_def)
  ultimately show "\<exists>o1 f o2 post. t' = t @ [(ls_remote_command remote ?refs, Inr o1),
             (fetch_command remote ?refs, Inr f), (ls_remote_command remote ?refs, Inr o2)] @ post
           \<and> is_success f
           \<and> (\<forall>out\<in>{o1, o2}. is_success out \<and> (\<forall>(r, e, n)\<in>set bs. bt_get (advertised_map (co_stdout out)) r = Some e))"
    using verify_batch_Inr [OF s1] verify_batch_Inr [OF s3] s2(2) s6(2) by auto
qed

text \<open>
  C14. Preparation is exact: when a non-empty branch set is prepared, the result maps the name and
  object id of every requested branch to that object id and nothing else, every id is a full one, and
  the commands that ran contain, one after the other, an \<open>ls-remote\<close>, the fetch and a second
  \<open>ls-remote\<close> of the requested references, where both advertise exactly the requested revision of
  every branch: a branch that moved before or during the fetch is never prepared.
\<close>

theorem prepared_revisions_exact:
  assumes "prepare_branch_snapshots_with_runner (traced io) remote snaps (w, []) = ((w', trace), Inr m)"
    and "snaps \<noteq> []"
  shows "(\<forall>k. bt_get m k = (if k \<in> prepared_snapshot_key ` set snaps then Some (snd k) else None))
     \<and> (\<forall>s\<in>set snaps. valid_full_oid (br_oid s))
     \<and> (\<exists>pre o1 f o2 post. trace = pre @ [(ls_remote_command remote (map branch_ref snaps), Inr o1),
             (fetch_command remote (map branch_ref snaps), Inr f),
             (ls_remote_command remote (map branch_ref snaps), Inr o2)] @ post
          \<and> is_success f
          \<and> (\<forall>s\<in>set snaps. bt_get (advertised_map (co_stdout o1)) (branch_ref s) = Some (br_oid s)
               \<and> bt_get (advertised_map (co_stdout o2)) (branch_ref s) = Some (br_oid s)))"
proof -
  let ?bs = "map (\<lambda>s. (branch_ref s, br_oid s, br_name s)) snaps"
  obtain w1 t1 w2 t2 bs where ids: "act_each (prepare_branch (traced io)) snaps (w1, t1) = ((w2, t2), Inr bs)"
    and run: "prepare_branches (traced io) remote bs (w2, t2) = ((w', trace), Inr m)"
    using assms by (cases snaps)
      (auto simp: prepare_branch_snapshots_with_runner_def act_then_Inr simp del: act_each.simps split: if_splits)
  have bs: "bs = ?bs" by (rule prepare_branches_list(1) [OF ids])
  have keys: "(\<lambda>(_, e, n). (n, e)) ` set ?bs = prepared_snapshot_key ` set snaps"
    by (auto simp: prepared_snapshot_key_def image_image)
  have refs: "map fst ?bs = map branch_ref snaps" by simp
  note trace = prepare_branches_trace [OF run [unfolded bs], unfolded keys refs]
  from trace(1) obtain o1 f o2 post where ran:
    "trace = t2 @ [(ls_remote_command remote (map branch_ref snaps), Inr o1),
       (fetch_command remote (map branch_ref snaps), Inr f), (ls_remote_command remote (map branch_ref snaps), Inr o2)] @ post"
    "is_success f"
    "\<forall>out\<in>{o1, o2}. is_success out \<and> (\<forall>(r, e, n)\<in>set ?bs. bt_get (advertised_map (co_stdout out)) r = Some e)"
    by blast
  have "bt_get (advertised_map (co_stdout o1)) (branch_ref s) = Some (br_oid s)
      \<and> bt_get (advertised_map (co_stdout o2)) (branch_ref s) = Some (br_oid s)" if "s \<in> set snaps" for s
    using ran(3) that by auto
  with ran(1,2) trace(2) prepare_branches_list(2) [OF ids] show ?thesis by blast
qed

subsection \<open>The caches stay exact\<close>

definition exact_prepared :: "prepared_revisions \<Rightarrow> bool" where
  "exact_prepared m \<longleftrightarrow> (\<forall>((n, oid), v)\<in>set m. v = oid)"

definition exact_shared :: "shared_revisions \<Rightarrow> bool" where
  "exact_shared m \<longleftrightarrow> (\<forall>((_, _, _, _, oid), e)\<in>set m. spr_resolved e = oid)"

definition exact_caches :: "'w checker_state \<Rightarrow> bool" where
  "exact_caches s \<longleftrightarrow> exact_prepared (ks_prepared s) \<and> exact_shared (ks_shared s)"

lemma set_bt_insert: "set (bt_insert k v m) \<subseteq> insert (k, v) (set m)"
  by (induction k v m rule: bt_insert.induct) auto

lemma bt_get_set: "bt_get m k = Some v \<Longrightarrow> (k, v) \<in> set m"
  by (auto simp: bt_get_def dest: map_of_SomeD)

lemma exact_prepared_get: "exact_prepared m \<Longrightarrow> bt_get m (n, oid) = Some v \<Longrightarrow> v = oid"
  by (auto simp: exact_prepared_def dest!: bt_get_set)

lemma exact_prepared_insert: "exact_prepared m \<Longrightarrow> exact_prepared (bt_insert (n, oid) oid m)"
  using set_bt_insert [of "(n, oid)" oid m] by (auto simp: exact_prepared_def)

lemma exact_shared_insert:
  "exact_shared m \<Longrightarrow> spr_resolved e = oid \<Longrightarrow> exact_shared (bt_insert (p, r, q, n, oid) e m)"
  using set_bt_insert [of "(p, r, q, n, oid)" e m] by (fastforce simp: exact_shared_def)

lemma exact_shared_remove: "exact_shared m \<Longrightarrow> exact_shared (bt_remove k m)"
  by (auto simp: exact_shared_def bt_remove_def)

lemma exact_shared_retain: "exact_shared m \<Longrightarrow> exact_shared (retain_fresh now m)"
  by (auto simp: exact_shared_def retain_fresh_def)

lemma collect_objects_exact:
  "collect_objects bs ls m = Inr m' \<Longrightarrow> exact_prepared m \<Longrightarrow> exact_prepared m'"
  by (induction bs ls m rule: collect_objects.induct) (auto split: if_splits intro: exact_prepared_insert)

lemma prepare_exact:
  assumes "prepare_branch_snapshots_with_runner io remote snaps w = (w', Inr m)"
  shows "exact_prepared m"
proof (cases snaps)
  case Nil
  with assms show ?thesis by (auto simp: prepare_branch_snapshots_with_runner_def act_then_Inr exact_prepared_def)
next
  case (Cons s ss)
  then obtain bs v where "prepare_branches io remote bs v = (w', Inr m)"
    using assms by (auto simp: prepare_branch_snapshots_with_runner_def act_then_Inr simp del: act_each.simps split: if_splits)
  then obtain v v' where "verify_prepared_commit_objects io bs v = (v', Inr m)"
    by (auto simp: prepare_branches_def act_then_Inr Let_def split: if_splits)
  then obtain ls where "collect_objects bs ls [] = Inr m"
    by (auto simp: verify_prepared_commit_objects_def act_then_Inr Let_def split: if_splits)
  then show ?thesis by (rule collect_objects_exact) (simp add: exact_prepared_def)
qed

lemma hydrate_exact: "exact_caches s \<Longrightarrow> exact_caches (hydrate_from_shared_cache g now bs s)"
proof -
  assume s: "exact_caches s"
  let ?shared = "retain_fresh now (ks_shared s)"
  have shared: "exact_shared ?shared" using s exact_shared_retain by (simp add: exact_caches_def)
  have "exact_prepared (fold (\<lambda>b local. case bt_get ?shared (gcc_shared_key g b) of
          None \<Rightarrow> local | Some e \<Rightarrow> bt_insert (prepared_revision_key b) (spr_resolved e) local) bs (ks_prepared s))"
  proof (rule fold_invariant_set)
    show "exact_prepared (ks_prepared s)" using s by (simp add: exact_caches_def)
    fix b m
    assume m: "exact_prepared m"
    have "spr_resolved e = br_oid b" if "bt_get ?shared (gcc_shared_key g b) = Some e" for e
      using shared bt_get_set [OF that] by (auto simp: exact_shared_def gcc_shared_key_def)
    with m show "exact_prepared (case bt_get ?shared (gcc_shared_key g b) of
        None \<Rightarrow> m | Some e \<Rightarrow> bt_insert (prepared_revision_key b) (spr_resolved e) m)"
      by (auto simp: prepared_revision_key_def intro: exact_prepared_insert split: option.split)
  qed
  with shared show ?thesis by (simp add: hydrate_from_shared_cache_def exact_caches_def Let_def)
qed

lemma publish_exact:
  assumes "exact_prepared prepared" "exact_shared m"
  shows "exact_shared (publish_to_shared_cache g now bs prepared m)"
  unfolding publish_to_shared_cache_def
proof (rule fold_invariant_set)
  show "exact_shared (retain_fresh now m)" using assms(2) by (rule exact_shared_retain)
  fix b m
  assume "exact_shared m"
  then show "exact_shared (publish_revision g now prepared b m)"
    using exact_prepared_get [OF assms(1), of "br_name b" "br_oid b"]
    by (auto simp: publish_revision_def gcc_shared_key_def prepared_revision_key_def Let_def
        intro!: exact_shared_insert exact_shared_remove split: option.split)
qed

lemma extend_exact:
  "exact_prepared m \<Longrightarrow> exact_prepared p \<Longrightarrow> exact_prepared (fold (\<lambda>(k, v). bt_insert k v) p m)"
  by (rule fold_invariant_set) (auto simp: exact_prepared_def [of p] intro: exact_prepared_insert)

lemma on_process_caches:
  "on_process m s = (s', r) \<Longrightarrow> exact_caches s' = exact_caches s"
  by (auto simp: on_process_def exact_caches_def split: prod.splits)

lemma gcc_prepare_exact:
  assumes "exact_caches s" "gcc_prepare pe child depth g bs s = (s', r)"
  shows "exact_caches s'"
proof -
  let ?s = "hydrate_from_shared_cache g (ks_now pe s) bs s"
  let ?missing = "filter (\<lambda>b. bt_get (ks_prepared ?s) (prepared_revision_key b) = None) bs"
  let ?io = "gcc_io pe child depth g (ks_now pe ?s)"
  have hydrated: "exact_caches ?s" by (rule hydrate_exact [OF assms(1)])
  obtain s2 p where run: "on_process (prepare_branch_snapshots_with_runner ?io (gcc_remote g) ?missing) ?s = (s2, p)"
    by (metis prod.exhaust)
  have s2: "exact_caches s2" using on_process_caches [OF run] hydrated by simp
  show ?thesis
  proof (cases p)
    case (Inl e)
    with assms(2) run hydrated s2 show ?thesis by (auto simp: gcc_prepare_def Let_def split: if_splits)
  next
    case (Inr m)
    then have "exact_prepared m" using run by (auto simp: on_process_def dest!: prepare_exact split: prod.splits)
    with s2 have "exact_caches (s2\<lparr>ks_shared := publish_to_shared_cache g (ks_now pe s2) ?missing m (ks_shared s2),
        ks_prepared := fold (\<lambda>(k, v). bt_insert k v) m (ks_prepared s2)\<rparr>)"
      by (simp add: exact_caches_def publish_exact extend_exact)
    with Inr assms(2) run hydrated show ?thesis by (auto simp: gcc_prepare_def Let_def split: if_splits)
  qed
qed

subsection \<open>A clean report is a successful merge\<close>

text \<open>Git ran \<open>merge-tree\<close> on these two object ids in this checkout and exited with code 0.\<close>

definition merged_by_git :: "'w process_env \<Rightarrow> 'w child \<Rightarrow> string \<Rightarrow> commit_oid \<Rightarrow> commit_oid \<Rightarrow> bool" where
  "merged_by_git pe child checkout candidate target \<longleftrightarrow>
     (\<exists>pn st st' out. pn_cwd pn = Some checkout
        \<and> process_git_io pe child pn st \<lparr>gc_args = merge_tree_arguments candidate target None, gc_stdin = None\<rparr>
            = (st', Inr out)
        \<and> co_code out = Some 0)"

definition git_evidence ::
    "'w process_env \<Rightarrow> 'w child \<Rightarrow> string \<Rightarrow> branch_snapshot \<Rightarrow> branch_snapshot \<Rightarrow> compatibility_report \<Rightarrow> bool" where
  "git_evidence pe child checkout candidate target report \<longleftrightarrow>
     rep_candidate report = candidate \<and> rep_target report = target
     \<and> (rep_outcome report = Clean \<longrightarrow> merged_by_git pe child checkout (br_oid candidate) (br_oid target))"

lemma parse_merge_tree_outcome: "parse_merge_tree oc out = Inr (oc', tree, paths) \<Longrightarrow> oc' = oc"
  by (auto simp: parse_merge_tree_def Let_def split: if_splits)

lemma merge_tree_io_clean:
  assumes "merge_tree_io io c t w = (w', Inr (Clean, tree, paths))"
  shows "\<exists>out. io w \<lparr>gc_args = merge_tree_arguments c t None, gc_stdin = None\<rparr> = (w', Inr out) \<and> co_code out = Some 0"
  using assms by (auto simp: merge_tree_io_def act_then_Inr io_output_Inr merge_tree_with_runner_def
      merge_tree_with_base_with_runner_def git_output_def run_git_def
      dest!: parse_merge_tree_outcome split: if_splits)

lemma check_resolved_Inr:
  assumes "check_resolved_compatibility_with_provenance_runner io remote candidate target c t w = (w', Inr report)"
  shows "rep_candidate report = candidate" "rep_target report = target"
    and "rep_outcome report = Clean \<Longrightarrow> \<exists>v v' out.
           io v \<lparr>gc_args = merge_tree_arguments c t None, gc_stdin = None\<rparr> = (v', Inr out) \<and> co_code out = Some 0"
proof -
  obtain v v' oc tree paths where merge: "merge_tree_io io c t v = (v', Inr (oc, tree, paths))"
    and report: "rep_candidate report = candidate \<and> rep_target report = target \<and> rep_outcome report = oc"
    using assms by (auto simp: check_resolved_compatibility_with_provenance_runner_def act_then_Inr)
  then show "rep_candidate report = candidate" "rep_target report = target" by simp_all
  show "\<exists>v v' out. io v \<lparr>gc_args = merge_tree_arguments c t None, gc_stdin = None\<rparr> = (v', Inr out) \<and> co_code out = Some 0"
    if "rep_outcome report = Clean"
  proof -
    have "merge_tree_io io c t v = (v', Inr (Clean, tree, paths))" using that merge report by simp
    from merge_tree_io_clean [OF this] show ?thesis by blast
  qed
qed

lemma check_resolved_evidence:
  assumes "check_resolved_compatibility_with_provenance_runner (checkout_io pe child depth checkout timeout dl) remote
             candidate target (br_oid candidate) (br_oid target) w = (w', Inr report)"
  shows "git_evidence pe child checkout candidate target report"
proof -
  have "merged_by_git pe child checkout (br_oid candidate) (br_oid target)" if "rep_outcome report = Clean"
  proof -
    let ?pn = "(with_timeout timeout (in_directory depth checkout))\<lparr>pn_operation_deadline := dl\<rparr>"
    have "pn_cwd ?pn = Some checkout" by (simp add: with_timeout_def in_directory_def)
    with check_resolved_Inr(3) [OF assms that] show ?thesis
      unfolding merged_by_git_def checkout_io_def by blast
  qed
  with check_resolved_Inr(1,2) [OF assms] show ?thesis by (simp add: git_evidence_def)
qed

lemma prepare_gets:
  assumes "prepare_branch_snapshots_with_runner io remote snaps w = (w', Inr m)" "s \<in> set snaps"
  shows "bt_get m (prepared_snapshot_key s) = Some (br_oid s)"
proof -
  obtain x xs where snaps: "snaps = x # xs" using assms(2) by (cases snaps) auto
  then obtain u v bs where ids: "act_each (prepare_branch io) snaps u = (v, Inr bs)"
    and "prepare_branches io remote bs v = (w', Inr m)"
    using assms(1) by (auto simp: prepare_branch_snapshots_with_runner_def act_then_Inr simp del: act_each.simps split: if_splits)
  then obtain v v' where "verify_prepared_commit_objects io bs v = (v', Inr m)"
    by (auto simp: prepare_branches_def act_then_Inr Let_def split: if_splits)
  from verify_prepared_Inr [OF this, of "prepared_snapshot_key s"] show ?thesis
    using prepare_branches_list(1) [OF ids] assms(2) by (force simp: prepared_snapshot_key_def)
qed

lemma check_never_panics:
  assumes "check_compatibility_with_runner io remote candidate target w = (w', Inr r)"
  shows "\<exists>report u. r = Some report \<and> check_resolved_compatibility_with_provenance_runner io remote candidate target
           (br_oid candidate) (br_oid target) u = (w', Inr report)"
proof -
  obtain v m where prep: "prepare_branch_snapshots_with_runner io remote [candidate, target] w = (v, Inr m)"
    using assms by (auto simp: check_compatibility_with_runner_def act_then_Inr split: if_splits)
  note gets = prepare_gets [OF prep, of candidate] prepare_gets [OF prep, of target]
  show ?thesis
    using assms prep gets by (auto simp: check_compatibility_with_runner_def act_then_def act_then_Inr act_of_def
        split: if_splits prod.splits sum.splits)
qed

lemma gcc_check_exact:
  assumes s: "exact_caches s" and run: "gcc_check pe child depth g c t s = (s', r)"
  shows "exact_caches s'" and "r = Inr report \<Longrightarrow> git_evidence pe child (gcc_repository g) c t report"
proof -
  let ?timeout = "case gcc_operation_deadline g of
      None \<Rightarrow> gcc_timeout g | Some d \<Rightarrow> min (gcc_timeout g) (d - ks_now pe s)"
  let ?io = "checkout_io pe child depth (gcc_repository g) ?timeout None"
  show "exact_caches s'" using s run
    by (auto simp: gcc_check_def act_then_def act_of_def Let_def dest!: on_process_caches
        split: option.splits prod.splits sum.splits)
  assume r: "r = Inr report"
  show "git_evidence pe child (gcc_repository g) c t report"
  proof (cases "prepared_pair c t s")
    case None
    with run r obtain st st' where
      "check_compatibility_with_runner ?io (gcc_remote g) c t st = (st', Inr (Some report))"
      by (auto simp: gcc_check_def check_compatibility_with_timeout_def act_then_Inr on_process_def Let_def
          split: prod.splits option.splits)
    from check_never_panics [OF this] show ?thesis using check_resolved_evidence by blast
  next
    case (Some pair)
    then obtain x y where xy: "pair = (x, y)" "x = br_oid c" "y = br_oid t"
      using s by (auto simp: prepared_pair_def prepared_revision_key_def exact_caches_def
          dest: exact_prepared_get split: option.splits)
    with run r Some obtain st st' where
      "check_resolved_compatibility_with_provenance_runner (gcc_io pe child depth g (ks_now pe s)) (gcc_remote g)
         c t (br_oid c) (br_oid t) st = (st', Inr report)"
      by (auto simp: gcc_check_def on_process_def split: prod.splits)
    then show ?thesis unfolding gcc_io_def by (rule check_resolved_evidence)
  qed
qed

lemma gcc_cumulative_exact:
  "exact_caches s \<Longrightarrow> gcc_cumulative_tree pe child depth g c t s = (s', r) \<Longrightarrow> exact_caches s'"
  by (auto simp: gcc_cumulative_tree_def act_then_def act_of_def dest!: on_process_caches
      split: option.splits prod.splits sum.splits)

lemma gcc_squash_exact:
  "exact_caches s \<Longrightarrow> gcc_squash_equivalence pe child settle depth g c t s = (s', r) \<Longrightarrow> exact_caches s'"
  by (auto simp: gcc_squash_equivalence_def act_then_def act_of_def dest!: on_process_caches
      split: option.splits prod.splits sum.splits)

text \<open>The production checker satisfies the contract, with Git's answer as evidence.\<close>

interpretation git: checker_contract "git_checker pe child settle depth g" exact_caches
    "git_evidence pe child (gcc_repository g)" for pe child settle depth g
  by unfold_locales
    (auto simp: git_checker_def intro: gcc_prepare_exact gcc_check_exact gcc_cumulative_exact gcc_squash_exact)

text \<open>
  C4. A healthy fleet merges: when the complete analysis by the production checker returns a healthy
  graph, then for every caravan that is not parked Git has merged, in the checker's checkout and with
  exit code 0, the exact head revision of its root into the exact default revision, that of every later
  member into that of the member before it, and that of its root into the tail of every other caravan
  that is not parked.
\<close>

theorem healthy_fleet_merges:
  assumes "exact_caches s" "analyze_for_actor snap (git_checker pe child settle depth g) actor = Some run"
    and "run s = (s', Inr a)" "healthy a"
    and "c \<in> set (fl_caravans (ga_fleet a))" "\<not> cv_parked c"
  shows "attaches (git_evidence pe child (gcc_repository g)) a (cv_id c) (snap_default_branch snap)
     \<and> successively (\<lambda>m n. attaches_to (git_evidence pe child (gcc_repository g)) a n m) (cv_members c)
     \<and> (\<forall>e\<in>set (fl_caravans (ga_fleet a)). \<not> cv_parked e \<and> e \<noteq> c \<longrightarrow>
          attaches_to (git_evidence pe child (gcc_repository g)) a (cv_id c) (last (cv_members e)))"
  using git.healthy_attaches [OF assms] by blast

subsection \<open>A sample checkout\<close>

definition zero_oid :: commit_oid where
  "zero_oid = replicate 40 (CHR ''0'')"

text \<open>A remote with one branch, and the local answers of a full checkout.\<close>

definition sample_answer :: "string list \<Rightarrow> command_output" where
  "sample_answer args = \<lparr>co_code = Some 0, co_stdout =
     (if hd args = ''ls-remote'' then zero_oid @ tab @ ''refs/heads/a''
      else if hd args = ''cat-file'' then zero_oid @ '' commit''
      else if hd args = ''rev-parse'' then ''false'' else []), co_stderr = []\<rparr>"

definition sample_remote :: "unit git_io" where
  "sample_remote w command = ((), Inr (sample_answer (gc_args command)))"

definition sample_revision :: branch_snapshot where
  "sample_revision = \<lparr>br_repository = sample_repository, br_name = ''a'', br_oid = zero_oid\<rparr>"

lemma zero_oid_facts:
  "valid_full_oid zero_oid" "advertised_rows (zero_oid @ tab @ ''refs/heads/a'') = [(zero_oid, ''refs/heads/a'')]"
  "split_whitespace (zero_oid @ '' commit'') = [zero_oid, ''commit'']"
  "lines_of (zero_oid @ '' commit'') = [zero_oid @ '' commit'']"
  "trim zero_oid = zero_oid" "zero_oid \<noteq> ''true''" "zero_oid \<noteq> []" "nul_fields zero_oid = [zero_oid]"
  by code_simp+

lemma sample_texts:
  "trim ''false'' = ''false''" "trim ''a'' = ''a''" "trim ''origin'' = ''origin''" "trim [] = []"
  by code_simp+

lemma sample_remote_runs:
  "run_io (traced sample_remote) c (w, t) = (((), t @ [(c, Inr (sample_answer (gc_args c)))]), Inr (sample_answer (gc_args c)))"
  by (simp add: run_io_def traced_def sample_remote_def)

lemma sample_prepared:
  "\<exists>w' trace. prepare_branch_snapshots_with_runner (traced sample_remote) ''origin'' [sample_revision] ((), [])
     = ((w', trace), Inr [((''a'', zero_oid), zero_oid)])"
  by (simp add: prepare_branch_snapshots_with_runner_def act_then_def act_of_def act_ok_def validate_remote_def
      sample_texts starts_with_def contains_line_break_def validate_checkout_remote_identity_def remote_url_def
      probe_text_def io_output_def sample_remote_runs sample_answer_def sample_revision_def is_success_def
      prepare_branch_def validate_expected_oid_def zero_oid_facts branch_reference_def Let_def
      prepare_branches_def verify_advertised_batch_def advertised_map_def bt_get_def fetch_arguments_def
      materialize_complete_history_def verify_prepared_commit_objects_def common_ancestry_def bt_values_def)

theorem prepared_revisions_exact_witness:
  "\<exists>w' trace. prepare_branch_snapshots_with_runner (traced sample_remote) ''origin'' [sample_revision] ((), [])
       = ((w', trace), Inr [((''a'', zero_oid), zero_oid)])
     \<and> (\<exists>pre o1 f o2 post. trace = pre @ [(ls_remote_command ''origin'' [''refs/heads/a''], Inr o1),
             (fetch_command ''origin'' [''refs/heads/a''], Inr f),
             (ls_remote_command ''origin'' [''refs/heads/a''], Inr o2)] @ post
          \<and> bt_get (advertised_map (co_stdout o1)) ''refs/heads/a'' = Some zero_oid
          \<and> bt_get (advertised_map (co_stdout o2)) ''refs/heads/a'' = Some zero_oid)"
proof -
  obtain w' trace where run:
    "prepare_branch_snapshots_with_runner (traced sample_remote) ''origin'' [sample_revision] ((), [])
       = ((w', trace), Inr [((''a'', zero_oid), zero_oid)])" using sample_prepared by blast
  have names: "br_name sample_revision = ''a''" "br_oid sample_revision = zero_oid"
    by (simp_all add: sample_revision_def)
  have "\<exists>pre o1 f o2 post. trace = pre @ [(ls_remote_command ''origin'' [''refs/heads/a''], Inr o1),
             (fetch_command ''origin'' [''refs/heads/a''], Inr f),
             (ls_remote_command ''origin'' [''refs/heads/a''], Inr o2)] @ post
          \<and> bt_get (advertised_map (co_stdout o1)) ''refs/heads/a'' = Some zero_oid
          \<and> bt_get (advertised_map (co_stdout o2)) ''refs/heads/a'' = Some zero_oid"
    using prepared_revisions_exact [OF run] by (simp add: names) blast
  with run show ?thesis by blast
qed

text \<open>A child process that always succeeds, in a checkout where the sample branches are prepared.\<close>

definition sample_child :: "unit child" where
  "sample_child w c request = (w, Inr \<lparr>co_code = Some 0, co_stdout = zero_oid, co_stderr = []\<rparr>)"

definition sample_env :: "unit process_env" where
  "sample_env = \<lparr>pe_monotonic = (\<lambda>_. 0), pe_unix_secs = (\<lambda>_. 0), pe_sleep = (\<lambda>_ w. w), pe_vars = (\<lambda>_. None),
     pe_json = (\<lambda>_. None), pe_credential = (\<lambda>_. None)\<rparr>"

definition sample_checker :: git_compatibility_checker where
  "sample_checker = gcc_new (\<lambda>_. None) ''.'' ''origin''"

definition sample_cache :: prepared_revisions where
  "sample_cache = [((''a'', ''a''), ''a''), ((''b'', ''b''), ''b''), ((''c'', ''c''), ''c''), ((''m'', ''m''), ''m'')]"

definition answers :: "'w git_io \<Rightarrow> bool" where
  "answers io \<longleftrightarrow> (\<forall>w command. \<exists>w'. io w command = (w', Inr \<lparr>co_code = Some 0, co_stdout = zero_oid, co_stderr = []\<rparr>))"

lemma answers_output:
  "answers io \<Longrightarrow> \<exists>w'. io_output io args w = (w', Inr \<lparr>co_code = Some 0, co_stdout = zero_oid, co_stderr = []\<rparr>)"
  by (simp add: answers_def io_output_Inr)

lemma sample_answers: "answers (gcc_io sample_env sample_child 1 sample_checker 0)"
proof -
  have git: "file_name ''git'' = Some ''git''" by code_simp
  have "\<exists>w'. process_git_io sample_env sample_child pn st c
      = (w', Inr \<lparr>co_code = Some 0, co_stdout = zero_oid, co_stderr = []\<rparr>)"
    if "pn_timeout pn = default_command_timeout" "pn_operation_deadline pn = Some default_command_timeout"
      "\<not> pn_infer_github_auth pn" for pn st c
  proof -
    have program: "cs_program (git_spec c) = ''git''"
      by (simp add: git_spec_def cs_stdin_def cs_with_args_def cs_new_def Let_def split: option.split)
    then have "\<not> is_gh_request (git_spec c)" by (simp add: is_gh_request_def git)
    moreover have "effective_timeout default_command_timeout (Some default_command_timeout) 0 (git_spec c)
        = Inr default_command_timeout"
      by (simp add: effective_timeout_def remaining_budget_def default_command_timeout_def from_secs_def
          minimum_command_budget_def)
    ultimately show ?thesis using that
      by (simp add: process_git_io_def process_run_def run_attempt_def reserve_for_def sample_env_def
          inferred_github_auth_def inferred_github_app_git_auth_def run_authenticated_def Let_def run_child_def
          sample_child_def should_refresh_github_app_auth_def should_refresh_github_app_git_auth_def)
  qed
  then show ?thesis
    by (simp add: answers_def gcc_io_def checkout_io_def sample_checker_def gcc_new_def with_timeout_def
        in_directory_def default_command_timeout_def from_secs_def)
qed

lemma act_then_ex:
  "\<exists>v. m w = (v, Inr x) \<Longrightarrow> (\<And>v. \<exists>w'. f x v = (w', Inr y)) \<Longrightarrow> \<exists>w'. act_then m f w = (w', Inr y)"
  by (force simp: act_then_def)

lemma answers_probe:
  assumes "answers io"
  shows "\<exists>w'. probe_text io args w = (w', Inr (Some zero_oid))" "\<exists>w'. shallow_probe io w = (w', Inr False)"
  using answers_output [OF assms, of args w] answers_output [OF assms, of "[''rev-parse'', ''--is-shallow-repository'']" w]
  by (auto simp: probe_text_def shallow_probe_def act_then_def act_ok_def act_of_def is_success_def zero_oid_facts)

lemma answers_merge:
  assumes "answers io"
  shows "\<exists>w'. merge_tree_io io c t w = (w', Inr (Clean, zero_oid, []))"
    and "\<exists>w'. validate_common_ancestry_with_runner io remote c t w = (w', Inr zero_oid)"
  using answers_output [OF assms, of "merge_tree_arguments c t None" w] answers_output [OF assms, of "[''merge-base'', c, t]" w]
  by (auto simp: merge_tree_io_def validate_common_ancestry_with_runner_def act_then_def act_of_def is_success_def
      merge_tree_with_runner_def merge_tree_with_base_with_runner_def git_output_def run_git_def parse_merge_tree_def
      parse_single_oid_def zero_oid_facts Let_def)

lemma answers_check:
  assumes "answers io"
  shows "\<exists>w' report. check_resolved_compatibility_with_provenance_runner io remote candidate target c t w
           = (w', Inr report) \<and> rep_outcome report = Clean"
proof -
  obtain w1 w2 w3 w4 w5 where "validate_common_ancestry_with_runner io remote c t w = (w1, Inr zero_oid)"
    "merge_tree_io io c t w1 = (w2, Inr (Clean, zero_oid, []))" "shallow_probe io w2 = (w3, Inr False)"
    "remote_url io remote w3 = (w4, Inr (Some zero_oid))" "checkout_filter io remote w4 = (w5, Inr (Some zero_oid))"
    using answers_merge [OF assms] answers_probe [OF assms] unfolding remote_url_def checkout_filter_def by metis
  then show ?thesis
    by (simp add: check_resolved_compatibility_with_provenance_runner_def act_then_def act_of_def)
qed

lemma answers_cumulative:
  assumes "answers io"
  shows "\<exists>w' r. cumulative_tree_io io candidate target c t w = (w', Inr r)"
proof -
  obtain w1 w2 w3 where "merge_tree_io io c t w = (w1, Inr (Clean, zero_oid, []))"
    "io_output io [''rev-parse'', c @ ''^{tree}''] w1 = (w2, Inr \<lparr>co_code = Some 0, co_stdout = zero_oid, co_stderr = []\<rparr>)"
    "io_output io [''merge-base'', ''--is-ancestor'', t, c] w2 = (w3, Inr \<lparr>co_code = Some 0, co_stdout = zero_oid, co_stderr = []\<rparr>)"
    using answers_merge [OF assms] answers_output [OF assms] by metis
  then show ?thesis
    by (simp add: cumulative_tree_io_def act_then_def act_of_def commit_tree_with_runner_def is_ancestor_with_runner_def
        git_output_def run_git_def zero_oid_facts Let_def)
qed

abbreviation sample_git_checker :: "unit checker_state checker" where
  "sample_git_checker \<equiv> git_checker sample_env sample_child (\<lambda>st. st) 1 sample_checker"

definition cached :: "unit checker_state \<Rightarrow> bool" where
  "cached s \<longleftrightarrow> ks_prepared s = sample_cache \<and> ks_shared s = []"

lemma sample_execute:
  assumes "cached s" "n \<in> {''a'', ''b'', ''c''}" "m \<in> {''m'', ''a'', ''b''}"
  shows "\<exists>s' a'. execute_task sample_git_checker (FleetTask d (sample_branch n) (sample_branch m) prs message) a s
           = (s', a', Inr ()) \<and> cached s' \<and> ga_fleet a' = ga_fleet a"
    and "\<exists>s' a'. execute_task sample_git_checker (CumulativeTreeTask d (sample_branch n) (sample_branch m)) a s
           = (s', a', Inr ()) \<and> cached s' \<and> ga_fleet a' = ga_fleet a"
proof -
  let ?io = "gcc_io sample_env sample_child 1 sample_checker 0" and ?c = "sample_branch n" and ?t = "sample_branch m"
  have pair: "prepared_pair ?c ?t s = Some (n, m)"
    using assms by (auto simp: prepared_pair_def prepared_revision_key_def sample_branch_def cached_def sample_cache_def
        bt_get_def)
  have now: "ks_now sample_env s = 0" by (simp add: ks_now_def sample_env_def)
  obtain st report where "check_resolved_compatibility_with_provenance_runner ?io (gcc_remote sample_checker) ?c ?t n m
      (ks_process s) = (st, Inr report)" "rep_outcome report = Clean"
    using answers_check [OF sample_answers] by metis
  with assms(1) pair now show "\<exists>s' a'. execute_task sample_git_checker (FleetTask d ?c ?t prs message) a s
      = (s', a', Inr ()) \<and> cached s' \<and> ga_fleet a' = ga_fleet a"
    by (simp add: git_checker_def gcc_check_def on_process_def record_compatibility_def push_report_def cached_def)
  obtain st' r where "cumulative_tree_io ?io ?c ?t n m (ks_process s) = (st', Inr r)"
    using answers_cumulative [OF sample_answers] by metis
  with assms(1) pair now show "\<exists>s' a'. execute_task sample_git_checker (CumulativeTreeTask d ?c ?t) a s
      = (s', a', Inr ()) \<and> cached s' \<and> ga_fleet a' = ga_fleet a"
    by (simp add: git_checker_def gcc_cumulative_tree_def act_then_def act_of_def on_process_def cached_def)
qed

lemma run_tasks_keeps_fleet:
  assumes "\<And>t s a. t \<in> set ts \<Longrightarrow> P s \<Longrightarrow>
      \<exists>s' a'. execute_task ck t a s = (s', a', Inr ()) \<and> P s' \<and> ga_fleet a' = ga_fleet a"
  shows "P s \<Longrightarrow> \<exists>s' b. run_tasks ck None ts a p s = (s', Inr b) \<and> ga_fleet (bg_analysis b) = ga_fleet a"
  using assms
proof (induction ts arbitrary: s a p)
  case (Cons t ts)
  from Cons.prems(2) [of t s a] Cons.prems(1) obtain v a' where
    step: "execute_task ck t a s = (v, a', Inr ())" "P v" "ga_fleet a' = ga_fleet a" by auto
  have "\<exists>s' b. run_tasks ck None ts a p v = (s', Inr b) \<and> ga_fleet (bg_analysis b) = ga_fleet a" for a p
    by (rule Cons.IH [OF step(2)]) (rule Cons.prems(2); simp)
  then obtain s' b where
    "run_tasks ck None ts a' (p\<lparr>cp_completed_analyses := sat_add (cp_completed_analyses p) 1\<rparr>) v = (s', Inr b)"
    "ga_fleet (bg_analysis b) = ga_fleet a'" by blast
  with step show ?case by (simp add: deadline_passed_def)
qed simp

definition sample_telemetry :: api_telemetry where
  "sample_telemetry = \<lparr>at_authenticated = None, at_auth_source = None, at_github_app_slug = None,
     at_github_app_installation_id = None, at_github_app_token_expires_unix_secs = None,
     at_github_app_git_transport = None, at_github_app_git_repository = None, at_github_app_refusal_stage = None,
     at_github_app_refusal_category = None, at_calls = 0, at_graphql_calls = 0, at_rest_calls = 0,
     at_gh_cli_calls = 0, at_cache_hits = 0, at_cache_age_ms = None, at_rate_limit = None\<rparr>"

definition sample_state :: "unit checker_state" where
  "sample_state = \<lparr>ks_process = \<lparr>st_world = (), st_budget = None, st_cache = (\<lambda>_. None), st_principals = (\<lambda>_. None),
     st_origin_is_github = (\<lambda>_. None), st_telemetry = sample_telemetry\<rparr>, ks_prepared = sample_cache, ks_shared = []\<rparr>"

lemma set_dedup_subset: "set (dedup_by_key f xs) \<subseteq> set xs"
  by (induction f xs rule: dedup_by_key.induct) auto

lemma sample_values:
  "fl_caravans (ga_fleet sample_analysis) = [sample_caravan]" "cv_members sample_caravan = [1, 2, 3]"
  "snap_default_branch sample_snapshot = sample_branch ''m''" "\<not> cv_parked sample_caravan" "cv_id sample_caravan = 1"
  "head_branch sample_analysis 1 = Some (sample_branch ''a'')"
  "head_branch sample_analysis 2 = Some (sample_branch ''b'')"
  "head_branch sample_analysis 3 = Some (sample_branch ''c'')"
  by (simp_all add: sample_snapshot_def sample_analysis_def sample_caravan_def head_branch_def bt_get_def sample_pr_def)

lemma sample_branches:
  "b \<in> set (analysis_branches sample_snapshot sample_analysis)
     \<Longrightarrow> b \<in> {sample_branch ''m'', sample_branch ''a'', sample_branch ''b'', sample_branch ''c''}"
  unfolding analysis_branches_def set_sort
  by (drule subsetD [OF set_dedup_subset], unfold set_sort)
    (auto simp: sample_values sample_values(6) [simplified] map_filter_simps)

lemma sample_hydrated: "hydrate_from_shared_cache g now bs sample_state = sample_state"
proof -
  have "fold (\<lambda>b local. case bt_get [] (gcc_shared_key g b) of None \<Rightarrow> local
      | Some e \<Rightarrow> bt_insert (prepared_revision_key b) (spr_resolved e) local) bs sample_cache = sample_cache"
    by (rule fold_invariant_set) (simp_all add: bt_get_def)
  then show ?thesis by (simp add: hydrate_from_shared_cache_def sample_state_def retain_fresh_def)
qed

lemma sample_analysis_runs:
  "\<exists>run s' a. analyze_for_actor sample_snapshot sample_git_checker ActorGithub = Some run \<and> run sample_state = (s', Inr a)
     \<and> ga_fleet a = ga_fleet sample_analysis"
proof -
  let ?p = "initial_progress sample_snapshot sample_analysis"
  obtain d1 d2 d3 d4 m1 m2 m3 ts where plan: "compatibility_tasks sample_snapshot sample_analysis ?p = Some (?p, ts)"
    and ts: "ts = [FleetTask d1 (sample_branch ''a'') (sample_branch ''m'') [1] m1,
      CumulativeTreeTask d2 (sample_branch ''a'') (sample_branch ''m''),
      FleetTask d3 (sample_branch ''b'') (sample_branch ''a'') [1, 2] m2,
      FleetTask d4 (sample_branch ''c'') (sample_branch ''b'') [2, 3] m3]"
    using sample_tasks [of ?p] by metis
  have step: "\<exists>s' a'. execute_task sample_git_checker t a s = (s', a', Inr ()) \<and> cached s' \<and> ga_fleet a' = ga_fleet a"
    if "t \<in> set ts" "cached s" for t s a
  proof -
    have "t = FleetTask d1 (sample_branch ''a'') (sample_branch ''m'') [1] m1
      \<or> t = CumulativeTreeTask d2 (sample_branch ''a'') (sample_branch ''m'')
      \<or> t = FleetTask d3 (sample_branch ''b'') (sample_branch ''a'') [1, 2] m2
      \<or> t = FleetTask d4 (sample_branch ''c'') (sample_branch ''b'') [2, 3] m3"
      using that(1) unfolding ts by (simp only: list.set insert_iff empty_iff) blast
    then show ?thesis by (elim disjE; hypsubst) (rule sample_execute [OF that(2)]; simp)+
  qed
  have uncached: "bt_get sample_cache (prepared_revision_key b) \<noteq> None"
    if "b \<in> set (analysis_branches sample_snapshot sample_analysis)" for b
    using sample_branches [OF that]
    by (auto simp: sample_cache_def bt_get_def prepared_revision_key_def sample_branch_def)
  then have missing: "filter (\<lambda>b. bt_get sample_cache (prepared_revision_key b) = None)
      (analysis_branches sample_snapshot sample_analysis) = []" by (simp add: filter_empty_conv)
  have start: "ks_prepared sample_state = sample_cache" "cached sample_state"
    by (simp_all add: cached_def sample_state_def)
  have "\<exists>s'. ck_prepare sample_git_checker (analysis_branches sample_snapshot sample_analysis) sample_state
      = (s', Inr ()) \<and> cached s'"
    using missing start by (simp add: git_checker_def gcc_prepare_def sample_hydrated)
  then obtain s1 where s1: "ck_prepare sample_git_checker (analysis_branches sample_snapshot sample_analysis) sample_state
      = (s1, Inr ())" "cached s1" by blast
  obtain s' b where "run_tasks sample_git_checker None ts sample_analysis (?p\<lparr>cp_planned_analyses := length ts,
      cp_revision_preparation_complete := True\<rparr>) s1 = (s', Inr b)" "ga_fleet (bg_analysis b) = ga_fleet sample_analysis"
    using run_tasks_keeps_fleet [of ts cached sample_git_checker s1, OF step s1(2)] by blast
  with s1(1) plan sample_derived show ?thesis
    by (simp add: analyze_for_actor_def analyze_for_actor_with_progress_def analyze_for_actor_internal_def
        run_analysis_def deadline_passed_def act_then_def act_of_def)
qed

theorem healthy_fleet_merges_witness:
  "\<exists>run s' a. analyze_for_actor sample_snapshot sample_git_checker ActorGithub = Some run \<and> run sample_state = (s', Inr a)
     \<and> healthy a \<and> fl_caravans (ga_fleet a) = [sample_caravan]
     \<and> attaches (git_evidence sample_env sample_child ''.'') a 1 (sample_branch ''m'')
     \<and> attaches_to (git_evidence sample_env sample_child ''.'') a 2 1
     \<and> attaches_to (git_evidence sample_env sample_child ''.'') a 3 2"
proof -
  obtain run s' a where run: "analyze_for_actor sample_snapshot sample_git_checker ActorGithub = Some run"
    "run sample_state = (s', Inr a)" and fleet: "ga_fleet a = ga_fleet sample_analysis"
    using sample_analysis_runs by blast
  have exact: "exact_caches sample_state"
    by (simp add: exact_caches_def exact_prepared_def exact_shared_def sample_state_def sample_cache_def)
  have healthy: "healthy a" using fleet by (simp add: healthy_def sample_analysis_def)
  have caravan: "sample_caravan \<in> set (fl_caravans (ga_fleet a))" "\<not> cv_parked sample_caravan"
    "fl_caravans (ga_fleet a) = [sample_caravan]"
    using fleet by (simp_all add: sample_analysis_def sample_caravan_def)
  have "gcc_repository sample_checker = ''.''" by (simp add: sample_checker_def gcc_new_def)
  with healthy_fleet_merges [OF exact run healthy caravan(1,2)] run healthy caravan(3) show ?thesis
    by (auto simp: sample_caravan_def sample_snapshot_def)
qed

end
