(* ===== verification/Civil_Time.thy ===== *)
theory Civil_Time
  imports Prelude "HOL-Library.Signed_Division"
begin

text \<open>
  Provider timestamps: \<open>rfc3339_to_unix_secs\<close> and \<open>days_from_civil\<close> of \<open>src/required_runs.rs\<close>.
  The calendar arithmetic is on \<open>i64\<close>, whose division truncates towards zero (\<open>sdiv\<close>, \<open>smod\<close>); the
  values the parser produces have at most seven digits, so no operation can overflow. The day count
  is shown to be the proleptic Gregorian one.
\<close>

subsection \<open>Civil dates\<close>

definition days_from_civil :: "int \<Rightarrow> int \<Rightarrow> int \<Rightarrow> int" where
  "days_from_civil year0 month day =
     (let year = (if month \<le> 2 then year0 - 1 else year0);
          era = (if year \<ge> 0 then year else year - 399) sdiv 400;
          year_of_era = year - era * 400;
          shifted_month = (month + 9) smod 12;
          day_of_year = (153 * shifted_month + 2) sdiv 5 + day - 1;
          day_of_era = year_of_era * 365 + year_of_era sdiv 4 - year_of_era sdiv 100 + day_of_year
      in era * 146097 + day_of_era - 719468)"

subsection \<open>Timestamps\<close>

definition byte_at :: "string \<Rightarrow> nat \<Rightarrow> char option" where
  "byte_at s i = (if i < length s then Some (s ! i) else None)"

text \<open>\<open>value.get(start..end)\<close>, all digits, \<open>parse\<close>; the callers never pass an empty range.\<close>

definition number_at :: "string \<Rightarrow> nat \<Rightarrow> nat \<Rightarrow> int option" where
  "number_at s i j =
     (if j \<le> length s then map_option int (parse_digits 0 (take (j - i) (drop i s))) else None)"

definition is_ascii_digit :: "char \<Rightarrow> bool" where
  "is_ascii_digit c = (digit_val c \<noteq> None)"

definition skip_fraction :: "string \<Rightarrow> nat" where
  "skip_fraction s =
     (if byte_at s 19 = Some CHR ''.''
      then 20 + length (takeWhile is_ascii_digit (drop 20 s)) else 19)"

definition offset_secs :: "string \<Rightarrow> nat \<Rightarrow> int option" where
  "offset_secs s i =
     (case byte_at s i of
        None \<Rightarrow> None
      | Some c \<Rightarrow>
          if c = CHR ''Z'' \<or> c = CHR ''z'' then Some 0
          else if c = CHR ''+'' \<or> c = CHR ''-''
          then if byte_at s (i + 3) \<noteq> Some CHR '':'' then None
               else case number_at s (i + 1) (i + 3) of None \<Rightarrow> None | Some hours \<Rightarrow>
                    case number_at s (i + 4) (i + 6) of None \<Rightarrow> None | Some minutes \<Rightarrow>
                    if hours > 23 \<or> minutes > 59 then None
                    else let magnitude = hours * 3600 + minutes * 60
                         in Some (if c = CHR ''+'' then magnitude else - magnitude)
          else None)"

definition u64_try_from :: "int \<Rightarrow> nat option" where
  "u64_try_from n = (if 0 \<le> n \<and> n < 2 ^ 64 then Some (nat n) else None)"

definition rfc3339_to_unix_secs :: "string \<Rightarrow> nat option" where
  "rfc3339_to_unix_secs s =
     (if length s < 20 then None
      else if s ! 4 \<noteq> CHR ''-'' \<or> s ! 7 \<noteq> CHR ''-'' \<or> s ! 13 \<noteq> CHR '':'' \<or> s ! 16 \<noteq> CHR '':'' then None
      else if \<not> (s ! 10 = CHR ''T'' \<or> s ! 10 = CHR ''t'') then None
      else case number_at s 0 4 of None \<Rightarrow> None | Some year \<Rightarrow>
           case number_at s 5 7 of None \<Rightarrow> None | Some month \<Rightarrow>
           case number_at s 8 10 of None \<Rightarrow> None | Some day \<Rightarrow>
           case number_at s 11 13 of None \<Rightarrow> None | Some hour \<Rightarrow>
           case number_at s 14 16 of None \<Rightarrow> None | Some minute \<Rightarrow>
           case number_at s 17 19 of None \<Rightarrow> None | Some second \<Rightarrow>
           if \<not> (1 \<le> month \<and> month \<le> 12) \<or> \<not> (1 \<le> day \<and> day \<le> 31) then None
           else if hour > 23 \<or> minute > 59 \<or> second > 60 then None
           else case offset_secs s (skip_fraction s) of None \<Rightarrow> None | Some off \<Rightarrow>
                u64_try_from (days_from_civil year month day * 86400 + hour * 3600 + minute * 60
                  + second - off))"

subsection \<open>The calendar\<close>

definition leap_year :: "int \<Rightarrow> bool" where
  "leap_year y = (y mod 4 = 0 \<and> (y mod 100 \<noteq> 0 \<or> y mod 400 = 0))"

definition days_in_month :: "int \<Rightarrow> int \<Rightarrow> int" where
  "days_in_month y m =
     (if m = 2 then if leap_year y then 29 else 28
      else if m = 4 \<or> m = 6 \<or> m = 9 \<or> m = 11 then 30 else 31)"

definition next_day :: "int \<times> int \<times> int \<Rightarrow> int \<times> int \<times> int" where
  "next_day d =
     (case d of (y, m, n) \<Rightarrow>
        if n < days_in_month y m then (y, m, n + 1)
        else if m < 12 then (y, m + 1, 1)
        else (y + 1, 1, 1))"

definition valid_date :: "int \<times> int \<times> int \<Rightarrow> bool" where
  "valid_date d = (case d of (y, m, n) \<Rightarrow> 1 \<le> m \<and> m \<le> 12 \<and> 1 \<le> n \<and> n \<le> days_in_month y m)"

lemma sdiv_nonneg: "0 \<le> a \<Longrightarrow> 0 < b \<Longrightarrow> (a :: int) sdiv b = a div b"
  by (cases "a = 0") (simp_all add: signed_divide_int_def)

lemma smod_nonneg: "0 \<le> a \<Longrightarrow> 0 < b \<Longrightarrow> (a :: int) smod b = a mod b"
  by (cases "a = 0") (simp_all add: signed_modulo_int_def sdiv_nonneg minus_div_mult_eq_mod)

text \<open>The era of a year, written with a truncating division, is the floor of \<open>year / 400\<close>.\<close>

lemma era_floor: "(if y \<ge> 0 then y else y - 399) sdiv 400 = (y :: int) div 400"
proof (cases "y \<ge> 0")
  case True
  then show ?thesis by (simp add: sdiv_nonneg)
next
  case False
  then have "(y - 399) sdiv 400 = - ((399 - y) div 400)"
    by (simp add: signed_divide_int_def)
  also have "(399 - y) div 400 = - (y div 400)"
  proof (rule int_div_pos_eq)
    show "399 - y = 400 * - (y div 400) + (399 - y mod 400)"
      using div_mult_mod_eq [of y 400] by linarith
    show "0 \<le> 399 - y mod 400" "399 - y mod 400 < 400" using pos_mod_bound [of 400 y] by simp_all
  qed
  finally show ?thesis using False by simp
qed

lemma days_from_civil_flat:
  assumes "1 \<le> m" "m \<le> 12"
  shows "days_from_civil y m d =
     (let y' = (if m \<le> 2 then y - 1 else y)
      in y' * 365 + y' div 4 - y' div 100 + y' div 400
         + (153 * ((m + 9) mod 12) + 2) div 5 + d - 719469)"
proof -
  define y' where "y' = (if m \<le> 2 then y - 1 else y)"
  have r: "0 \<le> y' - y' div 400 * 400" using minus_div_mult_eq_mod [of y' 400] by simp
  have s: "0 \<le> (m + 9) mod 12" by simp
  have quarter: "(y' - y' div 400 * 400) div 4 = y' div 4 - y' div 400 * 100"
    "(y' - y' div 400 * 400) div 100 = y' div 100 - y' div 400 * 4"
    using div_mult_self2 [of 4 "y' - y' div 400 * 400" "y' div 400 * 100"]
      div_mult_self2 [of 100 "y' - y' div 400 * 400" "y' div 400 * 4"] by (simp_all add: algebra_simps)
  have "days_from_civil y m d =
      y' div 400 * 146097 + ((y' - y' div 400 * 400) * 365 + (y' - y' div 400 * 400) div 4
        - (y' - y' div 400 * 400) div 100 + ((153 * ((m + 9) mod 12) + 2) div 5 + d - 1)) - 719468"
    using assms r s
    by (simp add: days_from_civil_def Let_def y'_def era_floor sdiv_nonneg smod_nonneg)
  then show ?thesis unfolding quarter Let_def y'_def [symmetric] by (simp add: algebra_simps)
qed

lemma div_pred: "0 < k \<Longrightarrow> (y - 1) div k = (y :: int) div k - (if y mod k = 0 then 1 else 0)"
proof -
  assume k: "0 < k"
  have y: "y = k * (y div k) + y mod k" by simp
  show ?thesis
  proof (cases "y mod k = 0")
    case True
    then have "y - 1 = k * (y div k - 1) + (k - 1)" using y by (simp add: algebra_simps)
    from int_div_pos_eq [OF this] k True show ?thesis by simp
  next
    case False
    then have "y - 1 = k * (y div k) + (y mod k - 1)" using y by linarith
    moreover have "0 \<le> y mod k - 1" "y mod k - 1 < k"
      using False pos_mod_sign [OF k, of y] pos_mod_bound [OF k, of y] by linarith+
    ultimately have "(y - 1) div k = y div k" by (rule int_div_pos_eq)
    with False show ?thesis by simp
  qed
qed

lemma leap_days: "y div 4 - y div 100 + y div 400 =
    (y - 1) div 4 - (y - 1) div 100 + (y - 1) div 400 + (if leap_year y then 1 else 0)"
proof -
  have "y mod 400 = 0 \<Longrightarrow> y mod 100 = 0" "y mod 100 = 0 \<Longrightarrow> y mod 4 = 0" by presburger+
  then show ?thesis by (auto simp: div_pred leap_year_def)
qed

lemma month_cases:
  fixes m :: int
  assumes "1 \<le> m" "m \<le> 12"
  obtains "m = 1" | "m = 2" | "m = 3" | "m = 4" | "m = 5" | "m = 6"
    | "m = 7" | "m = 8" | "m = 9" | "m = 10" | "m = 11" | "m = 12"
proof -
  have "m = 1 \<or> m = 2 \<or> m = 3 \<or> m = 4 \<or> m = 5 \<or> m = 6
      \<or> m = 7 \<or> m = 8 \<or> m = 9 \<or> m = 10 \<or> m = 11 \<or> m = 12"
    using assms by presburger
  then show thesis using that by blast
qed

lemma next_month_day:
  assumes "1 \<le> m" "m \<le> 12"
  shows "(if m < 12 then days_from_civil y (m + 1) 1 else days_from_civil (y + 1) 1 1)
    = days_from_civil y m (days_in_month y m) + 1"
  using assms
proof (cases rule: month_cases)
  case 2
  then show ?thesis
    using leap_days [of y]
    by (cases "leap_year y") (simp_all add: days_from_civil_flat Let_def days_in_month_def)
qed (simp_all add: days_from_civil_flat Let_def days_in_month_def)

text \<open>
  The day count of a provider timestamp is the proleptic Gregorian one: the epoch day is zero
  and stepping from any valid date to the next calendar day adds exactly one, over month ends, leap
  days and year ends, for negative years too.
\<close>

theorem days_from_civil_counts_days:
  "days_from_civil 1970 1 1 = 0
   \<and> (valid_date (y, m, n) \<longrightarrow>
        (case next_day (y, m, n) of (y', m', n') \<Rightarrow> days_from_civil y' m' n')
          = days_from_civil y m n + 1)"
proof (intro conjI impI)
  show "days_from_civil 1970 1 1 = 0" by (simp add: days_from_civil_flat Let_def)
  assume v: "valid_date (y, m, n)"
  then have m: "1 \<le> m" "m \<le> 12" and n: "n \<le> days_in_month y m" by (simp_all add: valid_date_def)
  show "(case next_day (y, m, n) of (y', m', n') \<Rightarrow> days_from_civil y' m' n')
      = days_from_civil y m n + 1"
  proof (cases "n < days_in_month y m")
    case True
    then show ?thesis using m by (simp add: next_day_def days_from_civil_flat Let_def)
  next
    case False
    with n have "n = days_in_month y m" by simp
    with False next_month_day [OF m, of y] show ?thesis by (simp add: next_day_def split: if_splits)
  qed
qed

theorem days_from_civil_counts_days_witness:
  "valid_date (2024, 2, 29) \<and> days_from_civil 2024 3 1 = days_from_civil 2024 2 29 + 1"
proof -
  have "valid_date (2024, 2, 29)" "next_day (2024, 2, 29) = (2024, 3, 1)"
    by (simp_all add: valid_date_def next_day_def days_in_month_def leap_year_def)
  with days_from_civil_counts_days [of 2024 2 29] show ?thesis by simp
qed

text \<open>
  The day bound of a timestamp is 31 whatever the month, and what follows the zone designator
  is not read: an impossible date and trailing bytes are accepted, as the date they overflow to.
\<close>

theorem rfc3339_accepts_impossible_dates:
  "rfc3339_to_unix_secs ''2026-02-31T00:00:00Z'' = rfc3339_to_unix_secs ''2026-03-03T00:00:00Z''
   \<and> rfc3339_to_unix_secs ''2026-02-31T00:00:00Z'' = Some 1772496000
   \<and> rfc3339_to_unix_secs ''2026-03-03T00:00:00Z, approximately'' = Some 1772496000"
  by (simp add: rfc3339_to_unix_secs_def number_at_def byte_at_def skip_fraction_def offset_secs_def
      u64_try_from_def digit_val_def days_from_civil_flat Let_def)

end
