(* ===== verification/Required_Runs.thy ===== *)
theory Required_Runs
  imports Required_Policy Civil_Time Fnv
begin

text \<open>
  Required-run coverage of one exact head, from \<open>src/required_runs.rs\<close>: provider lineage and its
  diagnostic bound, the classification of each required context, the assessment of a pull request
  (\<open>assess\<close>), the sealed receipt, and the bounded, deduplicated problem list. JSON serialisation is
  a parameter (\<open>to_vec\<close>); the hash that seals its output is \<open>fnv1a64\<close>.
\<close>

subsection \<open>Lineage\<close>

record check_suite_lineage =
  cs_id :: nat
  cs_head_sha :: string
  cs_status :: string
  cs_conclusion :: string
  cs_app_slug :: string
  cs_rerequestable :: bool

record workflow_pull_request_binding =
  wb_number :: pr_number
  wb_head_sha :: string
  wb_head_ref :: string
  wb_base_sha :: string
  wb_base_ref :: string

record workflow_execution_identity =
  we_workflow_id :: nat
  we_run_attempt :: nat
  we_pull_requests :: "workflow_pull_request_binding list"

record workflow_run_lineage =
  wr_run_id :: nat
  wr_check_suite_id :: nat
  wr_workflow_name :: string
  wr_execution :: "workflow_execution_identity option"
  wr_head_sha :: string
  wr_status :: string
  wr_conclusion :: string
  wr_event :: string

record head_run_lineage =
  hl_head_sha :: string
  hl_check_suites :: "check_suite_lineage list"
  hl_workflow_runs :: "workflow_run_lineage list"
  hl_head_committed_at :: "string option"
  hl_complete :: bool

definition max_reported_lineage :: nat where
  "max_reported_lineage = 32"

text \<open>Sort newest first, keep the first row of every id, cut, and sort oldest first again.\<close>

definition bound_rows :: "('a \<Rightarrow> nat) \<Rightarrow> 'a list \<Rightarrow> 'a list" where
  "bound_rows key rows =
     sort_key key
       (take max_reported_lineage (dedup_by_key key (sort_key (\<lambda>r. - int (key r)) rows)))"

definition lineage_bounded :: "head_run_lineage \<Rightarrow> head_run_lineage" where
  "lineage_bounded l =
     (let incomplete =
            length (hl_check_suites l) > max_reported_lineage
            \<or> length (hl_workflow_runs l) > max_reported_lineage
            \<or> length (bs_of_list (map cs_id (hl_check_suites l))) \<noteq> length (hl_check_suites l)
            \<or> length (bs_of_list (map wr_run_id (hl_workflow_runs l))) \<noteq> length (hl_workflow_runs l)
      in l\<lparr>hl_complete := (if incomplete then False else hl_complete l),
           hl_check_suites := bound_rows cs_id (hl_check_suites l),
           hl_workflow_runs := bound_rows wr_run_id (hl_workflow_runs l)\<rparr>)"

definition lineage_is_live :: "string \<Rightarrow> string \<Rightarrow> bool" where
  "lineage_is_live status conclusion =
     (if \<exists>candidate\<in>set [''queued'', ''in_progress'', ''requested'', ''waiting'', ''pending'',
           ''action_required'']. eq_ignore_ascii_case status candidate
      then True else status = [] \<and> conclusion = [])"

definition lineage_is_abandoned :: "string \<Rightarrow> bool" where
  "lineage_is_abandoned conclusion =
     (\<exists>candidate\<in>set [''cancelled'', ''stale'', ''skipped'']. eq_ignore_ascii_case conclusion candidate)"

subsection \<open>Verdict types\<close>

datatype required_context_state =
    CtxPassing | CtxPending | CtxFailing | CtxCancelledSuperseded | CtxMissing | CtxUnknown

record required_context_coverage =
  cov_context :: string
  cov_app_id :: "nat option"
  cov_state :: required_context_state
  cov_reporting_checks :: "string list"
  cov_current_reporting_checks :: "string list"
  cov_provider_state :: "string option"

datatype required_runs_status =
    NotRequired | Satisfied | StPending | StFailing | CancelledSuperseded | AwaitingGrace
  | MissingRequiredRuns | UnknownProviderState

fun stalls_forever :: "required_runs_status \<Rightarrow> bool" where
  "stalls_forever MissingRequiredRuns = True"
| "stalls_forever CancelledSuperseded = True"
| "stalls_forever _ = False"

fun is_waiting :: "required_runs_status \<Rightarrow> bool" where
  "is_waiting StPending = True"
| "is_waiting AwaitingGrace = True"
| "is_waiting _ = False"

datatype required_runs_recovery =
    RecoveryNone | AwaitGrace | RerequestCheckSuite nat | OperatorAction

record required_runs_clock =
  now_unix :: nat
  clock_grace_secs :: nat

record required_runs_input =
  in_pr :: pr_number
  in_head :: branch_snapshot
  in_base :: branch_snapshot
  in_contexts :: required_contexts_read
  in_lineage :: "head_run_lineage option"
  in_checks :: "check_snapshot list"
  in_head_published_at :: "string option"
  in_clock :: required_runs_clock

record required_runs_assessment =
  ra_pr :: pr_number
  ra_head :: branch_snapshot
  ra_base :: branch_snapshot
  ra_status :: required_runs_status
  ra_required_contexts :: "string list"
  ra_required_policy :: "required_contexts_read option"
  ra_coverage :: "required_context_coverage list"
  ra_missing_contexts :: "string list"
  ra_observed_check_suites :: nat
  ra_observed_runs :: nat
  ra_stale_head_runs :: nat
  ra_provider_reads_complete :: bool
  ra_head_age_secs :: "nat option"
  ra_grace_secs :: nat
  ra_grace_elapsed :: bool
  ra_recovery :: required_runs_recovery
  ra_reason :: string

definition requires_problem :: "required_runs_assessment \<Rightarrow> bool" where
  "requires_problem a = (stalls_forever (ra_status a) \<or> ra_status a = UnknownProviderState)"

subsection \<open>Classification of one context\<close>

definition state_from_checks ::
    "check_snapshot list \<Rightarrow> (required_context_state \<times> string option) option" where
  "state_from_checks matching =
     (let reporting = filter (\<lambda>c. ck_state c \<noteq> Expected) matching
      in if reporting = [] then None
         else case find (\<lambda>c. ck_state c = CheckUnknown) reporting of
                Some unknown \<Rightarrow> Some (CtxUnknown, ck_provider_state unknown)
              | None \<Rightarrow>
                  Some (if \<exists>c\<in>set reporting. ck_state c \<in> {Failure, TimedOut, ActionRequired} then CtxFailing
                        else if \<exists>c\<in>set reporting. ck_state c = Cancelled then CtxCancelledSuperseded
                        else if \<exists>c\<in>set reporting. ck_state c \<in> {Queued, InProgress} then CtxPending
                        else CtxPassing,
                        ck_provider_state (hd reporting)))"

definition lineage_rows_live :: "head_run_lineage \<Rightarrow> string \<Rightarrow> bool" where
  "lineage_rows_live l head_sha =
     ((\<exists>s\<in>set (hl_check_suites l). cs_head_sha s = head_sha \<and> lineage_is_live (cs_status s) (cs_conclusion s))
      \<or> (\<exists>r\<in>set (hl_workflow_runs l). wr_head_sha r = head_sha \<and> lineage_is_live (wr_status r) (wr_conclusion r)))"

definition lineage_rows_abandoned :: "head_run_lineage \<Rightarrow> string \<Rightarrow> bool" where
  "lineage_rows_abandoned l head_sha =
     ((\<exists>s\<in>set (hl_check_suites l). cs_head_sha s = head_sha \<and> lineage_is_abandoned (cs_conclusion s))
      \<or> (\<exists>r\<in>set (hl_workflow_runs l). wr_head_sha r = head_sha \<and> lineage_is_abandoned (wr_conclusion r)))"

definition state_from_lineage :: "head_run_lineage option \<Rightarrow> string \<Rightarrow> required_context_state" where
  "state_from_lineage lineage head_sha =
     (case lineage of
        None \<Rightarrow> CtxUnknown
      | Some l \<Rightarrow>
          if lineage_rows_live l head_sha then CtxPending
          else if lineage_rows_abandoned l head_sha then CtxCancelledSuperseded
          else CtxMissing)"

definition lineage_counts :: "head_run_lineage option \<Rightarrow> string \<Rightarrow> nat \<times> nat \<times> nat" where
  "lineage_counts lineage head_sha =
     (case lineage of
        None \<Rightarrow> (0, 0, 0)
      | Some l \<Rightarrow>
          (length (filter (\<lambda>s. cs_head_sha s = head_sha) (hl_check_suites l)),
           length (filter (\<lambda>r. wr_head_sha r = head_sha) (hl_workflow_runs l)),
           length (filter (\<lambda>s. cs_head_sha s \<noteq> head_sha) (hl_check_suites l))
           + length (filter (\<lambda>r. wr_head_sha r \<noteq> head_sha) (hl_workflow_runs l))))"

text \<open>Lineage that may be relied on: complete and read for exactly this head.\<close>

definition exact_lineage :: "head_run_lineage option \<Rightarrow> string \<Rightarrow> head_run_lineage option" where
  "exact_lineage lineage head_sha =
     filter_opt (\<lambda>l. hl_complete l \<and> hl_head_sha l = head_sha) lineage"

definition rerequestable_suite :: "head_run_lineage option \<Rightarrow> string \<Rightarrow> nat option" where
  "rerequestable_suite lineage head_sha =
     (case exact_lineage lineage head_sha of
        None \<Rightarrow> None
      | Some l \<Rightarrow>
          (case filter (\<lambda>s. cs_head_sha s = head_sha \<and> cs_rerequestable s) (hl_check_suites l) of
             [only] \<Rightarrow> Some (cs_id only)
           | _ \<Rightarrow> None))"

definition run_id_of_url :: "string \<Rightarrow> nat option" where
  "run_id_of_url url =
     (case split_once ''/actions/runs/'' url of
        None \<Rightarrow> None
      | Some (_, suffix) \<Rightarrow> parse_unsigned 64 (takeWhile (\<lambda>ch. ch \<noteq> CHR ''/'') suffix))"

definition replaced_by_newer_run :: "head_run_lineage \<Rightarrow> string \<Rightarrow> workflow_run_lineage
    \<Rightarrow> check_suite_lineage \<Rightarrow> bool" where
  "replaced_by_newer_run l head_sha old old_suite =
     (\<exists>new\<in>set (hl_workflow_runs l).
        wr_run_id new > wr_run_id old \<and> wr_head_sha new = head_sha
        \<and> wr_workflow_name new = wr_workflow_name old
        \<and> (\<exists>s\<in>set (hl_check_suites l). cs_id s = wr_check_suite_id new \<and> cs_head_sha s = head_sha
              \<and> cs_app_slug s = cs_app_slug old_suite))"

definition superseded_by_exact_lineage ::
    "check_snapshot \<Rightarrow> head_run_lineage option \<Rightarrow> string \<Rightarrow> bool" where
  "superseded_by_exact_lineage c lineage head_sha =
     (case exact_lineage lineage head_sha of None \<Rightarrow> False | Some l \<Rightarrow>
      case Option.bind (ck_details_url c) run_id_of_url of None \<Rightarrow> False | Some run_id \<Rightarrow>
      if length (bs_of_list (map wr_run_id (hl_workflow_runs l))) \<noteq> length (hl_workflow_runs l)
         \<or> length (bs_of_list (map cs_id (hl_check_suites l))) \<noteq> length (hl_check_suites l)
      then False
      else case find (\<lambda>r. wr_run_id r = run_id \<and> wr_head_sha r = head_sha \<and> wr_workflow_name r \<noteq> [])
                  (hl_workflow_runs l) of None \<Rightarrow> False | Some old \<Rightarrow>
           case find (\<lambda>s. cs_id s = wr_check_suite_id old \<and> cs_head_sha s = head_sha)
                  (hl_check_suites l) of None \<Rightarrow> False | Some old_suite \<Rightarrow>
           if ck_app_id c \<noteq> None
              \<and> (ck_check_suite_id c \<noteq> Some (cs_id old_suite) \<or> ck_head_oid c \<noteq> Some head_sha)
           then False
           else replaced_by_newer_run l head_sha old old_suite)"

subsection \<open>The assessment\<close>

definition head_age_of :: "required_runs_input \<Rightarrow> nat option" where
  "head_age_of input =
     (let stamp = (case in_head_published_at input of
                     Some s \<Rightarrow> Some s
                   | None \<Rightarrow> Option.bind (in_lineage input) hl_head_committed_at)
      in map_option (\<lambda>published. now_unix (in_clock input) - published)
           (Option.bind stamp rfc3339_to_unix_secs))"

definition current_matching :: "required_runs_input \<Rightarrow> required_check \<Rightarrow> check_snapshot list" where
  "current_matching input required =
     filter (\<lambda>c. \<not> superseded_by_exact_lineage c (in_lineage input) (br_oid (in_head input)))
       (filter (\<lambda>c. required_check_matches required c (br_oid (in_head input)))
          (fst (latest_checks_per_identity (in_checks input))))"

definition reporting_names :: "check_snapshot list \<Rightarrow> string list" where
  "reporting_names cs = map ck_name (filter (\<lambda>c. ck_state c \<noteq> Expected) cs)"

definition context_coverage :: "required_runs_input \<Rightarrow> required_check \<Rightarrow> required_context_coverage" where
  "context_coverage input required =
     (let head_sha = br_oid (in_head input);
          matching = filter (\<lambda>c. required_check_matches required c head_sha) (in_checks input);
          current = current_matching input required;
          (state, provider_state) =
            (case state_from_checks current of
               Some reported \<Rightarrow> reported
             | None \<Rightarrow> (state_from_lineage (in_lineage input) head_sha, None))
      in \<lparr>cov_context = rc_context required, cov_app_id = rc_app_id required, cov_state = state,
          cov_reporting_checks = reporting_names matching,
          cov_current_reporting_checks = reporting_names current,
          cov_provider_state = provider_state\<rparr>)"

definition coverage_of :: "required_runs_input \<Rightarrow> required_context_coverage list" where
  "coverage_of input =
     take max_reported_contexts
       (map (context_coverage input) (rq_checks (policy_normalized (in_contexts input))))"

definition missing_of :: "required_context_coverage list \<Rightarrow> string list" where
  "missing_of coverage = map cov_context (filter (\<lambda>i. cov_state i = CtxMissing) coverage)"

definition lineage_read_complete :: "head_run_lineage option \<Rightarrow> bool" where
  "lineage_read_complete lineage = (case lineage of None \<Rightarrow> True | Some l \<Rightarrow> hl_complete l)"

definition some_state :: "required_context_state \<Rightarrow> required_context_coverage list \<Rightarrow> bool" where
  "some_state st coverage = (\<exists>i\<in>set coverage. cov_state i = st)"

definition assess_status ::
    "bool \<Rightarrow> nat option \<Rightarrow> nat \<Rightarrow> required_context_coverage list \<Rightarrow> required_runs_status" where
  "assess_status reads_complete age grace coverage =
     (if some_state CtxUnknown coverage \<or> \<not> reads_complete then UnknownProviderState
      else if missing_of coverage \<noteq> []
      then (case age of
              None \<Rightarrow> UnknownProviderState
            | Some a \<Rightarrow> if a \<ge> grace then MissingRequiredRuns else AwaitingGrace)
      else if some_state CtxFailing coverage then StFailing
      else if some_state CtxCancelledSuperseded coverage then CancelledSuperseded
      else if some_state CtxPending coverage then StPending
      else Satisfied)"

definition show_bool :: "bool \<Rightarrow> string" where
  "show_bool b = (if b then ''true'' else ''false'')"

definition assess_reason ::
    "required_runs_input \<Rightarrow> bool \<Rightarrow> nat option \<Rightarrow> required_context_coverage list
     \<Rightarrow> nat \<Rightarrow> nat \<Rightarrow> string" where
  "assess_reason input reads_complete age coverage suites runs =
     (let who = ''PR #'' @ show_nat (in_pr input) @ '' head '' @ br_oid (in_head input);
          missing = join_str '', '' (missing_of coverage);
          grace = show_nat (clock_grace_secs (in_clock input))
      in if some_state CtxUnknown coverage \<or> \<not> reads_complete
         then ''provider evidence for '' @ who @ '' is incomplete (protection_read_complete=''
              @ show_bool (rq_complete (in_contexts input)) @ '', lineage_read_complete=''
              @ show_bool (lineage_read_complete (in_lineage input))
              @ ''); nothing may be declared missing from a partial read''
         else if missing_of coverage \<noteq> []
         then (case age of
                 None \<Rightarrow> who @ '' has no reporting run for '' @ missing
                   @ '' but the provider served no head timestamp, so the bounded grace period cannot be evaluated''
               | Some a \<Rightarrow>
                   if a \<ge> clock_grace_secs (in_clock input)
                   then who @ '' has zero reporting run or check-suite lineage for required '' @ missing
                     @ '' after '' @ show_nat a @ ''s (grace '' @ grace @ ''s); '' @ show_nat suites
                     @ '' suites and '' @ show_nat runs @ '' runs exist on this exact head''
                   else who @ '' has no reporting run for '' @ missing
                     @ '' yet, still inside the bounded '' @ grace @ ''s grace period'')
         else if some_state CtxFailing coverage
         then who @ '' has an honest required-context failure owned by CI decision policy''
         else if some_state CtxCancelledSuperseded coverage
         then who @ '' has only cancelled or superseded lineage for a required context, which never reports a verdict''
         else if some_state CtxPending coverage
         then who @ '' has a reporting run for every required context and at least one is still running''
         else who @ '' has a passing reporting run for every required context'')"

definition assess_recovery ::
    "required_runs_status \<Rightarrow> head_run_lineage option \<Rightarrow> string \<Rightarrow> required_runs_recovery" where
  "assess_recovery status lineage head_sha =
     (if status = MissingRequiredRuns \<or> status = CancelledSuperseded
      then (case rerequestable_suite lineage head_sha of
              None \<Rightarrow> OperatorAction
            | Some suite \<Rightarrow> RerequestCheckSuite suite)
      else if status = AwaitingGrace then AwaitGrace
      else RecoveryNone)"

definition not_required_reason :: "required_contexts_read \<Rightarrow> string" where
  "not_required_reason policy =
     ''landing branch `'' @ rq_branch policy
     @ ''` declares no required status check; required-run coverage cannot stall this head''"

definition assess :: "required_runs_input \<Rightarrow> required_runs_assessment" where
  "assess input =
     (let policy = policy_normalized (in_contexts input);
          head_sha = br_oid (in_head input);
          (suites, runs, stale) = lineage_counts (in_lineage input) head_sha;
          age = head_age_of input;
          grace = clock_grace_secs (in_clock input);
          grace_elapsed = (case age of None \<Rightarrow> False | Some a \<Rightarrow> a \<ge> grace);
          not_required = (rq_checks policy = [] \<and> rq_complete policy);
          coverage = (if not_required then [] else coverage_of input);
          reads_complete = (not_required \<or> rq_complete policy \<and> lineage_read_complete (in_lineage input));
          status = (if not_required then NotRequired else assess_status reads_complete age grace coverage)
      in \<lparr>ra_pr = in_pr input, ra_head = in_head input, ra_base = in_base input, ra_status = status,
          ra_required_contexts = (if not_required then [] else rq_contexts policy),
          ra_required_policy = Some policy, ra_coverage = coverage,
          ra_missing_contexts = missing_of coverage,
          ra_observed_check_suites = suites, ra_observed_runs = runs, ra_stale_head_runs = stale,
          ra_provider_reads_complete = reads_complete, ra_head_age_secs = age, ra_grace_secs = grace,
          ra_grace_elapsed = grace_elapsed,
          ra_recovery = assess_recovery status (in_lineage input) head_sha,
          ra_reason = (if not_required then not_required_reason policy
                       else assess_reason input reads_complete age coverage suites runs)\<rparr>)"

subsection \<open>Receipts\<close>

type_synonym operation_id = string

record required_runs_retrigger =
  rt_check_suite_id :: nat
  rt_head_oid :: commit_oid
  rt_attempts :: nat
  rt_requested :: bool
  rt_rediscovered :: bool
  rt_status_after :: required_runs_status
  rt_failure :: "string option"

record required_runs_provenance =
  pv_owner :: string
  pv_component :: string
  pv_operation_id :: operation_id
  pv_reason :: string

definition provenance :: "operation_id \<Rightarrow> string \<Rightarrow> required_runs_provenance" where
  "provenance op reason =
     \<lparr>pv_owner = ''caravan-scheduler'', pv_component = ''cara sync'', pv_operation_id = op,
      pv_reason = reason\<rparr>"

record required_runs_receipt =
  rr_schema_version :: nat
  rr_repository :: repository_id
  rr_caravan_id :: pr_number
  rr_pr :: pr_number
  rr_assessment :: required_runs_assessment
  rr_retrigger :: "required_runs_retrigger option"
  rr_provenance :: required_runs_provenance
  rr_evidence_hash :: string

text \<open>\<open>expect("required-run receipt serializes")\<close> is the \<open>None\<close> result.\<close>

definition finalize_hash ::
    "(required_runs_receipt \<Rightarrow> string option) \<Rightarrow> required_runs_receipt \<Rightarrow> required_runs_receipt option" where
  "finalize_hash to_vec r =
     (let cleared = r\<lparr>rr_evidence_hash := []\<rparr>
      in map_option (\<lambda>material. cleared\<lparr>rr_evidence_hash := fnv1a64 material\<rparr>) (to_vec cleared))"

definition hash_is_valid :: "(required_runs_receipt \<Rightarrow> string option) \<Rightarrow> required_runs_receipt \<Rightarrow> bool" where
  "hash_is_valid to_vec r =
     (case to_vec (r\<lparr>rr_evidence_hash := []\<rparr>) of
        None \<Rightarrow> False
      | Some bytes \<Rightarrow> fnv1a64 bytes = rr_evidence_hash r)"

definition receipt ::
    "(required_runs_receipt \<Rightarrow> string option) \<Rightarrow> repository_id \<Rightarrow> pr_number \<Rightarrow> required_runs_assessment
     \<Rightarrow> required_runs_retrigger option \<Rightarrow> required_runs_provenance \<Rightarrow> required_runs_receipt option" where
  "receipt to_vec repository caravan_id assessment retrigger pv =
     finalize_hash to_vec
       \<lparr>rr_schema_version = 1, rr_repository = repository, rr_caravan_id = caravan_id,
        rr_pr = ra_pr assessment, rr_assessment = assessment, rr_retrigger = retrigger,
        rr_provenance = pv, rr_evidence_hash = []\<rparr>"

subsection \<open>Problems\<close>

datatype missing_required_runs_kind =
    KMissingRequiredRuns | KCancelledSupersededRequiredRuns | KUnknownProviderState

fun missing_kind_code :: "missing_required_runs_kind \<Rightarrow> string" where
  "missing_kind_code KMissingRequiredRuns = ''missing_required_runs''"
| "missing_kind_code KCancelledSupersededRequiredRuns = ''cancelled_superseded_required_runs''"
| "missing_kind_code KUnknownProviderState = ''unknown_required_runs_provider_state''"

definition operator_action_required :: "missing_required_runs_kind \<Rightarrow> bool" where
  "operator_action_required k = (k \<noteq> KUnknownProviderState)"

record missing_required_runs_problem =
  mp_kind :: missing_required_runs_kind
  mp_caravan_id :: pr_number
  mp_pr :: pr_number
  mp_head :: branch_snapshot
  mp_base :: branch_snapshot
  mp_contexts :: "string list"
  mp_retrigger :: "required_runs_retrigger option"
  mp_operator_action_required :: bool
  mp_message :: string
  mp_next :: string
  mp_fingerprint :: string

definition reviewed_manual_recovery :: string where
  "reviewed_manual_recovery =
     ''reviewed manual recovery: close and immediately reopen the exact PR to make GitHub queue a `pull_request` run on the unchanged head; never push an empty commit, force-push, retarget, or broadly rerun another generation''"

text \<open>\<open>to_vec\<close> serialises the material object; its failure is the panic of \<open>expect\<close>.\<close>

definition fingerprint ::
    "(string \<times> pr_number \<times> string \<times> string btree_set \<Rightarrow> string option)
     \<Rightarrow> missing_required_runs_kind \<Rightarrow> pr_number \<Rightarrow> string \<Rightarrow> string list \<Rightarrow> string option" where
  "fingerprint to_vec kind pr head_oid contexts =
     map_option fnv1a64 (to_vec (missing_kind_code kind, pr, head_oid, bs_of_list contexts))"

fun problem_kind :: "required_runs_status \<Rightarrow> missing_required_runs_kind option" where
  "problem_kind MissingRequiredRuns = Some KMissingRequiredRuns"
| "problem_kind CancelledSuperseded = Some KCancelledSupersededRequiredRuns"
| "problem_kind UnknownProviderState = Some KUnknownProviderState"
| "problem_kind _ = None"

definition problem_next :: "missing_required_runs_kind \<Rightarrow> required_runs_assessment \<Rightarrow> string" where
  "problem_next kind a =
     (if kind = KUnknownProviderState
      then ''rerun the same idempotent bounded sync tick once provider reads are complete; nothing is claimed missing from a partial read''
      else case ra_recovery a of
             RerequestCheckSuite suite \<Rightarrow>
               ''the single auditable rerequest of check suite '' @ show_nat suite @ '' on unchanged head ''
               @ br_oid (ra_head a) @ '' did not produce reporting lineage; '' @ reviewed_manual_recovery
           | _ \<Rightarrow>
               ''no safe provider retrigger exists for head '' @ br_oid (ra_head a)
               @ '' (zero rerequestable check suites); '' @ reviewed_manual_recovery)"

text \<open>The outer option is a panic, the inner one the \<open>Option\<close> the source returns.\<close>

definition problem ::
    "(string \<times> pr_number \<times> string \<times> string btree_set \<Rightarrow> string option) \<Rightarrow> pr_number
     \<Rightarrow> required_runs_assessment \<Rightarrow> required_runs_retrigger option
     \<Rightarrow> missing_required_runs_problem option option" where
  "problem to_vec caravan_id a retrigger =
     (case problem_kind (ra_status a) of
        None \<Rightarrow> Some None
      | Some kind \<Rightarrow>
          (let contexts = (if ra_missing_contexts a = [] then ra_required_contexts a
                           else ra_missing_contexts a)
           in map_option (\<lambda>fp. Some
                \<lparr>mp_kind = kind, mp_caravan_id = caravan_id, mp_pr = ra_pr a, mp_head = ra_head a,
                 mp_base = ra_base a, mp_contexts = contexts, mp_retrigger = retrigger,
                 mp_operator_action_required = operator_action_required kind,
                 mp_message = ra_reason a, mp_next = problem_next kind a, mp_fingerprint = fp\<rparr>)
                (fingerprint to_vec kind (ra_pr a) (br_oid (ra_head a)) contexts)))"

definition max_missing_required_runs_problems :: nat where
  "max_missing_required_runs_problems = 32"

definition push_problem ::
    "missing_required_runs_problem list \<Rightarrow> missing_required_runs_problem
     \<Rightarrow> missing_required_runs_problem list \<times> bool" where
  "push_problem problems p =
     (if \<exists>e\<in>set problems. mp_fingerprint e = mp_fingerprint p then (problems, False)
      else if length problems \<ge> max_missing_required_runs_problems then (problems, False)
      else (problems @ [p], True))"

end
