(* ===== verification/Required_Runs_Facts.thy ===== *)
theory Required_Runs_Facts
  imports Required_Runs
begin

text \<open>
  What the required-run assessment guarantees: when it may call a head satisfied, when it may call
  runs missing, what it may retrigger, and that the lineage bound, the receipts and the problem
  list keep their contracts.
\<close>

subsection \<open>Policy and coverage\<close>

lemma length_normalized: "length (rq_checks (policy_normalized p)) \<le> max_reported_contexts"
  by (simp add: policy_normalized_def Let_def)

lemma coverage_of_all:
  "coverage_of input = map (context_coverage input) (rq_checks (policy_normalized (in_contexts input)))"
  using length_normalized by (simp add: coverage_of_def)

lemma missing_of_Nil: "missing_of coverage = [] \<longleftrightarrow> \<not> some_state CtxMissing coverage"
  by (auto simp: missing_of_def some_state_def filter_empty_conv)

lemma some_state_coverage:
  "some_state st (coverage_of input) \<longleftrightarrow>
     (\<exists>r\<in>set (rq_checks (policy_normalized (in_contexts input))).
        cov_state (context_coverage input r) = st)"
  by (simp add: some_state_def coverage_of_all)

lemma cov_state_context:
  "cov_state (context_coverage input r) =
     (case state_from_checks (current_matching input r) of
        Some reported \<Rightarrow> fst reported
      | None \<Rightarrow> state_from_lineage (in_lineage input) (br_oid (in_head input)))"
  by (auto simp: context_coverage_def Let_def split: option.split prod.split)

lemma state_from_checks_None:
  "state_from_checks cs = None \<longleftrightarrow> (\<forall>c\<in>set cs. ck_state c = Expected)"
  by (auto simp: state_from_checks_def Let_def filter_empty_conv split: option.splits)

lemma passing_state:
  "s \<noteq> Expected \<Longrightarrow>
     s \<noteq> CheckUnknown \<and> s \<notin> {Failure, TimedOut, ActionRequired} \<and> s \<noteq> Cancelled \<and> s \<notin> {Queued, InProgress}
     \<longleftrightarrow> s \<in> {Success, Neutral, Skipped}"
  by (cases s) simp_all

lemma state_from_checks_passing:
  "(\<exists>s. state_from_checks cs = Some (CtxPassing, s)) \<longleftrightarrow>
     (\<exists>c\<in>set cs. ck_state c \<noteq> Expected)
     \<and> (\<forall>c\<in>set cs. ck_state c \<in> {Expected, Success, Neutral, Skipped})"
proof -
  define r where "r = filter (\<lambda>c. ck_state c \<noteq> Expected) cs"
  have "(\<exists>s. state_from_checks cs = Some (CtxPassing, s)) \<longleftrightarrow> r \<noteq> []
      \<and> (\<forall>c\<in>set r. ck_state c \<noteq> CheckUnknown)
      \<and> \<not> (\<exists>c\<in>set r. ck_state c \<in> {Failure, TimedOut, ActionRequired})
      \<and> \<not> (\<exists>c\<in>set r. ck_state c = Cancelled) \<and> \<not> (\<exists>c\<in>set r. ck_state c \<in> {Queued, InProgress})"
    unfolding state_from_checks_def r_def [symmetric] Let_def find_None_pred [symmetric]
    by (simp split: option.split)
  also have "\<dots> \<longleftrightarrow> r \<noteq> [] \<and> (\<forall>c\<in>set r. ck_state c \<in> {Success, Neutral, Skipped})"
    using passing_state unfolding r_def set_filter mem_Collect_eq by blast
  finally show ?thesis unfolding r_def filter_empty_conv by auto
qed

lemma state_from_checks_unmissing: "state_from_checks cs = Some (st, s) \<Longrightarrow> st \<noteq> CtxMissing"
  by (auto simp: state_from_checks_def Let_def split: option.splits if_splits)

lemma state_from_lineage_not_passing: "state_from_lineage l h \<noteq> CtxPassing"
  by (simp add: state_from_lineage_def split: option.split)

lemma context_passing:
  "cov_state (context_coverage input r) = CtxPassing \<longleftrightarrow>
     (\<exists>c\<in>set (current_matching input r). ck_state c \<in> {Success, Neutral, Skipped})
     \<and> (\<forall>c\<in>set (current_matching input r). ck_state c \<in> {Expected, Success, Neutral, Skipped})"
proof -
  have "cov_state (context_coverage input r) = CtxPassing \<longleftrightarrow>
      (\<exists>s. state_from_checks (current_matching input r) = Some (CtxPassing, s))"
    using state_from_lineage_not_passing
    by (auto simp: cov_state_context split: option.splits)
  then show ?thesis unfolding state_from_checks_passing by auto
qed

lemma context_missing:
  assumes "cov_state (context_coverage input r) = CtxMissing"
  shows "(\<forall>c\<in>set (current_matching input r). ck_state c = Expected)
     \<and> (\<exists>l. in_lineage input = Some l \<and> \<not> lineage_rows_live l (br_oid (in_head input))
            \<and> \<not> lineage_rows_abandoned l (br_oid (in_head input)))"
  using assms state_from_checks_unmissing [of "current_matching input r"]
  by (auto simp: cov_state_context state_from_checks_None [symmetric] state_from_lineage_def
      split: option.splits if_splits)

subsection \<open>The status of an assessment\<close>

abbreviation policy_of :: "required_runs_input \<Rightarrow> required_contexts_read" where
  "policy_of input \<equiv> policy_normalized (in_contexts input)"

abbreviation not_required :: "required_runs_input \<Rightarrow> bool" where
  "not_required input \<equiv> rq_checks (policy_of input) = [] \<and> rq_complete (policy_of input)"

abbreviation reads_complete :: "required_runs_input \<Rightarrow> bool" where
  "reads_complete input \<equiv> rq_complete (policy_of input) \<and> lineage_read_complete (in_lineage input)"

lemma assess_simps:
  "ra_status (assess input) =
     (if not_required input then NotRequired
      else assess_status (reads_complete input) (head_age_of input) (clock_grace_secs (in_clock input))
             (coverage_of input))"
  "ra_recovery (assess input) =
     assess_recovery (ra_status (assess input)) (in_lineage input) (br_oid (in_head input))"
  "ra_coverage (assess input) = (if not_required input then [] else coverage_of input)"
  by (auto simp: assess_def Let_def split: prod.split)

lemma all_states_passing:
  "\<not> some_state CtxUnknown cs \<and> \<not> some_state CtxMissing cs \<and> \<not> some_state CtxFailing cs
   \<and> \<not> some_state CtxCancelledSuperseded cs \<and> \<not> some_state CtxPending cs
   \<longleftrightarrow> (\<forall>i\<in>set cs. cov_state i = CtxPassing)"
  unfolding some_state_def by (auto intro: required_context_state.exhaust)

lemma assess_status_satisfied:
  "assess_status ok age grace cs = Satisfied \<longleftrightarrow> ok \<and> (\<forall>i\<in>set cs. cov_state i = CtxPassing)"
  unfolding all_states_passing [symmetric]
  by (auto simp: assess_status_def missing_of_Nil split: option.splits if_splits)

definition branch_at :: "string \<Rightarrow> branch_snapshot" where
  "branch_at n = \<lparr>br_repository = \<lparr>repo_owner = ''o'', repo_name = ''r''\<rparr>, br_name = n, br_oid = n\<rparr>"

text \<open>A head whose check \<open>a\<close> is in the given state, with one finished, rerequestable suite.\<close>

definition sample_suite :: check_suite_lineage where
  "sample_suite =
     \<lparr>cs_id = 9, cs_head_sha = ''h'', cs_status = ''completed'', cs_conclusion = ''failure'',
      cs_app_slug = ''x'', cs_rerequestable = True\<rparr>"

definition sample_lineage :: head_run_lineage where
  "sample_lineage =
     \<lparr>hl_head_sha = ''h'', hl_check_suites = [sample_suite], hl_workflow_runs = [],
      hl_head_committed_at = None, hl_complete = True\<rparr>"

definition sample_input :: "string list \<Rightarrow> check_state \<Rightarrow> required_runs_input" where
  "sample_input contexts st =
     \<lparr>in_pr = 1, in_head = branch_at ''h'', in_base = branch_at ''m'',
      in_contexts = \<lparr>rq_branch = ''m'', rq_protected = True, rq_contexts = contexts, rq_checks = [],
                     rq_complete = True\<rparr>,
      in_lineage = Some sample_lineage,
      in_checks = [check_default\<lparr>ck_name := ''a'', ck_state := st\<rparr>],
      in_head_published_at = Some ''2026-03-03T00:00:00Z'',
      in_clock = \<lparr>now_unix = 1772500000, clock_grace_secs = 600\<rparr>\<rparr>"

lemmas sample_input_defs = sample_input_def sample_lineage_def sample_suite_def branch_at_def

lemma sample_policy_checks:
  "rq_complete (policy_of (sample_input [''a''] st))"
  "rq_checks (policy_of (sample_input [''a''] st)) = [\<lparr>rc_context = ''a'', rc_app_id = None\<rparr>]"
  "rq_complete (policy_of (sample_input [''a'', ''b''] st))"
  "rq_checks (policy_of (sample_input [''a'', ''b''] st)) =
     [\<lparr>rc_context = ''a'', rc_app_id = None\<rparr>, \<lparr>rc_context = ''b'', rc_app_id = None\<rparr>]"
  by (simp_all add: sample_input_defs policy_normalized_def Let_def merged_checks_def
      required_check_key_def max_reported_contexts_def)

lemma sample_current:
  "current_matching (sample_input cs st) \<lparr>rc_context = n, rc_app_id = None\<rparr> =
     (if n = ''a'' then [check_default\<lparr>ck_name := ''a'', ck_state := st\<rparr>] else [])"
  by (simp add: sample_input_defs current_matching_def latest_checks_per_identity_def
      is_superseded_def row_eval required_check_matches_def superseded_by_exact_lineage_def
      exact_lineage_def)

lemma sample_age: "head_age_of (sample_input cs st) = Some 4000"
  by (simp add: head_age_of_def sample_input_defs rfc3339_to_unix_secs_def number_at_def byte_at_def
      skip_fraction_def offset_secs_def u64_try_from_def digit_val_def days_from_civil_flat Let_def)

lemma sample_missing: "ra_status (assess (sample_input [''a'', ''b''] Failure)) = MissingRequiredRuns"
proof -
  have "state_from_lineage (in_lineage (sample_input cs st)) (br_oid (in_head (sample_input cs st)))
      = CtxMissing" for cs st
    by (simp add: state_from_lineage_def lineage_rows_live_def lineage_rows_abandoned_def
        lineage_is_live_def lineage_is_abandoned_def eq_ignore_ascii_case_def ascii_lower_def
        sample_input_defs Let_def)
  then have "map cov_state (coverage_of (sample_input [''a'', ''b''] Failure)) = [CtxFailing, CtxMissing]"
    by (simp add: coverage_of_all sample_policy_checks cov_state_context sample_current
        state_from_checks_def Let_def)
  then obtain i j where "coverage_of (sample_input [''a'', ''b''] Failure) = [i, j]"
    "cov_state i = CtxFailing" "cov_state j = CtxMissing" by auto
  then show ?thesis
    by (simp add: assess_simps sample_policy_checks sample_age assess_status_def some_state_def
        missing_of_def)
      (simp add: sample_input_defs lineage_read_complete_def)
qed

text \<open>
  C27. A head is \<open>Satisfied\<close> exactly when the policy and the lineage were read completely, at least
  one check is required, and every required check has a current, unsuperseded row on this head that
  passed and none that did not: no failing, cancelled, running or unreadable row of a required check
  is ever counted as coverage, and a row that was only expected never satisfies anything.
\<close>

theorem assess_satisfied_iff:
  "ra_status (assess input) = Satisfied \<longleftrightarrow>
     rq_complete (policy_normalized (in_contexts input)) \<and> lineage_read_complete (in_lineage input)
     \<and> rq_checks (policy_normalized (in_contexts input)) \<noteq> []
     \<and> (\<forall>r\<in>set (rq_checks (policy_normalized (in_contexts input))).
          (\<exists>c\<in>set (current_matching input r). ck_state c \<in> {Success, Neutral, Skipped})
          \<and> (\<forall>c\<in>set (current_matching input r). ck_state c \<in> {Expected, Success, Neutral, Skipped}))"
proof -
  have "ra_status (assess input) = Satisfied \<longleftrightarrow> \<not> not_required input \<and> reads_complete input
      \<and> (\<forall>i\<in>set (coverage_of input). cov_state i = CtxPassing)"
    by (simp add: assess_simps assess_status_satisfied)
  also have "(\<forall>i\<in>set (coverage_of input). cov_state i = CtxPassing) \<longleftrightarrow>
      (\<forall>r\<in>set (rq_checks (policy_of input)). cov_state (context_coverage input r) = CtxPassing)"
    by (simp add: coverage_of_all)
  finally show ?thesis unfolding context_passing by blast
qed

theorem assess_satisfied_iff_witness:
  "ra_status (assess (sample_input [''a''] Success)) = Satisfied
   \<and> ra_status (assess (sample_input [''a''] Cancelled)) \<noteq> Satisfied"
proof -
  have "lineage_read_complete (in_lineage (sample_input cs st))" for cs st
    by (simp add: sample_input_defs lineage_read_complete_def)
  then show ?thesis
    unfolding assess_satisfied_iff [of "sample_input [''a''] Success"]
      assess_satisfied_iff [of "sample_input [''a''] Cancelled"]
    by (simp add: sample_policy_checks sample_current)
qed

text \<open>
  C30. Nothing is declared missing from a partial read: \<open>MissingRequiredRuns\<close> implies that the policy
  and the lineage were read completely, that the head's age is known and at least the grace period,
  and that for some required check no current row reports and the lineage of the head has no live
  and no abandoned suite or run.
\<close>

theorem assess_missing_sound:
  assumes "ra_status (assess input) = MissingRequiredRuns"
  shows "rq_complete (policy_normalized (in_contexts input))
     \<and> (\<exists>age. head_age_of input = Some age \<and> clock_grace_secs (in_clock input) \<le> age)
     \<and> (\<exists>l. in_lineage input = Some l \<and> hl_complete l
            \<and> \<not> lineage_rows_live l (br_oid (in_head input))
            \<and> \<not> lineage_rows_abandoned l (br_oid (in_head input)))
     \<and> (\<exists>r\<in>set (rq_checks (policy_normalized (in_contexts input))).
          \<forall>c\<in>set (current_matching input r). ck_state c = Expected)"
proof -
  have st: "assess_status (reads_complete input) (head_age_of input) (clock_grace_secs (in_clock input))
      (coverage_of input) = MissingRequiredRuns"
    using assms by (simp add: assess_simps split: if_splits)
  then have ok: "reads_complete input" and "some_state CtxMissing (coverage_of input)"
    and age: "\<exists>age. head_age_of input = Some age \<and> clock_grace_secs (in_clock input) \<le> age"
    by (auto simp: assess_status_def missing_of_Nil split: if_splits option.splits)
  then obtain r where r: "r \<in> set (rq_checks (policy_of input))"
    "cov_state (context_coverage input r) = CtxMissing"
    unfolding some_state_coverage by blast
  with context_missing [OF r(2)] ok age show ?thesis by (auto simp: lineage_read_complete_def)
qed

theorem assess_missing_sound_witness:
  "ra_status (assess (sample_input [''a'', ''b''] Failure)) = MissingRequiredRuns
   \<and> (\<exists>age. head_age_of (sample_input [''a'', ''b''] Failure) = Some age
          \<and> clock_grace_secs (in_clock (sample_input [''a'', ''b''] Failure)) \<le> age)"
  using assess_missing_sound [OF sample_missing] sample_missing by blast

text \<open>
  C31. A retrigger is exact and unambiguous: the only suite the assessment offers to rerequest is the
  one rerequestable check suite of a complete lineage read for exactly this head, and it is offered
  only for a status that would otherwise stall for ever. Every other stalled head asks the operator.
\<close>

theorem assess_rerequest_exact:
  "ra_recovery (assess input) = RerequestCheckSuite suite \<longleftrightarrow>
     stalls_forever (ra_status (assess input))
     \<and> (\<exists>l only. in_lineage input = Some l \<and> hl_complete l \<and> hl_head_sha l = br_oid (in_head input)
          \<and> filter (\<lambda>s. cs_head_sha s = br_oid (in_head input) \<and> cs_rerequestable s) (hl_check_suites l) = [only]
          \<and> cs_id only = suite)"
proof -
  have stall: "stalls_forever st \<longleftrightarrow> st = MissingRequiredRuns \<or> st = CancelledSuperseded" for st
    by (cases st) simp_all
  have suite: "rerequestable_suite lineage head_sha = Some suite \<longleftrightarrow>
      (\<exists>l only. lineage = Some l \<and> hl_complete l \<and> hl_head_sha l = head_sha
          \<and> filter (\<lambda>s. cs_head_sha s = head_sha \<and> cs_rerequestable s) (hl_check_suites l) = [only]
          \<and> cs_id only = suite)" for lineage head_sha
    by (auto simp: rerequestable_suite_def exact_lineage_def filter_opt_def
        split: option.splits list.splits if_splits)
  show ?thesis
    unfolding suite [symmetric] stall assess_simps(2)
    by (auto simp: assess_recovery_def split: option.splits)
qed

text \<open>
  A missing context outranks a failing one: a sample head with a current failure of one required
  check and no run at all of another is \<open>MissingRequiredRuns\<close>, and the assessment offers to
  rerequest its only suite, although the branch for failures leaves the head to the failure policy.
\<close>

theorem missing_context_rerequests_failing_suite:
  "some_state CtxFailing (ra_coverage (assess (sample_input [''a'', ''b''] Failure)))
   \<and> ra_status (assess (sample_input [''a'', ''b''] Failure)) = MissingRequiredRuns
   \<and> ra_recovery (assess (sample_input [''a'', ''b''] Failure)) = RerequestCheckSuite 9"
proof -
  have "cov_state (context_coverage (sample_input [''a'', ''b''] Failure)
      \<lparr>rc_context = ''a'', rc_app_id = None\<rparr>) = CtxFailing"
    by (simp add: cov_state_context sample_current state_from_checks_def Let_def)
  then have "some_state CtxFailing (ra_coverage (assess (sample_input [''a'', ''b''] Failure)))"
    by (simp add: assess_simps some_state_coverage sample_policy_checks)
  then show ?thesis
    unfolding assess_simps(2) sample_missing
    by (simp add: assess_recovery_def rerequestable_suite_def exact_lineage_def filter_opt_def
        sample_input_defs)
qed

subsection \<open>The lineage bound\<close>

lemma dedup_keys: "key ` set (dedup_by_key key xs) = key ` set xs"
  by (induction key xs rule: dedup_by_key.induct) auto

lemma dedup_subset: "set (dedup_by_key key xs) \<subseteq> set xs"
  by (induction key xs rule: dedup_by_key.induct) auto

lemma dedup_distinct: "distinct (map key xs) \<Longrightarrow> dedup_by_key key xs = xs"
  by (induction key xs rule: dedup_by_key.induct) auto

lemma dedup_strict:
  "sorted (map (\<lambda>r. - int (key r)) xs) \<Longrightarrow> sorted_wrt (\<lambda>a b. key b < key a) (dedup_by_key key xs)"
proof (induction key xs rule: dedup_by_key.induct)
  case (3 key x y zs)
  show ?case
  proof (cases "key x = key y")
    case True
    with 3 show ?thesis by simp
  next
    case False
    have "key z < key x" if "z \<in> set (dedup_by_key key (y # zs))" for z
      using that False "3.prems" dedup_subset [of key "y # zs"] by fastforce
    with 3 False show ?thesis by simp
  qed
qed simp_all

abbreviation newest_first :: "('a \<Rightarrow> nat) \<Rightarrow> 'a list \<Rightarrow> 'a list" where
  "newest_first key rows \<equiv> dedup_by_key key (sort_key (\<lambda>r. - int (key r)) rows)"

lemma newest_first_strict: "sorted_wrt (\<lambda>a b. key b < key a) (newest_first key rows)"
  by (rule dedup_strict) simp

lemma newest_first_keys: "key ` set (newest_first key rows) = key ` set rows"
  using dedup_keys [of key "sort_key (\<lambda>r. - int (key r)) rows"] by simp

lemma bound_rows_newest:
  assumes "k \<in> key ` set rows" "k \<notin> key ` set (bound_rows key rows)" "r \<in> set (bound_rows key rows)"
  shows "k < key r"
proof -
  let ?n = "newest_first key rows" and ?m = max_reported_lineage
  have "sorted_wrt (\<lambda>a b. key b < key a) (take ?m ?n @ drop ?m ?n)" using newest_first_strict by simp
  then have split: "\<forall>a\<in>set (take ?m ?n). \<forall>b\<in>set (drop ?m ?n). key b < key a"
    unfolding sorted_wrt_append by blast
  have "k \<in> key ` (set (take ?m ?n) \<union> set (drop ?m ?n))"
    using assms(1) newest_first_keys [of key rows] by (simp only: set_append [symmetric] append_take_drop_id)
  with assms(2,3) split show ?thesis by (auto simp: bound_rows_def)
qed

lemma strict_desc_distinct: "sorted_wrt (\<lambda>a b. key b < (key a :: nat)) xs \<Longrightarrow> distinct (map key xs)"
  by (induction xs) auto

lemma bound_rows_strict: "sorted_wrt (<) (map key (bound_rows key rows))"
proof -
  let ?t = "take max_reported_lineage (newest_first key rows)"
  have "sorted_wrt (\<lambda>a b. key b < key a) ?t" by (rule sorted_wrt_take [OF newest_first_strict])
  then have "distinct (map key ?t)" by (rule strict_desc_distinct)
  then have "distinct (map key (sort_key key ?t))" by (simp add: distinct_map)
  then show ?thesis by (simp add: bound_rows_def strict_sorted_iff)
qed

lemma length_bs_of_list: "length (bs_of_list xs) = length xs \<longleftrightarrow> distinct xs"
proof -
  have "length (bs_of_list xs) = card (set xs)"
    using distinct_card [OF sorted_wrt_less_distinct, of "bs_of_list xs"] bs_wf_of_list [of xs]
    by (simp add: bs_wf_def)
  then show ?thesis using distinct_card card_distinct by metis
qed

lemma bound_rows_whole:
  assumes "length rows \<le> max_reported_lineage" "distinct (map key rows)"
  shows "mset (bound_rows key rows) = mset rows"
proof -
  have "distinct (map key (sort_key (\<lambda>r. - int (key r)) rows))"
    using assms(2) by (simp add: distinct_map)
  from dedup_distinct [OF this] assms(1) show ?thesis by (simp add: bound_rows_def)
qed

lemma length_bound_rows: "length (bound_rows key rows) \<le> max_reported_lineage"
  by (simp add: bound_rows_def)

text \<open>
  The diagnostic bound of a lineage keeps the newest generations and is honest about the rest:
  runs and suites come out in strictly ascending id order, at most \<open>max_reported_lineage\<close> of each;
  an id that was dropped is smaller than every id that was kept; and a bounded lineage still marked
  complete holds exactly the rows that were read.
\<close>

theorem lineage_bounded_keeps_newest:
  "sorted_wrt (<) (map wr_run_id (hl_workflow_runs (lineage_bounded l)))
   \<and> sorted_wrt (<) (map cs_id (hl_check_suites (lineage_bounded l)))
   \<and> length (hl_workflow_runs (lineage_bounded l)) \<le> max_reported_lineage
   \<and> length (hl_check_suites (lineage_bounded l)) \<le> max_reported_lineage
   \<and> (\<forall>k\<in>wr_run_id ` set (hl_workflow_runs l) - wr_run_id ` set (hl_workflow_runs (lineage_bounded l)).
        \<forall>r\<in>set (hl_workflow_runs (lineage_bounded l)). k < wr_run_id r)
   \<and> (\<forall>k\<in>cs_id ` set (hl_check_suites l) - cs_id ` set (hl_check_suites (lineage_bounded l)).
        \<forall>s\<in>set (hl_check_suites (lineage_bounded l)). k < cs_id s)
   \<and> (hl_complete (lineage_bounded l) \<longrightarrow>
        hl_complete l \<and> mset (hl_workflow_runs (lineage_bounded l)) = mset (hl_workflow_runs l)
        \<and> mset (hl_check_suites (lineage_bounded l)) = mset (hl_check_suites l))"
proof -
  have rows: "hl_workflow_runs (lineage_bounded l) = bound_rows wr_run_id (hl_workflow_runs l)"
    "hl_check_suites (lineage_bounded l) = bound_rows cs_id (hl_check_suites l)"
    by (simp_all add: lineage_bounded_def Let_def)
  have "hl_complete (lineage_bounded l) \<Longrightarrow> hl_complete l
      \<and> length (hl_workflow_runs l) \<le> max_reported_lineage \<and> distinct (map wr_run_id (hl_workflow_runs l))
      \<and> length (hl_check_suites l) \<le> max_reported_lineage \<and> distinct (map cs_id (hl_check_suites l))"
    using length_bs_of_list [of "map wr_run_id (hl_workflow_runs l)"]
      length_bs_of_list [of "map cs_id (hl_check_suites l)"]
    by (simp add: lineage_bounded_def Let_def split: if_splits)
  then show ?thesis
    unfolding rows
    using bound_rows_whole [of "hl_workflow_runs l" wr_run_id] bound_rows_whole [of "hl_check_suites l" cs_id]
    by (intro conjI ballI impI) (auto simp: bound_rows_strict length_bound_rows intro: bound_rows_newest)
qed

theorem lineage_bounded_keeps_newest_witness:
  "hl_complete (lineage_bounded sample_lineage)
   \<and> mset (hl_check_suites (lineage_bounded sample_lineage)) = {#sample_suite#}"
proof -
  have "hl_complete (lineage_bounded sample_lineage)"
    by (simp add: lineage_bounded_def sample_lineage_def Let_def max_reported_lineage_def bs_of_list_def)
  with lineage_bounded_keeps_newest [of sample_lineage] show ?thesis by (simp add: sample_lineage_def)
qed

subsection \<open>The problem list and the seal\<close>

definition problems_bounded :: "missing_required_runs_problem list \<Rightarrow> bool" where
  "problems_bounded ps =
     (distinct (map mp_fingerprint ps) \<and> length ps \<le> max_missing_required_runs_problems)"

text \<open>
  The problem list stays bounded and free of duplicates whatever is pushed: pushing keeps every
  problem already there, returns true exactly when it appended, and refuses only a fingerprint
  already present or a full list.
\<close>

theorem push_problem_bounded:
  assumes "problems_bounded ps"
  shows "problems_bounded (fst (push_problem ps p))
     \<and> fst (push_problem ps p) = ps @ (if snd (push_problem ps p) then [p] else [])
     \<and> (snd (push_problem ps p) \<longleftrightarrow>
          mp_fingerprint p \<notin> mp_fingerprint ` set ps \<and> length ps < max_missing_required_runs_problems)"
proof -
  have "(\<exists>e\<in>set ps. mp_fingerprint e = mp_fingerprint p) \<longleftrightarrow> mp_fingerprint p \<in> mp_fingerprint ` set ps"
    by (metis image_iff)
  with assms show ?thesis by (auto simp: push_problem_def problems_bounded_def)
qed

definition sample_problem :: missing_required_runs_problem where
  "sample_problem =
     \<lparr>mp_kind = KMissingRequiredRuns, mp_caravan_id = 1, mp_pr = 1, mp_head = branch_at ''h'',
      mp_base = branch_at ''m'', mp_contexts = [''b''], mp_retrigger = None,
      mp_operator_action_required = True, mp_message = [], mp_next = [], mp_fingerprint = ''f''\<rparr>"

theorem push_problem_bounded_witness:
  "problems_bounded [] \<and> problems_bounded (fst (push_problem [] sample_problem))
   \<and> snd (push_problem [] sample_problem)"
  using push_problem_bounded [of "[]" sample_problem]
  by (simp add: problems_bounded_def max_missing_required_runs_problems_def)

text \<open>
  A receipt that was sealed verifies, and editing one byte of what was sealed is detected: if
  the serialised body of another receipt with the same hash differs in exactly one byte, that
  receipt does not verify.
\<close>

theorem receipt_seal:
  assumes "receipt to_vec repository caravan_id assessment retrigger pv = Some r"
  shows "hash_is_valid to_vec r
     \<and> (rr_evidence_hash r' = rr_evidence_hash r
        \<and> to_vec (r\<lparr>rr_evidence_hash := []\<rparr>) = Some (before @ a # after)
        \<and> to_vec (r'\<lparr>rr_evidence_hash := []\<rparr>) = Some (before @ b # after) \<and> a \<noteq> b
        \<longrightarrow> \<not> hash_is_valid to_vec r')"
proof -
  from assms have valid: "hash_is_valid to_vec r"
    by (auto simp: receipt_def finalize_hash_def hash_is_valid_def Let_def)
  then show ?thesis
    using fnv1a64_byte_inject [of before a "after" b] by (auto simp: hash_is_valid_def)
qed

theorem receipt_seal_witness:
  "\<exists>r. receipt (\<lambda>r. Some (show_nat (rr_pr r))) \<lparr>repo_owner = ''o'', repo_name = ''r''\<rparr> 1
          (assess (sample_input [''a''] Success)) None (provenance ''op'' ''why'') = Some r
      \<and> hash_is_valid (\<lambda>r. Some (show_nat (rr_pr r))) r
      \<and> \<not> hash_is_valid (\<lambda>r. Some (show_nat (rr_pr r))) (r\<lparr>rr_pr := 2\<rparr>)"
proof -
  let ?to = "\<lambda>r. Some (show_nat (rr_pr r))"
  obtain r where r: "receipt ?to \<lparr>repo_owner = ''o'', repo_name = ''r''\<rparr> 1
      (assess (sample_input [''a''] Success)) None (provenance ''op'' ''why'') = Some r"
    by (simp add: receipt_def finalize_hash_def Let_def)
  have pr: "rr_pr r = 1"
    using r by (auto simp: receipt_def finalize_hash_def assess_def Let_def sample_input_def split: prod.splits)
  have "show_nat 1 = ''1''" "show_nat 2 = ''2''" by (simp_all add: show_nat.simps digit_char_def char_of_def bit_0)
  then show ?thesis
    using receipt_seal [OF r, of "r\<lparr>rr_pr := 2\<rparr>" "[]" "CHR ''1''" "[]" "CHR ''2''"] r pr by auto
qed

end
