(* ===== verification/Generation_Facts.thy ===== *)
theory Generation_Facts
  imports Generation
begin

text \<open>
  What generation integrity guarantees: at most one generation of a stream is admissible, closure
  policy acts only on exact supersession evidence, provider comparisons are bounded, and an owner
  declaration is read back as it was written.
\<close>

subsection \<open>Stream components\<close>

lemma same_stream_slot_sym: "same_stream_slot l r \<longleftrightarrow> same_stream_slot r l"
  by (auto simp: same_stream_slot_def bs_disjoint_def)

lemma stream_component_mset:
  "mset (fst (stream_component component queue unseen)) + mset (snd (stream_component component queue unseen))
     = mset component + mset queue + mset unseen"
proof (induction component queue unseen rule: stream_component.induct)
  case (2 component current queue unseen)
  define linked free where "linked = mset (filter (\<lambda>p. same_stream_slot (snd current) (snd p)) unseen)"
    and "free = mset (filter (\<lambda>p. \<not> same_stream_slot (snd current) (snd p)) unseen)"
  have "linked + free = mset unseen"
    unfolding linked_def free_def mset_filter by (rule multiset_partition [symmetric])
  moreover have "mset (fst (stream_component component (current # queue) unseen))
      + mset (snd (stream_component component (current # queue) unseen))
      = mset (component @ [current]) + (mset queue + linked) + free"
    using "2.IH" unfolding linked_def free_def by (simp del: mset_filter)
  ultimately show ?case by (simp add: ac_simps)
qed simp

lemma stream_component_closed:
  "\<forall>x\<in>set component. \<forall>y\<in>set unseen. \<not> same_stream_slot (snd x) (snd y) \<Longrightarrow>
     x \<in> set (fst (stream_component component queue unseen)) \<Longrightarrow>
     y \<in> set (snd (stream_component component queue unseen)) \<Longrightarrow> \<not> same_stream_slot (snd x) (snd y)"
proof (induction component queue unseen rule: stream_component.induct)
  case (2 component current queue unseen)
  have "\<forall>x\<in>set (component @ [current]). \<forall>y\<in>set (filter (\<lambda>p. \<not> same_stream_slot (snd current) (snd p)) unseen).
      \<not> same_stream_slot (snd x) (snd y)"
  proof (intro ballI)
    fix x y
    assume "x \<in> set (component @ [current])"
      "y \<in> set (filter (\<lambda>p. \<not> same_stream_slot (snd current) (snd p)) unseen)"
    then show "\<not> same_stream_slot (snd x) (snd y)" using "2.prems"(1) by (cases "x = current") auto
  qed
  from "2.IH" [OF this] "2.prems"(2,3) show ?case by simp
qed auto

lemma stream_components_mset: "mset (concat (stream_components es)) = mset es"
proof (induction es rule: stream_components.induct)
  case (2 start unseen)
  obtain c r where cr: "stream_component [] [start] unseen = (c, r)" by fastforce
  have "mset (concat (stream_components r)) = mset r" using 2 [OF cr [symmetric]] by simp
  moreover have "mset c + mset r = mset (start # unseen)"
    using stream_component_mset [of "[]" "[start]" unseen] cr by simp
  ultimately show ?case using cr by simp
qed simp

lemma stream_components_separate:
  assumes "x \<in> set (concat (stream_components es))" "y \<in> set (concat (stream_components es))"
    and "same_stream_slot (snd x) (snd y)"
  shows "\<exists>c\<in>set (stream_components es). x \<in> set c \<and> y \<in> set c"
  using assms
proof (induction es rule: stream_components.induct)
  case (2 start unseen)
  obtain c r where cr: "stream_component [] [start] unseen = (c, r)" by fastforce
  have comps: "stream_components (start # unseen) = sort_key entry_pr c # stream_components r"
    using cr by simp
  have rest: "set (concat (stream_components r)) = set r"
    by (rule mset_eq_setD) (rule stream_components_mset)
  have closed: "\<not> same_stream_slot (snd a) (snd b)" if "a \<in> set c" "b \<in> set r" for a b
    using stream_component_closed [of "[]" unseen a "[start]" b] that cr by simp
  have sets: "set (concat (stream_components (start # unseen))) = set c \<union> set r"
    unfolding comps using rest by simp
  consider "x \<in> set c" "y \<in> set c" | "x \<in> set r" "y \<in> set r"
    using "2.prems" closed same_stream_slot_sym unfolding sets by blast
  then show ?case
  proof cases
    case 1
    then show ?thesis unfolding comps by simp
  next
    case 2
    then show ?thesis
      using "2.IH" [OF cr [symmetric]] "2.prems"(3) rest unfolding comps by auto
  qed
qed simp

lemma stream_components_nonempty: "c \<in> set (stream_components es) \<Longrightarrow> c \<noteq> []"
proof (induction es rule: stream_components.induct)
  case (2 start unseen)
  obtain c' r where cr: "stream_component [] [start] unseen = (c', r)" by fastforce
  have "c' \<noteq> []"
  proof -
    have "length (fst (stream_component comp q u)) \<ge> length comp + length q" for comp q u
      by (induction comp q u rule: stream_component.induct) auto
    from this [of "[]" "[start]" unseen] show ?thesis using cr by auto
  qed
  then have "sort_key entry_pr c' \<noteq> []" by (metis length_0_conv length_sort)
  with 2 cr show ?case by auto
qed simp

lemma stream_components_sorted: "c \<in> set (stream_components es) \<Longrightarrow> sorted (map entry_pr c)"
proof (induction es rule: stream_components.induct)
  case (2 start unseen)
  obtain c' r where cr: "stream_component [] [start] unseen = (c', r)" by fastforce
  with 2 show ?case by auto
qed simp

subsection \<open>The verdict of one component\<close>

text \<open>
  What a reviewed link or an exact comparison proves of a canonical generation and a sibling.
\<close>

definition source_contains ::
    "(commit_oid \<Rightarrow> commit_oid \<Rightarrow> commit_relation) \<Rightarrow> stream_entry \<Rightarrow> stream_entry \<Rightarrow> bool" where
  "source_contains compare newer older =
     (if entry_pr older < entry_pr newer
      then compare (cg_source_head (snd older)) (cg_source_head (snd newer)) \<in> {Identical, Ahead}
      else compare (cg_source_head (snd newer)) (cg_source_head (snd older)) \<in> {Identical, Behind})"

definition supersession_proved ::
    "(commit_oid \<Rightarrow> commit_oid \<Rightarrow> commit_relation) \<Rightarrow> stream_entry \<Rightarrow> stream_entry \<Rightarrow> bool" where
  "supersession_proved compare canonical e =
     (entry_pr e \<in> set (gf_supersedes (fst canonical)) \<or> source_contains compare canonical e)"

definition canonical_row ::
    "(commit_oid \<Rightarrow> commit_oid \<Rightarrow> commit_relation) \<Rightarrow> stream_entry list \<Rightarrow> stream_entry \<Rightarrow> string
     \<Rightarrow> stream_entry \<Rightarrow> generation_finding option \<Rightarrow> bool" where
  "canonical_row compare component canonical authority e row \<longleftrightarrow>
     (if entry_pr e = entry_pr canonical
      then \<exists>f. row = Some f \<and> fd_disposition f = CurrentGeneration \<and> fd_lifecycle f = Active
      else row = Some (superseded_finding component canonical authority e)
           \<and> supersession_proved compare canonical e)"

definition canonical_verdict ::
    "(commit_oid \<Rightarrow> commit_oid \<Rightarrow> commit_relation) \<Rightarrow> stream_entry list
     \<Rightarrow> (pr_number, generation_finding) btree_map \<Rightarrow> bool" where
  "canonical_verdict compare component m \<longleftrightarrow>
     (\<exists>canonical\<in>set component. \<exists>authority. \<forall>e\<in>set component.
        canonical_row compare component canonical authority e (bt_get m (entry_pr e)))"

definition ambiguous_verdict ::
    "stream_entry list \<Rightarrow> (pr_number, generation_finding) btree_map \<Rightarrow> bool" where
  "ambiguous_verdict component m \<longleftrightarrow>
     (\<forall>e\<in>set component. \<exists>f. bt_get m (entry_pr e) = Some f \<and> fd_disposition f = AmbiguousGeneration
        \<and> fd_lifecycle f = TemporaryDeferral)"

abbreviation component_verdict where
  "component_verdict compare component m \<equiv>
     canonical_verdict compare component m \<or> ambiguous_verdict component m"

lemma bt_get_fold_insert:
  assumes "distinct (map key xs)"
  shows "bt_get (fold (\<lambda>x. bt_insert (key x) (val x)) xs m) k =
     (case find (\<lambda>x. key x = k) xs of None \<Rightarrow> bt_get m k | Some x \<Rightarrow> Some (val x))"
  using assms
proof (induction xs arbitrary: m)
  case (Cons x xs)
  have IH: "bt_get (fold (\<lambda>x. bt_insert (key x) (val x)) xs (bt_insert (key x) (val x) m)) k =
      (case find (\<lambda>x. key x = k) xs of None \<Rightarrow> bt_get (bt_insert (key x) (val x) m) k | Some x \<Rightarrow> Some (val x))"
    using Cons by simp
  show ?case
  proof (cases "key x = k")
    case True
    have "key x \<notin> key ` set xs" using Cons.prems by simp
    then have "\<forall>y\<in>set xs. key y \<noteq> k" using True by (metis image_eqI)
    then have "find (\<lambda>x. key x = k) xs = None" by (simp add: find_None_pred)
    with True IH show ?thesis by (simp add: bt_get_insert)
  next
    case False
    then have "bt_get (bt_insert (key x) (val x) m) k = bt_get m k" by (simp add: bt_get_insert)
    with IH False show ?thesis by (cases "find (\<lambda>x. key x = k) xs") simp_all
  qed
qed simp

lemma find_entry:
  assumes "distinct (map key xs)" "x \<in> set xs"
  shows "find (\<lambda>y. key y = key x) xs = Some x"
  using assms by (induction xs) (auto simp: image_iff)

lemma fold_insert_entry:
  "distinct (map entry_pr c) \<Longrightarrow> e \<in> set c \<Longrightarrow>
     bt_get (fold (\<lambda>x. bt_insert (entry_pr x) (val x)) c m) (entry_pr e) = Some (val e)"
  using bt_get_fold_insert [of entry_pr c val m "entry_pr e"] find_entry [of entry_pr c e] by simp

lemma fold_insert_other:
  "distinct (map entry_pr c) \<Longrightarrow> n \<notin> entry_pr ` set c \<Longrightarrow>
     bt_get (fold (\<lambda>x. bt_insert (entry_pr x) (val x)) c m) n = bt_get m n"
  by (auto simp: bt_get_fold_insert find_None_pred split: option.splits dest: find_map_pred)

lemma record_canonical_verdict:
  assumes "distinct (map entry_pr c)" "canonical \<in> set c"
    and "\<And>e. e \<in> set c \<Longrightarrow> entry_pr e \<noteq> entry_pr canonical \<Longrightarrow> supersession_proved compare canonical e"
  shows "canonical_verdict compare c (record_canonical_component c canonical authority m)"
  unfolding canonical_verdict_def record_canonical_component_def
  using assms
  by (intro bexI [of _ canonical] exI [of _ authority])
    (auto simp: fold_insert_entry canonical_row_def canonical_finding_def current_finding_def)

lemma record_ambiguous_verdict:
  assumes "distinct (map entry_pr c)"
  shows "ambiguous_verdict c (record_ambiguous_component c reason next_action m)"
  unfolding ambiguous_verdict_def record_ambiguous_component_def
  using assms by (auto simp: fold_insert_entry ambiguous_finding_def)

subsubsection \<open>Comparisons\<close>

lemma ordered_pairs_set: "p \<in> set (ordered_pairs xs) \<Longrightarrow> fst p \<in> set xs \<and> snd p \<in> set xs"
  by (induction xs) auto

definition relations_from ::
    "(commit_oid \<Rightarrow> commit_oid \<Rightarrow> commit_relation) \<Rightarrow> (stream_entry \<times> stream_entry) list
     \<Rightarrow> comparison_state \<Rightarrow> bool" where
  "relations_from compare pairs s \<longleftrightarrow>
     (\<forall>k R. bt_get (cmp_relations s) k = Some R \<longrightarrow>
        (\<exists>reason. R = RelUnknown reason)
        \<or> (\<exists>p\<in>set pairs. k = (entry_pr (fst p), entry_pr (snd p))
             \<and> R = compare (cg_source_head (snd (fst p))) (cg_source_head (snd (snd p)))))
     \<and> cmp_used s \<le> max_stream_comparisons
     \<and> (cmp_truncated s \<longrightarrow> cmp_used s = max_stream_comparisons)"

lemma compare_pair_relations:
  assumes "p \<in> set pairs" "relations_from compare pairs s"
  shows "relations_from compare pairs (compare_pair compare p s)"
  unfolding relations_from_def
proof (intro conjI allI impI)
  fix k R
  assume "bt_get (cmp_relations (compare_pair compare p s)) k = Some R"
  then have "(\<exists>reason. R = RelUnknown reason)
      \<or> k = (entry_pr (fst p), entry_pr (snd p))
        \<and> R = compare (cg_source_head (snd (fst p))) (cg_source_head (snd (snd p)))
      \<or> bt_get (cmp_relations s) k = Some R"
    by (auto simp: compare_pair_def Let_def bt_get_insert split: if_splits)
  with assms show "(\<exists>reason. R = RelUnknown reason)
      \<or> (\<exists>p\<in>set pairs. k = (entry_pr (fst p), entry_pr (snd p))
           \<and> R = compare (cg_source_head (snd (fst p))) (cg_source_head (snd (snd p))))"
    unfolding relations_from_def by blast
qed (use assms(2) in \<open>auto simp: relations_from_def compare_pair_def Let_def\<close>)

lemma relations_of_component:
  assumes "used \<le> max_stream_comparisons" "truncated \<longrightarrow> used = max_stream_comparisons"
  shows "relations_from compare (ordered_pairs c)
     (fold (compare_pair compare) (ordered_pairs c)
        \<lparr>cmp_relations = [], cmp_used = used, cmp_truncated = truncated\<rparr>)"
proof (rule fold_invariant_set)
  show "relations_from compare (ordered_pairs c)
      \<lparr>cmp_relations = [], cmp_used = used, cmp_truncated = truncated\<rparr>"
    using assms by (simp add: relations_from_def bt_get_def)
qed (rule compare_pair_relations)

lemma contains_proved:
  assumes rel: "relations_from compare (ordered_pairs c) s" and d: "distinct (map entry_pr c)"
    and mem: "canonical \<in> set c" "e \<in> set c" and ne: "entry_pr e \<noteq> entry_pr canonical"
    and cont: "contains (cmp_relations s) (entry_pr canonical) (entry_pr e)"
  shows "source_contains compare canonical e"
proof -
  have inj: "x = y" if "x \<in> set c" "y \<in> set c" "entry_pr x = entry_pr y" for x y
    using d that by (auto simp: distinct_map dest: inj_onD)
  have known: "R = compare (cg_source_head (snd l)) (cg_source_head (snd r))"
    if R: "bt_get (cmp_relations s) (entry_pr l, entry_pr r) = Some R" "\<nexists>reason. R = RelUnknown reason"
      and lr: "l \<in> set c" "r \<in> set c" for l r R
  proof -
    have "\<exists>p\<in>set (ordered_pairs c). (entry_pr l, entry_pr r) = (entry_pr (fst p), entry_pr (snd p))
        \<and> R = compare (cg_source_head (snd (fst p))) (cg_source_head (snd (snd p)))"
      using rel R unfolding relations_from_def by blast
    then obtain p where p: "p \<in> set (ordered_pairs c)" "entry_pr (fst p) = entry_pr l"
      "entry_pr (snd p) = entry_pr r"
      and R': "R = compare (cg_source_head (snd (fst p))) (cg_source_head (snd (snd p)))"
      by (auto simp del: split_paired_All)
    have "fst p = l" "snd p = r" using inj ordered_pairs_set [OF p(1)] p(2,3) lr by blast+
    with R' show ?thesis by simp
  qed
  show ?thesis
  proof (cases "entry_pr e < entry_pr canonical")
    case True
    then obtain R where "bt_get (cmp_relations s) (entry_pr e, entry_pr canonical) = Some R"
      "R = Identical \<or> R = Ahead"
      using cont ne by (auto simp: contains_def split: option.splits commit_relation.splits)
    with known [OF this(1)] mem True show ?thesis by (auto simp: source_contains_def)
  next
    case False
    then obtain R where "bt_get (cmp_relations s) (entry_pr canonical, entry_pr e) = Some R"
      "R = Identical \<or> R = Behind"
      using cont ne by (auto simp: contains_def split: option.splits commit_relation.splits)
    with known [OF this(1)] mem False show ?thesis by (auto simp: source_contains_def)
  qed
qed

lemma last_sort_key: "xs \<noteq> [] \<Longrightarrow> last (sort_key key xs) \<in> set xs"
proof -
  assume "xs \<noteq> []"
  then have "sort_key key xs \<noteq> []" by (metis length_0_conv length_sort)
  from last_in_set [OF this] show ?thesis by simp
qed

lemma maxima_spec:
  assumes "maxima relations c = [canonical]"
  shows "canonical \<in> set c \<and> (\<forall>e\<in>set c. contains relations (entry_pr canonical) (entry_pr e))"
proof -
  define found where "found = filter (\<lambda>x. \<forall>e\<in>set c. contains relations (entry_pr x) (entry_pr e)) c"
  have "[canonical] = (if length found > 1 then [last (sort_key created_key found)] else found)"
    using assms unfolding maxima_def Let_def found_def by (rule sym)
  moreover have "last (sort_key created_key found) \<in> set found" if "length found > 1"
    using that by (intro last_sort_key) auto
  ultimately have "canonical \<in> set found" by (auto split: if_splits)
  then show ?thesis unfolding found_def by simp
qed

lemma linked_canonicals_spec:
  assumes "linked_canonicals c = [canonical]"
  shows "canonical \<in> set c
    \<and> (\<forall>e\<in>set c. entry_pr e \<noteq> entry_pr canonical \<longrightarrow> entry_pr e \<in> set (gf_supersedes (fst canonical)))"
proof -
  have "canonical \<in> set (linked_canonicals c)" using assms by simp
  then show ?thesis by (auto simp: linked_canonicals_def)
qed

subsubsection \<open>Every component gets a verdict\<close>

definition budget_kept :: "analysis_state \<Rightarrow> bool" where
  "budget_kept s \<longleftrightarrow> an_used s \<le> max_stream_comparisons
     \<and> (an_truncated s \<longrightarrow> an_used s = max_stream_comparisons)"

lemma compare_component_relations:
  "budget_kept s \<Longrightarrow> relations_from compare (ordered_pairs c) (compare_component compare c s)"
  unfolding compare_component_def budget_kept_def by (rule relations_of_component) auto

lemma contained_findings_verdict:
  assumes d: "distinct (map entry_pr c)" and rel: "relations_from compare (ordered_pairs c) st"
  shows "component_verdict compare c (contained_findings quote (cmp_relations st) c m)"
proof (cases "\<exists>canonical. maxima (cmp_relations st) c = [canonical]")
  case True
  then obtain canonical where mx: "maxima (cmp_relations st) c = [canonical]" by blast
  have "supersession_proved compare canonical e" if "e \<in> set c" "entry_pr e \<noteq> entry_pr canonical" for e
    using contains_proved [OF rel d _ that] maxima_spec [OF mx] that by (simp add: supersession_proved_def)
  then have "canonical_verdict compare c
      (record_canonical_component c canonical ''exact source containment'' m)"
    using record_canonical_verdict [OF d] maxima_spec [OF mx] by blast
  then show ?thesis using mx by (simp add: contained_findings_def)
next
  case False
  then have "\<exists>reason next_action. contained_findings quote (cmp_relations st) c m
      = record_ambiguous_component c reason next_action m"
    by (auto simp: contained_findings_def split: list.splits prod.splits)
  then show ?thesis using record_ambiguous_verdict [OF d] by metis
qed

lemma classify_component_cases:
  assumes "c \<noteq> []"
  obtains (single) e where "c = [e]"
      "classify_component quote compare c s = s\<lparr>an_findings := bt_insert (entry_pr e)
         (current_finding (fst e) (snd e) [entry_pr e]) (an_findings s)\<rparr>"
  | (linked) l where "linked_canonicals c = [l]"
      "classify_component quote compare c s = s\<lparr>an_findings := record_canonical_component c l
         ''reviewed provider-visible canonical supersession link'' (an_findings s)\<rparr>"
  | (conflict) reason next_action where
      "classify_component quote compare c s =
         s\<lparr>an_findings := record_ambiguous_component c reason next_action (an_findings s)\<rparr>"
  | (compared) "classify_component quote compare c s =
         (let st = compare_component compare c s
          in s\<lparr>an_findings := contained_findings quote (cmp_relations st) c (an_findings s),
               an_used := cmp_used st, an_truncated := cmp_truncated st\<rparr>)"
proof (cases "\<exists>e. c = [e]")
  case True
  then show thesis using single by (auto simp: classify_component_def)
next
  case False
  then obtain x y zs where c: "c = x # y # zs" using assms by (metis list.exhaust)
  show thesis
  proof (cases "linked_canonicals c")
    case Nil
    then show thesis using compared c by (simp add: classify_component_def)
  next
    case (Cons l ls)
    then show thesis using linked conflict c by (cases ls) (simp_all add: classify_component_def)
  qed
qed

lemma classify_component_verdict:
  assumes d: "distinct (map entry_pr c)" and ne: "c \<noteq> []" and budget: "budget_kept s"
  shows "component_verdict compare c (an_findings (classify_component quote compare c s))"
proof (cases rule: classify_component_cases [OF ne, where quote = quote and compare = compare and s = s])
  case (1 e)
  then show ?thesis by (simp add: canonical_verdict_def canonical_row_def bt_get_insert current_finding_def)
next
  case (2 l)
  then show ?thesis
    using record_canonical_verdict [OF d] linked_canonicals_spec [OF 2(1)]
    by (simp add: supersession_proved_def)
next
  case (3 reason next_action)
  then show ?thesis using record_ambiguous_verdict [OF d] by simp
next
  case 4
  then show ?thesis
    using contained_findings_verdict [OF d compare_component_relations [OF budget]] by (simp add: Let_def)
qed

lemma classify_component_budget:
  assumes "budget_kept s" "c \<noteq> []"
  shows "budget_kept (classify_component quote compare c s)"
proof (cases rule: classify_component_cases [OF assms(2), where quote = quote and compare = compare and s = s])
  case 4
  from compare_component_relations [OF assms(1), of compare c]
  have "cmp_used (compare_component compare c s) \<le> max_stream_comparisons"
    "cmp_truncated (compare_component compare c s) \<longrightarrow>
       cmp_used (compare_component compare c s) = max_stream_comparisons"
    unfolding relations_from_def by blast+
  with 4 show ?thesis by (simp add: budget_kept_def Let_def)
qed (use assms in \<open>simp_all add: budget_kept_def\<close>)

subsubsection \<open>All components together\<close>

definition findings_keyed :: "(pr_number, generation_finding) btree_map \<Rightarrow> bool" where
  "findings_keyed m \<longleftrightarrow> bt_wf m \<and> (\<forall>n f. bt_get m n = Some f \<longrightarrow> fd_pr f = n)"

lemma findings_keyed_insert: "findings_keyed m \<Longrightarrow> fd_pr f = n \<Longrightarrow> findings_keyed (bt_insert n f m)"
  by (auto simp: findings_keyed_def bt_wf_insert bt_get_insert)

lemma findings_keyed_record:
  "findings_keyed m \<Longrightarrow> findings_keyed (record_canonical_component c canonical authority m)"
  "findings_keyed m \<Longrightarrow> findings_keyed (record_ambiguous_component c reason next_action m)"
  unfolding record_canonical_component_def record_ambiguous_component_def
  by (rule fold_invariant_set, assumption, auto intro!: findings_keyed_insert
      simp: canonical_finding_def current_finding_def superseded_finding_def ambiguous_finding_def)+

lemma record_other:
  assumes "distinct (map entry_pr c)" "n \<notin> entry_pr ` set c"
  shows "bt_get (record_canonical_component c canonical authority m) n = bt_get m n"
    and "bt_get (record_ambiguous_component c reason next_action m) n = bt_get m n"
  unfolding record_canonical_component_def record_ambiguous_component_def
  by (rule fold_insert_other [OF assms])+

lemma contained_findings_cases:
  obtains canonical authority where
      "contained_findings quote relations c m = record_canonical_component c canonical authority m"
  | reason next_action where
      "contained_findings quote relations c m = record_ambiguous_component c reason next_action m"
proof (cases "\<exists>canonical. maxima relations c = [canonical]")
  case True
  then show thesis using that(1) by (auto simp: contained_findings_def)
next
  case False
  then have "\<exists>reason next_action. contained_findings quote relations c m
      = record_ambiguous_component c reason next_action m"
    by (auto simp: contained_findings_def split: list.splits prod.splits)
  then show thesis using that(2) by blast
qed

lemma classify_component_frame:
  assumes d: "distinct (map entry_pr c)" and ne: "c \<noteq> []"
  shows "n \<notin> entry_pr ` set c \<Longrightarrow>
      bt_get (an_findings (classify_component quote compare c s)) n = bt_get (an_findings s) n"
    and "findings_keyed (an_findings s) \<Longrightarrow> findings_keyed (an_findings (classify_component quote compare c s))"
proof -
  let ?m = "an_findings (classify_component quote compare c s)"
  have "(n \<notin> entry_pr ` set c \<longrightarrow> bt_get ?m n = bt_get (an_findings s) n)
      \<and> (findings_keyed (an_findings s) \<longrightarrow> findings_keyed ?m)"
  proof (cases rule: classify_component_cases [OF ne, where quote = quote and compare = compare and s = s])
    case (1 e)
    then show ?thesis by (auto simp: bt_get_insert current_finding_def intro: findings_keyed_insert)
  next
    case 4
    show ?thesis
      by (rule contained_findings_cases [of quote "cmp_relations (compare_component compare c s)" c "an_findings s"])
        (simp_all add: 4 Let_def record_other [OF d] findings_keyed_record)
  qed (simp_all add: record_other [OF d] findings_keyed_record)
  then show "n \<notin> entry_pr ` set c \<Longrightarrow> bt_get ?m n = bt_get (an_findings s) n"
    "findings_keyed (an_findings s) \<Longrightarrow> findings_keyed ?m" by blast+
qed

lemma component_verdict_cong:
  assumes "\<And>e. e \<in> set c \<Longrightarrow> bt_get m (entry_pr e) = bt_get m' (entry_pr e)"
    and "component_verdict compare c m"
  shows "component_verdict compare c m'"
proof -
  have "canonical_verdict compare c m \<Longrightarrow> canonical_verdict compare c m'"
    using assms(1) by (simp add: canonical_verdict_def)
  moreover have "ambiguous_verdict c m \<Longrightarrow> ambiguous_verdict c m'"
    using assms(1) by (simp add: ambiguous_verdict_def)
  ultimately show ?thesis using assms(2) by blast
qed

lemma fold_classify:
  assumes "distinct (map entry_pr (concat cs))" "\<forall>c\<in>set cs. c \<noteq> []" "budget_kept s"
    "findings_keyed (an_findings s)"
  shows "budget_kept (fold (classify_component quote compare) cs s)
    \<and> findings_keyed (an_findings (fold (classify_component quote compare) cs s))
    \<and> (\<forall>c\<in>set cs. component_verdict compare c (an_findings (fold (classify_component quote compare) cs s)))
    \<and> (\<forall>n. n \<notin> entry_pr ` set (concat cs) \<longrightarrow>
         bt_get (an_findings (fold (classify_component quote compare) cs s)) n = bt_get (an_findings s) n)"
  using assms
proof (induction cs arbitrary: s)
  case (Cons c cs)
  let ?s1 = "classify_component quote compare c s"
  let ?fin = "fold (classify_component quote compare) cs ?s1"
  have d: "distinct (map entry_pr c)" "distinct (map entry_pr (concat cs))" "c \<noteq> []"
    and apart: "entry_pr ` set c \<inter> entry_pr ` set (concat cs) = {}"
    using Cons.prems(1,2) by auto
  have IH: "budget_kept ?fin \<and> findings_keyed (an_findings ?fin)
      \<and> (\<forall>c\<in>set cs. component_verdict compare c (an_findings ?fin))
      \<and> (\<forall>n. n \<notin> entry_pr ` set (concat cs) \<longrightarrow> bt_get (an_findings ?fin) n = bt_get (an_findings ?s1) n)"
    by (rule Cons.IH) (use Cons.prems d classify_component_budget classify_component_frame(2) in auto)
  have "component_verdict compare c (an_findings ?fin)"
  proof (rule component_verdict_cong)
    show "component_verdict compare c (an_findings ?s1)"
      by (rule classify_component_verdict [OF d(1,3) Cons.prems(3)])
    show "bt_get (an_findings ?s1) (entry_pr e) = bt_get (an_findings ?fin) (entry_pr e)" if "e \<in> set c" for e
      using IH apart that by (metis IntI empty_iff image_eqI)
  qed
  moreover have "bt_get (an_findings ?fin) n = bt_get (an_findings s) n"
    if "n \<notin> entry_pr ` set (concat (c # cs))" for n
    using IH classify_component_frame(1) [OF d(1,3)] that by (simp add: image_Un)
  ultimately show ?case using IH by simp
qed auto

subsection \<open>The facts that enter the classification\<close>

definition valid_of :: "pull_request_generation_fact list \<Rightarrow> (pr_number, stream_entry) btree_map" where
  "valid_of facts = snd (fold note_fact facts ([], []))"

definition well_marked :: "pull_request_generation_fact \<Rightarrow> cacophony_generation_provenance \<Rightarrow> bool" where
  "well_marked f p \<longleftrightarrow> gf_metadata_error f = None \<and> gf_provenance f = Some p"

lemma fold_note_fact:
  assumes "distinct (map gf_pr facts)" "bt_wf (snd s)" "findings_keyed (fst s)"
    "\<forall>f\<in>set facts. bt_get (snd s) (gf_pr f) = None"
  shows "bt_wf (snd (fold note_fact facts s)) \<and> findings_keyed (fst (fold note_fact facts s))
    \<and> (\<forall>n f p. bt_get (snd (fold note_fact facts s)) n = Some (f, p) \<longleftrightarrow>
         bt_get (snd s) n = Some (f, p) \<or> f \<in> set facts \<and> gf_pr f = n \<and> well_marked f p)"
  using assms
proof (induction facts arbitrary: s)
  case (Cons x xs)
  let ?s1 = "note_fact x s"
  have x: "gf_pr x \<notin> gf_pr ` set xs" and d: "distinct (map gf_pr xs)" using Cons.prems(1) by auto
  have wf: "bt_wf (snd ?s1)" using Cons.prems(2)
    by (auto simp: note_fact_def bt_wf_insert split: option.split)
  have keyed: "findings_keyed (fst ?s1)" using Cons.prems(3)
    by (auto simp: note_fact_def findings_keyed_insert invalid_finding_def split: option.split)
  have s1: "bt_get (snd ?s1) n = Some (f, p) \<longleftrightarrow>
      bt_get (snd s) n = Some (f, p) \<or> f = x \<and> gf_pr x = n \<and> well_marked x p" for n f p
    using Cons.prems(4) by (auto simp: note_fact_def well_marked_def bt_get_insert split: option.splits if_splits)
  have fresh: "\<forall>f\<in>set xs. bt_get (snd ?s1) (gf_pr f) = None"
  proof
    fix f
    assume f: "f \<in> set xs"
    then have "gf_pr x \<noteq> gf_pr f" using x by auto
    then show "bt_get (snd ?s1) (gf_pr f) = None"
      using Cons.prems(4) f by (auto simp: note_fact_def bt_get_insert split: option.split)
  qed
  from Cons.IH [OF d wf keyed fresh] show ?case unfolding s1 by auto
qed (simp add: well_marked_def)

lemma valid_of_get:
  assumes "distinct (map gf_pr facts)"
  shows "bt_get (valid_of facts) n = Some (f, p) \<longleftrightarrow> f \<in> set facts \<and> gf_pr f = n \<and> well_marked f p"
    and "bt_wf (valid_of facts)" and "findings_keyed (fst (fold note_fact facts ([], [])))"
  using fold_note_fact [OF assms, of "([], [])"]
  by (auto simp: valid_of_def bt_get_def bt_wf_def bt_keys_def findings_keyed_def)

lemma valid_of_entries:
  assumes "distinct (map gf_pr facts)"
  shows "e \<in> set (bt_values (valid_of facts)) \<longleftrightarrow> fst e \<in> set facts \<and> well_marked (fst e) (snd e)"
    and "distinct (map entry_pr (bt_values (valid_of facts)))"
proof -
  note get = valid_of_get(1) [OF assms] and wf = valid_of_get(2) [OF assms]
  show "e \<in> set (bt_values (valid_of facts)) \<longleftrightarrow> fst e \<in> set facts \<and> well_marked (fst e) (snd e)"
    using bt_values_get [OF wf, of e] get by (cases e) auto
  have "entry_pr (snd x) = fst x" if "x \<in> set (valid_of facts)" for x
    using bt_get_entry [OF wf, of "fst x" "snd x"] get that by (cases x) (metis fst_conv snd_conv surj_pair)
  then have "map entry_pr (bt_values (valid_of facts)) = bt_keys (valid_of facts)"
    by (simp add: bt_values_def bt_keys_def)
  then show "distinct (map entry_pr (bt_values (valid_of facts)))"
    using bt.keys_distinct [OF wf] by simp
qed

lemma classify_facts_fold:
  "classify_facts quote compare facts =
     fold (classify_component quote compare) (stream_components (bt_values (valid_of facts)))
       \<lparr>an_findings = fst (fold note_fact facts ([], [])), an_used = 0, an_truncated = False\<rparr>"
  by (simp add: classify_facts_def valid_of_def case_prod_beta Let_def)

lemma components_distinct:
  assumes "distinct (map gf_pr facts)"
  shows "distinct (map entry_pr (concat (stream_components (bt_values (valid_of facts)))))"
proof -
  let ?es = "bt_values (valid_of facts)"
  have "mset (map entry_pr (concat (stream_components ?es))) = mset (map entry_pr ?es)"
    using stream_components_mset [of ?es] by (metis mset_map)
  then show ?thesis using valid_of_entries(2) [OF assms] mset_eq_imp_distinct_iff by blast
qed

lemma classify_facts_verdicts:
  assumes "distinct (map gf_pr facts)"
  shows "findings_keyed (an_findings (classify_facts quote compare facts))"
    and "\<forall>c\<in>set (stream_components (bt_values (valid_of facts))).
      component_verdict compare c (an_findings (classify_facts quote compare facts))"
    and "budget_kept (classify_facts quote compare facts)"
proof -
  let ?es = "bt_values (valid_of facts)"
  let ?s0 = "\<lparr>an_findings = fst (fold note_fact facts ([], [])), an_used = 0, an_truncated = False\<rparr>"
  note eq = classify_facts_fold [of quote compare facts]
  have fc: "budget_kept (fold (classify_component quote compare) (stream_components ?es) ?s0)
    \<and> findings_keyed (an_findings (fold (classify_component quote compare) (stream_components ?es) ?s0))
    \<and> (\<forall>c\<in>set (stream_components ?es). component_verdict compare c
         (an_findings (fold (classify_component quote compare) (stream_components ?es) ?s0)))"
    using fold_classify [OF components_distinct [OF assms], of ?s0 quote compare]
      stream_components_nonempty [of _ ?es] valid_of_get(3) [OF assms]
    by (simp add: budget_kept_def)
  then show "findings_keyed (an_findings (classify_facts quote compare facts))" 
    "\<forall>c\<in>set (stream_components ?es).
       component_verdict compare c (an_findings (classify_facts quote compare facts))"
    "budget_kept (classify_facts quote compare facts)"
    unfolding eq by blast+
qed

lemma finding_for_map:
  assumes "findings_keyed m" "gi_findings st = bt_values m"
  shows "finding_for st n = bt_get m n"
proof -
  have wf: "bt_wf m" using assms(1) by (simp add: findings_keyed_def)
  have fst_pr: "fd_pr (snd x) = fst x" if "x \<in> set m" for x
    using assms(1) bt_get_entry [OF wf, of "fst x" "snd x"] that by (simp add: findings_keyed_def)
  have "find (\<lambda>f. fd_pr f = n) (map snd xs) = map_of xs n" if "\<forall>x\<in>set xs. fd_pr (snd x) = fst x" for xs
    using that by (induction xs) auto
  with fst_pr show ?thesis unfolding finding_for_def assms(2) bt_values_def bt_get_def by blast
qed

subsection \<open>Guarantees\<close>

lemma analyze_map:
  assumes "generation_analyze to_vec quote compare facts = Some st" "distinct (map gf_pr facts)"
  shows "finding_for st n = bt_get (an_findings (classify_facts quote compare facts)) n"
    and "set (gi_findings st) = {f. \<exists>n. bt_get (an_findings (classify_facts quote compare facts)) n = Some f}"
proof -
  let ?m = "an_findings (classify_facts quote compare facts)"
  have eq: "gi_findings st = bt_values ?m"
    using assms(1) by (auto simp: generation_analyze_def Let_def)
  note keyed = classify_facts_verdicts(1) [OF assms(2), of quote compare]
  show "finding_for st n = bt_get ?m n" by (rule finding_for_map [OF keyed eq])
  have wf: "bt_wf ?m" using keyed by (simp add: findings_keyed_def)
  show "set (gi_findings st) = {f. \<exists>n. bt_get ?m n = Some f}"
    unfolding eq by (rule set_eqI) (simp add: bt_values_get [OF wf])
qed

lemma admissible_current:
  assumes "finding_for st n = Some f"
  shows "require_admissible st n = Inr () \<longleftrightarrow> fd_disposition f = CurrentGeneration"
  using assms by (simp add: require_admissible_def split: generation_disposition.split)

text \<open>
  C25. At most one generation of a stream is ever admissible: whatever the provider answers, of two
  different open pull requests with well-formed generation metadata in the same agent, bead and
  stack slot at most one passes the admission guard.
\<close>

theorem one_admissible_generation_per_stream:
  assumes a: "generation_analyze to_vec quote compare facts = Some st" "distinct (map gf_pr facts)"
    and f: "f \<in> set facts" "well_marked f p" and g: "g \<in> set facts" "well_marked g q"
    and slot: "same_stream_slot p q" and ne: "gf_pr f \<noteq> gf_pr g"
  shows "\<not> (require_admissible st (gf_pr f) = Inr () \<and> require_admissible st (gf_pr g) = Inr ())"
proof -
  let ?es = "bt_values (valid_of facts)" and ?m = "an_findings (classify_facts quote compare facts)"
  have "(f, p) \<in> set ?es" "(g, q) \<in> set ?es" using valid_of_entries(1) [OF a(2)] f g by simp_all
  moreover have "set (concat (stream_components ?es)) = set ?es"
    by (rule mset_eq_setD) (rule stream_components_mset)
  ultimately obtain c where c: "c \<in> set (stream_components ?es)" "(f, p) \<in> set c" "(g, q) \<in> set c"
    using stream_components_separate [of "(f, p)" ?es "(g, q)"] slot by auto
  have "component_verdict compare c ?m" using classify_facts_verdicts(2) [OF a(2)] c(1) by blast
  then show ?thesis
  proof
    assume "canonical_verdict compare c ?m"
    then obtain canonical authority where rows:
      "\<forall>e\<in>set c. canonical_row compare c canonical authority e (bt_get ?m (entry_pr e))"
      unfolding canonical_verdict_def by blast
    have "gf_pr f \<noteq> entry_pr canonical \<or> gf_pr g \<noteq> entry_pr canonical" using ne by metis
    moreover have "require_admissible st (entry_pr e) \<noteq> Inr ()"
      if e: "e \<in> set c" "entry_pr e \<noteq> entry_pr canonical" for e
    proof -
      have "bt_get ?m (entry_pr e) = Some (superseded_finding c canonical authority e)"
        using rows e by (auto simp: canonical_row_def)
      then have "finding_for st (entry_pr e) = Some (superseded_finding c canonical authority e)"
        using analyze_map(1) [OF a] by simp
      from admissible_current [OF this] show ?thesis by (simp add: superseded_finding_def)
    qed
    ultimately show ?thesis using c(2,3) by force
  next
    assume "ambiguous_verdict c ?m"
    then obtain h where "bt_get ?m (gf_pr f) = Some h" "fd_disposition h = AmbiguousGeneration"
      using c(2) unfolding ambiguous_verdict_def by force
    then have "require_admissible st (gf_pr f) \<noteq> Inr ()"
      using admissible_current [of st "gf_pr f" h] analyze_map(1) [OF a] by simp
    then show ?thesis by blast
  qed
qed

definition sample_fact :: "pr_number \<Rightarrow> string \<Rightarrow> pull_request_generation_fact" where
  "sample_fact pr head =
     \<lparr>gf_pr = pr, gf_provider_head = head, gf_created_at = None,
      gf_provenance = Some \<lparr>cg_generation = head, cg_agent = ''a'', cg_source_head = head,
        cg_bead_ids = [''bd-1''], cg_stack_base = ''m'', cg_stack_state = ''root''\<rparr>,
      gf_metadata_error = None, gf_supersedes = []\<rparr>"

definition sample_compare :: "commit_oid \<Rightarrow> commit_oid \<Rightarrow> commit_relation" where
  "sample_compare base head = (if base = head then Identical else Ahead)"

definition sample_provenance :: "string \<Rightarrow> cacophony_generation_provenance" where
  "sample_provenance head = \<lparr>cg_generation = head, cg_agent = ''a'', cg_source_head = head,
     cg_bead_ids = [''bd-1''], cg_stack_base = ''m'', cg_stack_state = ''root''\<rparr>"

lemma sample_marked: "well_marked (sample_fact pr head) (sample_provenance head)"
  by (simp add: well_marked_def sample_fact_def sample_provenance_def)

lemma sample_slot: "head \<noteq> ''m'' \<Longrightarrow> head' \<noteq> ''m'' \<Longrightarrow>
    same_stream_slot (sample_provenance head) (sample_provenance head')"
  by (simp add: same_stream_slot_def sample_provenance_def bs_disjoint_def)

lemma sample_analyzed:
  "\<exists>st. generation_analyze (\<lambda>_. Some []) id sample_compare [sample_fact 1 ''x'', sample_fact 2 ''y''] = Some st"
  by (simp add: generation_analyze_def Let_def)

theorem one_admissible_generation_per_stream_witness:
  "\<exists>st. generation_analyze (\<lambda>_. Some []) id sample_compare [sample_fact 1 ''x'', sample_fact 2 ''y''] = Some st
      \<and> \<not> (require_admissible st 1 = Inr () \<and> require_admissible st 2 = Inr ())"
proof -
  obtain st where st: "generation_analyze (\<lambda>_. Some []) id sample_compare
      [sample_fact 1 ''x'', sample_fact 2 ''y''] = Some st" using sample_analyzed by blast
  have num: "gf_pr (sample_fact n h) = n" for n h by (simp add: sample_fact_def)
  have "distinct (map gf_pr [sample_fact 1 ''x'', sample_fact 2 ''y''])" by (simp add: num)
  from one_admissible_generation_per_stream [OF st this _ sample_marked [of 1 "''x''"] _
      sample_marked [of 2 "''y''"] sample_slot] st
  show ?thesis by (simp add: num)
qed

text \<open>Where a finding of the map comes from.\<close>

lemma fold_note_fact_findings:
  assumes "\<forall>n f. bt_get (fst s) n = Some f \<longrightarrow> fd_lifecycle f = InvalidMetadata"
    and "bt_get (fst (fold note_fact facts s)) n = Some f"
  shows "fd_lifecycle f = InvalidMetadata"
proof -
  have "\<forall>n f. bt_get (fst (fold note_fact facts s)) n = Some f \<longrightarrow> fd_lifecycle f = InvalidMetadata"
    by (rule fold_invariant_set, rule assms(1))
      (auto simp: note_fact_def bt_get_insert invalid_finding_def split: option.splits if_splits)
  with assms(2) show ?thesis by blast
qed

lemma durable_finding_origin:
  assumes d: "distinct (map gf_pr facts)"
    and f: "bt_get (an_findings (classify_facts quote compare facts)) n = Some f"
    and durable: "fd_lifecycle f = DurableSupersession"
  shows "\<exists>c canonical authority e. c \<in> set (stream_components (bt_values (valid_of facts)))
    \<and> canonical \<in> set c \<and> e \<in> set c \<and> entry_pr e = n \<and> entry_pr e \<noteq> entry_pr canonical
    \<and> f = superseded_finding c canonical authority e \<and> supersession_proved compare canonical e
    \<and> (\<exists>h. bt_get (an_findings (classify_facts quote compare facts)) (entry_pr canonical) = Some h
         \<and> fd_disposition h = CurrentGeneration)"
proof -
  let ?es = "bt_values (valid_of facts)" and ?m = "an_findings (classify_facts quote compare facts)"
  let ?s0 = "\<lparr>an_findings = fst (fold note_fact facts ([], [])), an_used = 0, an_truncated = False\<rparr>"
  note eq = classify_facts_fold [of quote compare facts] and dist = components_distinct [OF d]
  have "n \<in> entry_pr ` set (concat (stream_components ?es))"
  proof (rule ccontr)
    assume "n \<notin> entry_pr ` set (concat (stream_components ?es))"
    then have "bt_get (fst (fold note_fact facts ([], []))) n = Some f"
      using fold_classify [OF dist, of ?s0 quote compare] f stream_components_nonempty [of _ ?es]
        valid_of_get(3) [OF d] unfolding eq by (simp add: budget_kept_def)
    from fold_note_fact_findings [OF _ this] durable show False by (simp add: bt_get_def)
  qed
  then obtain c e where c: "c \<in> set (stream_components ?es)" and e: "e \<in> set c" "entry_pr e = n"
    by auto
  have "component_verdict compare c ?m" using classify_facts_verdicts(2) [OF d] c by blast
  moreover have "\<not> ambiguous_verdict c ?m"
    using e f durable unfolding ambiguous_verdict_def by force
  ultimately obtain canonical authority where can: "canonical \<in> set c" and rows:
    "\<forall>e\<in>set c. canonical_row compare c canonical authority e (bt_get ?m (entry_pr e))"
    unfolding canonical_verdict_def by blast
  have "canonical_row compare c canonical authority e (Some f)" using rows e f by auto
  then have "entry_pr e \<noteq> entry_pr canonical" "f = superseded_finding c canonical authority e"
    "supersession_proved compare canonical e"
    using durable by (auto simp: canonical_row_def split: if_splits)
  moreover have "\<exists>h. bt_get ?m (entry_pr canonical) = Some h \<and> fd_disposition h = CurrentGeneration"
    using bspec [OF rows can] by (auto simp: canonical_row_def)
  ultimately show ?thesis using c can e by blast
qed

text \<open>
  C26. Closure policy never widens the evidence: after \<open>apply_lifecycle_policy\<close> with any action, a
  finding that carries another action than \<open>Preserve\<close> names a canonical pull request of the same
  snapshot that is itself admissible, and that generation supersedes the finding's one by a reviewed
  link or because the provider proved that its source contains it. Ambiguous, invalid and current
  generations are always preserved.
\<close>

theorem closure_needs_canonical_generation:
  assumes a: "generation_analyze to_vec quote compare facts = Some st" "distinct (map gf_pr facts)"
    and f: "f \<in> set (gi_findings (apply_lifecycle_policy action st))" "fd_lifecycle_action f \<noteq> Preserve"
  shows "fd_disposition f = SupersededGeneration
    \<and> (\<exists>old p new q. old \<in> set facts \<and> well_marked old p \<and> gf_pr old = fd_pr f
         \<and> new \<in> set facts \<and> well_marked new q \<and> fd_canonical_pr f = Some (gf_pr new)
         \<and> gf_pr new \<noteq> gf_pr old \<and> require_admissible st (gf_pr new) = Inr ()
         \<and> supersession_proved compare (new, q) (old, p))"
proof -
  let ?m = "an_findings (classify_facts quote compare facts)"
  obtain g where g: "g \<in> set (gi_findings st)" "exact_supersession g"
    and fg: "fd_disposition f = fd_disposition g" "fd_pr f = fd_pr g" "fd_canonical_pr f = fd_canonical_pr g"
    using f by (auto simp: apply_lifecycle_policy_def split: if_splits)
  obtain n where n: "bt_get ?m n = Some g" using g(1) analyze_map(2) [OF a] by auto
  have durable: "fd_lifecycle g = DurableSupersession" using g(2) by (simp add: exact_supersession_def)
  from durable_finding_origin [OF a(2) n this] obtain c canonical authority e where
    c: "c \<in> set (stream_components (bt_values (valid_of facts)))" and can: "canonical \<in> set c" and
    e: "e \<in> set c" "entry_pr e \<noteq> entry_pr canonical" and geq: "g = superseded_finding c canonical authority e"
    and proved: "supersession_proved compare canonical e"
    and cur: "\<exists>h. bt_get ?m (entry_pr canonical) = Some h \<and> fd_disposition h = CurrentGeneration" by blast
  have sub: "set c \<subseteq> set (bt_values (valid_of facts))"
    using c mset_eq_setD [OF stream_components_mset [of "bt_values (valid_of facts)"]] by auto
  have entries: "fst e \<in> set facts \<and> well_marked (fst e) (snd e)"
    "fst canonical \<in> set facts \<and> well_marked (fst canonical) (snd canonical)"
    using valid_of_entries(1) [OF a(2)] sub can e(1) by blast+
  have "require_admissible st (entry_pr canonical) = Inr ()"
    using cur admissible_current analyze_map(1) [OF a] by metis
  then have "\<exists>old p new q. old \<in> set facts \<and> well_marked old p \<and> gf_pr old = fd_pr f
      \<and> new \<in> set facts \<and> well_marked new q \<and> fd_canonical_pr f = Some (gf_pr new)
      \<and> gf_pr new \<noteq> gf_pr old \<and> require_admissible st (gf_pr new) = Inr ()
      \<and> supersession_proved compare (new, q) (old, p)"
    using entries proved e(2) unfolding fg geq
    by (intro exI [of _ "fst e"] exI [of _ "snd e"] exI [of _ "fst canonical"] exI [of _ "snd canonical"])
      (auto simp: superseded_finding_def)
  then show ?thesis unfolding fg geq by (simp add: superseded_finding_def)
qed

lemma sample_closure:
  assumes "generation_analyze (\<lambda>_. Some []) id sample_compare [sample_fact 1 ''x'', sample_fact 2 ''y''] = Some st"
  shows "\<exists>f\<in>set (gi_findings (apply_lifecycle_policy CloseAction st)).
    fd_pr f = 1 \<and> fd_lifecycle_action f = CloseAction"
proof -
  let ?c = "[(sample_fact 1 ''x'', sample_provenance ''x''), (sample_fact 2 ''y'', sample_provenance ''y'')]"
  have valid: "fold note_fact [sample_fact 1 ''x'', sample_fact 2 ''y''] ([], [])
      = ([], [(1, hd ?c), (2, ?c ! 1)])"
    by (simp add: note_fact_def sample_fact_def sample_provenance_def)
  have comps: "stream_components ?c = [?c]"
    by (simp add: sample_fact_def sample_slot [of "''x''" "''y''", simplified])
  have linked: "linked_canonicals ?c = []"
    by (simp add: linked_canonicals_def sample_fact_def)
  have rel: "compare_component sample_compare ?c
      \<lparr>an_findings = [], an_used = 0, an_truncated = False\<rparr>
      = \<lparr>cmp_relations = [((1, 2), Ahead)], cmp_used = 1, cmp_truncated = False\<rparr>"
    by (simp add: compare_component_def compare_pair_def Let_def max_stream_comparisons_def sample_fact_def
        sample_provenance_def sample_compare_def)
  have max: "maxima [((1, 2), Ahead)] ?c = [?c ! 1]"
    by (simp add: maxima_def contains_def bt_get_def sample_fact_def)
  have "an_findings (classify_facts id sample_compare [sample_fact 1 ''x'', sample_fact 2 ''y''])
      = record_canonical_component ?c (?c ! 1) ''exact source containment'' []"
    unfolding classify_facts_def valid Let_def prod.case
    by (simp add: bt_values_def comps [simplified] classify_component_def linked [simplified] rel [simplified]
        contained_findings_def max [simplified] Let_def)
  then have "superseded_finding ?c (?c ! 1) ''exact source containment'' (hd ?c) \<in> set (gi_findings st)"
    using assms
    by (auto simp: generation_analyze_def Let_def record_canonical_component_def bt_values_def
        sample_fact_def)
  then show ?thesis
    unfolding apply_lifecycle_policy_def
    by (force simp: exact_supersession_def superseded_finding_def sample_fact_def)
qed

theorem closure_needs_canonical_generation_witness:
  "\<exists>st f. generation_analyze (\<lambda>_. Some []) id sample_compare [sample_fact 1 ''x'', sample_fact 2 ''y''] = Some st
      \<and> f \<in> set (gi_findings (apply_lifecycle_policy CloseAction st)) \<and> fd_lifecycle_action f = CloseAction
      \<and> fd_disposition f = SupersededGeneration"
proof -
  obtain st where st: "generation_analyze (\<lambda>_. Some []) id sample_compare
      [sample_fact 1 ''x'', sample_fact 2 ''y''] = Some st" using sample_analyzed by blast
  have "distinct (map gf_pr [sample_fact 1 ''x'', sample_fact 2 ''y''])" by (simp add: sample_fact_def)
  moreover obtain f where f: "f \<in> set (gi_findings (apply_lifecycle_policy CloseAction st))"
    "fd_lifecycle_action f = CloseAction" using sample_closure [OF st] by blast
  ultimately have "fd_disposition f = SupersededGeneration"
    using closure_needs_canonical_generation [OF st _ f(1)] by simp
  with st f show ?thesis by blast
qed

text \<open>
  Provider comparisons are bounded by the constant of the source, over all streams of one
  snapshot together, and the truncation flag is raised only when the bound was used up.
\<close>

theorem generation_comparisons_bounded:
  assumes "generation_analyze to_vec quote compare facts = Some st"
  shows "gi_comparisons_used st \<le> max_stream_comparisons
    \<and> (gi_comparisons_truncated st \<longrightarrow> gi_comparisons_used st = max_stream_comparisons)"
proof -
  have "budget_kept (classify_facts quote compare facts)"
    unfolding classify_facts_fold
  proof (rule fold_invariant_set)
    show "budget_kept (classify_component quote compare c s)"
      if "c \<in> set (stream_components (bt_values (valid_of facts)))" "budget_kept s" for c s
      using classify_component_budget that stream_components_nonempty by metis
  qed (simp add: budget_kept_def)
  with assms show ?thesis by (auto simp: generation_analyze_def budget_kept_def Let_def)
qed

theorem generation_comparisons_bounded_witness:
  "\<exists>st. generation_analyze (\<lambda>_. Some []) id sample_compare [sample_fact 1 ''x'', sample_fact 2 ''y''] = Some st
      \<and> gi_comparisons_used st \<le> max_stream_comparisons"
  using sample_analyzed generation_comparisons_bounded by blast

end
