(* ===== verification/Generation_Text.thy ===== *)
theory Generation_Text
  imports Generation_Facts
begin

text \<open>
  Owner supersession declarations are read back as they were written: \<open>supersession_body\<close> renders the
  comment and \<open>declared_supersessions\<close> finds it and parses the pull request numbers out of it.
\<close>

subsection \<open>Numbers in text\<close>

definition numbers_in :: "string \<Rightarrow> nat list" where
  "numbers_in text = List.map_filter (parse_unsigned 64) (split_chars (\<lambda>c. digit_val c = None) text)"

lemma show_nat_digits: "c \<in> set (show_nat n) \<Longrightarrow> digit_val c \<noteq> None"
proof (induction n rule: show_nat.induct)
  case (1 n)
  show ?case
  proof (cases "n < 10")
    case True
    then show ?thesis using "1.prems" by (subst (asm) show_nat.simps) auto
  next
    case False
    then show ?thesis using 1 by (subst (asm) (2) show_nat.simps) auto
  qed
qed

lemma parse_unsigned_Nil: "parse_unsigned 64 [] = None"
  by (simp add: parse_unsigned_def)

lemma numbers_in_Nil: "numbers_in [] = []"
  by (simp add: numbers_in_def parse_unsigned_Nil List.map_filter_def)

lemma numbers_in_skip: "digit_val c = None \<Longrightarrow> numbers_in (c # t) = numbers_in t"
  by (simp add: numbers_in_def parse_unsigned_Nil List.map_filter_def)

lemma numbers_in_number:
  assumes "n < 2 ^ 64"
  shows "numbers_in (show_nat n) = [n]"
    and "digit_val c = None \<Longrightarrow> numbers_in (show_nat n @ c # t) = n # numbers_in t"
  using parse_unsigned_show_nat [OF assms] show_nat_digits [of _ n]
  by (auto simp: numbers_in_def split_chars_single split_chars_append List.map_filter_def
      simp del: power_numeral)

lemma separators: "digit_val CHR ''#'' = None" "digit_val CHR '','' = None" "digit_val CHR '' '' = None"
  by (simp_all add: digit_val_def)

lemma numbers_in_list: "\<forall>n\<in>set ns. n < 2 ^ 64 \<Longrightarrow> numbers_in (show_pr_list '', '' ns) = ns"
proof (induction ns)
  case (Cons n ns)
  then have n: "n < 2 ^ 64" and IH: "numbers_in (show_pr_list '', '' ns) = ns" by simp_all
  show ?case
  proof (cases ns)
    case Nil
    then show ?thesis using numbers_in_number(1) [OF n]
      by (simp add: show_pr_list_def numbers_in_skip separators)
  next
    case (Cons m ms)
    then have "show_pr_list '', '' (n # ns) = CHR ''#'' # (show_nat n @ CHR '','' # (CHR '' '' # show_pr_list '', '' ns))"
      by (simp add: show_pr_list_def)
    then show ?thesis
      using IH by (simp only: numbers_in_skip numbers_in_number(2) [OF n] separators)
  qed
qed (simp add: show_pr_list_def numbers_in_Nil)

subsection \<open>Trimmed lines\<close>

lemma digit_ascii_word: "digit_val c \<noteq> None \<Longrightarrow> ascii_word c"
  by (auto simp: digit_val_def ascii_word_def Let_def split: if_splits)

lemma last_join_str: "xs \<noteq> [] \<Longrightarrow> last xs \<noteq> [] \<Longrightarrow> join_str sep xs \<noteq> [] \<and> last (join_str sep xs) = last (last xs)"
proof (induction sep xs rule: join_str.induct)
  case (3 sep x y zs)
  then show ?case by simp
qed simp_all

lemma last_pr_list:
  assumes "ns \<noteq> []"
  shows "show_pr_list '', '' ns \<noteq> [] \<and> ascii_word (last (show_pr_list '', '' ns))"
proof -
  have "last (map (\<lambda>pr. CHR ''#'' # show_nat pr) ns) = CHR ''#'' # show_nat (last ns)"
    using assms by (simp add: last_map)
  then have "last (show_pr_list '', '' ns) = last (show_nat (last ns))" "show_pr_list '', '' ns \<noteq> []"
    using last_join_str [of "map (\<lambda>pr. CHR ''#'' # show_nat pr) ns" "'', ''"] assms
    by (simp_all add: show_pr_list_def)
  then show ?thesis using digit_ascii_word show_nat_digits [OF last_in_set] by simp
qed

subsection \<open>The declaration\<close>

text \<open>A line as \<open>lines_of\<close> sees it when it is written with a newline after it.\<close>

definition plain_line :: "string \<Rightarrow> bool" where
  "plain_line l \<longleftrightarrow> newline \<notin> set l \<and> (l \<noteq> [] \<longrightarrow> last l \<noteq> CHR 0x0D)"

lemma lines_of_Cons: "plain_line l \<Longrightarrow> lines_of (l @ newline # s) = l # lines_of s"
proof -
  assume l: "plain_line l"
  then have "split_chars (\<lambda>c. c = newline) (l @ newline # s) = l # split_chars (\<lambda>c. c = newline) s"
    by (intro split_chars_append) (auto simp: plain_line_def)
  moreover have "strip_cr l = l" using l by (auto simp: strip_cr_def plain_line_def)
  ultimately show ?thesis by (simp add: lines_of_def Let_def)
qed

definition superseded_line :: "string \<Rightarrow> string option" where
  "superseded_line line = strip_prefix ''- **Superseded:**'' (trim line)"

lemma superseded_line_other:
  assumes "l \<noteq> []" "ascii_word (hd l)" "ascii_word (last l)" "\<not> starts_with l ''- **Superseded:**''"
  shows "superseded_line l = None"
  using assms by (simp add: superseded_line_def trim_id strip_prefix_def)

lemma newline_not_digit: "newline \<notin> set (show_nat n)"
  using show_nat_digits [of newline n] by (auto simp: newline_def digit_val_def)

lemma plain_marker: "newline \<notin> set head \<Longrightarrow> plain_line (supersession_marker c head)"
  by (auto simp: plain_line_def supersession_marker_def newline_not_digit) (simp_all add: newline_def)

lemma newline_not_list: "newline \<notin> set (show_pr_list '', '' ns)"
proof -
  have "set (join_str sep xs) \<subseteq> set sep \<union> \<Union> (set ` set xs)" for sep xs
    by (induction sep xs rule: join_str.induct) auto
  from this [of "'', ''" "map (\<lambda>pr. CHR ''#'' # show_nat pr) ns"] show ?thesis
    using newline_not_digit by (auto simp: show_pr_list_def newline_def split: if_splits)
qed

definition canonical_line :: "pr_number \<Rightarrow> commit_oid \<Rightarrow> string" where
  "canonical_line c head = ''- **Canonical:** #'' @ show_nat c @ '' at `'' @ head @ ''`''"

lemma plain_canonical: "newline \<notin> set head \<Longrightarrow> plain_line (canonical_line c head)"
  by (auto simp: plain_line_def canonical_line_def newline_not_digit) (simp_all add: newline_def)

lemma other_lines:
  "superseded_line (supersession_marker c head) = None"
  "superseded_line (canonical_line c head) = None"
  "superseded_line ''**Caravan canonical generation declared.**'' = None"
  "superseded_line [] = None"
proof -
  show "superseded_line (supersession_marker c head) = None"
    by (rule superseded_line_other) (simp_all add: supersession_marker_def ascii_word_def starts_with_def)
  show "superseded_line (canonical_line c head) = None"
    by (rule superseded_line_other) (simp_all add: canonical_line_def ascii_word_def starts_with_def)
  show "superseded_line ''**Caravan canonical generation declared.**'' = None"
    by (rule superseded_line_other) (simp_all add: ascii_word_def starts_with_def)
  show "superseded_line [] = None" by (simp add: superseded_line_def trim_Nil strip_prefix_def starts_with_def)
qed

lemma superseded_line_list:
  assumes "ns \<noteq> []"
  shows "superseded_line (''- **Superseded:** '' @ show_pr_list '', '' ns)
    = Some ('' '' @ show_pr_list '', '' ns)"
proof -
  let ?l = "''- **Superseded:** '' @ show_pr_list '', '' ns"
  have "trim ?l = ?l"
    by (rule trim_id) (use last_pr_list [OF assms] in \<open>simp_all add: ascii_word_def\<close>)
  then show ?thesis by (simp add: superseded_line_def strip_prefix_def starts_with_def)
qed

lemma bs_of_list_id: "bs_wf xs \<Longrightarrow> bs_of_list xs = xs"
  using bs_wf_of_list [of xs] set_bs_of_list [of xs]
  by (auto simp: bs_wf_def strict_sorted_iff intro: sorted_distinct_set_unique)

lemma plain_literals: "plain_line ''**Caravan canonical generation declared.**''" "plain_line []"
  by (simp_all add: plain_line_def newline_def)

lemma plain_list:
  assumes "ns \<noteq> []"
  shows "plain_line (''- **Superseded:** '' @ show_pr_list '', '' ns)"
proof -
  have "last (show_pr_list '', '' ns) \<noteq> CHR 0x0D"
    using last_pr_list [OF assms] by (auto simp: ascii_word_def)
  then show ?thesis
    using newline_not_list [of ns] last_pr_list [OF assms] by (simp add: plain_line_def newline_def)
qed

text \<open>
  An owner declaration is read back exactly: from any comments that end with a rendered
  declaration the parser recovers the declared pull requests, in order, without zero and without
  the canonical pull request itself, whatever the actor and the reason contain.
\<close>

theorem declared_supersessions_roundtrip:
  assumes wf: "bs_wf superseded" and small: "\<forall>n\<in>set superseded. n < 2 ^ 64"
    and head: "newline \<notin> set head" and some: "\<exists>n\<in>set superseded. n \<noteq> 0 \<and> n \<noteq> canonical"
  shows "declared_supersessions canonical head
      (earlier @ [supersession_body canonical head superseded actor reason])
    = Some (filter (\<lambda>n. n \<noteq> 0 \<and> n \<noteq> canonical) superseded)"
proof -
  let ?list = "''- **Superseded:** '' @ show_pr_list '', '' superseded"
  let ?rest = "''- **Actor:** '' @ actor @ [newline] @ ''- **Reason:** '' @ reason @ [newline]"
  have ne: "superseded \<noteq> []" using some by auto
  let ?body = "supersession_body canonical head superseded actor reason"
  have body: "?body = supersession_marker canonical head @ newline # [] @ newline #
      ''**Caravan canonical generation declared.**'' @ newline # [] @ newline #
      canonical_line canonical head @ newline # ?list @ newline # ?rest"
    by (simp add: supersession_body_def canonical_line_def)
  have "find_map superseded_line (lines_of ?body) = Some ('' '' @ show_pr_list '', '' superseded)"
    unfolding body
    by (simp only: lines_of_Cons plain_marker [OF head] plain_literals plain_canonical [OF head]
        plain_list [OF ne]
        find_map.simps other_lines superseded_line_list [OF ne] option.case)
  moreover have marked: "str_contains ?body (supersession_marker canonical head)"
    using starts_with_append [of "supersession_marker canonical head"] unfolding body
    by (auto simp: str_contains_def supersession_marker_def)
  have numbers: "numbers_in ('' '' @ show_pr_list '', '' superseded) = superseded"
    using numbers_in_list [OF small] by (simp add: numbers_in_skip separators)
  moreover have "filter (\<lambda>n. n \<noteq> 0 \<and> n \<noteq> canonical) superseded \<noteq> []"
    using some by (auto simp: filter_empty_conv)
  then have "pr_numbers_in canonical ('' '' @ show_pr_list '', '' superseded)
      = Some (filter (\<lambda>n. n \<noteq> 0 \<and> n \<noteq> canonical) superseded)"
    unfolding pr_numbers_in_def numbers_in_def [symmetric] numbers
    using bs_of_list_id [OF bs_wf_filter [OF wf]] by (simp add: Let_def)
  ultimately show ?thesis
    using marked unfolding declared_supersessions_def superseded_line_def [abs_def, symmetric] by simp
qed

theorem declared_supersessions_roundtrip_witness:
  "declared_supersessions 7 ''abc'' [supersession_body 7 ''abc'' [3, 5, 7] ''owner'' ''why''] = Some [3, 5]"
  using declared_supersessions_roundtrip [of "[3, 5, 7]" "''abc''" 7 "[]" "''owner''" "''why''"]
  by (simp add: bs_wf_def newline_def)

end
