(* ===== verification/Admission.thy ===== *)
theory Admission
  imports Graph Generation
begin

text \<open>
  Admission of unqueued pull requests. First the canonical order (\<open>resolve_admission\<close> and the checks it
  reads, \<open>src/read.rs\<close>): every unqueued pull request becomes a candidate, a skipped row or a rejected
  row, and the next candidate is the least of the candidates and the order-blocking rejections. Then
  the intent-aware evaluation of one candidate against that order (\<open>src/admission.rs\<close>).
\<close>

subsection \<open>Required checks and failures\<close>

definition required_check_snapshot ::
    "pull_request_snapshot \<Rightarrow> required_contexts_read option \<Rightarrow> pull_request_snapshot" where
  "required_check_snapshot p policy =
     (case filter_opt rq_complete policy of
        None \<Rightarrow> p
      | Some pol \<Rightarrow> p\<lparr>pr_checks := required_checks pol (pr_checks p) (br_oid (pr_head p))\<rparr>)"

definition hard_failure :: "check_snapshot \<Rightarrow> bool" where
  "hard_failure c = (ck_state c \<in> {Failure, Cancelled, TimedOut, ActionRequired})"

definition has_failing_check :: "pull_request_snapshot \<Rightarrow> bool" where
  "has_failing_check p = (\<exists>c\<in>set (fst (latest_checks_per_identity (pr_checks p))). hard_failure c)"

definition has_cancelled_check :: "pull_request_snapshot \<Rightarrow> bool" where
  "has_cancelled_check p =
     (\<exists>c\<in>set (fst (latest_checks_per_identity (pr_checks p))). ck_state c = Cancelled)"

record ci_admission_gate_config =
  gate_context :: string
  gate_member_label :: string

definition candidate_may_have_deferred_gate ::
    "pull_request_snapshot \<Rightarrow> ci_admission_gate_config \<Rightarrow> bool" where
  "candidate_may_have_deferred_gate p gate =
     (if has_label p (gate_member_label gate) then False
      else let failures = filter hard_failure (fst (latest_checks_per_identity (pr_checks p)))
           in failures \<noteq> [] \<and> (\<forall>c\<in>set failures. ck_name c = gate_context gate \<and> ck_state c = Failure))"

definition gate_deferred :: "ci_admission_gate_config option \<Rightarrow> pull_request_snapshot \<Rightarrow> bool" where
  "gate_deferred gate p =
     (case gate of None \<Rightarrow> False | Some g \<Rightarrow> candidate_may_have_deferred_gate p g)"

text \<open>\<open>validate_candidate_with_policy\<close>: a set of messages, pushed as problems in string order.\<close>

definition candidate_messages ::
    "pull_request_snapshot \<Rightarrow> ci_admission_gate_config option \<Rightarrow> required_contexts_read option
     \<Rightarrow> string list" where
  "candidate_messages p gate policy =
     (let q = required_check_snapshot p policy in
      (if (case policy of None \<Rightarrow> False | Some pol \<Rightarrow> \<not> rq_complete pol)
       then [''effective landing-target required-check policy is incomplete''] else [])
      @ (if policy \<noteq> None \<and> (\<exists>c\<in>set (pr_checks q). ck_state c = CheckUnknown)
         then [''a required check has an unknown provider state''] else [])
      @ (if pr_state q \<noteq> Open then [''candidate PR is not open''] else [])
      @ (if pr_draft q then [''candidate PR is still a draft''] else [])
      @ (if has_label q ''caravan'' then [''candidate PR already has the caravan label''] else [])
      @ (if has_label q ''caravan-evicted'' then [''candidate PR is evicted; use renew or rejoin''] else [])
      @ (if am_enabled (pr_auto_merge q) then [''candidate PR already has auto-merge enabled''] else [])
      @ (if pr_cross_repository q then [''candidate PR uses a fork-only head branch''] else [])
      @ (if \<not> has_label q ''caravan-force'' \<and> has_failing_check q \<and> \<not> gate_deferred gate q
         then [if has_cancelled_check q
               then ''candidate PR has a cancelled check, so its failures may be consequences rather than verdicts; rerun the cancelled jobs before treating this as a code failure''
               else ''candidate PR has a failing required check; fix it before admission rather than stacking work behind it'']
         else []))"

definition validate_candidate_with_policy ::
    "pull_request_snapshot \<Rightarrow> graph_problem list \<Rightarrow> ci_admission_gate_config option
     \<Rightarrow> required_contexts_read option \<Rightarrow> graph_problem list" where
  "validate_candidate_with_policy p problems gate policy =
     problems @ map (mk_problem UnknownProblem [pr_num p])
       (bs_of_list (candidate_messages p gate policy))"

subsection \<open>Base-chain dependencies\<close>

definition max_dependency_depth :: nat where
  "max_dependency_depth = 64"

definition is_base_parent ::
    "pull_request_snapshot \<Rightarrow> repository_id \<Rightarrow> string \<Rightarrow> pull_request_snapshot \<Rightarrow> bool" where
  "is_base_parent candidate repository branch p =
     (pr_state p = Open \<and> \<not> pr_cross_repository p \<and> br_repository (pr_head p) = repository
      \<and> br_name (pr_head p) = branch \<and> pr_num p \<noteq> pr_num candidate)"

fun dependency_walk ::
    "pull_request_snapshot list \<Rightarrow> pull_request_snapshot \<Rightarrow> repository_id \<Rightarrow> nat \<Rightarrow> string
     \<Rightarrow> pr_number btree_set \<Rightarrow> pr_number btree_set" where
  "dependency_walk prs candidate repository 0 branch deps = deps"
| "dependency_walk prs candidate repository (Suc k) branch deps =
     (case find (is_base_parent candidate repository branch) prs of
        None \<Rightarrow> deps
      | Some parent \<Rightarrow>
          if bs_contains deps (pr_num parent) then deps
          else dependency_walk prs candidate repository k (br_name (pr_base parent))
                 (bs_insert (pr_num parent) deps))"

definition dependency_prs :: "graph_analysis \<Rightarrow> pull_request_snapshot \<Rightarrow> pr_number list" where
  "dependency_prs a candidate =
     dependency_walk (bt_values (ga_pull_requests a)) candidate (br_repository (pr_base candidate))
       max_dependency_depth (br_name (pr_base candidate)) []"

subsection \<open>Rows of the canonical order\<close>

record admission_candidate =
  ac_pr :: pr_number
  ac_priority_label :: "string option"
  ac_priority_rank :: "nat option"
  ac_created_at :: "string option"
  ac_reason :: string

record skipped_admission_candidate =
  sk_pr :: pr_number
  sk_priority_label :: "string option"
  sk_priority_rank :: "nat option"
  sk_created_at :: "string option"
  sk_reason :: string

record rejected_admission_candidate =
  rj_pr :: pr_number
  rj_priority_rank :: "nat option"
  rj_created_at :: "string option"
  rj_blocks_order :: bool
  rj_reason :: string

definition admission_policy :: string where
  "admission_policy =
     ''Cacophony-shaped PRs first require unique current generation integrity. Structurally ineligible PRs (draft, fork-only, externally enabled auto-merge, superseded/ambiguous/invalid generation) are reported with exact reasons and excluded from ordering rather than wedging the queue, while unknown or conflicting configured priority labels block because canonical rank cannot be computed. Remaining attempts use explicit agent priority label (configured high to low), then FIFO by immutable provider created_at ascending with PR number ascending as equal-time tie-break; missing created_at falls back deterministically to PR number after timestamped peers; never LIFO; check/new preflight required and an eligible candidate whose exact mechanical attempt fails never causes automatic leapfrogging. This ordering binds automatic selection for both new-caravan and join intent; explicit owner intent naming one exact PR is evaluated separately and may attach ahead of unrelated unjoined rows without changing their canonical order''"

record admission_status =
  as_policy :: string
  as_priority_labels :: "string list"
  as_generation_integrity :: generation_integrity_status
  as_candidates :: "admission_candidate list"
  as_skipped :: "skipped_admission_candidate list"
  as_rejected :: "rejected_admission_candidate list"
  as_next_candidate :: "pr_number option"

type_synonym admission_key = "nat \<times> bool \<times> string \<times> pr_number"

definition order_key :: "nat \<Rightarrow> nat option \<Rightarrow> string option \<Rightarrow> pr_number \<Rightarrow> admission_key" where
  "order_key unranked rank created_at pr =
     (case rank of None \<Rightarrow> unranked | Some r \<Rightarrow> r,
      created_at = None,
      case created_at of None \<Rightarrow> [] | Some t \<Rightarrow> t,
      pr)"

definition candidate_key :: "nat \<Rightarrow> admission_candidate \<Rightarrow> admission_key" where
  "candidate_key unranked c = order_key unranked (ac_priority_rank c) (ac_created_at c) (ac_pr c)"

definition skipped_key :: "nat \<Rightarrow> skipped_admission_candidate \<Rightarrow> admission_key" where
  "skipped_key unranked c = order_key unranked (sk_priority_rank c) (sk_created_at c) (sk_pr c)"

definition rejected_key :: "nat \<Rightarrow> rejected_admission_candidate \<Rightarrow> admission_key" where
  "rejected_key unranked c = order_key unranked (rj_priority_rank c) (rj_created_at c) (rj_pr c)"

subsection \<open>Classification of one unqueued pull request\<close>

definition rank_table :: "string list \<Rightarrow> (string, nat) btree_map" where
  "rank_table priority_labels =
     fold (\<lambda>(rank, l). bt_insert l rank) (List.enumerate 0 priority_labels) []"

definition priority_namespace :: "pull_request_snapshot \<Rightarrow> string list" where
  "priority_namespace p = filter (\<lambda>l. starts_with l ''caravan-priority:'') (pr_labels p)"

definition configured_labels ::
    "(string, nat) btree_map \<Rightarrow> pull_request_snapshot \<Rightarrow> (string \<times> nat) list" where
  "configured_labels ranks p =
     List.map_filter (\<lambda>l. map_option (Pair l) (bt_get ranks l)) (priority_namespace p)"

definition invalid_labels :: "(string, nat) btree_map \<Rightarrow> pull_request_snapshot \<Rightarrow> string list" where
  "invalid_labels ranks p = filter (\<lambda>l. bt_get ranks l = None) (priority_namespace p)"

definition first_label :: "(string \<times> nat) list \<Rightarrow> string option" where
  "first_label configured = (case configured of [] \<Rightarrow> None | (l, _) # _ \<Rightarrow> Some l)"

definition first_rank :: "(string \<times> nat) list \<Rightarrow> nat option" where
  "first_rank configured = (case configured of [] \<Rightarrow> None | (_, r) # _ \<Rightarrow> Some (r + 1))"

definition only_rank :: "(string \<times> nat) list \<Rightarrow> nat option" where
  "only_rank configured = (case configured of [(_, r)] \<Rightarrow> Some (r + 1) | _ \<Rightarrow> None)"

definition generation_rejection ::
    "generation_integrity_status \<Rightarrow> pr_number \<Rightarrow> (string \<times> bool) option" where
  "generation_rejection integrity number =
     (case finding_for integrity number of
        None \<Rightarrow> None
      | Some f \<Rightarrow> if fd_disposition f \<noteq> CurrentGeneration then Some (fd_reason f, False) else None)"

text \<open>The structural rejection of a pull request: its reason, and whether it blocks the order.\<close>

definition structural_rejection ::
    "generation_integrity_status \<Rightarrow> (string, nat) btree_map \<Rightarrow> pr_number \<Rightarrow> pull_request_snapshot
     \<Rightarrow> (string \<times> bool) option" where
  "structural_rejection integrity ranks number p =
     (let configured = configured_labels ranks p; invalid = invalid_labels ranks p
      in case generation_rejection integrity number of
           Some (reason, blocks) \<Rightarrow> Some (''fail closed: '' @ reason, blocks)
         | None \<Rightarrow>
             if invalid \<noteq> []
             then Some (''fail closed: unknown priority label(s): '' @ join_str '', '' invalid, True)
             else if length configured > 1
             then Some (''fail closed: conflicting priority labels: ''
                          @ join_str '', '' (map fst configured), True)
             else if pr_draft p
             then Some (''not an admission attempt: draft PR must be marked ready first'', False)
             else if pr_cross_repository p
             then Some (''not an admission attempt: fork-only PR cannot be admitted to a caravan'', False)
             else if am_enabled (pr_auto_merge p)
             then Some (''not an admission attempt: candidate already has externally enabled auto-merge'', False)
             else None)"

datatype admission_row =
    CandidateRow admission_candidate
  | SkippedRow skipped_admission_candidate
  | RejectedRow rejected_admission_candidate

definition blocked_root_reason :: string where
  "blocked_root_reason =
     ''candidate has a failing required check and unjoined descendants depend on its base chain; descendants cannot be admitted or retargeted past an unjoined ancestor''"

definition policy_unknown :: "required_contexts_read option \<Rightarrow> pull_request_snapshot \<Rightarrow> bool" where
  "policy_unknown policy ci_candidate =
     (case policy of
        None \<Rightarrow> False
      | Some pol \<Rightarrow> \<not> rq_complete pol \<or> (\<exists>c\<in>set (pr_checks ci_candidate). ck_state c = CheckUnknown))"

definition blocked_by_red ::
    "ci_admission_gate_config option \<Rightarrow> pull_request_snapshot \<Rightarrow> pull_request_snapshot \<Rightarrow> bool" where
  "blocked_by_red gate p ci_candidate =
     (\<not> has_label p ''caravan-force'' \<and> has_failing_check ci_candidate \<and> \<not> gate_deferred gate ci_candidate)"

definition mechanically_incompatible :: "graph_analysis \<Rightarrow> pr_number \<Rightarrow> bool" where
  "mechanically_incompatible a number =
     (\<exists>p\<in>set (fl_problems (ga_fleet a)). is_candidate_scoped (gp_kind p) \<and> number \<in> set (gp_prs p))"

definition skip_row ::
    "pr_number \<Rightarrow> (string \<times> nat) list \<Rightarrow> string option \<Rightarrow> string \<Rightarrow> admission_row" where
  "skip_row number configured created_at reason =
     SkippedRow \<lparr>sk_pr = number, sk_priority_label = first_label configured,
       sk_priority_rank = first_rank configured, sk_created_at = created_at, sk_reason = reason\<rparr>"

definition fifo_reason :: "pr_number \<Rightarrow> string option \<Rightarrow> string" where
  "fifo_reason number created_at =
     (case created_at of
        None \<Rightarrow> ''provider created_at missing; deterministic PR number #'' @ show_nat number @ '' fallback''
      | Some t \<Rightarrow> ''immutable provider created_at '' @ t @ '', PR number #'' @ show_nat number @ '' tie-break'')"

definition candidate_row ::
    "pr_number \<Rightarrow> (string \<times> nat) list \<Rightarrow> string option \<Rightarrow> admission_row" where
  "candidate_row number configured created_at =
     CandidateRow \<lparr>ac_pr = number, ac_priority_label = first_label configured,
       ac_priority_rank = first_rank configured, ac_created_at = created_at,
       ac_reason =
         (case configured of
            [] \<Rightarrow> ''no explicit agent priority; FIFO by '' @ fifo_reason number created_at
                  @ ''; selection only, check/new preflight required''
          | (l, r) # _ \<Rightarrow>
              ''explicit agent priority `'' @ l @ ''` (rank '' @ show_nat (r + 1) @ ''); FIFO by ''
              @ fifo_reason number created_at
              @ '' within this priority; selection only, check/new preflight required'')\<rparr>"

definition admit_one ::
    "graph_analysis \<Rightarrow> (string, nat) btree_map \<Rightarrow> generation_integrity_status
     \<Rightarrow> ci_admission_gate_config option \<Rightarrow> pr_number btree_set \<Rightarrow> pr_number \<Rightarrow> admission_row option" where
  "admit_one a ranks integrity gate unjoined_parents number =
     (case bt_get (ga_pull_requests a) number of None \<Rightarrow> None | Some p \<Rightarrow> Some (
      let configured = configured_labels ranks p; created_at = pr_created_at p;
          ci_candidate = required_check_snapshot p (ga_required_policy a)
      in case structural_rejection integrity ranks number p of
           Some (reason, blocks) \<Rightarrow>
             RejectedRow \<lparr>rj_pr = number, rj_priority_rank = only_rank configured,
               rj_created_at = created_at, rj_blocks_order = blocks, rj_reason = reason\<rparr>
         | None \<Rightarrow>
             if policy_unknown (ga_required_policy a) ci_candidate
             then RejectedRow \<lparr>rj_pr = number, rj_priority_rank = first_rank configured,
                    rj_created_at = created_at, rj_blocks_order = True,
                    rj_reason = ''effective landing-target required-check policy or a required provider state is unknown''\<rparr>
             else if blocked_by_red gate p ci_candidate
             then if bs_contains unjoined_parents number
                  then RejectedRow \<lparr>rj_pr = number, rj_priority_rank = only_rank configured,
                         rj_created_at = created_at, rj_blocks_order = True,
                         rj_reason = blocked_root_reason\<rparr>
                  else skip_row number configured created_at
                         ''candidate has a failing required check; queueing behind red only guarantees a later rebase, so the queue advances until it is fixed''
             else if has_label p ''caravan-join-skipped''
             then skip_row number configured created_at
                    ''carries the automatic skip label; Cara removes it only where it can prove it wrote it, so a label with no receipt stays skipped until removed by hand''
             else if mechanically_incompatible a number
             then skip_row number configured created_at
                    ''proven mechanically incompatible with the exact current default branch; the owner must reconcile it, and no rerun changes that''
             else candidate_row number configured created_at))"

subsection \<open>The canonical order\<close>

definition candidate_rows :: "admission_row list \<Rightarrow> admission_candidate list" where
  "candidate_rows rows =
     List.map_filter (\<lambda>r. case r of CandidateRow c \<Rightarrow> Some c | _ \<Rightarrow> None) rows"

definition skipped_rows :: "admission_row list \<Rightarrow> skipped_admission_candidate list" where
  "skipped_rows rows =
     List.map_filter (\<lambda>r. case r of SkippedRow c \<Rightarrow> Some c | _ \<Rightarrow> None) rows"

definition rejected_rows :: "admission_row list \<Rightarrow> rejected_admission_candidate list" where
  "rejected_rows rows =
     List.map_filter (\<lambda>r. case r of RejectedRow c \<Rightarrow> Some c | _ \<Rightarrow> None) rows"

definition dependencies_of :: "graph_analysis \<Rightarrow> pr_number \<Rightarrow> pr_number list" where
  "dependencies_of a number =
     (case bt_get (ga_pull_requests a) number of None \<Rightarrow> [] | Some p \<Rightarrow> dependency_prs a p)"

definition unjoined_parent_dependencies :: "graph_analysis \<Rightarrow> pr_number btree_set" where
  "unjoined_parent_dependencies a = bs_of_list (concat (map (dependencies_of a) (fl_unqueued (ga_fleet a))))"

definition blocked_roots :: "rejected_admission_candidate list \<Rightarrow> pr_number btree_set" where
  "blocked_roots rejected =
     bs_of_list (map rj_pr (filter (\<lambda>r. rj_blocks_order r
        \<and> starts_with (rj_reason r) ''candidate has a failing required check and unjoined descendants'')
        rejected))"

definition blocked_by :: "graph_analysis \<Rightarrow> pr_number btree_set \<Rightarrow> admission_candidate \<Rightarrow> pr_number list" where
  "blocked_by a roots c = filter (bs_contains roots) (dependencies_of a (ac_pr c))"

definition preserved_row ::
    "graph_analysis \<Rightarrow> pr_number btree_set \<Rightarrow> admission_candidate \<Rightarrow> skipped_admission_candidate" where
  "preserved_row a roots c =
     \<lparr>sk_pr = ac_pr c, sk_priority_label = ac_priority_label c, sk_priority_rank = ac_priority_rank c,
      sk_created_at = ac_created_at c,
      sk_reason = ''preserved behind temporarily blocked dependency domain rooted at ''
        @ show_pr_list '','' (blocked_by a roots c)
        @ ''; unrelated ready candidates may proceed without bypassing or retargeting this chain''\<rparr>"

definition least_key :: "admission_key list \<Rightarrow> admission_key option" where
  "least_key keys = (case keys of [] \<Rightarrow> None | k # ks \<Rightarrow> Some (fold min ks k))"

definition key_pr :: "admission_key \<Rightarrow> pr_number" where
  "key_pr k = snd (snd (snd k))"

definition resolve_admission_with_generation_and_gate ::
    "graph_analysis \<Rightarrow> string list \<Rightarrow> generation_integrity_status
     \<Rightarrow> ci_admission_gate_config option \<Rightarrow> admission_status" where
  "resolve_admission_with_generation_and_gate a priority_labels integrity gate =
     (let unranked = length priority_labels + 1;
          parents = unjoined_parent_dependencies a;
          rows = List.map_filter (admit_one a (rank_table priority_labels) integrity gate parents)
                   (fl_unqueued (ga_fleet a));
          found = candidate_rows rows;
          rejected = rejected_rows rows;
          roots = blocked_roots rejected;
          independent = filter (\<lambda>c. blocked_by a roots c = []) found;
          preserved = map (preserved_row a roots) (filter (\<lambda>c. blocked_by a roots c \<noteq> []) found);
          candidates = sort_key (candidate_key unranked) independent;
          skipped = sort_key (skipped_key unranked) (skipped_rows rows @ preserved);
          rejected' = sort_key (rejected_key unranked) rejected
      in \<lparr>as_policy = admission_policy, as_priority_labels = priority_labels, as_generation_integrity = integrity,
          as_candidates = candidates, as_skipped = skipped, as_rejected = rejected',
          as_next_candidate = map_option key_pr (least_key
            (map (candidate_key unranked) candidates
             @ map (rejected_key unranked)
                 (filter (\<lambda>r. rj_blocks_order r \<and> (candidates = [] \<or> \<not> bs_contains roots (rj_pr r)))
                    rejected')))\<rparr>)"

definition resolve_admission_with_generation ::
    "graph_analysis \<Rightarrow> string list \<Rightarrow> generation_integrity_status \<Rightarrow> admission_status" where
  "resolve_admission_with_generation a priority_labels integrity =
     resolve_admission_with_generation_and_gate a priority_labels integrity None"

definition resolve_admission :: "graph_analysis \<Rightarrow> string list \<Rightarrow> admission_status" where
  "resolve_admission a priority_labels =
     resolve_admission_with_generation a priority_labels integrity_default"

definition apply_generation_graph_problems ::
    "graph_analysis \<Rightarrow> generation_integrity_status \<Rightarrow> graph_analysis" where
  "apply_generation_graph_problems a integrity =
     fold (\<lambda>f a.
       if fd_disposition f = CurrentGeneration
          \<or> (case bt_get (ga_pull_requests a) (fd_pr f) of None \<Rightarrow> True
             | Some p \<Rightarrow> \<not> is_active_caravan_member p)
       then a
       else a\<lparr>ga_fleet := (ga_fleet a)\<lparr>fl_problems := fl_problems (ga_fleet a)
                @ [mk_problem
                     (case fd_disposition f of
                        AmbiguousGeneration \<Rightarrow> graph_problem_kind.AmbiguousGeneration
                      | InvalidGenerationMetadata \<Rightarrow> graph_problem_kind.InvalidGenerationMetadata
                      | _ \<Rightarrow> graph_problem_kind.SupersededGeneration)
                     (fd_related_prs f) (fd_reason f)]\<rparr>\<rparr>)
       (gi_findings integrity) a"

end
