(* ===== verification/Admission_Intent.thy ===== *)
theory Admission_Intent
  imports Admission
begin

text \<open>
  Intent-aware admission, from \<open>src/admission.rs\<close>: who selected a candidate (automatic order, an
  explicit request, the owner's checkout) decides whether it may pass the rows that are canonically
  ahead of it, and which of them may be passed at all.
\<close>

datatype admission_intent = NewIntent | JoinIntent

fun intent_name :: "admission_intent \<Rightarrow> string" where
  "intent_name NewIntent = ''new''"
| "intent_name JoinIntent = ''join''"

datatype admission_selection = Automatic | Explicit | CheckedOut

fun relaxes_order :: "admission_selection \<Rightarrow> bool" where
  "relaxes_order Automatic = False"
| "relaxes_order Explicit = True"
| "relaxes_order CheckedOut = True"

datatype ordered_row_disposition =
    BypassedUnjoined | BlockedJoined | BlockedDependency | BlockedRankIndeterminate | BlockedAutomaticOrder

fun disposition_debug :: "ordered_row_disposition \<Rightarrow> string" where
  "disposition_debug BypassedUnjoined = ''BypassedUnjoined''"
| "disposition_debug BlockedJoined = ''BlockedJoined''"
| "disposition_debug BlockedDependency = ''BlockedDependency''"
| "disposition_debug BlockedRankIndeterminate = ''BlockedRankIndeterminate''"
| "disposition_debug BlockedAutomaticOrder = ''BlockedAutomaticOrder''"

definition bypassed :: "ordered_row_disposition \<Rightarrow> bool" where
  "bypassed d = (d = BypassedUnjoined)"

record ordered_row =
  or_pr :: pr_number
  or_disposition :: ordered_row_disposition
  or_joined :: bool
  or_reason :: string

datatype admission_order_outcome =
    Canonical | ExplicitAheadOfUnjoined | BlockedByOrder | BlockedByPreflight | AlreadyEnrolled
  | OwnerSelected

definition admission_intent_policy :: string where
  "admission_intent_policy =
     ''Priority/FIFO order binds automatic admission selection for both `new` and `join` intent, without exception. Explicit owner intent '' @ [CHR 0xE2, CHR 0x80, CHR 0x94]
     @ '' an operator or agent naming one exact remote candidate with `cara check --pr N`, optionally `--tail-pr`/`--head-pr` '' @ [CHR 0xE2, CHR 0x80, CHR 0x94]
     @ '' is resolved before FIFO canonical-candidate rejection for both `new` and `join`, and may attach ahead of earlier rows only while every bypassed row is an unrelated unjoined first-admission attempt; a joined row, a base-chain dependency of the candidate, a rank-indeterminate row, a candidate that is not itself a current ordered admission attempt, or an unresolved/ambiguous join target fails closed on canonical order. An owner operating on their own checked-out PR (local check, membership, renew/rejoin) reports canonical position as evidence only, exactly as before. Ordering never substitutes for compatibility, dependency, policy, freshness, generation integrity, or provider preflight.''"

record admission_intent_decision =
  dc_schema_version :: nat
  dc_intent :: admission_intent
  dc_selection :: admission_selection
  dc_outcome :: admission_order_outcome
  dc_candidate_pr :: pr_number
  dc_canonical_candidate_pr :: "pr_number option"
  dc_target_caravan :: "pr_number option"
  dc_target_tail :: "pr_number option"
  dc_ordered_rows_ahead :: "ordered_row list"
  dc_bypassed_unjoined_prs :: "pr_number list"
  dc_blocking_prs :: "pr_number list"
  dc_dependency_prs :: "pr_number list"
  dc_compatibility_clean :: bool
  dc_preflight_clean :: bool
  dc_provider_mutated :: bool
  dc_idempotent :: bool
  dc_reason :: string
  dc_policy :: string

definition order_permits_admission :: "admission_intent_decision \<Rightarrow> bool" where
  "order_permits_admission d =
     (dc_outcome d \<in> {Canonical, ExplicitAheadOfUnjoined, AlreadyEnrolled, OwnerSelected})"

definition bypasses_fifo :: "admission_intent_decision \<Rightarrow> bool" where
  "bypasses_fifo d = (dc_outcome d = ExplicitAheadOfUnjoined)"

definition record_preflight ::
    "bool \<Rightarrow> bool \<Rightarrow> admission_intent_decision \<Rightarrow> admission_intent_decision" where
  "record_preflight compatibility_clean preflight_clean d =
     (let d' = d\<lparr>dc_compatibility_clean := compatibility_clean, dc_preflight_clean := preflight_clean\<rparr>
      in if \<not> preflight_clean \<and> dc_outcome d' = ExplicitAheadOfUnjoined
         then d'\<lparr>dc_outcome := BlockedByPreflight,
                 dc_reason := ''explicit '' @ intent_name (dc_intent d)
                   @ '' intent cleared canonical order, but exact preflight rejected the attach; ''
                   @ dc_reason d\<rparr>
         else d')"

definition record_execution :: "bool \<Rightarrow> admission_intent_decision \<Rightarrow> admission_intent_decision" where
  "record_execution provider_mutated d =
     d\<lparr>dc_provider_mutated := provider_mutated, dc_idempotent := \<not> provider_mutated\<rparr>"

subsection \<open>The rows ahead of a candidate\<close>

definition is_joined :: "graph_analysis \<Rightarrow> pr_number \<Rightarrow> bool" where
  "is_joined a pr = (fleet_containing (ga_fleet a) pr \<noteq> None)"

definition candidate_rows_ahead ::
    "graph_analysis \<Rightarrow> admission_selection \<Rightarrow> nat \<Rightarrow> pr_number \<Rightarrow> admission_key \<Rightarrow> pr_number list
     \<Rightarrow> admission_candidate list \<Rightarrow> ordered_row list" where
  "candidate_rows_ahead a selection unranked self key deps candidates =
     map (\<lambda>r. \<lparr>or_pr = ac_pr r,
               or_disposition =
                 (if is_joined a (ac_pr r) then BlockedJoined
                  else if ac_pr r \<in> set deps then BlockedDependency
                  else if relaxes_order selection then BypassedUnjoined
                  else BlockedAutomaticOrder),
               or_joined = is_joined a (ac_pr r), or_reason = ac_reason r\<rparr>)
       (filter (\<lambda>r. \<not> (ac_pr r = self \<or> candidate_key unranked r \<ge> key)) candidates)"

definition rejected_rows_ahead ::
    "graph_analysis \<Rightarrow> nat \<Rightarrow> pr_number \<Rightarrow> admission_key \<Rightarrow> pr_number list
     \<Rightarrow> rejected_admission_candidate list \<Rightarrow> ordered_row list" where
  "rejected_rows_ahead a unranked self key deps rejected =
     map (\<lambda>r. \<lparr>or_pr = rj_pr r,
               or_disposition =
                 (if is_joined a (rj_pr r) then BlockedJoined
                  else if rj_pr r \<in> set deps then BlockedDependency
                  else BlockedRankIndeterminate),
               or_joined = is_joined a (rj_pr r), or_reason = rj_reason r\<rparr>)
       (filter (\<lambda>r. \<not> (\<not> rj_blocks_order r \<or> rj_pr r = self \<or> rejected_key unranked r \<ge> key)) rejected)"

definition rows_ahead ::
    "graph_analysis \<Rightarrow> admission_status \<Rightarrow> admission_selection \<Rightarrow> pr_number \<Rightarrow> admission_candidate
     \<Rightarrow> pr_number list \<Rightarrow> ordered_row list" where
  "rows_ahead a admission selection self row deps =
     (let unranked = length (as_priority_labels admission) + 1;
          key = candidate_key unranked row
      in sort_key or_pr
           (candidate_rows_ahead a selection unranked self key deps (as_candidates admission)
            @ rejected_rows_ahead a unranked self key deps (as_rejected admission)))"

subsection \<open>Evaluation\<close>

definition blank_decision ::
    "admission_status \<Rightarrow> graph_analysis \<Rightarrow> pull_request_snapshot \<Rightarrow> caravan option
     \<Rightarrow> admission_selection \<Rightarrow> admission_intent_decision" where
  "blank_decision admission a candidate target selection =
     \<lparr>dc_schema_version = 1,
      dc_intent = (case target of None \<Rightarrow> NewIntent | Some _ \<Rightarrow> JoinIntent),
      dc_selection = selection, dc_outcome = BlockedByOrder, dc_candidate_pr = pr_num candidate,
      dc_canonical_candidate_pr = as_next_candidate admission,
      dc_target_caravan = map_option cv_id target,
      dc_target_tail = Option.bind target caravan_tail,
      dc_ordered_rows_ahead = [], dc_bypassed_unjoined_prs = [], dc_blocking_prs = [],
      dc_dependency_prs = dependency_prs a candidate,
      dc_compatibility_clean = False, dc_preflight_clean = False, dc_provider_mutated = False,
      dc_idempotent = False, dc_reason = [], dc_policy = admission_intent_policy\<rparr>"

definition unlisted_decision ::
    "admission_status \<Rightarrow> admission_intent_decision \<Rightarrow> admission_intent_decision" where
  "unlisted_decision admission d =
     (if dc_selection d = CheckedOut
      then d\<lparr>dc_outcome := OwnerSelected,
             dc_reason := ''owner is operating on this exact checked-out PR; canonical order is evidence only''\<rparr>
      else d\<lparr>dc_reason :=
             (case find (\<lambda>r. rj_pr r = dc_candidate_pr d) (as_rejected admission) of
                None \<Rightarrow> ''candidate is not a current ordered admission attempt; explicit intent cannot relax canonical order''
              | Some r \<Rightarrow> ''candidate is not a current ordered admission attempt: '' @ rj_reason r)\<rparr>)"

definition target_text :: "admission_intent_decision \<Rightarrow> string" where
  "target_text d =
     (case dc_target_caravan d of
        None \<Rightarrow> ''forming a new caravan''
      | Some i \<Rightarrow> ''to caravan #'' @ show_nat i)"

definition blocking_text :: "ordered_row list \<Rightarrow> string" where
  "blocking_text rows =
     join_str '', '' (map (\<lambda>r. ''#'' @ show_nat (or_pr r) @ '' ('' @ disposition_debug (or_disposition r) @ '')'')
       (filter (\<lambda>r. \<not> bypassed (or_disposition r)) rows))"

definition ordered_decision ::
    "admission_status \<Rightarrow> ordered_row list \<Rightarrow> admission_intent_decision \<Rightarrow> admission_intent_decision" where
  "ordered_decision admission rows d0 =
     (let d = d0\<lparr>dc_bypassed_unjoined_prs := map or_pr (filter (\<lambda>r. bypassed (or_disposition r)) rows),
                 dc_blocking_prs := map or_pr (filter (\<lambda>r. \<not> bypassed (or_disposition r)) rows),
                 dc_ordered_rows_ahead := rows\<rparr>;
          name = intent_name (dc_intent d)
      in if \<not> relaxes_order (dc_selection d)
         then d\<lparr>dc_reason :=
                (case as_next_candidate admission of
                   None \<Rightarrow> ''automatic admission is not selectable because no canonical attempt exists''
                 | Some canonical \<Rightarrow> ''priority/FIFO binds automatic selection for '' @ name
                     @ '' intent; fail closed on canonical PR #'' @ show_nat canonical)\<rparr>
         else if dc_blocking_prs d = []
         then d\<lparr>dc_outcome := ExplicitAheadOfUnjoined,
                dc_reason :=
                  (if dc_bypassed_unjoined_prs d = []
                   then ''explicit '' @ name @ '' intent '' @ target_text d @ ''; no earlier ordered row exists''
                   else ''explicit '' @ name @ '' intent '' @ target_text d @ ''; earlier row(s) ''
                     @ show_pr_list '', '' (dc_bypassed_unjoined_prs d)
                     @ '' bypassed only because they are unrelated unjoined first-admission attempts and keep their canonical order'')\<rparr>
         else if dc_selection d = CheckedOut
         then d\<lparr>dc_outcome := OwnerSelected,
                dc_reason := ''owner is operating on this exact checked-out PR; canonical order is evidence only; a remote explicit ''
                  @ name @ '' request would fail closed on earlier row(s) '' @ blocking_text rows\<rparr>
         else d\<lparr>dc_reason := ''explicit '' @ name @ '' intent '' @ target_text d
                  @ '' fails closed: earlier row(s) '' @ blocking_text rows
                  @ '' are not unrelated unjoined attempts''\<rparr>)"

definition evaluate ::
    "admission_status \<Rightarrow> graph_analysis \<Rightarrow> pull_request_snapshot \<Rightarrow> caravan option
     \<Rightarrow> admission_selection \<Rightarrow> admission_intent_decision" where
  "evaluate admission a candidate target selection =
     (let d = blank_decision admission a candidate target selection
      in if is_joined a (pr_num candidate)
         then d\<lparr>dc_outcome := AlreadyEnrolled,
                dc_reason := ''candidate is already an active caravan member; admission ordering does not apply''\<rparr>
         else if as_next_candidate admission = Some (pr_num candidate)
         then d\<lparr>dc_outcome := Canonical,
                dc_reason := ''candidate is the canonical first ordered '' @ intent_name (dc_intent d)
                  @ '' admission attempt''\<rparr>
         else case find (\<lambda>r. ac_pr r = pr_num candidate) (as_candidates admission) of
                None \<Rightarrow> unlisted_decision admission d
              | Some row \<Rightarrow>
                  ordered_decision admission
                    (rows_ahead a admission selection (pr_num candidate) row (dc_dependency_prs d)) d)"

end
