(* ===== verification/Admission_Facts.thy ===== *)
theory Admission_Facts
  imports Admission_Intent Samples
begin

text \<open>
  Guarantees of admission: nobody is lost, the elected pull request is the least of the canonical
  order, candidates are eligible and independent of blocked roots, automatic selection never passes
  anybody and explicit selection passes only unrelated unjoined attempts.
\<close>

subsection \<open>The rows of the canonical order\<close>

fun row_pr :: "admission_row \<Rightarrow> pr_number" where
  "row_pr (CandidateRow c) = ac_pr c"
| "row_pr (SkippedRow c) = sk_pr c"
| "row_pr (RejectedRow c) = rj_pr c"

lemma rows_partition:
  "mset (map ac_pr (candidate_rows rows)) + mset (map sk_pr (skipped_rows rows))
     + mset (map rj_pr (rejected_rows rows)) = mset (map row_pr rows)"
proof (induction rows)
  case (Cons r rows)
  then show ?case
    by (cases r) (simp_all add: candidate_rows_def skipped_rows_def rejected_rows_def)
qed (simp add: candidate_rows_def skipped_rows_def rejected_rows_def)

lemma admit_one_pr: "admit_one a ranks integrity gate parents n = Some row \<Longrightarrow> row_pr row = n"
  by (auto simp: admit_one_def Let_def skip_row_def candidate_row_def split: option.splits if_splits)

lemma admit_one_some:
  "admit_one a ranks integrity gate parents n = None \<longleftrightarrow> bt_get (ga_pull_requests a) n = None"
  by (simp add: admit_one_def split: option.split)

lemma admit_rows_prs:
  "map row_pr (List.map_filter (admit_one a ranks integrity gate parents) ns) =
     filter (\<lambda>n. bt_get (ga_pull_requests a) n \<noteq> None) ns"
proof (induction ns)
  case (Cons n ns)
  then show ?case
    using admit_one_some [of a ranks integrity gate parents n] admit_one_pr [of a ranks integrity gate parents n]
    by (cases "admit_one a ranks integrity gate parents n") auto
qed simp

lemma mset_partition_filter:
  "mset (map f (filter P xs)) + mset (map f (filter (\<lambda>x. \<not> P x) xs)) = mset (map f xs)"
  by (induction xs) auto

text \<open>The parts of a resolved order, named once.\<close>

definition order_rows ::
    "graph_analysis \<Rightarrow> string list \<Rightarrow> generation_integrity_status \<Rightarrow> ci_admission_gate_config option
     \<Rightarrow> admission_row list" where
  "order_rows a labels integrity gate =
     List.map_filter (admit_one a (rank_table labels) integrity gate (unjoined_parent_dependencies a))
       (fl_unqueued (ga_fleet a))"

definition order_roots where
  "order_roots a labels integrity gate = blocked_roots (rejected_rows (order_rows a labels integrity gate))"

abbreviation resolved where
  "resolved a labels integrity gate \<equiv> resolve_admission_with_generation_and_gate a labels integrity gate"

lemma resolved_candidates:
  "as_candidates (resolved a labels integrity gate) =
     sort_key (candidate_key (length labels + 1))
       (filter (\<lambda>c. blocked_by a (order_roots a labels integrity gate) c = [])
          (candidate_rows (order_rows a labels integrity gate)))"
  by (simp add: resolve_admission_with_generation_and_gate_def order_rows_def order_roots_def Let_def)

lemma resolved_skipped:
  "as_skipped (resolved a labels integrity gate) =
     sort_key (skipped_key (length labels + 1))
       (skipped_rows (order_rows a labels integrity gate)
        @ map (preserved_row a (order_roots a labels integrity gate))
            (filter (\<lambda>c. blocked_by a (order_roots a labels integrity gate) c \<noteq> [])
               (candidate_rows (order_rows a labels integrity gate))))"
  by (simp add: resolve_admission_with_generation_and_gate_def order_rows_def order_roots_def Let_def)

lemma resolved_rejected:
  "as_rejected (resolved a labels integrity gate) =
     sort_key (rejected_key (length labels + 1)) (rejected_rows (order_rows a labels integrity gate))"
  by (simp add: resolve_admission_with_generation_and_gate_def order_rows_def order_roots_def Let_def)

lemma resolved_next:
  "as_next_candidate (resolved a labels integrity gate) =
     map_option key_pr (least_key
       (map (candidate_key (length labels + 1)) (as_candidates (resolved a labels integrity gate))
        @ map (rejected_key (length labels + 1))
            (filter (\<lambda>r. rj_blocks_order r
                \<and> (as_candidates (resolved a labels integrity gate) = []
                   \<or> \<not> bs_contains (order_roots a labels integrity gate) (rj_pr r)))
               (as_rejected (resolved a labels integrity gate)))))"
  unfolding resolved_candidates resolved_rejected
  by (simp add: resolve_admission_with_generation_and_gate_def order_rows_def order_roots_def Let_def)

text \<open>Candidates, skipped and rejected rows together are exactly the unqueued pull requests.\<close>

lemma order_partition:
  "mset (map ac_pr (as_candidates (resolved a labels integrity gate)))
   + mset (map sk_pr (as_skipped (resolved a labels integrity gate)))
   + mset (map rj_pr (as_rejected (resolved a labels integrity gate)))
   = mset (filter (\<lambda>n. bt_get (ga_pull_requests a) n \<noteq> None) (fl_unqueued (ga_fleet a)))"
proof -
  let ?rows = "order_rows a labels integrity gate" and ?roots = "order_roots a labels integrity gate"
  let ?free = "\<lambda>c. blocked_by a ?roots c = []" and ?found = "candidate_rows ?rows"
  have sorted: "mset (map f (sort_key key xs)) = mset (map f xs)" for f :: "'x \<Rightarrow> nat" and key :: "'x \<Rightarrow> admission_key" and xs
    by (metis mset_map mset_sort)
  have "map sk_pr (map (preserved_row a ?roots) (filter (\<lambda>c. \<not> ?free c) ?found))
      = map ac_pr (filter (\<lambda>c. \<not> ?free c) ?found)"
    by (simp add: preserved_row_def)
  then have "mset (map ac_pr (as_candidates (resolved a labels integrity gate)))
      + mset (map sk_pr (as_skipped (resolved a labels integrity gate)))
      + mset (map rj_pr (as_rejected (resolved a labels integrity gate)))
      = mset (map ac_pr (filter ?free ?found))
        + (mset (map sk_pr (skipped_rows ?rows)) + mset (map ac_pr (filter (\<lambda>c. \<not> ?free c) ?found)))
        + mset (map rj_pr (rejected_rows ?rows))"
    unfolding resolved_candidates resolved_skipped resolved_rejected sorted
    by (simp only: map_append mset_append)
  also have "\<dots> = mset (map row_pr ?rows)"
    unfolding rows_partition [symmetric] mset_partition_filter [of ac_pr ?free ?found, symmetric]
    by (simp only: ac_simps)
  finally show ?thesis unfolding order_rows_def admit_rows_prs .
qed

subsection \<open>The elected pull request\<close>

lemma least_key_spec:
  "least_key ks = Some k \<longleftrightarrow> ks \<noteq> [] \<and> k \<in> set ks \<and> (\<forall>x\<in>set ks. k \<le> x)"
proof -
  have fold_min: "fold min xs x = Min (set (x # xs))" for x :: admission_key and xs
    by (simp only: Min.set_eq_fold)
  show ?thesis
  proof (cases ks)
    case (Cons x xs)
    have "Min (set (x # xs)) \<in> set (x # xs)" "\<forall>y\<in>set (x # xs). Min (set (x # xs)) \<le> y"
      by (simp_all del: set_simps add: Min_in)
    then show ?thesis
      unfolding Cons least_key_def list.case fold_min option.inject by (metis antisym list.distinct(1))
  qed (simp add: least_key_def)
qed

lemma key_pr_simps [simp]:
  "key_pr (candidate_key u c) = ac_pr c" "key_pr (rejected_key u r) = rj_pr r"
  by (simp_all add: key_pr_def candidate_key_def rejected_key_def order_key_def)

definition blocking_rows ::
    "graph_analysis \<Rightarrow> string list \<Rightarrow> generation_integrity_status \<Rightarrow> ci_admission_gate_config option
     \<Rightarrow> rejected_admission_candidate list" where
  "blocking_rows a labels integrity gate =
     filter (\<lambda>r. rj_blocks_order r
        \<and> (as_candidates (resolved a labels integrity gate) = []
           \<or> rj_pr r \<notin> set (blocked_roots (as_rejected (resolved a labels integrity gate)))))
       (as_rejected (resolved a labels integrity gate))"

lemma blocked_roots_sorted:
  "set (blocked_roots (as_rejected (resolved a labels integrity gate)))
     = set (order_roots a labels integrity gate)"
  by (simp add: blocked_roots_def order_roots_def resolved_rejected)

text \<open>
  The place of a pull request in the canonical order, from its own labels, creation time and number; and
  the priority metadata that is known: no unknown priority label, and not two configured ones.
\<close>

definition pr_order_key :: "graph_analysis \<Rightarrow> string list \<Rightarrow> pr_number \<Rightarrow> admission_key" where
  "pr_order_key a labels n =
     (case bt_get (ga_pull_requests a) n of
        None \<Rightarrow> order_key (length labels + 1) None None n
      | Some p \<Rightarrow> order_key (length labels + 1) (first_rank (configured_labels (rank_table labels) p)) (pr_created_at p) n)"

definition priority_known :: "string list \<Rightarrow> pull_request_snapshot \<Rightarrow> bool" where
  "priority_known labels p \<longleftrightarrow>
     invalid_labels (rank_table labels) p = [] \<and> length (configured_labels (rank_table labels) p) \<le> 1"

lemma only_rank_known: "length configured \<le> 1 \<Longrightarrow> only_rank configured = first_rank configured"
  by (cases configured; cases "tl configured") (auto simp: only_rank_def first_rank_def)

lemma row_order_key:
  assumes "admit_one a (rank_table labels) integrity gate parents n = Some row"
    and "\<And>p. bt_get (ga_pull_requests a) n = Some p \<Longrightarrow> priority_known labels p"
  shows "row = CandidateRow c \<Longrightarrow> candidate_key (length labels + 1) c = pr_order_key a labels (ac_pr c)"
    and "row = RejectedRow r \<Longrightarrow> rejected_key (length labels + 1) r = pr_order_key a labels (rj_pr r)"
  using assms
  by (auto simp: admit_one_def Let_def skip_row_def candidate_row_def candidate_key_def rejected_key_def pr_order_key_def
      priority_known_def only_rank_known split: option.splits if_splits)

lemma candidate_keys:
  assumes "\<And>n p. n \<in> set (fl_unqueued (ga_fleet a)) \<Longrightarrow> bt_get (ga_pull_requests a) n = Some p \<Longrightarrow> priority_known labels p"
    and "c \<in> set (candidate_rows (order_rows a labels integrity gate))"
  shows "candidate_key (length labels + 1) c = pr_order_key a labels (ac_pr c)"
proof -
  obtain n row where "n \<in> set (fl_unqueued (ga_fleet a))" "row = CandidateRow c"
      "admit_one a (rank_table labels) integrity gate (unjoined_parent_dependencies a) n = Some row"
    using assms(2) by (auto simp: candidate_rows_def order_rows_def List.map_filter_def split: admission_row.splits)
  thus ?thesis using row_order_key(1) assms(1) by blast
qed

lemma rejected_keys:
  assumes "\<And>n p. n \<in> set (fl_unqueued (ga_fleet a)) \<Longrightarrow> bt_get (ga_pull_requests a) n = Some p \<Longrightarrow> priority_known labels p"
    and "r \<in> set (rejected_rows (order_rows a labels integrity gate))"
  shows "rejected_key (length labels + 1) r = pr_order_key a labels (rj_pr r)"
proof -
  obtain n row where "n \<in> set (fl_unqueued (ga_fleet a))" "row = RejectedRow r"
      "admit_one a (rank_table labels) integrity gate (unjoined_parent_dependencies a) n = Some row"
    using assms(2) by (auto simp: rejected_rows_def order_rows_def List.map_filter_def split: admission_row.splits)
  thus ?thesis using row_order_key(2) assms(1) by blast
qed

lemma elected_key_least:
  "case as_next_candidate (resolved a labels integrity gate) of
     None \<Rightarrow> as_candidates (resolved a labels integrity gate) = [] \<and> blocking_rows a labels integrity gate = []
   | Some pr \<Rightarrow> \<exists>key. key_pr key = pr
       \<and> key \<in> candidate_key (length labels + 1) ` set (as_candidates (resolved a labels integrity gate))
               \<union> rejected_key (length labels + 1) ` set (blocking_rows a labels integrity gate)
       \<and> (\<forall>c\<in>set (as_candidates (resolved a labels integrity gate)). key \<le> candidate_key (length labels + 1) c)
       \<and> (\<forall>r\<in>set (blocking_rows a labels integrity gate). key \<le> rejected_key (length labels + 1) r)"
proof -
  let ?u = "length labels + 1"
  let ?keys = "map (candidate_key ?u) (as_candidates (resolved a labels integrity gate))
      @ map (rejected_key ?u) (blocking_rows a labels integrity gate)"
  have next_eq: "as_next_candidate (resolved a labels integrity gate) = map_option key_pr (least_key ?keys)"
    unfolding resolved_next blocking_rows_def blocked_roots_sorted bs_contains_iff ..
  show ?thesis
  proof (cases "least_key ?keys")
    case None
    then have "?keys = []" by (cases ?keys) (auto simp: least_key_def)
    with None show ?thesis unfolding next_eq by simp
  next
    case (Some k)
    then have least: "k \<in> set ?keys" "\<forall>x\<in>set ?keys. k \<le> x" unfolding least_key_spec by blast+
    show ?thesis
      unfolding next_eq Some option.map option.case
      by (rule exI [of _ k]) (use least in \<open>auto simp del: key_pr_simps\<close>)
  qed
qed

text \<open>
  C21. With known priority metadata, the elected pull request is the least of the canonical order. Let no
  unqueued pull request carry an unknown or a second configured priority label. Then the elected one is a
  candidate or an order-blocking rejection, and no candidate and no order-blocking rejection comes before
  it by rank of its own priority label, then creation time, then number; none is elected only when there
  is nothing to elect. A root blocked by red checks counts only while no independent candidate exists.
\<close>

theorem next_candidate_is_least:
  assumes "\<And>n p. n \<in> set (fl_unqueued (ga_fleet a)) \<Longrightarrow> bt_get (ga_pull_requests a) n = Some p \<Longrightarrow> priority_known labels p"
  shows "case as_next_candidate (resolve_admission_with_generation_and_gate a labels integrity gate) of
     None \<Rightarrow> as_candidates (resolve_admission_with_generation_and_gate a labels integrity gate) = []
             \<and> blocking_rows a labels integrity gate = []
   | Some pr \<Rightarrow>
       pr \<in> ac_pr ` set (as_candidates (resolve_admission_with_generation_and_gate a labels integrity gate))
             \<union> rj_pr ` set (blocking_rows a labels integrity gate)
       \<and> (\<forall>c\<in>set (as_candidates (resolve_admission_with_generation_and_gate a labels integrity gate)).
            pr_order_key a labels pr \<le> pr_order_key a labels (ac_pr c))
       \<and> (\<forall>r\<in>set (blocking_rows a labels integrity gate). pr_order_key a labels pr \<le> pr_order_key a labels (rj_pr r))"
proof -
  have candidates: "candidate_key (length labels + 1) c = pr_order_key a labels (ac_pr c)"
    if "c \<in> set (as_candidates (resolved a labels integrity gate))" for c
    using candidate_keys [OF assms] that by (auto simp: resolved_candidates)
  have rejected: "rejected_key (length labels + 1) r = pr_order_key a labels (rj_pr r)"
    if "r \<in> set (blocking_rows a labels integrity gate)" for r
    using rejected_keys [OF assms] that by (auto simp: blocking_rows_def resolved_rejected)
  show ?thesis
  proof (cases "as_next_candidate (resolved a labels integrity gate)")
    case None
    thus ?thesis using elected_key_least [of a labels integrity gate] by simp
  next
    case (Some pr)
    obtain key where key: "key_pr key = pr"
        "key \<in> candidate_key (length labels + 1) ` set (as_candidates (resolved a labels integrity gate))
               \<union> rejected_key (length labels + 1) ` set (blocking_rows a labels integrity gate)"
        "\<forall>c\<in>set (as_candidates (resolved a labels integrity gate)). key \<le> candidate_key (length labels + 1) c"
        "\<forall>r\<in>set (blocking_rows a labels integrity gate). key \<le> rejected_key (length labels + 1) r"
      using elected_key_least [of a labels integrity gate] unfolding Some option.case by blast
    have own: "key = pr_order_key a labels pr"
      using key(1,2) candidates rejected by (elim UnE imageE) (metis key_pr_simps)+
    have "pr \<in> ac_pr ` set (as_candidates (resolved a labels integrity gate)) \<union> rj_pr ` set (blocking_rows a labels integrity gate)"
      using key(1,2) by (elim UnE imageE) (simp_all del: Un_iff, blast+)
    thus ?thesis using key(3,4) candidates rejected unfolding Some own by simp
  qed
qed

subsection \<open>Eligibility\<close>

lemma candidate_row_origin:
  assumes "c \<in> set (candidate_rows (order_rows a labels integrity gate))"
  shows "\<exists>p. bt_get (ga_pull_requests a) (ac_pr c) = Some p
    \<and> structural_rejection integrity (rank_table labels) (ac_pr c) p = None
    \<and> \<not> policy_unknown (ga_required_policy a) (required_check_snapshot p (ga_required_policy a))
    \<and> \<not> blocked_by_red gate p (required_check_snapshot p (ga_required_policy a))
    \<and> \<not> has_label p ''caravan-join-skipped'' \<and> \<not> mechanically_incompatible a (ac_pr c)"
proof -
  obtain n where "admit_one a (rank_table labels) integrity gate (unjoined_parent_dependencies a) n
      = Some (CandidateRow c)"
    using assms by (auto simp: candidate_rows_def order_rows_def List.map_filter_def split: admission_row.splits)
  then show ?thesis
    by (auto simp: admit_one_def Let_def skip_row_def candidate_row_def split: option.splits if_splits)
qed

lemma structural_rejection_None:
  "structural_rejection integrity ranks number p = None \<longleftrightarrow>
     generation_rejection integrity number = None \<and> invalid_labels ranks p = []
     \<and> length (configured_labels ranks p) \<le> 1 \<and> \<not> pr_draft p \<and> \<not> pr_cross_repository p
     \<and> \<not> am_enabled (pr_auto_merge p)"
  by (auto simp: structural_rejection_def Let_def split: option.splits)

lemma generation_admissible:
  "generation_rejection integrity number = None \<longleftrightarrow> require_admissible integrity number = Inr ()"
  by (auto simp: generation_rejection_def require_admissible_def
      split: option.split generation_disposition.splits)

text \<open>
  C22. Every candidate is eligible: its generation passes the admission guard, it is not a draft, not
  from a fork and not armed for auto-merge, it carries at most one priority label and no unknown
  one, it does not carry the automatic skip label; where there is a required-check policy it is complete
  and the provider state of each required check is known; none of its current required checks is a hard
  failure (unless it is forced or only the deferred gate fails), it is not known to conflict with the
  default branch, and none of its base-chain dependencies is a root blocked by red checks.
\<close>

theorem candidates_are_eligible:
  assumes "c \<in> set (as_candidates (resolve_admission_with_generation_and_gate a labels integrity gate))"
  shows "\<exists>p. bt_get (ga_pull_requests a) (ac_pr c) = Some p
    \<and> require_admissible integrity (ac_pr c) = Inr ()
    \<and> \<not> pr_draft p \<and> \<not> pr_cross_repository p \<and> \<not> am_enabled (pr_auto_merge p)
    \<and> invalid_labels (rank_table labels) p = [] \<and> length (configured_labels (rank_table labels) p) \<le> 1
    \<and> \<not> has_label p ''caravan-join-skipped''
    \<and> (\<forall>pol. ga_required_policy a = Some pol \<longrightarrow> rq_complete pol
          \<and> (\<forall>check\<in>set (pr_checks (required_check_snapshot p (ga_required_policy a))). ck_state check \<noteq> CheckUnknown))
    \<and> (has_failing_check (required_check_snapshot p (ga_required_policy a)) \<longrightarrow>
         has_label p ''caravan-force'' \<or> gate_deferred gate (required_check_snapshot p (ga_required_policy a)))
    \<and> \<not> mechanically_incompatible a (ac_pr c)
    \<and> set (dependency_prs a p)
        \<inter> set (blocked_roots (as_rejected (resolve_admission_with_generation_and_gate a labels integrity gate))) = {}"
proof -
  let ?roots = "order_roots a labels integrity gate"
  from assms have c: "c \<in> set (candidate_rows (order_rows a labels integrity gate))"
    and free: "blocked_by a ?roots c = []"
    unfolding resolved_candidates by auto
  from candidate_row_origin [OF c] obtain p where p: "bt_get (ga_pull_requests a) (ac_pr c) = Some p"
    and ok: "structural_rejection integrity (rank_table labels) (ac_pr c) p = None"
      "\<not> policy_unknown (ga_required_policy a) (required_check_snapshot p (ga_required_policy a))"
      "\<not> blocked_by_red gate p (required_check_snapshot p (ga_required_policy a))"
      "\<not> mechanically_incompatible a (ac_pr c)" "\<not> has_label p ''caravan-join-skipped''" by blast
  have "set (dependency_prs a p) \<inter> set ?roots = {}"
    using free p by (auto simp: blocked_by_def dependencies_of_def filter_empty_conv)
  moreover have "\<forall>pol. ga_required_policy a = Some pol \<longrightarrow> rq_complete pol
      \<and> (\<forall>check\<in>set (pr_checks (required_check_snapshot p (ga_required_policy a))). ck_state check \<noteq> CheckUnknown)"
    using ok(2) by (auto simp: policy_unknown_def)
  ultimately show ?thesis
    using p ok(1,3,4,5) unfolding structural_rejection_None generation_admissible blocked_roots_sorted
    by (auto simp: blocked_by_red_def)
qed

subsection \<open>Dependencies\<close>

definition dependency_ok ::
    "pull_request_snapshot list \<Rightarrow> pull_request_snapshot \<Rightarrow> pr_number set \<Rightarrow> pr_number \<Rightarrow> bool" where
  "dependency_ok prs candidate deps d \<longleftrightarrow>
     (\<exists>p\<in>set prs. pr_num p = d \<and> pr_state p = Open \<and> \<not> pr_cross_repository p
        \<and> br_repository (pr_head p) = br_repository (pr_base candidate) \<and> d \<noteq> pr_num candidate
        \<and> (br_name (pr_head p) = br_name (pr_base candidate)
           \<or> (\<exists>q\<in>set prs. pr_num q \<in> deps \<and> br_name (pr_base q) = br_name (pr_head p))))"

lemma dependency_ok_mono: "dependency_ok prs c deps d \<Longrightarrow> deps \<subseteq> deps' \<Longrightarrow> dependency_ok prs c deps' d"
  unfolding dependency_ok_def by blast

lemma dependency_walk_spec:
  assumes "bs_wf deps" "\<forall>d\<in>set deps. dependency_ok prs c (set deps) d"
    and "branch = br_name (pr_base c) \<or> (\<exists>q\<in>set prs. pr_num q \<in> set deps \<and> br_name (pr_base q) = branch)"
  shows "bs_wf (dependency_walk prs c (br_repository (pr_base c)) k branch deps)
    \<and> length (dependency_walk prs c (br_repository (pr_base c)) k branch deps) \<le> length deps + k
    \<and> (\<forall>d\<in>set (dependency_walk prs c (br_repository (pr_base c)) k branch deps).
         dependency_ok prs c (set (dependency_walk prs c (br_repository (pr_base c)) k branch deps)) d)"
  using assms
proof (induction k arbitrary: branch deps)
  case (Suc k)
  show ?case
  proof (cases "find (is_base_parent c (br_repository (pr_base c)) branch) prs")
    case None
    with Suc.prems show ?thesis by simp
  next
    case (Some p)
    then have p: "is_base_parent c (br_repository (pr_base c)) branch p" "p \<in> set prs"
      using find_map_pred by metis+
    show ?thesis
    proof (cases "bs_contains deps (pr_num p)")
      case True
      with Some Suc.prems show ?thesis by simp
    next
      case False
      let ?deps = "bs_insert (pr_num p) deps"
      have len: "length ?deps \<le> Suc (length deps)"
        by (induction "pr_num p" deps rule: bs_insert.induct) auto
      have "dependency_ok prs c (set ?deps) (pr_num p)"
        using p Suc.prems(3) by (auto simp: dependency_ok_def is_base_parent_def)
      moreover have "dependency_ok prs c (set ?deps) d" if "d \<in> set deps" for d
        using Suc.prems(2) that dependency_ok_mono by (metis set_bs_insert subset_insertI)
      ultimately have "\<forall>d\<in>set ?deps. dependency_ok prs c (set ?deps) d" by simp
      moreover have "\<exists>q\<in>set prs. pr_num q \<in> set ?deps \<and> br_name (pr_base q) = br_name (pr_base p)"
        using p(2) by auto
      ultimately have "bs_wf (dependency_walk prs c (br_repository (pr_base c)) k (br_name (pr_base p)) ?deps)
          \<and> length (dependency_walk prs c (br_repository (pr_base c)) k (br_name (pr_base p)) ?deps)
            \<le> length ?deps + k
          \<and> (\<forall>d\<in>set (dependency_walk prs c (br_repository (pr_base c)) k (br_name (pr_base p)) ?deps).
              dependency_ok prs c (set (dependency_walk prs c (br_repository (pr_base c)) k (br_name (pr_base p)) ?deps)) d)"
        using Suc.IH [OF bs_wf_insert [OF Suc.prems(1)]] by blast
      with Some False len show ?thesis by simp
    qed
  qed
qed simp

text \<open>
  C38. The dependency walk ends within its bound and is sound: at most \<open>max_dependency_depth\<close> pull
  requests, in ascending order, never the candidate itself, each an open pull request of the same
  repository whose head is the base of the candidate or of another dependency.
\<close>

theorem dependency_prs_sound:
  "length (dependency_prs a candidate) \<le> max_dependency_depth
   \<and> sorted_wrt (<) (dependency_prs a candidate)
   \<and> (\<forall>d\<in>set (dependency_prs a candidate).
        dependency_ok (bt_values (ga_pull_requests a)) candidate (set (dependency_prs a candidate)) d)"
  using dependency_walk_spec [of "[]" "bt_values (ga_pull_requests a)" candidate "br_name (pr_base candidate)"
      max_dependency_depth]
  by (simp add: dependency_prs_def bs_wf_def)

subsection \<open>Intent\<close>

lemma evaluate_listed:
  assumes "\<not> is_joined a (pr_num c)" "as_next_candidate adm \<noteq> Some (pr_num c)"
    and "find (\<lambda>r. ac_pr r = pr_num c) (as_candidates adm) = Some row"
  shows "evaluate adm a c target sel = ordered_decision adm
    (rows_ahead a adm sel (pr_num c) row (dependency_prs a c)) (blank_decision adm a c target sel)"
  using assms by (simp add: evaluate_def Let_def blank_decision_def)

lemma outcome_unlisted:
  assumes "\<not> is_joined a (pr_num c)" "as_next_candidate adm \<noteq> Some (pr_num c)"
    and "find (\<lambda>r. ac_pr r = pr_num c) (as_candidates adm) = None"
  shows "dc_outcome (evaluate adm a c target sel) = (if sel = CheckedOut then OwnerSelected else BlockedByOrder)"
  using assms by (simp add: evaluate_def Let_def unlisted_decision_def blank_decision_def)

lemma outcome_ordered:
  "dc_outcome (ordered_decision adm rows (blank_decision adm a c target sel)) =
     (if \<not> relaxes_order sel then BlockedByOrder
      else if \<forall>r\<in>set rows. bypassed (or_disposition r) then ExplicitAheadOfUnjoined
      else if sel = CheckedOut then OwnerSelected else BlockedByOrder)"
  by (auto simp: ordered_decision_def blank_decision_def Let_def filter_empty_conv)

lemma rows_ahead_bypassed:
  assumes "relaxes_order sel" "u = length (as_priority_labels adm) + 1"
  shows "(\<forall>r\<in>set (rows_ahead a adm sel self row deps). bypassed (or_disposition r)) \<longleftrightarrow>
     (\<forall>r\<in>set (as_candidates adm). ac_pr r \<noteq> self \<and> candidate_key u r < candidate_key u row
        \<longrightarrow> \<not> is_joined a (ac_pr r) \<and> ac_pr r \<notin> set deps)
     \<and> (\<forall>r\<in>set (as_rejected adm). rj_blocks_order r \<and> rj_pr r \<noteq> self
        \<longrightarrow> candidate_key u row \<le> rejected_key u r)"
proof -
  have cand: "(\<forall>r\<in>set (candidate_rows_ahead a sel u self k deps cs). bypassed (or_disposition r)) \<longleftrightarrow>
      (\<forall>r\<in>set cs. ac_pr r \<noteq> self \<and> candidate_key u r < k
        \<longrightarrow> \<not> is_joined a (ac_pr r) \<and> ac_pr r \<notin> set deps)" for k cs
    using assms(1) by (auto simp: candidate_rows_ahead_def bypassed_def not_le)
  have rej: "(\<forall>r\<in>set (rejected_rows_ahead a u self k deps rs). bypassed (or_disposition r)) \<longleftrightarrow>
      (\<forall>r\<in>set rs. rj_blocks_order r \<and> rj_pr r \<noteq> self \<longrightarrow> k \<le> rejected_key u r)" for k rs
    by (auto simp: rejected_rows_ahead_def bypassed_def)
  have "set (rows_ahead a adm sel self row deps) =
      set (candidate_rows_ahead a sel u self (candidate_key u row) deps (as_candidates adm))
      \<union> set (rejected_rows_ahead a u self (candidate_key u row) deps (as_rejected adm))"
    by (simp add: rows_ahead_def Let_def assms(2))
  then show ?thesis by (simp only: ball_Un cand rej)
qed

text \<open>
  C23. An explicit request passes exactly the rows it may pass: the outcome is
  \<open>ExplicitAheadOfUnjoined\<close> if and only if the candidate is not enrolled and not canonical, an owner
  selected it, it is itself a listed attempt, every listed attempt ahead of it is neither a member of
  a live caravan nor a base-chain dependency of it, and no order-blocking rejection is ahead of it.
\<close>

theorem explicit_passes_only_unrelated:
  "dc_outcome (evaluate adm a c target sel) = ExplicitAheadOfUnjoined \<longleftrightarrow>
     \<not> is_joined a (pr_num c) \<and> as_next_candidate adm \<noteq> Some (pr_num c) \<and> relaxes_order sel
     \<and> (\<exists>row. find (\<lambda>r. ac_pr r = pr_num c) (as_candidates adm) = Some row
          \<and> (\<forall>r\<in>set (as_candidates adm). ac_pr r \<noteq> pr_num c
               \<and> candidate_key (length (as_priority_labels adm) + 1) r
                   < candidate_key (length (as_priority_labels adm) + 1) row
               \<longrightarrow> \<not> is_joined a (ac_pr r) \<and> ac_pr r \<notin> set (dependency_prs a c))
          \<and> (\<forall>r\<in>set (as_rejected adm). rj_blocks_order r \<and> rj_pr r \<noteq> pr_num c
               \<longrightarrow> candidate_key (length (as_priority_labels adm) + 1) row
                     \<le> rejected_key (length (as_priority_labels adm) + 1) r))"
proof (cases "is_joined a (pr_num c) \<or> as_next_candidate adm = Some (pr_num c)")
  case True
  then show ?thesis by (auto simp: evaluate_def Let_def)
next
  case False
  show ?thesis
  proof (cases "find (\<lambda>r. ac_pr r = pr_num c) (as_candidates adm)")
    case None
    with False outcome_unlisted [of a c adm target sel] show ?thesis by simp
  next
    case (Some row)
    then have "dc_outcome (evaluate adm a c target sel) = ExplicitAheadOfUnjoined \<longleftrightarrow>
        relaxes_order sel \<and> (\<forall>r\<in>set (rows_ahead a adm sel (pr_num c) row (dependency_prs a c)).
          bypassed (or_disposition r))"
      using evaluate_listed [of a c adm row target sel] False by (auto simp: outcome_ordered)
    then show ?thesis using False Some rows_ahead_bypassed [OF _ refl, of sel a adm "pr_num c" row] by auto
  qed
qed

text \<open>
  C24. Who selects decides who is gated: automatic selection admits a candidate only when it is
  already enrolled or canonical; a checked-out pull request is never gated by the order; and a
  decision that passed earlier rows survives the preflight record only when the preflight was clean.
\<close>

theorem selection_contract:
  "(order_permits_admission (evaluate adm a c target Automatic) \<longleftrightarrow>
      is_joined a (pr_num c) \<or> as_next_candidate adm = Some (pr_num c))
   \<and> order_permits_admission (evaluate adm a c target CheckedOut)
   \<and> (bypasses_fifo (record_preflight compatible clean (evaluate adm a c target sel)) \<longleftrightarrow>
        clean \<and> bypasses_fifo (evaluate adm a c target sel))"
proof -
  have out: "dc_outcome (evaluate adm a c target sel) =
      (if is_joined a (pr_num c) then AlreadyEnrolled
       else if as_next_candidate adm = Some (pr_num c) then Canonical
       else case find (\<lambda>r. ac_pr r = pr_num c) (as_candidates adm) of
              None \<Rightarrow> if sel = CheckedOut then OwnerSelected else BlockedByOrder
            | Some row \<Rightarrow> dc_outcome (ordered_decision adm
                (rows_ahead a adm sel (pr_num c) row (dependency_prs a c)) (blank_decision adm a c target sel)))"
    for sel
    using outcome_unlisted [of a c adm target sel] evaluate_listed [of a c adm _ target sel]
    by (auto simp: evaluate_def Let_def split: option.split)
  show ?thesis
    by (auto simp: order_permits_admission_def bypasses_fifo_def record_preflight_def out [of Automatic]
        out [of CheckedOut] outcome_ordered Let_def split: option.split)
qed

subsection \<open>A concrete queue\<close>

text \<open>
  Three unqueued pull requests: the first carries a priority label that is not configured, the
  second the one that is, the third none.
\<close>

definition queued_pr :: "pr_number \<Rightarrow> string \<Rightarrow> string list \<Rightarrow> pull_request_snapshot" where
  "queued_pr n head_name ls = (sample_pr n head_name ''m'' auto_merge_disabled)\<lparr>pr_labels := ls\<rparr>"

definition sample_queue :: graph_analysis where
  "sample_queue = sample_analysis
     \<lparr>ga_fleet := (ga_fleet sample_analysis)\<lparr>fl_caravans := [], fl_unqueued := [1, 2, 3]\<rparr>,
      ga_pull_requests :=
        [(1, queued_pr 1 ''a'' [''caravan-priority:x'']), (2, queued_pr 2 ''b'' [''caravan-priority:high'']),
         (3, queued_pr 3 ''c'' [])]\<rparr>"

lemma queued_pr_simps:
  "pr_num (queued_pr n h ls) = n" "pr_labels (queued_pr n h ls) = ls" "pr_state (queued_pr n h ls) = Open"
  "\<not> pr_draft (queued_pr n h ls)" "\<not> pr_cross_repository (queued_pr n h ls)"
  "pr_auto_merge (queued_pr n h ls) = auto_merge_disabled" "pr_checks (queued_pr n h ls) = []"
  "pr_created_at (queued_pr n h ls) = None" "br_name (pr_base (queued_pr n h ls)) = ''m''"
  "br_name (pr_head (queued_pr n h ls)) = h"
  by (simp_all add: queued_pr_def sample_pr_def sample_branch_def)

lemma sample_queue_simps:
  "fl_unqueued (ga_fleet sample_queue) = [1, 2, 3]" "ga_required_policy sample_queue = None"
  "fl_caravans (ga_fleet sample_queue) = []" "fl_problems (ga_fleet sample_queue) = []"
  "ga_pull_requests sample_queue =
     [(1, queued_pr 1 ''a'' [''caravan-priority:x'']), (2, queued_pr 2 ''b'' [''caravan-priority:high'']),
      (3, queued_pr 3 ''c'' [])]"
  by (simp_all add: sample_queue_def sample_analysis_def)

lemma queued_no_parent: "dependency_prs sample_queue (queued_pr n h ls) = []"
  by (simp add: dependency_prs_def max_dependency_depth_def numeral_eq_Suc sample_queue_simps bt_values_def
      is_base_parent_def queued_pr_simps)

lemma sample_ranks: "rank_table [''caravan-priority:high''] = [(''caravan-priority:high'', 0)]"
  by (simp add: rank_table_def)

definition sample_order :: admission_status where
  "sample_order = resolve_admission sample_queue [''caravan-priority:high'']"

lemma queued_green: "\<not> blocked_by_red gate (queued_pr n h ls) (queued_pr n h ls)"
  by (simp add: blocked_by_red_def has_failing_check_def queued_pr_simps latest_checks_per_identity_def)

lemma sample_rows:
  "order_rows sample_queue [''caravan-priority:high''] integrity_default None =
     [RejectedRow \<lparr>rj_pr = 1, rj_priority_rank = None, rj_created_at = None, rj_blocks_order = True,
        rj_reason = ''fail closed: unknown priority label(s): caravan-priority:x''\<rparr>,
      candidate_row 2 [(''caravan-priority:high'', 0)] None, candidate_row 3 [] None]"
proof -
  have none: "required_check_snapshot p None = p" for p
    by (simp add: required_check_snapshot_def filter_opt_def)
  have gen: "generation_rejection integrity_default n = None" for n
    by (simp add: generation_rejection_def finding_for_def integrity_default_def)
  show ?thesis
    by (simp add: order_rows_def sample_ranks sample_queue_simps admit_one_def Let_def bt_get_def
        structural_rejection_def gen none configured_labels_def invalid_labels_def priority_namespace_def
        queued_pr_simps starts_with_def only_rank_def policy_unknown_def queued_green has_label_def
        mechanically_incompatible_def auto_merge_disabled_def List.map_filter_def)
qed

lemma sample_order_parts:
  "map ac_pr (as_candidates sample_order) = [2, 3]"
  "map rj_pr (as_rejected sample_order) = [1]" "as_next_candidate sample_order = Some 2"
proof -
  let ?r = "order_roots sample_queue [''caravan-priority:high''] integrity_default None"
  have roots: "?r = []"
    by (simp add: order_roots_def sample_rows rejected_rows_def candidate_row_def blocked_roots_def
        starts_with_def bs_of_list_def List.map_filter_def)
  have free: "blocked_by sample_queue [] c = []" for c by (simp add: blocked_by_def)
  have eq: "sample_order = resolved sample_queue [''caravan-priority:high''] integrity_default None"
    by (simp add: sample_order_def resolve_admission_def resolve_admission_with_generation_def)
  show "map ac_pr (as_candidates sample_order) = [2, 3]" "map rj_pr (as_rejected sample_order) = [1]"
    unfolding eq resolved_candidates resolved_rejected sample_rows roots
    by (simp_all add: free candidate_rows_def rejected_rows_def candidate_row_def first_rank_def
        candidate_key_def rejected_key_def order_key_def List.map_filter_def)
  show "as_next_candidate sample_order = Some 2"
    unfolding eq resolved_next unfolding resolved_candidates resolved_rejected sample_rows roots
    by (simp add: free candidate_rows_def rejected_rows_def candidate_row_def first_rank_def
        candidate_key_def rejected_key_def order_key_def least_key_def key_pr_def List.map_filter_def
        min_def)
qed

text \<open>The same queue with no label on the first pull request: the second is still elected before it.\<close>

definition ranked_queue :: graph_analysis where
  "ranked_queue = sample_queue
     \<lparr>ga_pull_requests := [(1, queued_pr 1 ''a'' []), (2, queued_pr 2 ''b'' [''caravan-priority:high'']), (3, queued_pr 3 ''c'' [])]\<rparr>"

lemma ranked_queue_simps:
  "fl_unqueued (ga_fleet ranked_queue) = [1, 2, 3]" "ga_required_policy ranked_queue = None"
  "fl_problems (ga_fleet ranked_queue) = []"
  "ga_pull_requests ranked_queue =
     [(1, queued_pr 1 ''a'' []), (2, queued_pr 2 ''b'' [''caravan-priority:high'']), (3, queued_pr 3 ''c'' [])]"
  by (simp_all add: ranked_queue_def sample_queue_simps)

lemma ranked_rows:
  "order_rows ranked_queue [''caravan-priority:high''] integrity_default None =
     [candidate_row 1 [] None, candidate_row 2 [(''caravan-priority:high'', 0)] None, candidate_row 3 [] None]"
proof -
  have none: "required_check_snapshot p None = p" for p
    by (simp add: required_check_snapshot_def filter_opt_def)
  have gen: "generation_rejection integrity_default n = None" for n
    by (simp add: generation_rejection_def finding_for_def integrity_default_def)
  show ?thesis
    by (simp add: order_rows_def sample_ranks ranked_queue_simps admit_one_def Let_def bt_get_def
        structural_rejection_def gen none configured_labels_def invalid_labels_def priority_namespace_def
        queued_pr_simps starts_with_def policy_unknown_def queued_green has_label_def
        mechanically_incompatible_def auto_merge_disabled_def List.map_filter_def)
qed

lemma ranked_next:
  "as_next_candidate (resolved ranked_queue [''caravan-priority:high''] integrity_default None) = Some 2"
  "map ac_pr (as_candidates (resolved ranked_queue [''caravan-priority:high''] integrity_default None)) = [2, 1, 3]"
proof -
  have roots: "order_roots ranked_queue [''caravan-priority:high''] integrity_default None = []"
    by (simp add: order_roots_def ranked_rows rejected_rows_def candidate_row_def blocked_roots_def
        bs_of_list_def List.map_filter_def)
  have free: "blocked_by ranked_queue [] c = []" for c by (simp add: blocked_by_def)
  note keys = free candidate_rows_def rejected_rows_def candidate_row_def first_rank_def candidate_key_def
    rejected_key_def order_key_def List.map_filter_def
  show "as_next_candidate (resolved ranked_queue [''caravan-priority:high''] integrity_default None) = Some 2"
    unfolding resolved_next unfolding resolved_candidates resolved_rejected ranked_rows roots
    by (simp add: keys least_key_def key_pr_def min_def)
  show "map ac_pr (as_candidates (resolved ranked_queue [''caravan-priority:high''] integrity_default None)) = [2, 1, 3]"
    unfolding resolved_candidates ranked_rows roots by (simp add: keys)
qed

lemma ranked_known:
  assumes "n \<in> set (fl_unqueued (ga_fleet ranked_queue))" "bt_get (ga_pull_requests ranked_queue) n = Some p"
  shows "priority_known [''caravan-priority:high''] p"
proof -
  have "p \<in> {queued_pr 1 ''a'' [], queued_pr 2 ''b'' [''caravan-priority:high''], queued_pr 3 ''c'' []}"
    using assms(2) by (auto simp: ranked_queue_simps bt_get_def split: if_splits)
  moreover have "priority_known [''caravan-priority:high''] (queued_pr k h [])" for k h
    by (simp add: priority_known_def invalid_labels_def configured_labels_def priority_namespace_def queued_pr_simps
        List.map_filter_def)
  moreover have "priority_known [''caravan-priority:high''] (queued_pr k h [''caravan-priority:high''])" for k h
    by (simp add: priority_known_def invalid_labels_def configured_labels_def priority_namespace_def queued_pr_simps
        sample_ranks starts_with_def List.map_filter_def bt_get_def)
  ultimately show ?thesis by blast
qed

theorem next_candidate_is_least_witness:
  "as_next_candidate (resolve_admission ranked_queue [''caravan-priority:high'']) = Some 2
   \<and> ac_pr ` set (as_candidates (resolve_admission ranked_queue [''caravan-priority:high''])) = {1, 2, 3}
   \<and> pr_order_key ranked_queue [''caravan-priority:high''] 2 \<le> pr_order_key ranked_queue [''caravan-priority:high''] 1"
proof -
  let ?labels = "[''caravan-priority:high'']"
  let ?order = "resolved ranked_queue ?labels integrity_default None"
  have "ac_pr ` set (as_candidates ?order) = set (map ac_pr (as_candidates ?order))" by (simp only: set_map)
  also have "\<dots> = {1, 2, 3}" unfolding ranked_next(2) by auto
  finally have prs: "ac_pr ` set (as_candidates ?order) = {1, 2, 3}" .
  have "1 \<in> ac_pr ` set (as_candidates ?order)" unfolding prs by (rule insertI1)
  then obtain c where c: "c \<in> set (as_candidates ?order)" "1 = ac_pr c" by (rule imageE) blast
  note least = next_candidate_is_least [of ranked_queue ?labels integrity_default None, OF ranked_known,
      unfolded ranked_next(1) option.case]
  have "pr_order_key ranked_queue ?labels 2 \<le> pr_order_key ranked_queue ?labels 1"
    unfolding c(2) by (rule bspec [OF conjunct1 [OF conjunct2 [OF least]] c(1)])
  thus ?thesis
    unfolding resolve_admission_def resolve_admission_with_generation_def using prs ranked_next(1) by blast
qed

theorem candidates_are_eligible_witness:
  "\<exists>c. c \<in> set (as_candidates sample_order) \<and> ac_pr c = 2
     \<and> require_admissible integrity_default (ac_pr c) = Inr ()"
proof -
  have "2 \<in> set (map ac_pr (as_candidates sample_order))" using sample_order_parts(1) by simp
  then obtain c where c: "c \<in> set (as_candidates sample_order)" "ac_pr c = 2" by auto
  then show ?thesis
    using candidates_are_eligible [of c sample_queue "[''caravan-priority:high'']" integrity_default None]
    unfolding sample_order_def resolve_admission_def resolve_admission_with_generation_def by blast
qed

theorem dependency_prs_sound_witness:
  "dependency_prs sample_analysis (sample_pr 3 ''c'' ''b'' auto_merge_disabled) = [1, 2]
   \<and> dependency_ok (bt_values (ga_pull_requests sample_analysis))
       (sample_pr 3 ''c'' ''b'' auto_merge_disabled) {1, 2} 1"
proof -
  have "dependency_prs sample_analysis (sample_pr 3 ''c'' ''b'' auto_merge_disabled) = [1, 2]"
    by (simp add: dependency_prs_def max_dependency_depth_def numeral_eq_Suc sample_analysis_def
        bt_values_def is_base_parent_def sample_member) (simp add: sample_pr_def sample_branch_def)
  moreover from this have "set (dependency_prs sample_analysis (sample_pr 3 ''c'' ''b'' auto_merge_disabled)) = {1, 2}"
    by simp
  ultimately show ?thesis
    using dependency_prs_sound [of sample_analysis "sample_pr 3 ''c'' ''b'' auto_merge_disabled"] by auto
qed

text \<open>An order without rejections, in which the third pull request is asked for explicitly.\<close>

definition sample_listed :: admission_status where
  "sample_listed = sample_order
     \<lparr>as_candidates := [\<lparr>ac_pr = 2, ac_priority_label = None, ac_priority_rank = Some 1, ac_created_at = None, ac_reason = []\<rparr>,
        \<lparr>ac_pr = 3, ac_priority_label = None, ac_priority_rank = None, ac_created_at = None, ac_reason = []\<rparr>],
      as_rejected := []\<rparr>"

theorem explicit_passes_only_unrelated_witness:
  "dc_outcome (evaluate sample_listed sample_queue (queued_pr 3 ''c'' []) None Explicit) = ExplicitAheadOfUnjoined"
  unfolding explicit_passes_only_unrelated
  using sample_order_parts(3)
  by (simp add: sample_listed_def queued_pr_simps queued_no_parent is_joined_def fleet_containing_def
      sample_queue_simps)

text \<open>
  A row whose rank is unknown sorts behind every configured rank: an older pull request with an
  unknown priority label is rejected and blocks the order, yet a younger one with a configured rank
  is elected past it, although the comment at the rejection says that unknown priority metadata
  blocks before known attempts.
\<close>

theorem unknown_priority_is_passed_by_ranked:
  "map rj_pr (as_rejected sample_order) = [1] \<and> map rj_blocks_order (as_rejected sample_order) = [True]
   \<and> as_next_candidate sample_order = Some 2"
proof -
  have "as_rejected sample_order = [\<lparr>rj_pr = 1, rj_priority_rank = None, rj_created_at = None,
      rj_blocks_order = True, rj_reason = ''fail closed: unknown priority label(s): caravan-priority:x''\<rparr>]"
    unfolding sample_order_def resolve_admission_def resolve_admission_with_generation_def
      resolved_rejected sample_rows
    by (simp add: rejected_rows_def candidate_row_def List.map_filter_def)
  then show ?thesis using sample_order_parts by simp
qed

end
