(* ===== verification/Budget.thy ===== *)
theory Budget
  imports Admission Saturating
begin

text \<open>
  The physical apply reserve of one sync tick (\<open>src/src/sync/budget.rs\<close>): what a tick costs in command
  slots, which root-to-descendant prefix of the selected chains it may write in the remaining wall
  clock, how long a chain may grow under the configured deadline, and the status projection.
  Command counts and seconds are saturating \<open>u64\<close> values; durations are nanoseconds.
\<close>

subsection \<open>Configuration and costs\<close>

datatype stack_type = StackCaravan | StackGithub

text \<open>The fields of \<open>CaravanConfig\<close> and \<open>SyncConfig\<close> that the budget reads.\<close>

record budget_config =
  bc_command_timeout_secs :: nat
  bc_reserve_secs_per_command :: nat
  bc_max_duration_secs :: nat
  bc_max_caravan_length :: "nat option"
  bc_stack_type :: stack_type
  bc_rebase_on_join :: bool

definition default_github_max_caravan_length :: nat where
  "default_github_max_caravan_length = 8"

definition effective_max_caravan_length :: "budget_config \<Rightarrow> nat option" where
  "effective_max_caravan_length cfg =
     (case (bc_max_caravan_length cfg, bc_stack_type cfg) of
        (Some limit, _) \<Rightarrow> Some limit
      | (None, StackGithub) \<Rightarrow> Some default_github_max_caravan_length
      | (None, StackCaravan) \<Rightarrow> None)"

definition physical_branch_rewrites_enabled :: "budget_config \<Rightarrow> bool" where
  "physical_branch_rewrites_enabled cfg = (bc_rebase_on_join cfg \<and> bc_stack_type cfg = StackCaravan)"

definition max_parallel_rebase_chains :: nat where
  "max_parallel_rebase_chains = 2"

definition apply_slots_per_pending_member :: nat where
  "apply_slots_per_pending_member = 3"

definition apply_slots_per_retained_member :: nat where
  "apply_slots_per_retained_member = 2"

definition reconciliation_slots_per_member :: nat where
  "reconciliation_slots_per_member = 1"

definition reconciliation_slots_per_caravan :: nat where
  "reconciliation_slots_per_caravan = 2"

definition fixed_post_write_slots :: nat where
  "fixed_post_write_slots = 2"

definition max_capacity_search_members :: nat where
  "max_capacity_search_members = 4096"

definition minimum_sound_capacity :: nat where
  "minimum_sound_capacity = 2"

definition admission_guard :: duration where
  "admission_guard = from_secs 1"

definition max_sync_operation_secs :: nat where
  "max_sync_operation_secs = 3600"

record member_cost =
  mc_pr :: pr_number
  mc_pending :: bool
  mc_auto_merge_enabled :: bool

definition worst_case :: "pr_number \<Rightarrow> bool \<Rightarrow> member_cost" where
  "worst_case pr armed = \<lparr>mc_pr = pr, mc_pending = True, mc_auto_merge_enabled = armed\<rparr>"

definition apply_slots :: "member_cost \<Rightarrow> nat" where
  "apply_slots m =
     (if mc_pending m then apply_slots_per_pending_member else apply_slots_per_retained_member)"

definition control_slots :: "member_cost \<Rightarrow> nat" where
  "control_slots m = (if \<not> mc_pending m then 0 else if mc_auto_merge_enabled m then 1 else 0)"

definition control_mutations :: "member_cost \<Rightarrow> nat" where
  "control_mutations m =
     (if \<not> mc_pending m then 0 else sat_add (if mc_auto_merge_enabled m then 1 else 0) 1)"

record chain_cost =
  cc_caravan_id :: pr_number
  cc_members :: "member_cost list"
  cc_externally_armed_non_roots :: nat

definition reconciliation_slots :: "chain_cost \<Rightarrow> nat" where
  "reconciliation_slots c =
     sat_add (sat_add (sat_mul (to_u64 (length (cc_members c))) reconciliation_slots_per_member)
                (cc_externally_armed_non_roots c))
       reconciliation_slots_per_caravan"

record physical_commit_budget =
  pb_command_slots :: nat
  pb_required :: duration
  pb_mutation_reserve :: nat

datatype reserve_scope = CompleteScope | BoundedPrefix

subsection \<open>Pricing\<close>

definition reserve_secs_per_command :: "budget_config \<Rightarrow> nat" where
  "reserve_secs_per_command cfg = min (bc_command_timeout_secs cfg) (bc_reserve_secs_per_command cfg)"

definition slots_to_duration :: "budget_config \<Rightarrow> nat \<Rightarrow> duration" where
  "slots_to_duration cfg slots = from_secs (sat_mul (reserve_secs_per_command cfg) slots)"

definition slots_to_worst_case_duration :: "budget_config \<Rightarrow> nat \<Rightarrow> duration" where
  "slots_to_worst_case_duration cfg slots = from_secs (sat_mul (bc_command_timeout_secs cfg) slots)"

definition deadline_command_slots :: "budget_config \<Rightarrow> duration \<Rightarrow> nat" where
  "deadline_command_slots cfg deadline =
     (let secs_per_slot = reserve_secs_per_command cfg
      in if secs_per_slot = 0 then u64_max else as_secs deadline div secs_per_slot)"

definition externally_armed_non_roots :: "graph_analysis \<Rightarrow> caravan \<Rightarrow> nat" where
  "externally_armed_non_roots a c =
     to_u64 (length (filter (\<lambda>n. case bt_get (ga_pull_requests a) n of
                                   None \<Rightarrow> False | Some p \<Rightarrow> am_enabled (pr_auto_merge p))
                       (drop 1 (cv_members c))))"

definition chain_costs_from_status :: "graph_analysis \<Rightarrow> caravan list \<Rightarrow> chain_cost list" where
  "chain_costs_from_status a selected =
     map (\<lambda>c. \<lparr>cc_caravan_id = cv_id c,
               cc_members = map (\<lambda>n. case bt_get (ga_pull_requests a) n of
                                       None \<Rightarrow> worst_case n False
                                     | Some p \<Rightarrow> worst_case n (am_enabled (pr_auto_merge p)))
                              (cv_members c),
               cc_externally_armed_non_roots = externally_armed_non_roots a c\<rparr>) selected"

subsection \<open>The reserve of an admitted prefix\<close>

text \<open>\<open>admitted.get(index).copied().unwrap_or(0)\<close>\<close>

definition admitted_at :: "nat list \<Rightarrow> nat \<Rightarrow> nat" where
  "admitted_at admitted i = (if i < length admitted then admitted ! i else 0)"

definition prefix_members :: "nat list \<Rightarrow> nat \<Rightarrow> chain_cost \<Rightarrow> member_cost list" where
  "prefix_members admitted i c = take (admitted_at admitted i) (cc_members c)"

definition in_prefix :: "chain_cost list \<Rightarrow> nat list \<Rightarrow> member_cost list" where
  "in_prefix cs admitted =
     concat (map (\<lambda>(i, c). prefix_members admitted i c) (enumerate 0 cs))"

definition apply_rounds :: "chain_cost list \<Rightarrow> nat list \<Rightarrow> nat" where
  "apply_rounds cs admitted =
     sat_sum (map (\<lambda>(batch, group).
         max_or_zero (map (\<lambda>(offset, c).
             sat_sum (map apply_slots (prefix_members admitted (batch * max_parallel_rebase_chains + offset) c)))
           (enumerate 0 group)))
       (enumerate 0 (chunks max_parallel_rebase_chains cs)))"

definition budget_for ::
    "budget_config \<Rightarrow> chain_cost list \<Rightarrow> nat list \<Rightarrow> reserve_scope \<Rightarrow> physical_commit_budget" where
  "budget_for cfg cs admitted scope =
     (let control = sat_sum (map control_slots (in_prefix cs admitted));
          mutations = sat_sum (map control_mutations (in_prefix cs admitted));
          pending_writes = to_u64 (length (filter mc_pending (in_prefix cs admitted)));
          reconciliation = (case scope of
              CompleteScope \<Rightarrow> sat_sum (map reconciliation_slots cs)
            | BoundedPrefix \<Rightarrow> 0);
          slots = sat_add (sat_add (sat_add control (apply_rounds cs admitted)) reconciliation)
                    fixed_post_write_slots
      in \<lparr>pb_command_slots = slots, pb_required = slots_to_duration cfg slots,
          pb_mutation_reserve = to_u32 (sat_add (sat_add mutations pending_writes) reconciliation)\<rparr>)"

definition complete_prefix :: "chain_cost list \<Rightarrow> nat list" where
  "complete_prefix cs = map (\<lambda>c. length (cc_members c)) cs"

definition complete_budget :: "budget_config \<Rightarrow> chain_cost list \<Rightarrow> physical_commit_budget" where
  "complete_budget cfg cs = budget_for cfg cs (complete_prefix cs) CompleteScope"

definition deferred_members :: "chain_cost list \<Rightarrow> nat list \<Rightarrow> pr_number list" where
  "deferred_members cs admitted =
     concat (map (\<lambda>(i, c). map mc_pr (drop (admitted_at admitted i) (cc_members c))) (enumerate 0 cs))"

definition admitted_members :: "chain_cost list \<Rightarrow> nat list \<Rightarrow> pr_number list" where
  "admitted_members cs admitted =
     concat (map (\<lambda>(i, c). map mc_pr (prefix_members admitted i c)) (enumerate 0 cs))"

definition pending_in_prefix :: "chain_cost list \<Rightarrow> nat list \<Rightarrow> nat" where
  "pending_in_prefix cs admitted =
     sat_sum (map (\<lambda>(i, c). to_u64 (length (filter mc_pending (prefix_members admitted i c))))
       (enumerate 0 cs))"

definition fits :: "physical_commit_budget \<Rightarrow> duration \<Rightarrow> bool" where
  "fits budget remaining = (duration_sat_add (pb_required budget) admission_guard < remaining)"

subsection \<open>Admitting a bounded prefix\<close>

record physical_apply_admission =
  pa_admitted :: "nat list"
  pa_admitted_prs :: "pr_number list"
  pa_deferred :: "pr_number list"
  pa_budget :: physical_commit_budget
  pa_complete_budget :: physical_commit_budget
  pa_deferred_convergence :: bool
  pa_pending_admitted :: nat

definition makes_progress :: "physical_apply_admission \<Rightarrow> bool" where
  "makes_progress a = (pa_pending_admitted a > 0 \<or> pa_deferred a = [])"

record admit_state =
  sa_admitted :: "nat list"
  sa_budget :: physical_commit_budget
  sa_saturated :: "bool list"

text \<open>One visit of a chain in the round-robin, the body of the inner \<open>for\<close> loop.\<close>

definition admit_step ::
    "budget_config \<Rightarrow> chain_cost list \<Rightarrow> duration \<Rightarrow> nat \<Rightarrow> admit_state \<Rightarrow> admit_state" where
  "admit_step cfg cs remaining i s =
     (if sa_saturated s ! i then s
      else if sa_admitted s ! i \<ge> length (cc_members (cs ! i))
      then s\<lparr>sa_saturated := (sa_saturated s)[i := True]\<rparr>
      else let grown = (sa_admitted s)[i := sa_admitted s ! i + 1];
               candidate = budget_for cfg cs grown BoundedPrefix
           in if fits candidate remaining
              then s\<lparr>sa_admitted := grown, sa_budget := candidate\<rparr>
              else s\<lparr>sa_saturated := (sa_saturated s)[i := True]\<rparr>)"

definition admit_round ::
    "budget_config \<Rightarrow> chain_cost list \<Rightarrow> duration \<Rightarrow> admit_state \<Rightarrow> admit_state" where
  "admit_round cfg cs remaining s = fold (admit_step cfg cs remaining) [0..<length cs] s"

partial_function (option) admit_loop ::
    "budget_config \<Rightarrow> chain_cost list \<Rightarrow> duration \<Rightarrow> admit_state \<Rightarrow> admit_state option" where
  "admit_loop cfg cs remaining s =
     (if \<exists>d\<in>set (sa_saturated s). \<not> d
      then admit_loop cfg cs remaining (admit_round cfg cs remaining s) else Some s)"

definition admit_start :: "budget_config \<Rightarrow> chain_cost list \<Rightarrow> admit_state" where
  "admit_start cfg cs =
     \<lparr>sa_admitted = replicate (length cs) 0,
      sa_budget = budget_for cfg cs (replicate (length cs) 0) BoundedPrefix,
      sa_saturated = replicate (length cs) False\<rparr>"

definition bounded_admission ::
    "budget_config \<Rightarrow> chain_cost list \<Rightarrow> admit_state \<Rightarrow> physical_apply_admission" where
  "bounded_admission cfg cs s =
     (let deferred = deferred_members cs (sa_admitted s);
          pending_admitted = pending_in_prefix cs (sa_admitted s)
      in \<lparr>pa_admitted = sa_admitted s, pa_admitted_prs = admitted_members cs (sa_admitted s),
          pa_deferred = deferred, pa_budget = sa_budget s, pa_complete_budget = complete_budget cfg cs,
          pa_deferred_convergence = (deferred \<noteq> [] \<or> pending_admitted > 0),
          pa_pending_admitted = pending_admitted\<rparr>)"

definition admit_physical_prefix ::
    "budget_config \<Rightarrow> chain_cost list \<Rightarrow> duration \<Rightarrow> physical_apply_admission option" where
  "admit_physical_prefix cfg cs remaining =
     (let complete = complete_budget cfg cs; full = complete_prefix cs
      in if fits complete remaining
         then Some \<lparr>pa_admitted = full, pa_admitted_prs = admitted_members cs full, pa_deferred = [],
                    pa_budget = complete, pa_complete_budget = complete,
                    pa_deferred_convergence = False, pa_pending_admitted = pending_in_prefix cs full\<rparr>
         else map_option (bounded_admission cfg cs) (admit_loop cfg cs remaining (admit_start cfg cs)))"

subsection \<open>How long a chain may grow\<close>

definition capacity_command_slots :: "nat \<Rightarrow> nat" where
  "capacity_command_slots sz =
     sat_add (sat_add (sat_add (sat_mul (sz - 1) apply_slots_per_retained_member)
                         apply_slots_per_pending_member) 1) fixed_post_write_slots"

text \<open>The search of \<open>computed_capacity\<close>; \<open>size\<close> runs up to \<open>max_capacity_search_members\<close>.\<close>

function capacity_search :: "nat \<Rightarrow> nat \<Rightarrow> nat \<Rightarrow> nat" where
  "capacity_search slots admissible sz =
     (if sz \<le> max_capacity_search_members
      then if capacity_command_slots sz \<ge> slots then admissible
           else capacity_search slots sz (sz + 1)
      else admissible)"
  by pat_completeness auto
termination by (relation "measure (\<lambda>(slots, admissible, sz). Suc max_capacity_search_members - sz)") auto

declare capacity_search.simps [simp del]

definition computed_capacity :: "budget_config \<Rightarrow> duration \<Rightarrow> nat" where
  "computed_capacity cfg deadline = capacity_search (deadline_command_slots cfg deadline) 0 1"

definition minimum_sound_deadline :: "budget_config \<Rightarrow> duration" where
  "minimum_sound_deadline cfg =
     from_secs (sat_mul (sat_add (capacity_command_slots minimum_sound_capacity) 1)
                  (reserve_secs_per_command cfg))"

definition duration_millis :: "duration \<Rightarrow> nat" where
  "duration_millis d = to_u64 (as_millis d)"

record capacity_defect =
  df_code :: string
  df_computed_bound :: nat
  df_minimum_sound_bound :: nat
  df_deadline_ms :: nat
  df_command_timeout_ms :: nat
  df_reserve_ms_per_command :: nat
  df_minimum_chain_command_slots :: nat
  df_minimum_deadline_ms :: nat
  df_safe_next_action :: string

definition capacity_defect_of :: "budget_config \<Rightarrow> duration \<Rightarrow> nat \<Rightarrow> capacity_defect" where
  "capacity_defect_of cfg deadline computed_bound =
     \<lparr>df_code = ''sync_budget_capacity_unsound'', df_computed_bound = computed_bound,
      df_minimum_sound_bound = minimum_sound_capacity, df_deadline_ms = duration_millis deadline,
      df_command_timeout_ms = sat_mul (bc_command_timeout_secs cfg) 1000,
      df_reserve_ms_per_command = sat_mul (reserve_secs_per_command cfg) 1000,
      df_minimum_chain_command_slots = capacity_command_slots minimum_sound_capacity,
      df_minimum_deadline_ms = duration_millis (minimum_sound_deadline cfg),
      df_safe_next_action =
        ''raise sync.max_duration_secs to at least '' @ show_nat (as_secs (minimum_sound_deadline cfg))
        @ ''s (currently '' @ show_nat (as_secs deadline)
        @ ''s), or lower sync.reserve_secs_per_command (currently ''
        @ show_nat (reserve_secs_per_command cfg)
        @ ''s) to a proven-safe value: the configured deadline implies a '' @ show_nat computed_bound
        @ ''-member bound, below the '' @ show_nat minimum_sound_capacity
        @ ''-member floor admission can enforce, and draining a caravan can never raise a bound derived from configuration alone''\<rparr>"

definition capacity_contradiction :: "budget_config \<Rightarrow> duration \<Rightarrow> nat \<Rightarrow> nat \<Rightarrow> capacity_defect" where
  "capacity_contradiction cfg deadline members bound =
     (capacity_defect_of cfg deadline bound)
       \<lparr>df_code := ''sync_budget_capacity_contradiction'',
        df_safe_next_action :=
          ''admission reported a '' @ show_nat members @ ''-member caravan at a '' @ show_nat bound
          @ ''-member bound, which no drain can ever clear; treat this as a defect and raise sync.max_duration_secs to at least ''
          @ show_nat (as_secs (minimum_sound_deadline cfg))
          @ ''s, or lower sync.reserve_secs_per_command (currently ''
          @ show_nat (reserve_secs_per_command cfg) @ ''s), before relying on capacity gating''\<rparr>"

definition admission_capacity :: "budget_config \<Rightarrow> duration \<Rightarrow> capacity_defect + nat" where
  "admission_capacity cfg deadline =
     (let computed = computed_capacity cfg deadline
      in if computed < minimum_sound_capacity then Inl (capacity_defect_of cfg deadline computed)
         else Inr computed)"

definition capacity_evidence :: "budget_config \<Rightarrow> duration \<Rightarrow> nat option \<times> capacity_defect option" where
  "capacity_evidence cfg deadline =
     (case admission_capacity cfg deadline of
        Inr bound \<Rightarrow> (Some bound, None)
      | Inl d \<Rightarrow> (None, Some d))"

datatype capacity_gate = GateOpen nat | GateAtCapacity nat | GateDefect capacity_defect

definition configured_batch_bound :: "budget_config \<Rightarrow> nat option" where
  "configured_batch_bound cfg = effective_max_caravan_length cfg"

definition gate_by_bound :: "budget_config \<Rightarrow> duration \<Rightarrow> nat \<Rightarrow> nat \<Rightarrow> capacity_gate" where
  "gate_by_bound cfg deadline members bound =
     (if members < bound then GateOpen bound
      else if members < minimum_sound_capacity
      then GateDefect (capacity_contradiction cfg deadline members bound)
      else GateAtCapacity bound)"

definition gate_for_bound :: "budget_config \<Rightarrow> duration \<Rightarrow> nat \<Rightarrow> nat \<Rightarrow> capacity_gate" where
  "gate_for_bound cfg deadline members bound =
     (case configured_batch_bound cfg of
        Some batch \<Rightarrow> if members \<ge> batch then GateAtCapacity (min batch bound)
                      else gate_by_bound cfg deadline members bound
      | None \<Rightarrow> gate_by_bound cfg deadline members bound)"

definition capacity_gate_of :: "budget_config \<Rightarrow> duration \<Rightarrow> nat \<Rightarrow> capacity_gate" where
  "capacity_gate_of cfg deadline members =
     (case admission_capacity cfg deadline of
        Inr bound \<Rightarrow> gate_for_bound cfg deadline members bound
      | Inl d \<Rightarrow> GateDefect d)"

subsection \<open>The status projection\<close>

record caravan_budget_projection =
  bp_caravan_id :: pr_number
  bp_members :: "pr_number list"
  bp_required_command_slots :: nat
  bp_required_ms :: nat
  bp_retained_command_slots :: nat
  bp_retained_ms :: nat
  bp_processable_prefix :: "pr_number list"
  bp_deferred :: "pr_number list"
  bp_deferred_convergence :: bool
  bp_at_capacity :: bool
  bp_safe_next_action :: string

record sync_budget_status =
  sb_schema_version :: nat
  sb_rebase_on_join :: bool
  sb_deadline_ms :: nat
  sb_command_timeout_ms :: nat
  sb_reserve_ms_per_command :: nat
  sb_deadline_command_slots :: nat
  sb_max_admissible_members :: "nat option"
  sb_capacity_defect :: "capacity_defect option"
  sb_caravans :: "caravan_budget_projection list"
  sb_blocked_candidate :: "pr_number option"
  sb_safe_next_action :: string

definition budget_status_default :: sync_budget_status where
  "budget_status_default =
     \<lparr>sb_schema_version = 2, sb_rebase_on_join = False, sb_deadline_ms = 0, sb_command_timeout_ms = 0,
      sb_reserve_ms_per_command = 0, sb_deadline_command_slots = 0, sb_max_admissible_members = None,
      sb_capacity_defect = None, sb_caravans = [], sb_blocked_candidate = None,
      sb_safe_next_action = ''physical chain rebuilding is disabled; no apply reserve applies''\<rparr>"

definition caravan_next_action ::
    "budget_config \<Rightarrow> duration \<Rightarrow> nat \<Rightarrow> capacity_gate \<Rightarrow> physical_apply_admission \<Rightarrow> string" where
  "caravan_next_action cfg deadline members gate a =
     (if \<not> physical_branch_rewrites_enabled cfg
      then ''physical chain rebuilding is disabled; no apply reserve applies''
      else case gate of
        GateDefect d \<Rightarrow>
          ''admission capacity is unsound and no drain can repair it: '' @ df_safe_next_action d
      | GateAtCapacity bound \<Rightarrow>
          ''let this caravan drain before admitting another member: '' @ show_nat members
          @ '' members already reach the '' @ show_nat bound
          @ ''-member bound implied by sync.max_duration_secs='' @ show_nat (as_secs deadline)
          @ ''s and sync.reserve_secs_per_command='' @ show_nat (reserve_secs_per_command cfg) @ ''s''
      | GateOpen bound \<Rightarrow>
          if \<not> makes_progress a
          then ''no member can drain inside the configured deadline: raise sync.max_duration_secs or lower a proven-safe sync.reserve_secs_per_command before the next tick''
          else if \<not> pa_deferred_convergence a
          then ''one `cara sync --all` tick can apply and converge this caravan''
          else if pa_deferred a = []
          then ''run `cara sync --all`; one tick applies all '' @ show_nat (length (pa_admitted_prs a))
               @ '' member(s) and converges them on the next tick without replaying completed rewrites''
          else ''run `cara sync --all`; one tick applies '' @ show_nat (length (pa_admitted_prs a))
               @ '' of '' @ show_nat members
               @ '' member(s) and resumes the rest next tick without replaying completed rewrites'')"

definition retained_chain :: "chain_cost \<Rightarrow> chain_cost" where
  "retained_chain c = c\<lparr>cc_members := map (\<lambda>m. m\<lparr>mc_pending := False\<rparr>) (cc_members c)\<rparr>"

fun is_at_capacity :: "capacity_gate \<Rightarrow> bool" where
  "is_at_capacity (GateAtCapacity bound) = True"
| "is_at_capacity gate = False"

definition project_caravan ::
    "budget_config \<Rightarrow> graph_analysis \<Rightarrow> duration \<Rightarrow> caravan \<Rightarrow> caravan_budget_projection option" where
  "project_caravan cfg a deadline c =
     (let cs = chain_costs_from_status a [c];
          worst = complete_budget cfg cs;
          retained = complete_budget cfg (map retained_chain cs);
          members = to_u64 (length (cv_members c));
          gate = capacity_gate_of cfg deadline members
      in map_option (\<lambda>admission.
           \<lparr>bp_caravan_id = cv_id c, bp_members = cv_members c,
            bp_required_command_slots = pb_command_slots worst,
            bp_required_ms = duration_millis (pb_required worst),
            bp_retained_command_slots = pb_command_slots retained,
            bp_retained_ms = duration_millis (pb_required retained),
            bp_processable_prefix = pa_admitted_prs admission,
            bp_deferred = pa_deferred admission,
            bp_deferred_convergence = pa_deferred_convergence admission,
            bp_at_capacity = is_at_capacity gate,
            bp_safe_next_action = caravan_next_action cfg deadline members gate admission\<rparr>)
         (admit_physical_prefix cfg cs deadline))"

text \<open>All results, or \<open>None\<close> as soon as one is missing.\<close>

fun all_some :: "'a option list \<Rightarrow> 'a list option" where
  "all_some [] = Some []"
| "all_some (None # xs) = None"
| "all_some (Some x # xs) = map_option ((#) x) (all_some xs)"

definition project_next_action ::
    "budget_config \<Rightarrow> duration \<Rightarrow> caravan_budget_projection list \<Rightarrow> pr_number option \<Rightarrow> string" where
  "project_next_action cfg deadline projections blocked =
     (case filter_opt (\<lambda>_. blocked \<noteq> None) (configured_batch_bound cfg) of
        Some bound \<Rightarrow>
          ''every caravan holds the configured '' @ show_nat bound
          @ ''-member batch bound (max_caravan_length); admission opens another caravan rather than extending a full batch''
      | None \<Rightarrow>
          if \<not> physical_branch_rewrites_enabled cfg
          then ''physical chain rebuilding is disabled; no apply reserve applies''
          else case admission_capacity cfg deadline of
            Inl d \<Rightarrow>
              ''admission capacity is unsound, so joins fail loudly with '' @ df_code d
              @ '' instead of being quietly gated; draining cannot repair it: '' @ df_safe_next_action d
          | Inr bound \<Rightarrow>
              if blocked \<noteq> None
              then ''every caravan holds the '' @ show_nat bound
                   @ ''-member bound implied by the configured deadline; admission stays closed with caravan_budget_capacity_exhausted until a caravan drains''
              else if \<exists>p\<in>set projections. bp_deferred_convergence p
              then ''run `cara sync --all`; bounded prefixes apply now and the remaining members plus ordinary convergence resume on the next tick''
              else ''run `cara sync --all`; every selected caravan fits one tick'')"

definition blocked_candidate_of ::
    "budget_config \<Rightarrow> admission_status \<Rightarrow> caravan_budget_projection list \<Rightarrow> pr_number option" where
  "blocked_candidate_of cfg adm projections =
     filter_opt (\<lambda>_. (physical_branch_rewrites_enabled cfg \<or> configured_batch_bound cfg \<noteq> None)
         \<and> projections \<noteq> [] \<and> (\<forall>p\<in>set projections. bp_at_capacity p)) (as_next_candidate adm)"

definition max_admissible_of :: "budget_config \<Rightarrow> duration \<Rightarrow> nat option" where
  "max_admissible_of cfg deadline =
     (case (configured_batch_bound cfg, fst (capacity_evidence cfg deadline)) of
        (Some batch, Some dynamic) \<Rightarrow>
          if physical_branch_rewrites_enabled cfg then Some (min batch dynamic) else Some batch
      | (Some batch, None) \<Rightarrow> Some batch
      | (None, dynamic) \<Rightarrow> dynamic)"

definition project ::
    "budget_config \<Rightarrow> graph_analysis \<Rightarrow> admission_status \<Rightarrow> caravan list \<Rightarrow> duration
     \<Rightarrow> sync_budget_status option" where
  "project cfg a adm selected deadline =
     map_option (\<lambda>projections.
       \<lparr>sb_schema_version = 2, sb_rebase_on_join = physical_branch_rewrites_enabled cfg,
        sb_deadline_ms = duration_millis deadline,
        sb_command_timeout_ms = sat_mul (bc_command_timeout_secs cfg) 1000,
        sb_reserve_ms_per_command = sat_mul (reserve_secs_per_command cfg) 1000,
        sb_deadline_command_slots = deadline_command_slots cfg deadline,
        sb_max_admissible_members = max_admissible_of cfg deadline,
        sb_capacity_defect = filter_opt (\<lambda>_. physical_branch_rewrites_enabled cfg)
                               (snd (capacity_evidence cfg deadline)),
        sb_caravans = projections,
        sb_blocked_candidate = blocked_candidate_of cfg adm projections,
        sb_safe_next_action = project_next_action cfg deadline projections
                                (blocked_candidate_of cfg adm projections)\<rparr>)
       (all_some (map (project_caravan cfg a deadline) selected))"

definition sync_operation_budget :: "budget_config \<Rightarrow> duration" where
  "sync_operation_budget cfg = from_secs (min (bc_max_duration_secs cfg) max_sync_operation_secs)"

datatype pause_state = PauseActive | PauseExpired | PauseStale | PauseRecovering | PauseRecoveryDrift | PauseRetired

definition pause_is_effective :: "pause_state \<Rightarrow> bool" where
  "pause_is_effective s = (s \<in> {PauseActive, PauseExpired, PauseRecovering, PauseRecoveryDrift})"

text \<open>The two fields of a \<open>PauseStatus\<close> the projection reads.\<close>

record pause_status =
  ps_caravan_head :: pr_number
  ps_state :: pause_state

definition project_status ::
    "budget_config \<Rightarrow> graph_analysis \<Rightarrow> admission_status \<Rightarrow> pause_status list
     \<Rightarrow> sync_budget_status option" where
  "project_status cfg a adm pauses =
     project cfg a adm
       (filter (\<lambda>c. \<not> (\<exists>p\<in>set pauses. pause_is_effective (ps_state p) \<and> ps_caravan_head p = cv_id c))
          (filter (\<lambda>c. \<not> cv_parked c) (fl_caravans (ga_fleet a))))
       (sync_operation_budget cfg)"

end
