(* ===== verification/Budget_Facts.thy ===== *)
theory Budget_Facts
  imports Budget
begin

text \<open>
  Guarantees of the apply reserve: a longer prefix never costs less, the round-robin search ends, what
  it admits fits the remaining wall clock and cannot be extended, and a chain within the admission
  bound drains.
\<close>

subsection \<open>A longer prefix never costs less\<close>

definition prefix_le :: "nat list \<Rightarrow> nat list \<Rightarrow> bool" where
  "prefix_le a b \<longleftrightarrow> (\<forall>i. admitted_at a i \<le> admitted_at b i)"

lemma prefix_sum_mono:
  "prefix_le a b \<Longrightarrow> sum_list (map f (prefix_members a i c)) \<le> sum_list (map f (prefix_members b i c))"
  for f :: "member_cost \<Rightarrow> nat"
  by (simp add: prefix_members_def prefix_le_def sum_list_take_mono flip: take_map)

lemma in_prefix_sum:
  "sum_list (map f (in_prefix cs a)) =
     sum_list (map (\<lambda>(i, c). sum_list (map f (prefix_members a i c))) (enumerate 0 cs))"
  for f :: "member_cost \<Rightarrow> nat"
  by (simp add: in_prefix_def map_concat sum_list_concat comp_def case_prod_unfold)

lemma in_prefix_mono:
  "prefix_le a b \<Longrightarrow> sum_list (map f (in_prefix cs a)) \<le> sum_list (map f (in_prefix cs b))"
  for f :: "member_cost \<Rightarrow> nat"
  unfolding in_prefix_sum by (auto intro!: sum_list_mono prefix_sum_mono)

lemma apply_rounds_mono: "prefix_le a b \<Longrightarrow> apply_rounds cs a \<le> apply_rounds cs b"
  unfolding apply_rounds_def
  by (auto intro!: sat_sum_mono sum_list_mono max_or_zero_mono prefix_sum_mono)

lemma budget_mono:
  assumes "prefix_le a b"
  shows "pb_command_slots (budget_for cfg cs a scope) \<le> pb_command_slots (budget_for cfg cs b scope)"
    and "pb_required (budget_for cfg cs a scope) \<le> pb_required (budget_for cfg cs b scope)"
proof -
  show *: "pb_command_slots (budget_for cfg cs a scope) \<le> pb_command_slots (budget_for cfg cs b scope)"
    using assms by (auto simp: budget_for_def Let_def
        intro!: sat_add_mono sat_sum_mono in_prefix_mono apply_rounds_mono)
  then show "pb_required (budget_for cfg cs a scope) \<le> pb_required (budget_for cfg cs b scope)"
    by (simp add: budget_for_def Let_def slots_to_duration_def from_secs_def sat_mul_mono)
qed

lemma fits_mono:
  "prefix_le a b \<Longrightarrow> fits (budget_for cfg cs b scope) remaining \<Longrightarrow> fits (budget_for cfg cs a scope) remaining"
  using budget_mono(2) [of a b cfg cs scope]
  by (auto simp: fits_def duration_sat_add_def min_def split: if_splits)

subsection \<open>The round-robin search\<close>

definition extension_fails :: "budget_config \<Rightarrow> chain_cost list \<Rightarrow> duration \<Rightarrow> nat list \<Rightarrow> nat \<Rightarrow> bool" where
  "extension_fails cfg cs remaining admitted i \<longleftrightarrow>
     \<not> fits (budget_for cfg cs (admitted[i := Suc (admitted ! i)]) BoundedPrefix) remaining"

definition admit_inv :: "budget_config \<Rightarrow> chain_cost list \<Rightarrow> duration \<Rightarrow> admit_state \<Rightarrow> bool" where
  "admit_inv cfg cs remaining s \<longleftrightarrow>
     length (sa_admitted s) = length cs \<and> length (sa_saturated s) = length cs
     \<and> (\<forall>i<length cs. sa_admitted s ! i \<le> length (cc_members (cs ! i)))
     \<and> sa_budget s = budget_for cfg cs (sa_admitted s) BoundedPrefix
     \<and> (\<forall>i<length cs. sa_saturated s ! i \<longrightarrow>
          sa_admitted s ! i = length (cc_members (cs ! i)) \<or> extension_fails cfg cs remaining (sa_admitted s) i)
     \<and> (sa_admitted s = replicate (length cs) 0 \<or> fits (sa_budget s) remaining)"

definition admit_weight :: "chain_cost list \<Rightarrow> admit_state \<Rightarrow> nat" where
  "admit_weight cs s = (\<Sum>i<length cs. if sa_saturated s ! i then 0
     else Suc (length (cc_members (cs ! i)) - sa_admitted s ! i))"

lemma admit_inv_start: "admit_inv cfg cs remaining (admit_start cfg cs)"
  by (simp add: admit_inv_def admit_start_def)

lemma extension_fails_grow:
  assumes "extension_fails cfg cs remaining a j" "i < length a" "j < length a" "i \<noteq> j"
  shows "extension_fails cfg cs remaining (a[i := Suc (a ! i)]) j"
proof -
  have "prefix_le (a[j := Suc (a ! j)]) (a[i := Suc (a ! i), j := Suc (a ! j)])"
    using assms(2-4) by (auto simp: prefix_le_def admitted_at_def nth_list_update)
  with assms show ?thesis by (auto simp: extension_fails_def dest: fits_mono)
qed

lemma admit_inv_step:
  assumes inv: "admit_inv cfg cs remaining s" and i: "i < length cs"
  shows "admit_inv cfg cs remaining (admit_step cfg cs remaining i s)"
proof -
  let ?a = "sa_admitted s" and ?n = "length cs"
  have len: "length ?a = ?n" "length (sa_saturated s) = ?n" using inv by (auto simp: admit_inv_def)
  consider (skip) "sa_saturated s ! i"
    | (full) "\<not> sa_saturated s ! i" "?a ! i \<ge> length (cc_members (cs ! i))"
    | (grow) "\<not> sa_saturated s ! i" "?a ! i < length (cc_members (cs ! i))" "\<not> extension_fails cfg cs remaining ?a i"
    | (stop) "\<not> sa_saturated s ! i" "?a ! i < length (cc_members (cs ! i))" "extension_fails cfg cs remaining ?a i"
    by fastforce
  then show ?thesis
  proof cases
    case skip
    then show ?thesis using inv by (simp add: admit_step_def)
  next
    case full
    then show ?thesis using inv i len
      by (auto simp: admit_step_def admit_inv_def nth_list_update le_antisym)
  next
    case stop
    then show ?thesis using inv i len
      by (auto simp: admit_step_def admit_inv_def nth_list_update extension_fails_def Let_def)
  next
    case grow
    then have s': "admit_step cfg cs remaining i s = s\<lparr>sa_admitted := ?a[i := Suc (?a ! i)],
        sa_budget := budget_for cfg cs (?a[i := Suc (?a ! i)]) BoundedPrefix\<rparr>"
      by (simp add: admit_step_def extension_fails_def Let_def)
    have "?a[i := Suc (?a ! i)] ! j = length (cc_members (cs ! j))
        \<or> extension_fails cfg cs remaining (?a[i := Suc (?a ! i)]) j"
      if "j < ?n" "sa_saturated s ! j" for j
    proof -
      from that grow(1) have "i \<noteq> j" by auto
      moreover from that inv have "?a ! j = length (cc_members (cs ! j)) \<or> extension_fails cfg cs remaining ?a j"
        by (auto simp: admit_inv_def)
      ultimately show ?thesis using extension_fails_grow [of cfg cs remaining ?a j i] that(1) i len by auto
    qed
    then show ?thesis using inv i len grow unfolding s'
      by (auto simp: admit_inv_def nth_list_update extension_fails_def)
  qed
qed

lemma admit_step_weight:
  assumes inv: "admit_inv cfg cs remaining s" and i: "i < length cs"
  shows "admit_weight cs (admit_step cfg cs remaining i s) \<le> admit_weight cs s"
    and "\<not> sa_saturated s ! i \<Longrightarrow> admit_weight cs (admit_step cfg cs remaining i s) < admit_weight cs s"
proof -
  have len: "length (sa_admitted s) = length cs" "length (sa_saturated s) = length cs"
    using inv by (auto simp: admit_inv_def)
  show strict: "admit_weight cs (admit_step cfg cs remaining i s) < admit_weight cs s" if "\<not> sa_saturated s ! i"
    unfolding admit_weight_def
  proof (rule sum_strict_mono_ex1)
    show "\<forall>j\<in>{..<length cs}. (if sa_saturated (admit_step cfg cs remaining i s) ! j then 0
        else Suc (length (cc_members (cs ! j)) - sa_admitted (admit_step cfg cs remaining i s) ! j))
      \<le> (if sa_saturated s ! j then 0 else Suc (length (cc_members (cs ! j)) - sa_admitted s ! j))"
      using that i len by (auto simp: admit_step_def Let_def nth_list_update)
    show "\<exists>j\<in>{..<length cs}. (if sa_saturated (admit_step cfg cs remaining i s) ! j then 0
        else Suc (length (cc_members (cs ! j)) - sa_admitted (admit_step cfg cs remaining i s) ! j))
      < (if sa_saturated s ! j then 0 else Suc (length (cc_members (cs ! j)) - sa_admitted s ! j))"
      using that i len by (intro bexI [of _ i]) (auto simp: admit_step_def Let_def nth_list_update)
  qed simp
  show "admit_weight cs (admit_step cfg cs remaining i s) \<le> admit_weight cs s"
  proof (cases "sa_saturated s ! i")
    case False
    then show ?thesis using strict by simp
  qed (simp add: admit_step_def)
qed

lemma admit_fold:
  assumes "admit_inv cfg cs remaining s" "\<forall>i\<in>set is. i < length cs"
  shows "admit_inv cfg cs remaining (fold (admit_step cfg cs remaining) is s)
    \<and> admit_weight cs (fold (admit_step cfg cs remaining) is s) \<le> admit_weight cs s
    \<and> ((\<exists>i\<in>set is. \<not> sa_saturated s ! i)
        \<longrightarrow> admit_weight cs (fold (admit_step cfg cs remaining) is s) < admit_weight cs s)"
  using assms
proof (induction "is" arbitrary: s)
  case (Cons i "is")
  let ?s = "admit_step cfg cs remaining i s"
  have i: "i < length cs" using Cons.prems(2) by simp
  note IH = Cons.IH [OF admit_inv_step [OF Cons.prems(1) i]]
  note w = admit_step_weight [OF Cons.prems(1) i]
  show ?case
  proof (cases "sa_saturated s ! i")
    case True
    then have "?s = s" by (simp add: admit_step_def)
    then show ?thesis using IH Cons.prems(2) True by auto
  next
    case False
    then show ?thesis using IH Cons.prems(2) w(2) by fastforce
  qed
qed simp

lemma admit_loop_returns:
  assumes "admit_inv cfg cs remaining s"
  shows "\<exists>s'. admit_loop cfg cs remaining s = Some s' \<and> admit_inv cfg cs remaining s'
     \<and> (\<forall>i<length cs. sa_saturated s' ! i)"
  using assms
proof (induction "admit_weight cs s" arbitrary: s rule: less_induct)
  case less
  have len: "length (sa_saturated s) = length cs" using less.prems by (simp add: admit_inv_def)
  show ?case
  proof (cases "\<exists>d\<in>set (sa_saturated s). \<not> d")
    case True
    then obtain i where "i < length cs" "\<not> sa_saturated s ! i" using len by (auto simp: in_set_conv_nth)
    then have "\<exists>i\<in>set [0..<length cs]. \<not> sa_saturated s ! i" by (intro bexI [of _ i]) auto
    then have "admit_weight cs (admit_round cfg cs remaining s) < admit_weight cs s"
      "admit_inv cfg cs remaining (admit_round cfg cs remaining s)"
      using admit_fold [OF less.prems, of "[0..<length cs]"] by (auto simp: admit_round_def)
    from less.hyps [OF this] show ?thesis by (subst admit_loop.simps) (simp only: True if_True)
  next
    case False
    then have "admit_loop cfg cs remaining s = Some s" by (subst admit_loop.simps) (simp only: if_False)
    then show ?thesis using less.prems len False by auto
  qed
qed

subsection \<open>What is admitted fits and is maximal\<close>





lemma admit_physical_prefix_cases:
  obtains (complete) a where "admit_physical_prefix cfg cs remaining = Some a"
      "fits (complete_budget cfg cs) remaining" "pa_admitted a = complete_prefix cs"
      "pa_budget a = complete_budget cfg cs" "pa_deferred a = []"
      "pa_admitted_prs a = admitted_members cs (pa_admitted a)" "\<not> pa_deferred_convergence a"
      "pa_pending_admitted a = pending_in_prefix cs (pa_admitted a)"
  | (bounded) a s where "admit_physical_prefix cfg cs remaining = Some a"
      "\<not> fits (complete_budget cfg cs) remaining" "a = bounded_admission cfg cs s"
      "admit_inv cfg cs remaining s" "\<forall>i<length cs. sa_saturated s ! i"
proof (cases "fits (complete_budget cfg cs) remaining")
  case True
  then show ?thesis using complete by (simp add: admit_physical_prefix_def Let_def)
next
  case False
  obtain s where "admit_loop cfg cs remaining (admit_start cfg cs) = Some s"
    "admit_inv cfg cs remaining s" "\<forall>i<length cs. sa_saturated s ! i"
    using admit_loop_returns [OF admit_inv_start] by blast
  with False bounded show ?thesis by (simp add: admit_physical_prefix_def Let_def)
qed


subsection \<open>The admission bound\<close>

lemma capacity_slots_exact:
  "1 \<le> n \<Longrightarrow> n \<le> Suc max_capacity_search_members \<Longrightarrow> capacity_command_slots n = 2 * n + 4"
  by (simp add: capacity_command_slots_def sat_add_def sat_mul_def u64_max_def max_capacity_search_members_def
      apply_slots_per_retained_member_def apply_slots_per_pending_member_def fixed_post_write_slots_def)

lemma capacity_search_spec:
  assumes "sz = Suc admissible" "admissible \<le> max_capacity_search_members"
    "\<forall>n. 1 \<le> n \<and> n \<le> admissible \<longrightarrow> capacity_command_slots n < slots"
    "r = capacity_search slots admissible sz"
  shows "r \<le> max_capacity_search_members
    \<and> (\<forall>n. 1 \<le> n \<and> n \<le> r \<longrightarrow> capacity_command_slots n < slots)
    \<and> (r < max_capacity_search_members \<longrightarrow> slots \<le> capacity_command_slots (Suc r))"
  using assms
proof (induction slots admissible sz rule: capacity_search.induct)
  case (1 slots admissible sz)
  show ?case
  proof (cases "sz \<le> max_capacity_search_members \<and> capacity_command_slots sz < slots")
    case True
    have "\<forall>n. 1 \<le> n \<and> n \<le> sz \<longrightarrow> capacity_command_slots n < slots"
      using 1(2,4) True by (metis le_Suc_eq)
    moreover have "capacity_search slots admissible sz = capacity_search slots sz (sz + 1)"
      using True by (subst capacity_search.simps) simp
    ultimately show ?thesis using 1(1,5) True by simp
  next
    case False
    then have "capacity_search slots admissible sz = admissible" by (subst capacity_search.simps) auto
    then show ?thesis using 1(2-5) False by auto
  qed
qed

lemma computed_capacity_spec:
  "computed_capacity cfg d \<le> max_capacity_search_members"
  "1 \<le> n \<Longrightarrow> n \<le> computed_capacity cfg d \<Longrightarrow> capacity_command_slots n < deadline_command_slots cfg d"
  "computed_capacity cfg d < max_capacity_search_members \<Longrightarrow>
     deadline_command_slots cfg d \<le> capacity_command_slots (Suc (computed_capacity cfg d))"
  using capacity_search_spec [of 1 0 "deadline_command_slots cfg d" "computed_capacity cfg d"]
  by (auto simp: computed_capacity_def)

text \<open>The bound is the greatest chain length whose hardest shape costs less than the deadline.\<close>

lemma computed_capacity_iff:
  assumes "1 \<le> n" "n \<le> max_capacity_search_members"
  shows "n \<le> computed_capacity cfg d \<longleftrightarrow> 2 * n + 4 < deadline_command_slots cfg d"
proof
  assume "n \<le> computed_capacity cfg d"
  then show "2 * n + 4 < deadline_command_slots cfg d"
    using computed_capacity_spec(2) [OF assms(1)] capacity_slots_exact [OF assms(1)] assms(2) by simp
next
  let ?r = "computed_capacity cfg d"
  assume less: "2 * n + 4 < deadline_command_slots cfg d"
  show "n \<le> ?r"
  proof (rule ccontr)
    assume "\<not> n \<le> ?r"
    then have "?r < max_capacity_search_members" "Suc ?r \<le> n" using assms(2) by simp_all
    then have "deadline_command_slots cfg d \<le> 2 * Suc ?r + 4"
      using computed_capacity_spec(3) [of cfg d] capacity_slots_exact [of "Suc ?r"] assms(2) by simp
    with \<open>Suc ?r \<le> n\<close> less show False by simp
  qed
qed

subsection \<open>A chain within the bound drains\<close>

text \<open>The chain a tick leaves behind: the first \<open>k\<close> members are written.\<close>

definition written :: "nat \<Rightarrow> chain_cost \<Rightarrow> chain_cost" where
  "written k c = c\<lparr>cc_members := map (\<lambda>m. m\<lparr>mc_pending := False\<rparr>) (take k (cc_members c)) @ drop k (cc_members c)\<rparr>"

fun drain_ticks :: "budget_config \<Rightarrow> duration \<Rightarrow> nat \<Rightarrow> chain_cost \<Rightarrow> chain_cost option" where
  "drain_ticks cfg d 0 c = Some c"
| "drain_ticks cfg d (Suc n) c =
     (case admit_physical_prefix cfg [c] d of
        None \<Rightarrow> None
      | Some a \<Rightarrow> drain_ticks cfg d n (written (hd (pa_admitted a)) c))"

abbreviation pending_members :: "chain_cost \<Rightarrow> member_cost list" where
  "pending_members c \<equiv> filter mc_pending (cc_members c)"

lemma single_chain:
  "in_prefix [c] [k] = take k (cc_members c)"
  "apply_rounds [c] [k] = sat_sum (map apply_slots (take k (cc_members c)))"
proof -
  have "chunks 2 [c] = [[c]]" by (simp add: chunks.simps)
  then show "apply_rounds [c] [k] = sat_sum (map apply_slots (take k (cc_members c)))"
    by (simp add: apply_rounds_def max_parallel_rebase_chains_def prefix_members_def admitted_at_def
        sat_sum_eq)
  show "in_prefix [c] [k] = take k (cc_members c)"
    by (simp add: in_prefix_def prefix_members_def admitted_at_def)
qed

lemma single_chain_slots:
  "pb_command_slots (budget_for cfg [c] [k] BoundedPrefix)
     \<le> sum_list (map (\<lambda>m. control_slots m + apply_slots m) (take k (cc_members c))) + 2"
proof -
  have "pb_command_slots (budget_for cfg [c] [k] BoundedPrefix)
      \<le> sat_sum (map control_slots (take k (cc_members c))) + sat_sum (map apply_slots (take k (cc_members c))) + 2"
    by (simp add: budget_for_def Let_def single_chain fixed_post_write_slots_def sat_add_def)
  also have "\<dots> \<le> sum_list (map control_slots (take k (cc_members c))) + sum_list (map apply_slots (take k (cc_members c))) + 2"
    by (intro add_mono sat_sum_le order_refl)
  finally show ?thesis by (simp add: sum_list_addf)
qed

lemma retained_prefix_slots:
  assumes "filter mc_pending (take k (cc_members c)) = []" "k < length (cc_members c)"
  shows "pb_command_slots (budget_for cfg [c] [Suc k] BoundedPrefix) \<le> 2 * Suc k + 4"
proof -
  let ?cost = "\<lambda>m. control_slots m + apply_slots m"
  have "map ?cost (take k (cc_members c)) = map (\<lambda>m. 2) (take k (cc_members c))"
    using assms(1) by (auto simp: filter_empty_conv control_slots_def apply_slots_def apply_slots_per_retained_member_def)
  then have "sum_list (map ?cost (take k (cc_members c))) = sum_list (map (\<lambda>m. 2) (take k (cc_members c)))"
    by (simp only:)
  also have "\<dots> = 2 * k" using assms(2) by (simp add: sum_list_triv)
  finally have "sum_list (map ?cost (take k (cc_members c))) = 2 * k" .
  moreover have "?cost (cc_members c ! k) \<le> 4"
    by (simp add: control_slots_def apply_slots_def apply_slots_per_retained_member_def apply_slots_per_pending_member_def)
  ultimately have "sum_list (map ?cost (take (Suc k) (cc_members c))) \<le> 2 * k + 4"
    using assms(2) by (simp add: take_Suc_conv_app_nth)
  then show ?thesis using single_chain_slots [of cfg c "Suc k"] by simp
qed

lemma slots_within_deadline_fit:
  assumes "2 \<le> reserve_secs_per_command cfg" "pb_command_slots (budget_for cfg cs a scope) < deadline_command_slots cfg d"
  shows "fits (budget_for cfg cs a scope) d"
proof -
  let ?secs = "reserve_secs_per_command cfg" and ?slots = "pb_command_slots (budget_for cfg cs a scope)"
  have "Suc ?slots \<le> as_secs d div ?secs" using assms by (simp add: deadline_command_slots_def Let_def)
  then have "?secs * Suc ?slots \<le> as_secs d"
    by (meson mult_le_mono2 order_trans times_div_less_eq_dividend)
  then have "(?secs * ?slots + 2) * 10 ^ 9 \<le> d"
    using assms(1) by (simp add: as_secs_def less_eq_div_iff_mult_less_eq)
  moreover have "pb_required (budget_for cfg cs a scope) \<le> (?secs * ?slots) * 10 ^ 9"
    by (simp add: budget_for_def Let_def slots_to_duration_def from_secs_def sat_mul_le)
  ultimately show ?thesis
    by (simp add: fits_def duration_sat_add_def admission_guard_def from_secs_def min_def)
qed

lemma admitted_single:
  assumes "2 \<le> reserve_secs_per_command cfg" "length (cc_members c) \<le> computed_capacity cfg d"
  obtains a where "admit_physical_prefix cfg [c] d = Some a"
    "length (filter mc_pending (take (hd (pa_admitted a)) (cc_members c))) > 0 \<or> pending_members c = []"
proof -
  have pending: "length (filter mc_pending (take k (cc_members c))) > 0 \<or> pending_members c = []"
    if k: "k \<le> length (cc_members c)"
      and stuck: "k < length (cc_members c) \<Longrightarrow> \<not> fits (budget_for cfg [c] [Suc k] BoundedPrefix) d" for k
  proof (rule ccontr)
    assume no: "\<not> ?thesis"
    then have none: "filter mc_pending (take k (cc_members c)) = []" by simp
    with no k have less: "k < length (cc_members c)" by (cases "k = length (cc_members c)") auto
    have "Suc k \<le> computed_capacity cfg d" using less assms(2) by simp
    moreover from this have "Suc k \<le> max_capacity_search_members"
      using computed_capacity_spec(1) [of cfg d] by (rule order_trans)
    ultimately have "2 * Suc k + 4 < deadline_command_slots cfg d"
      using computed_capacity_iff [of "Suc k" cfg d] by simp
    then have "fits (budget_for cfg [c] [Suc k] BoundedPrefix) d"
      by (intro slots_within_deadline_fit [OF assms(1)] le_less_trans [OF retained_prefix_slots [OF none less]])
    with stuck less show False by simp
  qed
  show ?thesis
  proof (cases rule: admit_physical_prefix_cases [of cfg "[c]" d])
    case (complete a)
    then show ?thesis using that by (auto simp: complete_prefix_def)
  next
    case (bounded a s)
    then obtain k where k: "sa_admitted s = [k]" by (auto simp: admit_inv_def length_Suc_conv)
    have "k \<le> length (cc_members c)" "k < length (cc_members c) \<Longrightarrow> \<not> fits (budget_for cfg [c] [Suc k] BoundedPrefix) d"
      using bounded(4,5) k by (auto simp: admit_inv_def extension_fails_def)
    from pending [OF this] that [OF bounded(1)] show ?thesis
      using bounded(3) k by (simp add: bounded_admission_def Let_def)
  qed
qed

lemma written_pending:
  "length (cc_members (written k c)) = length (cc_members c)"
  "length (pending_members (written k c))
     + length (filter mc_pending (take k (cc_members c))) = length (pending_members c)"
proof -
  have "length (pending_members c) = length (filter mc_pending (take k (cc_members c))) + length (filter mc_pending (drop k (cc_members c)))"
    by (metis append_take_drop_id filter_append length_append)
  then show "length (pending_members (written k c)) + length (filter mc_pending (take k (cc_members c))) = length (pending_members c)"
    by (simp add: written_def filter_map comp_def)
qed (simp add: written_def)

text \<open>
  C17. Admission within the bound drains: with at least two seconds reserved per command, a chain no
  longer than the bound the deadline implies is completely written after as many ticks as it has
  pending members, whatever the pending and armed members are. Every tick on the way that has a
  pending member writes at least one.
\<close>

theorem chain_within_capacity_drains:
  assumes "2 \<le> reserve_secs_per_command cfg" "admission_capacity cfg d = Inr bound"
    "length (cc_members c) \<le> bound" "length (filter mc_pending (cc_members c)) \<le> n"
  shows "\<exists>c'. drain_ticks cfg d n c = Some c' \<and> map mc_pr (cc_members c') = map mc_pr (cc_members c)
     \<and> filter mc_pending (cc_members c') = []"
  using assms(3,4)
proof (induction n arbitrary: c)
  case (Suc n)
  have "length (cc_members c) \<le> computed_capacity cfg d"
    using assms(2) Suc.prems(1) by (auto simp: admission_capacity_def Let_def split: if_splits)
  from admitted_single [OF assms(1) this] obtain a where a: "admit_physical_prefix cfg [c] d = Some a"
    "length (filter mc_pending (take (hd (pa_admitted a)) (cc_members c))) > 0 \<or> pending_members c = []" .
  let ?c = "written (hd (pa_admitted a)) c"
  have "0 < length (filter mc_pending (take (hd (pa_admitted a)) (cc_members c))) \<or> length (pending_members c) = 0"
    using a(2) by auto
  then have "length (pending_members ?c) \<le> n" "length (cc_members ?c) \<le> bound"
    using Suc.prems written_pending [of "hd (pa_admitted a)" c] by linarith+
  from Suc.IH [OF this(2,1)] a(1) have "\<exists>c'. drain_ticks cfg d (Suc n) c = Some c'
      \<and> map mc_pr (cc_members c') = map mc_pr (cc_members ?c) \<and> pending_members c' = []" by simp
  moreover have "map mc_pr (cc_members ?c) = map mc_pr (cc_members c)"
    by (simp add: written_def comp_def) (metis append_take_drop_id map_append)
  ultimately show ?case by simp
qed simp

subsection \<open>The gate\<close>

text \<open>
  C36. The deadline named in a capacity defect is exact: as long as its computation does not
  saturate, a bound can be enforced if and only if the deadline is at least
  \<open>minimum_sound_deadline\<close>.
\<close>

theorem minimum_sound_deadline_exact:
  assumes "0 < reserve_secs_per_command cfg" "9 * reserve_secs_per_command cfg \<le> u64_max"
  shows "(\<exists>bound. admission_capacity cfg d = Inr bound) \<longleftrightarrow> minimum_sound_deadline cfg \<le> d"
proof -
  let ?secs = "reserve_secs_per_command cfg"
  have "(\<exists>bound. admission_capacity cfg d = Inr bound) \<longleftrightarrow> 2 \<le> computed_capacity cfg d"
    by (auto simp: admission_capacity_def Let_def minimum_sound_capacity_def)
  also have "\<dots> \<longleftrightarrow> 9 \<le> as_secs d div ?secs"
    using computed_capacity_iff [of 2 cfg d] assms(1)
    by (auto simp: max_capacity_search_members_def deadline_command_slots_def Let_def)
  also have "\<dots> \<longleftrightarrow> 9 * ?secs \<le> as_secs d"
    using assms(1) by (simp add: less_eq_div_iff_mult_less_eq)
  also have "\<dots> \<longleftrightarrow> (9 * ?secs) * 10 ^ 9 \<le> d"
    by (simp add: as_secs_def less_eq_div_iff_mult_less_eq)
  also have "(9 * ?secs) * 10 ^ 9 = minimum_sound_deadline cfg"
    using assms(2) capacity_slots_exact [of 2]
    by (simp add: minimum_sound_deadline_def minimum_sound_capacity_def sat_mul_def sat_add_def
        max_capacity_search_members_def from_secs_def u64_max_def)
  finally show ?thesis .
qed

text \<open>
  C35. A gate is honest: it reports a defect only for a configuration without a sound bound, never
  the contradiction; it is open only below the bound and below the configured batch; and when it is
  closed the reported bound is reached by the chain and never exceeds the sound one, so draining
  below it opens the gate again.
\<close>

theorem capacity_gate_contract:
  "case capacity_gate_of cfg d members of
     GateDefect x \<Rightarrow> admission_capacity cfg d = Inl x \<and> df_computed_bound x < minimum_sound_capacity
   | GateOpen bound \<Rightarrow> admission_capacity cfg d = Inr bound \<and> members < bound
       \<and> (case configured_batch_bound cfg of None \<Rightarrow> True | Some batch \<Rightarrow> members < batch)
   | GateAtCapacity bound \<Rightarrow> bound \<le> members
       \<and> (\<exists>sound. admission_capacity cfg d = Inr sound \<and> minimum_sound_capacity \<le> sound \<and> bound \<le> sound
            \<and> bound \<in> {sound, case configured_batch_bound cfg of None \<Rightarrow> sound | Some batch \<Rightarrow> batch})"
proof (cases "computed_capacity cfg d < minimum_sound_capacity")
  case True
  then show ?thesis
    by (simp add: capacity_gate_of_def admission_capacity_def Let_def capacity_defect_of_def)
next
  case False
  then have "admission_capacity cfg d = Inr (computed_capacity cfg d)"
    by (simp add: admission_capacity_def Let_def)
  then show ?thesis using False
    by (cases "configured_batch_bound cfg")
      (auto simp: capacity_gate_of_def gate_for_bound_def gate_by_bound_def min_def)
qed

subsection \<open>Concrete configurations\<close>

definition sample_budget :: "nat \<Rightarrow> budget_config" where
  "sample_budget secs = \<lparr>bc_command_timeout_secs = 120, bc_reserve_secs_per_command = secs,
     bc_max_duration_secs = 900, bc_max_caravan_length = None, bc_stack_type = StackCaravan,
     bc_rebase_on_join = True\<rparr>"

text \<open>Three members, the last one pending and armed.\<close>

definition sample_chain :: chain_cost where
  "sample_chain = \<lparr>cc_caravan_id = 1,
     cc_members = [\<lparr>mc_pr = 1, mc_pending = False, mc_auto_merge_enabled = False\<rparr>,
                   \<lparr>mc_pr = 2, mc_pending = False, mc_auto_merge_enabled = False\<rparr>,
                   \<lparr>mc_pr = 3, mc_pending = True, mc_auto_merge_enabled = True\<rparr>],
     cc_externally_armed_non_roots = 0\<rparr>"

lemma sample_reserve: "secs \<le> 120 \<Longrightarrow> reserve_secs_per_command (sample_budget secs) = secs"
  by (simp add: reserve_secs_per_command_def sample_budget_def)

lemma sample_capacity:
  "admission_capacity (sample_budget 1) (from_secs 11) = Inr 3"
  "admission_capacity (sample_budget 2) (from_secs 22) = Inr 3"
proof -
  have three: "computed_capacity (sample_budget secs) d = 3"
    if "deadline_command_slots (sample_budget secs) d = 11" for secs d
  proof -
    have "3 \<le> computed_capacity (sample_budget secs) d" "\<not> 4 \<le> computed_capacity (sample_budget secs) d"
      using computed_capacity_iff [of 3 "sample_budget secs" d] computed_capacity_iff [of 4 "sample_budget secs" d] that
      by (simp_all add: max_capacity_search_members_def)
    then show ?thesis by linarith
  qed
  have "deadline_command_slots (sample_budget 1) (from_secs 11) = 11"
    "deadline_command_slots (sample_budget 2) (from_secs 22) = 11"
    by (simp_all add: deadline_command_slots_def sample_reserve as_secs_def from_secs_def)
  from this [THEN three]
  show "admission_capacity (sample_budget 1) (from_secs 11) = Inr 3"
    "admission_capacity (sample_budget 2) (from_secs 22) = Inr 3"
    by (simp_all add: admission_capacity_def Let_def minimum_sound_capacity_def)
qed

theorem chain_within_capacity_drains_witness:
  "\<exists>c'. drain_ticks (sample_budget 2) (from_secs 22) 1 sample_chain = Some c'
     \<and> filter mc_pending (cc_members c') = []"
  using chain_within_capacity_drains [OF _ sample_capacity(2), of sample_chain 1]
  by (auto simp: sample_chain_def sample_reserve)

theorem minimum_sound_deadline_exact_witness:
  "\<exists>bound. admission_capacity (sample_budget 2) (from_secs 18) = Inr bound"
proof -
  have "minimum_sound_deadline (sample_budget 2) \<le> from_secs 18"
    using capacity_slots_exact [of 2]
    by (simp add: minimum_sound_deadline_def sample_reserve minimum_sound_capacity_def sat_add_def sat_mul_def
        u64_max_def from_secs_def max_capacity_search_members_def)
  then show ?thesis
    using minimum_sound_deadline_exact [of "sample_budget 2" "from_secs 18"] by (simp add: sample_reserve u64_max_def)
qed

lemmas sample_cost =
  sample_chain_def control_slots_def apply_slots_def apply_slots_per_pending_member_def
  apply_slots_per_retained_member_def

lemma sample_prefix_budget:
  "fits (budget_for (sample_budget 1) [sample_chain] [3] BoundedPrefix) (from_secs 11) = False"
  by (simp add: budget_for_def Let_def single_chain sample_cost fixed_post_write_slots_def sat_sum_eq sat_add_def
      fits_def slots_to_duration_def sat_mul_def sample_reserve admission_guard_def from_secs_def
      duration_sat_add_def duration_max_def u64_max_def)

lemma sample_complete_budget: "\<not> fits (complete_budget (sample_budget 1) [sample_chain]) (from_secs 11)"
  by (simp add: complete_budget_def complete_prefix_def budget_for_def Let_def single_chain sample_cost
      fixed_post_write_slots_def sat_sum_eq sat_add_def fits_def slots_to_duration_def sat_mul_def sample_reserve
      admission_guard_def from_secs_def duration_sat_add_def duration_max_def u64_max_def
      reconciliation_slots_def reconciliation_slots_per_member_def reconciliation_slots_per_caravan_def to_u64_def)

text \<open>
  An example for the need of two seconds: with one second reserved per command and an eleven second deadline
  the bound admits three members, yet of a three-member chain whose last member is pending nothing
  pending is written although the whole deadline remains, so the chain never drains.
\<close>

theorem one_second_reserve_does_not_drain:
  "admission_capacity (sample_budget 1) (from_secs 11) = Inr 3 \<and> length (cc_members sample_chain) = 3
   \<and> (\<exists>a. admit_physical_prefix (sample_budget 1) [sample_chain] (from_secs 11) = Some a
         \<and> pa_pending_admitted a = 0 \<and> \<not> makes_progress a)"
proof (intro conjI)
  show "\<exists>a. admit_physical_prefix (sample_budget 1) [sample_chain] (from_secs 11) = Some a
      \<and> pa_pending_admitted a = 0 \<and> \<not> makes_progress a"
  proof (cases rule: admit_physical_prefix_cases [of "sample_budget 1" "[sample_chain]" "from_secs 11"])
    case (complete a)
    then show ?thesis using sample_complete_budget by simp
  next
    case (bounded a s)
    then obtain k where k: "sa_admitted s = [k]" by (auto simp: admit_inv_def length_Suc_conv)
    have "k \<le> 3" "k \<noteq> 3"
      using bounded(4) k sample_prefix_budget by (auto simp: admit_inv_def sample_chain_def)
    then have "k = 0 \<or> k = 1 \<or> k = 2" by linarith
    then have "pending_in_prefix [sample_chain] [k] = 0" "deferred_members [sample_chain] [k] \<noteq> []"
      by (auto simp: pending_in_prefix_def prefix_members_def admitted_at_def sample_chain_def sat_sum_eq
          to_u64_def deferred_members_def numeral_2_eq_2)
    with bounded(1,3) k show ?thesis by (simp add: bounded_admission_def Let_def makes_progress_def)
  qed
qed (rule sample_capacity(1), simp add: sample_chain_def)


end
