(* ===== verification/Squash_Facts.thy ===== *)
theory Squash_Facts
  imports Squash_Analysis Samples
begin

text \<open>
  Guarantees of the squash-equivalence analysis: whatever Git answers, commits are dropped only with
  the complete proof, and under the documented raw output of \<open>git diff-tree\<close> the target then holds the
  content of the dropped prefix.
\<close>

subsection \<open>The walk and the search\<close>

lemma linear_prefix_Cons:
  assumes "linear_prefix room expected (line # rest) = Inr cs"
  shows "cs = [] \<or> (\<exists>oid later. split_whitespace line = [oid, expected] \<and> cs = oid # later
      \<and> room \<noteq> 0 \<and> linear_prefix (room - 1) oid rest = Inr later)"
proof (cases "split_whitespace line")
  case (Cons oid parents)
  then show ?thesis using assms by (auto simp: and_then_Inr split: if_splits)
qed (use assms in \<open>auto split: if_splits\<close>)

lemma linear_prefix_complete:
  assumes "linear_prefix room expected ls = Inr cs" "length cs = length ls"
  shows "map split_whitespace ls = map2 (\<lambda>oid parent. [oid, parent]) cs (expected # butlast cs) \<and> length cs \<le> room"
  using assms
proof (induction ls arbitrary: room expected cs)
  case (Cons line rest)
  then obtain oid later where *: "split_whitespace line = [oid, expected]" "cs = oid # later" "room \<noteq> 0"
    "linear_prefix (room - 1) oid rest = Inr later"
    using linear_prefix_Cons [OF Cons.prems(1)] by auto
  with Cons.IH [OF *(4)] Cons.prems(2) show ?case by (cases later) auto
qed simp

text \<open>
  A completely linear range: the listing names every commit with the one before it as only parent.
\<close>

lemma linear_prefix_chain_complete:
  assumes "linear_prefix_chain runner base c = Inr \<lparr>ch_commits = commits, ch_total_commits = length commits\<rparr>"
  shows "\<exists>out. git_output runner [''rev-list'', ''--reverse'', ''--topo-order'', ''--parents'', c, ''^'' @ base] = Inr out
    \<and> map split_whitespace (lines_of (co_stdout out)) = map2 (\<lambda>oid parent. [oid, parent]) commits (base # butlast commits)"
proof -
  obtain out where out: "git_output runner [''rev-list'', ''--reverse'', ''--topo-order'', ''--parents'', c, ''^'' @ base] = Inr out"
    using assms unfolding linear_prefix_chain_def and_then_Inr by blast
  then have "linear_prefix max_analyzed_prefix_commits base (lines_of (co_stdout out)) = Inr commits"
    "length commits = length (lines_of (co_stdout out))"
    using assms by (auto simp: linear_prefix_chain_def and_then_Inr split: if_splits)
  from linear_prefix_complete [OF this] out show ?thesis by blast
qed

lemma find_boundary_spec:
  assumes "find_boundary runner base target_entries commits n = Inr search"
  shows "(\<forall>i entries. search = Proven i entries \<longrightarrow>
      i < n \<and> diff_entries runner base (commits ! i) = Inr (Some entries) \<and> entries \<noteq> []
      \<and> represented entries target_entries
      \<and> (\<forall>j. i < j \<and> j < n \<longrightarrow> (\<exists>others. diff_entries runner base (commits ! j) = Inr (Some others)
            \<and> (others = [] \<or> \<not> represented others target_entries))))"
  using assms
proof (induction n arbitrary: search)
  case (Suc n)
  then obtain found where found: "diff_entries runner base (commits ! n) = Inr found"
    "(case found of None \<Rightarrow> Inr Unrepresentable
      | Some entries \<Rightarrow> if entries = [] then find_boundary runner base target_entries commits n
          else if represented entries target_entries then Inr (Proven n entries)
          else find_boundary runner base target_entries commits n) = Inr search"
    unfolding find_boundary.simps and_then_Inr by blast
  show ?case
  proof (cases "\<exists>entries. found = Some entries \<and> (entries = [] \<or> \<not> represented entries target_entries)")
    case True
    then obtain others where others: "found = Some others" "others = [] \<or> \<not> represented others target_entries" by blast
    with found(2) have "find_boundary runner base target_entries commits n = Inr search" by (auto split: if_splits)
    from Suc.IH [OF this] found(1) others show ?thesis by (auto simp: less_Suc_eq)
  next
    case False
    then show ?thesis using found by (auto split: option.splits)
  qed
qed simp

lemma commit_trees_length: "commit_trees runner commits = Inr trees \<Longrightarrow> length trees = length commits"
  by (auto simp: commit_trees_def and_then_Inr split: if_splits)

lemma describe_rows_actions:
  "describe_rows runner through action i parent rows = Inr out \<Longrightarrow>
     map (\<lambda>c. (ac_oid c, ac_action c)) out
       = map (\<lambda>(j, row). (fst row, if j \<le> through then action else Retained)) (enumerate i rows)"
proof (induction rows arbitrary: i parent out)
  case (Cons row rows)
  then show ?case by (cases row) (auto simp: and_then_Inr Let_def)
qed simp

lemma described_commits:
  assumes "describe_commits runner base commits through action = Inr out"
  shows "map (\<lambda>c. (ac_oid c, ac_action c)) out
    = map (\<lambda>(j, oid). (oid, if j \<le> through then action else Retained)) (enumerate 0 commits)"
proof -
  obtain trees where t: "length trees = length commits"
    "describe_rows runner through action 0 base (zip commits trees) = Inr out"
    using assms commit_trees_length by (auto simp: describe_commits_def and_then_Inr)
  have "map (\<lambda>(j, row). (fst row, if j \<le> through then action else Retained)) (enumerate i (zip cs ts))
      = map (\<lambda>(j, oid). (oid, if j \<le> through then action else Retained)) (enumerate i cs)"
    if "length ts = length cs" for i cs and ts :: "commit_oid list"
    using that by (induction cs ts arbitrary: i rule: list_induct2') simp_all
  with describe_rows_actions [OF t(2)] t(1) show ?thesis by simp
qed

lemma filter_actions:
  assumes "map (\<lambda>c. (ac_oid c, ac_action c)) out = pairs"
  shows "map ac_oid (filter (\<lambda>c. ac_action c = a) out) = map fst (filter (\<lambda>p. snd p = a) pairs)"
  unfolding assms [symmetric] by (simp add: filter_map comp_def)

lemma dropped_through_enumerate:
  "map fst (filter (\<lambda>p. snd p = Dropped) (map (\<lambda>(j, oid). (oid, if j \<le> through then Dropped else Retained)) (enumerate i cs)))
     = take (Suc through - i) cs"
  "map fst (filter (\<lambda>p. snd p = Retained) (map (\<lambda>(j, oid). (oid, if j \<le> through then Dropped else Retained)) (enumerate i cs)))
     = drop (Suc through - i) cs"
proof (induction cs arbitrary: i)
  case (Cons c cs)
  case 1
  show ?case using Cons(1) [of "Suc i"] by (auto simp: Suc_diff_le not_less_eq_eq)
  case 2
  show ?case using Cons(2) [of "Suc i"] by (auto simp: Suc_diff_le not_less_eq_eq)
qed simp_all

lemma dropped_of_described:
  assumes "describe_commits runner base commits through Dropped = Inr (sq_commits r)"
  shows "dropped_commits r = take (Suc through) commits" "retained_commits r = drop (Suc through) commits"
  using filter_actions [OF described_commits [OF assms]] dropped_through_enumerate [of through 0 commits]
  by (simp_all add: dropped_commits_def retained_commits_def)

lemma nothing_dropped:
  assumes "describe_commits runner base commits through Retained = Inr (sq_commits r)"
  shows "dropped_commits r = []"
  using filter_actions [OF described_commits [OF assms], of Dropped]
  by (simp add: dropped_commits_def filter_map comp_def case_prod_unfold)

subsection \<open>Reports\<close>

text \<open>A report that drops commits or authorises a boundary.\<close>

definition reconciles :: "squash_equivalence_report \<Rightarrow> bool" where
  "reconciles r \<longleftrightarrow> dropped_commits r \<noteq> [] \<or> authorized_range_base r \<noteq> None"

lemma not_reconciles:
  "dropped_commits r = [] \<Longrightarrow> sq_outcome r \<noteq> Reconcilable \<Longrightarrow> \<not> reconciles r"
  by (simp add: reconciles_def authorized_range_base_def authorizes_reconciliation_def)

lemma no_boundary_not_reconciles:
  assumes "no_boundary_report runner base commits r0 = Inr r"
  shows "\<not> reconciles r"
proof -
  obtain rows where rows: "describe_commits runner base commits u64_max Retained = Inr rows"
    "sq_commits r = rows" "sq_outcome r = NoEquivalence"
    using assms by (auto simp: no_boundary_report_def and_then_Inr)
  then show ?thesis using nothing_dropped [of runner base commits u64_max r] by (simp add: not_reconciles)
qed

lemma residual_not_reconciles:
  assumes "residual_report runner base commits i conflicts r0 = Inr r"
  shows "\<not> reconciles r"
proof -
  obtain rows where rows: "describe_commits runner base commits u64_max Retained = Inr rows"
    "sq_commits r = rows" "sq_outcome r = ResidualConflict"
    using assms by (auto simp: residual_report_def and_then_Inr)
  then show ?thesis using nothing_dropped [of runner base commits u64_max r] by (simp add: not_reconciles)
qed

lemma clean_merge_has_no_paths:
  assumes "merge_tree_with_base_with_runner runner c t base = Inr (Clean, tree, paths)"
  shows "paths = []"
  using assms by (auto simp: merge_tree_with_base_with_runner_def and_then_Inr parse_merge_tree_def Let_def
      split: if_splits)

lemma finished_report_reconciles:
  assumes r: "(if out_come = Clean then reconcilable_report runner base commits i r1
       else residual_report runner base commits i conflicts r1) = Inr r"
    and rec: "reconciles r" and r1: "sq_proven_boundary r1 = Some (commits ! i)"
  shows "out_come = Clean \<and> authorized_range_base r = Some (commits ! i)
    \<and> dropped_commits r = take (Suc i) commits \<and> retained_commits r = drop (Suc i) commits"
proof -
  have clean: "out_come = Clean" using r residual_not_reconciles rec by (auto split: if_splits)
  obtain rows where rows: "describe_commits runner base commits i Dropped = Inr rows"
    "sq_commits r = rows" "sq_outcome r = Reconcilable" "sq_proven_boundary r = sq_proven_boundary r1"
    using r clean by (auto simp: reconcilable_report_def and_then_Inr)
  then show ?thesis
    using dropped_of_described [of runner base commits i r] r1 clean
    by (simp add: authorized_range_base_def authorizes_reconciliation_def)
qed

lemma proven_report_reconciles:
  assumes "proven_report runner base commits i entries r0 = Inr r" "reconciles r"
  shows "authorized_range_base r = Some (commits ! i)"
    and "\<exists>tree. merge_tree_with_base_with_runner runner (sq_candidate_oid r0) (sq_target_oid r0) (Some (commits ! i))
           = Inr (Clean, tree, [])"
    and "dropped_commits r = take (Suc i) commits" "retained_commits r = drop (Suc i) commits"
proof -
  obtain out_come tree conflicts boundary_tree where
    m: "merge_tree_with_base_with_runner runner (sq_candidate_oid r0) (sq_target_oid r0) (Some (commits ! i))
      = Inr (out_come, tree, conflicts)"
    and b: "commit_tree_with_runner runner (commits ! i) = Inr boundary_tree"
    using assms(1) unfolding proven_report_def Let_def and_then_Inr by (metis prod.collapse)
  note r = assms(1) [unfolded proven_report_def Let_def m b and_then_simps prod.case]
  note finished = finished_report_reconciles [OF r assms(2), simplified]
  from finished show "authorized_range_base r = Some (commits ! i)" "dropped_commits r = take (Suc i) commits"
    "retained_commits r = drop (Suc i) commits" by simp_all
  show "\<exists>tree. merge_tree_with_base_with_runner runner (sq_candidate_oid r0) (sq_target_oid r0) (Some (commits ! i))
      = Inr (Clean, tree, [])" using m finished clean_merge_has_no_paths by metis
qed

lemma analyze_range_reconciles:
  assumes "analyze_range runner base chain r0 = Inr r" "reconciles r"
    "sq_commits r0 = []" "sq_outcome r0 = Indeterminate"
  obtains i entries target_entries r1 where
    "length (ch_commits chain) = ch_total_commits chain"
    "diff_entries runner base (sq_target_oid r0) = Inr (Some target_entries)"
    "find_boundary runner base target_entries (ch_commits chain)
       (min (length (ch_commits chain)) max_evaluated_boundaries) = Inr (Proven i entries)"
    "proven_report runner base (ch_commits chain) i entries r1 = Inr r"
    "sq_candidate_oid r1 = sq_candidate_oid r0" "sq_target_oid r1 = sq_target_oid r0"
proof -
  have blank: "\<not> reconciles r" if "sq_commits r = []" "sq_outcome r \<noteq> Reconcilable"
    using that by (intro not_reconciles) (simp_all add: dropped_commits_def)
  note range = assms(1) [unfolded analyze_range_def Let_def]
  have ne: "ch_commits chain \<noteq> []"
    using range assms(2-4) blank by (auto simp: not_reconciles)
  moreover have len: "length (ch_commits chain) = ch_total_commits chain"
    using range ne assms(2-4) blank by (auto split: if_splits)
  ultimately obtain found where found: "diff_entries runner base (sq_target_oid r0) = Inr found"
    using range by (auto simp: and_then_Inr)
  obtain target_entries where some: "found = Some target_entries"
    using range ne len found assms(2-4) blank by (cases found) auto
  obtain search where search: "find_boundary runner base target_entries (ch_commits chain)
      (min (length (ch_commits chain)) max_evaluated_boundaries) = Inr search"
    using range ne len found some by (auto simp: and_then_Inr)
  show ?thesis
  proof (cases search)
    case Unrepresentable
    then show ?thesis using range ne len found some search assms(2-4) blank by auto
  next
    case NoBoundary
    then show ?thesis using range ne len found some search assms(2) no_boundary_not_reconciles by auto
  next
    case (Proven i entries)
    then show ?thesis using range ne len found some search that by auto
  qed
qed

subsection \<open>Dropping needs the whole proof\<close>

lemma analyze_reconciles:
  assumes "analyze_with_runner runner candidate target c t = Inr r" "reconciles r"
  obtains base chain i entries target_entries where
    "unique_merge_base runner c t = Inr (Some base)" "linear_prefix_chain runner base c = Inr chain"
    "length (ch_commits chain) = ch_total_commits chain"
    "diff_entries runner base t = Inr (Some target_entries)"
    "find_boundary runner base target_entries (ch_commits chain)
       (min (length (ch_commits chain)) max_evaluated_boundaries) = Inr (Proven i entries)"
    "authorized_range_base r = Some (ch_commits chain ! i)"
    "\<exists>tree. merge_tree_with_base_with_runner runner c t (Some (ch_commits chain ! i)) = Inr (Clean, tree, [])"
    "dropped_commits r = take (Suc i) (ch_commits chain)" "retained_commits r = drop (Suc i) (ch_commits chain)"
proof -
  obtain base where base: "unique_merge_base runner c t = Inr base"
    using assms(1) unfolding analyze_with_runner_def Let_def and_then_Inr by blast
  show ?thesis
  proof (cases base)
    case None
    then have "sq_commits r = []" "sq_outcome r = Indeterminate"
      using assms(1) base by (auto simp: analyze_with_runner_def Let_def blank_report_def)
    then show ?thesis using assms(2) not_reconciles [of r] by (simp add: dropped_commits_def)
  next
    case (Some b)
    then obtain target_tree before chain where
      mid: "commit_tree_with_runner runner t = Inr target_tree" "merge_tree_with_runner runner c t = Inr before"
        "linear_prefix_chain runner b c = Inr chain"
      using assms(1) base unfolding analyze_with_runner_def Let_def and_then_Inr
      by (cases "merge_tree_with_runner runner c t") (auto simp: and_then_Inr)
    obtain r0 where r0: "analyze_range runner b chain r0 = Inr r" "sq_commits r0 = []"
      "sq_outcome r0 = Indeterminate" "sq_candidate_oid r0 = c" "sq_target_oid r0 = t"
      using assms(1) by (cases before) (simp add: analyze_with_runner_def base Some mid Let_def blank_report_def)
    from analyze_range_reconciles [OF r0(1) assms(2) r0(2,3)] obtain i entries target_entries r1 where
      range: "length (ch_commits chain) = ch_total_commits chain"
        "diff_entries runner b (sq_target_oid r0) = Inr (Some target_entries)"
        "find_boundary runner b target_entries (ch_commits chain)
           (min (length (ch_commits chain)) max_evaluated_boundaries) = Inr (Proven i entries)"
        "proven_report runner b (ch_commits chain) i entries r1 = Inr r"
        "sq_candidate_oid r1 = sq_candidate_oid r0" "sq_target_oid r1 = sq_target_oid r0" .
    show ?thesis
      using that [OF base [unfolded Some] mid(3) range(1) range(2) [unfolded r0] range(3)]
        proven_report_reconciles [OF range(4) assms(2)] range(5,6) r0(4,5) by simp
  qed
qed

text \<open>
  C13. Nothing is dropped without the whole proof, whatever Git answers. If an analysis drops a
  commit or authorises a boundary, then there is exactly one merge base, the candidate-only range is
  completely linear from it, the boundary is one of its first \<open>max_evaluated_boundaries\<close> commits,
  every path changed up to the boundary (and there is one) has the same mode and blob on the target,
  no later evaluated commit has that property, replaying the rest from the boundary merges cleanly,
  and exactly the commits through the boundary are dropped.
\<close>

theorem squash_drop_needs_proof:
  assumes "analyze_with_runner runner candidate target c t = Inr r"
    "dropped_commits r \<noteq> [] \<or> authorized_range_base r \<noteq> None"
  shows "\<exists>base commits i entries target_entries.
      unique_merge_base runner c t = Inr (Some base)
    \<and> linear_prefix_chain runner base c = Inr \<lparr>ch_commits = commits, ch_total_commits = length commits\<rparr>
    \<and> (\<exists>out. git_output runner [''rev-list'', ''--reverse'', ''--topo-order'', ''--parents'', c, ''^'' @ base] = Inr out
         \<and> map split_whitespace (lines_of (co_stdout out))
             = map2 (\<lambda>oid parent. [oid, parent]) commits (base # butlast commits))
    \<and> i < length commits \<and> i < max_evaluated_boundaries \<and> authorized_range_base r = Some (commits ! i)
    \<and> diff_entries runner base (commits ! i) = Inr (Some entries) \<and> entries \<noteq> []
    \<and> diff_entries runner base t = Inr (Some target_entries)
    \<and> (\<forall>(path, entry)\<in>set entries. bt_get target_entries path = Some entry)
    \<and> (\<forall>j. i < j \<and> j < min (length commits) max_evaluated_boundaries \<longrightarrow>
         (\<exists>others. diff_entries runner base (commits ! j) = Inr (Some others)
            \<and> (others = [] \<or> \<not> represented others target_entries)))
    \<and> (\<exists>tree. merge_tree_with_base_with_runner runner c t (Some (commits ! i)) = Inr (Clean, tree, []))
    \<and> dropped_commits r = take (Suc i) commits \<and> retained_commits r = drop (Suc i) commits"
proof -
  obtain base chain i entries target_entries where *:
    "unique_merge_base runner c t = Inr (Some base)" "linear_prefix_chain runner base c = Inr chain"
    "length (ch_commits chain) = ch_total_commits chain"
    "diff_entries runner base t = Inr (Some target_entries)"
    "find_boundary runner base target_entries (ch_commits chain)
       (min (length (ch_commits chain)) max_evaluated_boundaries) = Inr (Proven i entries)"
    "authorized_range_base r = Some (ch_commits chain ! i)"
    "\<exists>tree. merge_tree_with_base_with_runner runner c t (Some (ch_commits chain ! i)) = Inr (Clean, tree, [])"
    "dropped_commits r = take (Suc i) (ch_commits chain)" "retained_commits r = drop (Suc i) (ch_commits chain)"
    using analyze_reconciles [OF assms(1)] assms(2) unfolding reconciles_def by metis
  have chain: "linear_prefix_chain runner base c
      = Inr \<lparr>ch_commits = ch_commits chain, ch_total_commits = length (ch_commits chain)\<rparr>"
    using *(2,3) by (cases chain) simp
  show ?thesis
    using * chain linear_prefix_chain_complete [OF chain] find_boundary_spec [OF *(5)]
    by (intro exI [of _ base] exI [of _ "ch_commits chain"] exI [of _ i] exI [of _ entries] exI [of _ target_entries])
      (auto simp: represented_def list_all_iff)
qed

subsection \<open>What the proof means for the trees\<close>

definition deleted_side :: diff_target where
  "deleted_side = \<lparr>dt_mode = ''000000'', dt_blob = replicate 40 (CHR ''0'')\<rparr>"

fun diff_side :: "diff_target option \<Rightarrow> diff_target" where
  "diff_side None = deleted_side"
| "diff_side (Some t) = t"

text \<open>
  The raw format of \<open>git diff-tree -r -z --no-renames\<close> as Git documents it, for trees given as maps from paths
  to mode and blob: one record for each changed path in some order, with the modes and the blobs of
  both sides, the null mode and the null object name for a missing side, a status letter, and the path
  between two NUL bytes.
\<close>

definition raw_status :: "diff_target option \<Rightarrow> diff_target option \<Rightarrow> string" where
  "raw_status old new = (case (old, new) of
     (None, _) \<Rightarrow> ''A''
   | (_, None) \<Rightarrow> ''D''
   | (Some x, Some y) \<Rightarrow> if take 3 (dt_mode x) = take 3 (dt_mode y) then ''M'' else ''T'')"

definition raw_columns :: "diff_target option \<Rightarrow> diff_target option \<Rightarrow> string list" where
  "raw_columns old new = [dt_mode (diff_side old), dt_mode (diff_side new), dt_blob (diff_side old), dt_blob (diff_side new),
     raw_status old new]"

fun spaced :: "string list \<Rightarrow> string" where
  "spaced [] = []"
| "spaced [w] = w"
| "spaced (w # ws) = w @ CHR '' '' # spaced ws"

definition raw_record :: "(string \<Rightarrow> diff_target option) \<Rightarrow> (string \<Rightarrow> diff_target option) \<Rightarrow> string \<Rightarrow> string" where
  "raw_record old new path = CHR '':'' # spaced (raw_columns (old path) (new path)) @ CHR 0x00 # path @ [CHR 0x00]"

definition object_word :: "string \<Rightarrow> bool" where
  "object_word w \<longleftrightarrow> w \<noteq> [] \<and> (\<forall>c\<in>set w. is_ascii_hexdigit c)"

definition git_tree :: "(string \<Rightarrow> diff_target option) \<Rightarrow> bool" where
  "git_tree entry \<longleftrightarrow> (\<forall>path t. entry path = Some t \<longrightarrow> path \<noteq> [] \<and> CHR 0x00 \<notin> set path
     \<and> object_word (dt_mode t) \<and> object_word (dt_blob t) \<and> t \<noteq> deleted_side)"

definition diff_arguments :: "commit_oid \<Rightarrow> commit_oid \<Rightarrow> string list" where
  "diff_arguments from to = [''diff-tree'', ''-r'', ''-z'', ''--no-commit-id'', ''--no-renames'', from, to]"

definition diff_tree_documented :: "git_runner \<Rightarrow> (commit_oid \<Rightarrow> string \<Rightarrow> diff_target option) \<Rightarrow> bool" where
  "diff_tree_documented runner tree \<longleftrightarrow> (\<forall>a. git_tree (tree a))
     \<and> (\<forall>a b out. git_output runner (diff_arguments a b) = Inr out \<longrightarrow> is_success out \<longrightarrow>
          (\<exists>paths. set paths = {path. tree a path \<noteq> tree b path}
             \<and> co_stdout out = concat (map (raw_record (tree a) (tree b)) paths)))"

text \<open>What the parser makes of such an output.\<close>

lemma object_word_ascii: "object_word w \<Longrightarrow> w \<noteq> [] \<and> (\<forall>c\<in>set w. ascii_word c)"
  by (auto simp: object_word_def is_ascii_hexdigit_def ascii_word_def Let_def)

lemma object_word_deleted: "object_word (dt_mode deleted_side)" "object_word (dt_blob deleted_side)"
  by (simp_all add: object_word_def deleted_side_def is_ascii_hexdigit_def)

lemma split_whitespace_spaced:
  "ws \<noteq> [] \<Longrightarrow> \<forall>w\<in>set ws. w \<noteq> [] \<and> (\<forall>c\<in>set w. ascii_word c) \<Longrightarrow> split_whitespace (spaced ws) = ws"
  by (induction ws rule: spaced.induct) (simp_all add: split_whitespace_word)

lemma spaced_no_nul: "\<forall>w\<in>set ws. \<forall>c\<in>set w. ascii_word c \<Longrightarrow> CHR 0x00 \<notin> set (spaced ws)"
  by (induction ws rule: spaced.induct) (auto simp: ascii_word_def)

lemma raw_columns_words:
  assumes "git_tree old" "git_tree new"
  shows "\<forall>w\<in>set (raw_columns (old path) (new path)). w \<noteq> [] \<and> (\<forall>c\<in>set w. ascii_word c)"
proof -
  have side: "object_word (dt_mode (diff_side (entry path)))" "object_word (dt_blob (diff_side (entry path)))"
    if "git_tree entry" for entry
    using that object_word_deleted by (cases "entry path"; auto simp: git_tree_def)+
  have "raw_status (old path) (new path) \<noteq> [] \<and> (\<forall>c\<in>set (raw_status (old path) (new path)). ascii_word c)"
    by (auto simp: raw_status_def ascii_word_def split: option.splits)
  thus ?thesis using side [OF assms(1)] side [OF assms(2)] by (auto simp: raw_columns_def dest: object_word_ascii)
qed

lemma raw_record_fields:
  assumes "git_tree old" "git_tree new" "old path \<noteq> new path"
  shows "filter (\<lambda>f. f \<noteq> []) (nul_fields (raw_record old new path @ rest))
     = (CHR '':'' # spaced (raw_columns (old path) (new path))) # path # filter (\<lambda>f. f \<noteq> []) (nul_fields rest)"
proof -
  let ?meta = "CHR '':'' # spaced (raw_columns (old path) (new path))"
  have path: "path \<noteq> []" "CHR 0x00 \<notin> set path"
    using assms by (cases "old path"; cases "new path"; auto simp: git_tree_def)+
  have "CHR 0x00 \<notin> set ?meta" using spaced_no_nul raw_columns_words [OF assms(1,2)] by auto
  hence "nul_fields (?meta @ CHR 0x00 # (path @ CHR 0x00 # rest)) = ?meta # nul_fields (path @ CHR 0x00 # rest)"
    unfolding nul_fields_def by (intro split_chars_append) auto
  moreover have "nul_fields (path @ CHR 0x00 # rest) = path # nul_fields rest"
    using path unfolding nul_fields_def by (intro split_chars_append) auto
  ultimately show ?thesis using path(1) by (simp add: raw_record_def)
qed

lemma parse_diff_records:
  assumes "git_tree old" "git_tree new" "\<forall>path\<in>set paths. old path \<noteq> new path"
    and "parse_diff (filter (\<lambda>f. f \<noteq> []) (nul_fields (concat (map (raw_record old new) paths)))) m = Inr (Some entries)"
  shows "bt_get entries q = (if q \<in> set paths then Some (diff_side (new q)) else bt_get m q)"
  using assms(3,4)
proof (induction paths arbitrary: m)
  case Nil
  thus ?case by (simp add: nul_fields_def)
next
  case (Cons path paths)
  let ?columns = "raw_columns (old path) (new path)"
  have columns: "split_whitespace (spaced ?columns) = ?columns"
    by (rule split_whitespace_spaced [OF _ raw_columns_words [OF assms(1,2)]]) (simp add: raw_columns_def)
  have side: "\<lparr>dt_mode = ?columns ! 1, dt_blob = ?columns ! 3\<rparr> = diff_side (new path)" "length ?columns = 5"
    by (simp_all add: raw_columns_def)
  have "parse_diff (filter (\<lambda>f. f \<noteq> []) (nul_fields (concat (map (raw_record old new) paths))))
      (bt_insert path (diff_side (new path)) m) = Inr (Some entries)"
    using Cons.prems raw_record_fields [OF assms(1,2)] columns side
    by (simp add: strip_prefix_def starts_with_def split: if_splits)
  from Cons.IH [OF _ this] Cons.prems(1) show ?case by (auto simp: bt_get_insert)
qed

lemma diff_entries_documented:
  assumes "diff_tree_documented runner tree" "diff_entries runner a b = Inr (Some entries)"
  shows "bt_get entries p = (if tree a p = tree b p then None else Some (diff_side (tree b p)))"
proof -
  obtain out where out: "git_output runner (diff_arguments a b) = Inr out" "is_success out"
      "parse_diff (filter (\<lambda>f. f \<noteq> []) (nul_fields (co_stdout out))) [] = Inr (Some entries)"
    using assms(2) by (auto simp: diff_entries_def diff_arguments_def and_then_Inr split: if_splits)
  then obtain paths where paths: "set paths = {path. tree a path \<noteq> tree b path}"
      "co_stdout out = concat (map (raw_record (tree a) (tree b)) paths)"
    using assms(1) unfolding diff_tree_documented_def by blast
  have trees: "git_tree (tree a)" "git_tree (tree b)" using assms(1) by (simp_all add: diff_tree_documented_def)
  show ?thesis
    using parse_diff_records [OF trees, of paths "[]" entries p] out(3) paths by (auto simp: bt_get_def)
qed

lemma diff_side_inject:
  "x \<noteq> Some deleted_side \<Longrightarrow> y \<noteq> Some deleted_side \<Longrightarrow> diff_side x = diff_side y \<longleftrightarrow> x = y"
  by (cases x; cases y) auto

text \<open>
  C16. An authorised boundary is represented on the target: when the output of
  \<open>git diff-tree\<close> has its documented raw format, the boundary's tree differs from the merge base's tree, and on every path
  where it does the target's tree has exactly the boundary's entry, deletions included.
\<close>

theorem authorized_boundary_is_represented:
  assumes "diff_tree_documented runner tree"
    "analyze_with_runner runner candidate target c t = Inr r" "authorized_range_base r = Some b"
  shows "\<exists>base. unique_merge_base runner c t = Inr (Some base)
    \<and> (\<exists>p. tree b p \<noteq> tree base p)
    \<and> (\<forall>p. tree b p \<noteq> tree base p \<longrightarrow> tree t p = tree b p)"
proof -
  have rec: "reconciles r" using assms(3) by (simp add: reconciles_def)
  obtain base chain i entries target_entries where *:
    "unique_merge_base runner c t = Inr (Some base)" "linear_prefix_chain runner base c = Inr chain"
    "diff_entries runner base t = Inr (Some target_entries)"
    "find_boundary runner base target_entries (ch_commits chain)
       (min (length (ch_commits chain)) max_evaluated_boundaries) = Inr (Proven i entries)"
    "authorized_range_base r = Some (ch_commits chain ! i)"
    by (rule analyze_reconciles [OF assms(2) rec]) blast
  have P: "diff_entries runner base b = Inr (Some entries)" "entries \<noteq> []" "represented entries target_entries"
    using find_boundary_spec [OF *(4)] *(5) assms(3) by auto
  have same: "bt_get target_entries p = Some e" if "bt_get entries p = Some e" for p e
    using that P(3) by (auto simp: represented_def list_all_iff bt_get_def dest: map_of_SomeD)
  have doc: "bt_get entries p = (if tree base p = tree b p then None else Some (diff_side (tree b p)))"
    "bt_get target_entries p = (if tree base p = tree t p then None else Some (diff_side (tree t p)))" for p
    using diff_entries_documented [OF assms(1)] P(1) *(3) by blast+
  have present: "tree a p \<noteq> Some deleted_side" for a p
    using assms(1) by (auto simp: diff_tree_documented_def git_tree_def)
  have "tree t p = tree b p" if "tree b p \<noteq> tree base p" for p
  proof -
    have "bt_get entries p = Some (diff_side (tree b p))" using doc(1) [of p] that by simp
    then have "diff_side (tree t p) = diff_side (tree b p)" using same doc(2) [of p] by (auto split: if_splits)
    then show ?thesis using diff_side_inject [OF present present] by blast
  qed
  moreover obtain p e rest where "entries = (p, e) # rest" using P(2) by (cases entries) auto
  then have "bt_get entries p = Some e" by (simp add: bt_get_def)
  then have "tree b p \<noteq> tree base p" using doc(1) [of p] by auto
  ultimately show ?thesis using *(1) by blast
qed

subsection \<open>A stacked candidate whose first commit has landed\<close>

definition sample_oid :: "char \<Rightarrow> commit_oid" where
  "sample_oid c = replicate 40 c"

definition sample_diff :: "string \<Rightarrow> string" where
  "sample_diff blob = '':100644 100644 0 '' @ blob @ '' M'' @ [CHR 0x00] @ ''f'' @ [CHR 0x00]"

text \<open>
  Base \<open>a\<close>, candidate commits \<open>b\<close> and \<open>c\<close>, target \<open>d\<close>; \<open>d\<close> has the content of \<open>b\<close>.
\<close>

definition sample_answers :: "(string list \<times> int \<times> string) list" where
  "sample_answers =
     [([''merge-base'', ''--all'', sample_oid CHR ''d'', sample_oid CHR ''c''], 0, sample_oid CHR ''a'' @ [newline]),
      ([''rev-parse'', sample_oid CHR ''d'' @ ''^{tree}''], 0, sample_oid CHR ''1'' @ [newline]),
      ([''rev-parse'', sample_oid CHR ''b'' @ ''^{tree}''], 0, sample_oid CHR ''2'' @ [newline]),
      (merge_tree_arguments (sample_oid CHR ''c'') (sample_oid CHR ''d'') None, 1,
         sample_oid CHR ''3'' @ [CHR 0x00] @ ''f'' @ [CHR 0x00]),
      (merge_tree_arguments (sample_oid CHR ''c'') (sample_oid CHR ''d'') (Some (sample_oid CHR ''b'')), 0,
         sample_oid CHR ''4'' @ [CHR 0x00]),
      ([''rev-list'', ''--reverse'', ''--topo-order'', ''--parents'', sample_oid CHR ''c'', ''^'' @ sample_oid CHR ''a''], 0,
         (sample_oid CHR ''b'' @ '' '' @ sample_oid CHR ''a'') @ newline
         # (sample_oid CHR ''c'' @ '' '' @ sample_oid CHR ''b'') @ [newline]),
      (diff_arguments (sample_oid CHR ''a'') (sample_oid CHR ''d''), 0, sample_diff ''5''),
      (diff_arguments (sample_oid CHR ''a'') (sample_oid CHR ''b''), 0, sample_diff ''5''),
      (diff_arguments (sample_oid CHR ''a'') (sample_oid CHR ''c''), 0, sample_diff ''6''),
      ([''cat-file'', ''--batch-check=%(objectname) %(objecttype)''], 0,
         (sample_oid CHR ''2'' @ '' tree'') @ newline # (sample_oid CHR ''7'' @ '' tree'') @ [newline])]"

definition sample_git :: git_runner where
  "sample_git command =
     (case map_of sample_answers (gc_args command) of
        None \<Rightarrow> Inl (OtherRunError [])
      | Some (code, out) \<Rightarrow> Inr \<lparr>co_code = Some code, co_stdout = out, co_stderr = []\<rparr>)"

definition sample_tree :: "commit_oid \<Rightarrow> string \<Rightarrow> diff_target option" where
  "sample_tree oid path =
     (if path = ''f''
      then Some \<lparr>dt_mode = ''100644'', dt_blob = (if oid \<in> {sample_oid CHR ''b'', sample_oid CHR ''d''} then ''5''
             else if oid = sample_oid CHR ''c'' then ''6'' else ''0'')\<rparr>
      else None)"

lemma sample_oid_eq [simp]: "sample_oid x = sample_oid y \<longleftrightarrow> x = y"
  by (simp add: sample_oid_def)

lemma sample_oid_ne [simp]: "sample_oid x \<noteq> []" "hd (sample_oid x) = x"
  by (simp_all add: sample_oid_def)

lemma sample_oid_chars [simp]: "set (sample_oid x) = {x}"
  by (simp add: sample_oid_def)

lemma sample_oid_suffix [simp]: "sample_oid x @ s = sample_oid y @ s' \<longleftrightarrow> x = y \<and> s = s'"
  by (auto simp: sample_oid_def append_eq_append_conv)

lemma sample_valid: "is_ascii_hexdigit x \<Longrightarrow> valid_full_oid (sample_oid x)"
  by (simp add: valid_full_oid_def sample_oid_def list_all_iff)

lemma sample_words:
  assumes "ascii_word x" "ascii_word y"
  shows "split_whitespace (sample_oid x @ CHR '' '' # sample_oid y) = [sample_oid x, sample_oid y]"
    "split_whitespace (sample_oid x @ '' tree'') = [sample_oid x, ''tree'']"
proof -
  have "split_whitespace ''tree'' = [''tree'']" by (rule split_whitespace_word) (simp_all add: ascii_word_def)
  with assms show "split_whitespace (sample_oid x @ '' tree'') = [sample_oid x, ''tree'']"
    by (simp add: split_whitespace_word)
qed (use assms in \<open>simp_all add: split_whitespace_word\<close>)

lemma sample_trim:
  "ascii_word x \<Longrightarrow> trim (sample_oid x @ [newline]) = sample_oid x"
  "ascii_word x \<Longrightarrow> trim (sample_oid x) = sample_oid x"
  by (simp_all add: trim_word_newline trim_id sample_oid_def)

lemma sample_diff_parsed:
  assumes "ascii_word x" "x \<noteq> CHR 0x00"
  shows "parse_diff (filter (\<lambda>f. f \<noteq> []) (nul_fields (sample_diff [x]))) []
    = Inr (Some [(''f'', \<lparr>dt_mode = ''100644'', dt_blob = [x]\<rparr>)])"
proof -
  let ?row = "'':100644 100644 0 '' @ [x] @ '' M''"
  have row: "split_whitespace (''100644 100644 0 '' @ [x] @ '' M'') = [''100644'', ''100644'', ''0'', [x], ''M'']"
    using assms(1) split_whitespace_word(1) [of "''100644''" "''100644 0 '' @ [x] @ '' M''"]
      split_whitespace_word(1) [of "''100644''" "''0 '' @ [x] @ '' M''"] split_whitespace_word(1) [of "''0''" "[x] @ '' M''"]
      split_whitespace_word(1) [of "[x]" "''M''"] split_whitespace_word(2) [of "''M''"]
    by (simp add: ascii_word_def)
  have "nul_fields (?row @ CHR 0x00 # ''f'' @ [CHR 0x00]) = ?row # nul_fields (''f'' @ [CHR 0x00])"
    unfolding nul_fields_def using assms(2) by (intro split_chars_append) auto
  moreover have "nul_fields (''f'' @ [CHR 0x00]) = [''f'', []]" by (simp add: nul_fields_def)
  ultimately have "filter (\<lambda>f. f \<noteq> []) (nul_fields (sample_diff [x])) = [?row, ''f'']"
    by (simp add: sample_diff_def)
  then show ?thesis using row
    by (simp add: strip_prefix_def starts_with_def str_contains_def replacement_char_def)
qed

lemma sample_tree_git: "git_tree (sample_tree a)"
  by (auto simp: git_tree_def sample_tree_def object_word_def is_ascii_hexdigit_def deleted_side_def split: if_splits)

lemma sample_record:
  assumes "sample_tree (sample_oid CHR ''a'') ''f'' \<noteq> sample_tree b ''f''"
  shows "raw_record (sample_tree (sample_oid CHR ''a'')) (sample_tree b) ''f'' = sample_diff (dt_blob (the (sample_tree b ''f'')))"
  using assms by (simp add: raw_record_def raw_columns_def raw_status_def sample_tree_def sample_diff_def)

lemma sample_git_documented: "diff_tree_documented sample_git sample_tree"
proof -
  have "\<exists>paths. set paths = {path. sample_tree a path \<noteq> sample_tree b path}
      \<and> co_stdout out = concat (map (raw_record (sample_tree a) (sample_tree b)) paths)"
    if "git_output sample_git (diff_arguments a b) = Inr out" for a b out
  proof -
    have run: "a = sample_oid CHR ''a'' \<and> b \<in> {sample_oid CHR ''b'', sample_oid CHR ''c'', sample_oid CHR ''d''}
        \<and> co_stdout out = sample_diff (dt_blob (the (sample_tree b ''f'')))"
      using that by (auto simp: git_output_def run_git_def sample_git_def sample_answers_def diff_arguments_def
          merge_tree_arguments_def sample_tree_def split: if_splits)
    hence differs: "sample_tree a ''f'' \<noteq> sample_tree b ''f''"
      by (auto simp: sample_tree_def)
    moreover have "sample_tree a path = sample_tree b path" if "path \<noteq> ''f''" for path
      using that by (simp add: sample_tree_def)
    ultimately have "{path. sample_tree a path \<noteq> sample_tree b path} = {''f''}" by blast
    moreover have "raw_record (sample_tree a) (sample_tree b) ''f'' = co_stdout out"
      using run differs sample_record [of b] by simp
    ultimately show ?thesis by (intro exI [of _ "[''f'']"]) simp
  qed
  thus ?thesis unfolding diff_tree_documented_def using sample_tree_git by blast
qed

lemmas sample_run = git_output_def run_git_def sample_git_def sample_answers_def merge_tree_arguments_def diff_arguments_def

lemma sample_base: "unique_merge_base sample_git (sample_oid CHR ''c'') (sample_oid CHR ''d'') = Inr (Some (sample_oid CHR ''a''))"
proof -
  have "lines_of (sample_oid CHR ''a'' @ [newline]) = [sample_oid CHR ''a'']"
    using lines_of_word [of "sample_oid CHR ''a''" "[]"] by (simp add: ascii_word_def)
  then show ?thesis
    by (simp add: unique_merge_base_def sample_run sample_trim ascii_word_def sample_valid is_ascii_hexdigit_def)
qed

lemma sample_trees:
  "commit_tree_with_runner sample_git (sample_oid CHR ''d'') = Inr (sample_oid CHR ''1'')"
  "commit_tree_with_runner sample_git (sample_oid CHR ''b'') = Inr (sample_oid CHR ''2'')"
  by (simp_all add: commit_tree_with_runner_def sample_run sample_trim ascii_word_def sample_valid
      is_ascii_hexdigit_def Let_def)

lemma sample_merges:
  "merge_tree_with_runner sample_git (sample_oid CHR ''c'') (sample_oid CHR ''d'') = Inr (Conflict, sample_oid CHR ''3'', [''f''])"
  "merge_tree_with_base_with_runner sample_git (sample_oid CHR ''c'') (sample_oid CHR ''d'') (Some (sample_oid CHR ''b''))
     = Inr (Clean, sample_oid CHR ''4'', [])"
proof -
  have "nul_fields (sample_oid x @ CHR 0x00 # s) = sample_oid x # nul_fields s" if "x \<noteq> CHR 0x00" for x s
    using that unfolding nul_fields_def by (intro split_chars_append) auto
  moreover have "nul_fields [] = [[]]" "nul_fields [CHR ''f'', CHR 0x00] = [''f'', []]" by (simp_all add: nul_fields_def)
  ultimately show
    "merge_tree_with_runner sample_git (sample_oid CHR ''c'') (sample_oid CHR ''d'') = Inr (Conflict, sample_oid CHR ''3'', [''f''])"
    "merge_tree_with_base_with_runner sample_git (sample_oid CHR ''c'') (sample_oid CHR ''d'') (Some (sample_oid CHR ''b''))
       = Inr (Clean, sample_oid CHR ''4'', [])"
    by (simp_all add: merge_tree_with_runner_def merge_tree_with_base_with_runner_def sample_run parse_merge_tree_def
        Let_def sample_valid is_ascii_hexdigit_def)
qed

lemma sample_lines:
  assumes "ascii_word x" "ascii_word y" "\<forall>c\<in>set s \<union> set s'. ascii_word c \<or> c = CHR '' ''"
  shows "lines_of ((sample_oid x @ s) @ newline # (sample_oid y @ s') @ [newline]) = [sample_oid x @ s, sample_oid y @ s']"
proof -
  have "lines_of ((sample_oid y @ s') @ newline # []) = [sample_oid y @ s']"
    using lines_of_word [of "sample_oid y @ s'" "[]"] assms by auto
  then show ?thesis using lines_of_word [of "sample_oid x @ s" "(sample_oid y @ s') @ [newline]"] assms by auto
qed

lemma sample_chain_linear:
  "linear_prefix_chain sample_git (sample_oid CHR ''a'') (sample_oid CHR ''c'')
     = Inr \<lparr>ch_commits = [sample_oid CHR ''b'', sample_oid CHR ''c''], ch_total_commits = 2\<rparr>"
proof -
  let ?out = "(sample_oid CHR ''b'' @ '' '' @ sample_oid CHR ''a'') @ newline # (sample_oid CHR ''c'' @ '' '' @ sample_oid CHR ''b'') @ [newline]"
  have "lines_of ?out = [sample_oid CHR ''b'' @ '' '' @ sample_oid CHR ''a'', sample_oid CHR ''c'' @ '' '' @ sample_oid CHR ''b'']"
    by (rule sample_lines) (auto simp: ascii_word_def)
  then have "linear_prefix max_analyzed_prefix_commits (sample_oid CHR ''a'') (lines_of ?out)
      = Inr [sample_oid CHR ''b'', sample_oid CHR ''c'']" "length (lines_of ?out) = 2"
    by (simp_all add: max_analyzed_prefix_commits_def sample_words ascii_word_def sample_valid is_ascii_hexdigit_def)
  moreover have "git_output sample_git [''rev-list'', ''--reverse'', ''--topo-order'', ''--parents'', sample_oid CHR ''c'',
      ''^'' @ sample_oid CHR ''a''] = Inr \<lparr>co_code = Some 0, co_stdout = ?out, co_stderr = []\<rparr>"
    by (simp add: sample_run)
  ultimately show ?thesis by (simp add: linear_prefix_chain_def is_success_def)
qed

lemma sample_diffs:
  "diff_entries sample_git (sample_oid CHR ''a'') (sample_oid CHR ''d'') = Inr (Some [(''f'', \<lparr>dt_mode = ''100644'', dt_blob = ''5''\<rparr>)])"
  "diff_entries sample_git (sample_oid CHR ''a'') (sample_oid CHR ''b'') = Inr (Some [(''f'', \<lparr>dt_mode = ''100644'', dt_blob = ''5''\<rparr>)])"
  "diff_entries sample_git (sample_oid CHR ''a'') (sample_oid CHR ''c'') = Inr (Some [(''f'', \<lparr>dt_mode = ''100644'', dt_blob = ''6''\<rparr>)])"
  by (simp_all add: diff_entries_def sample_run is_success_def sample_diff_parsed ascii_word_def)

lemma sample_described:
  "commit_trees sample_git [sample_oid CHR ''b'', sample_oid CHR ''c''] = Inr [sample_oid CHR ''2'', sample_oid CHR ''7'']"
proof -
  let ?out = "(sample_oid CHR ''2'' @ '' tree'') @ newline # (sample_oid CHR ''7'' @ '' tree'') @ [newline]"
  have "lines_of ?out = [sample_oid CHR ''2'' @ '' tree'', sample_oid CHR ''7'' @ '' tree'']"
    by (rule sample_lines) (auto simp: ascii_word_def)
  then have "parse_trees (lines_of ?out) = Inr [sample_oid CHR ''2'', sample_oid CHR ''7'']"
    by (simp add: sample_words(2) [of _ "CHR ''a''"] ascii_word_def sample_valid is_ascii_hexdigit_def)
  moreover have "run_git sample_git \<lparr>gc_args = [''cat-file'', ''--batch-check=%(objectname) %(objecttype)''], gc_stdin = input\<rparr>
      = Inr \<lparr>co_code = Some 0, co_stdout = ?out, co_stderr = []\<rparr>" for input
    by (simp add: sample_run)
  ultimately show ?thesis by (simp add: commit_trees_def is_success_def)
qed

lemma sample_authorized:
  "\<exists>r. analyze_with_runner sample_git b b (sample_oid CHR ''c'') (sample_oid CHR ''d'') = Inr r
     \<and> authorized_range_base r = Some (sample_oid CHR ''b'')"
  by (simp add: analyze_with_runner_def analyze_range_def proven_report_def reconcilable_report_def
      describe_commits_def Let_def blank_report_def sample_base sample_trees sample_merges sample_chain_linear
      sample_diffs sample_described numeral_2_eq_2 max_evaluated_boundaries_def represented_def bt_get_def
      authorized_range_base_def authorizes_reconciliation_def)

theorem squash_drop_needs_proof_witness:
  "\<exists>r. analyze_with_runner sample_git (sample_branch ''m'') (sample_branch ''m'') (sample_oid CHR ''c'') (sample_oid CHR ''d'') = Inr r
     \<and> dropped_commits r \<noteq> []"
proof -
  obtain r where r: "analyze_with_runner sample_git (sample_branch ''m'') (sample_branch ''m'') (sample_oid CHR ''c'') (sample_oid CHR ''d'') = Inr r"
    "authorized_range_base r = Some (sample_oid CHR ''b'')" using sample_authorized by blast
  then have "dropped_commits r \<noteq> []" using squash_drop_needs_proof [OF r(1)] by auto
  with r(1) show ?thesis by blast
qed

theorem authorized_boundary_is_represented_witness:
  "sample_tree (sample_oid CHR ''d'') ''f'' = sample_tree (sample_oid CHR ''b'') ''f''
   \<and> sample_tree (sample_oid CHR ''b'') ''f'' \<noteq> sample_tree (sample_oid CHR ''a'') ''f''"
proof -
  obtain r where r: "analyze_with_runner sample_git (sample_branch ''m'') (sample_branch ''m'') (sample_oid CHR ''c'') (sample_oid CHR ''d'') = Inr r"
    "authorized_range_base r = Some (sample_oid CHR ''b'')" using sample_authorized by blast
  have "sample_tree (sample_oid CHR ''b'') ''f'' \<noteq> sample_tree (sample_oid CHR ''a'') ''f''"
    by (simp add: sample_tree_def)
  then show ?thesis
    using authorized_boundary_is_represented [OF sample_git_documented r] by (simp add: sample_base)
qed

end
