(* ===== verification/Lease.thy ===== *)
theory Lease
  imports Git Saturating Checks
begin

text \<open>
  The remote writer lease of \<open>src/src/remote_lease.rs\<close>: grants and their validation, the adapter that
  talks to an external compare-and-swap broker, and the guard that fences every write. The broker is
  a parameter: a state, a function that answers one request in a state, and the JSON codec.
\<close>

subsection \<open>Grants\<close>

definition lease_schema_version :: nat where
  "lease_schema_version = 1"

definition max_protocol_bytes :: nat where
  "max_protocol_bytes = 16 * 1024"

definition max_identity_bytes :: nat where
  "max_identity_bytes = 256"

definition max_lease_ttl_ms :: nat where
  "max_lease_ttl_ms = 60 * 60 * 1000"

record remote_lease_key =
  lk_host :: string
  lk_owner :: string
  lk_repository :: string
  lk_installation_id :: "nat option"

record remote_lease_acquire =
  la_key :: remote_lease_key
  la_writer_owner :: string
  la_operation_id :: string
  la_now_unix_ms :: nat
  la_ttl_ms :: nat
  la_heartbeat_ms :: nat

record remote_lease_grant =
  lg_schema_version :: nat
  lg_key :: remote_lease_key
  lg_writer_owner :: string
  lg_operation_id :: string
  lg_fencing_token :: nat
  lg_heartbeat_due_unix_ms :: nat
  lg_expires_unix_ms :: nat
  lg_backend_revision :: string

datatype remote_lease_error =
    LeaseInvalid string
  | LeaseContended string string nat nat
  | LeaseExecution string
  | LeaseLost string
  | LeaseIndeterminate string

type_synonym 'a lease_result = "remote_lease_error + 'a"

fun lease_error_text :: "remote_lease_error \<Rightarrow> string" where
  "lease_error_text (LeaseInvalid m) = ''invalid remote lease data: '' @ m"
| "lease_error_text (LeaseContended owner operation fence expires) =
     ''remote lease held by '' @ owner @ ''/'' @ operation @ '' at fence '' @ show_nat fence
     @ '' until '' @ show_nat expires"
| "lease_error_text (LeaseExecution m) = ''remote lease backend failed: '' @ m"
| "lease_error_text (LeaseLost m) = ''remote writer fence lost: '' @ m"
| "lease_error_text (LeaseIndeterminate m) = ''remote lease outcome is indeterminate: '' @ m"

text \<open>\<open>char::is_control\<close> on the UTF-8 bytes: C0, delete, and C1 (\<open>C2 80\<close> to \<open>C2 9F\<close>).\<close>

fun has_control :: "nat list \<Rightarrow> bool" where
  "has_control [] = False"
| "has_control [a] = (a < 32 \<or> a = 127)"
| "has_control (a # b # s) =
     (a < 32 \<or> a = 127 \<or> a = 0xC2 \<and> 0x80 \<le> b \<and> b \<le> 0x9F \<or> has_control (b # s))"

definition bad_identity :: "string \<Rightarrow> bool" where
  "bad_identity v =
     (v = [] \<or> length v > max_identity_bytes \<or> trim v \<noteq> v \<or> has_control (bytes_of v))"

definition validate_identity :: "string \<Rightarrow> string \<Rightarrow> unit lease_result" where
  "validate_identity name v =
     (if bad_identity v
      then Inl (LeaseInvalid (name @ '' must be bounded, non-empty, trimmed, and single-line''))
      else Inr ())"

text \<open>The \<open>?\<close> operator on lease results.\<close>

definition lease_try :: "'a lease_result \<Rightarrow> ('a \<Rightarrow> 'b lease_result) \<Rightarrow> 'b lease_result" where
  "lease_try r f = (case r of Inl e \<Rightarrow> Inl e | Inr x \<Rightarrow> f x)"

definition validate_key :: "remote_lease_key \<Rightarrow> unit lease_result" where
  "validate_key k =
     lease_try (validate_identity ''host'' (lk_host k)) (\<lambda>_.
     lease_try (validate_identity ''owner'' (lk_owner k)) (\<lambda>_.
     lease_try (validate_identity ''repository'' (lk_repository k)) (\<lambda>_.
       if lk_installation_id k = Some 0 then Inl (LeaseInvalid ''installation ID must be positive'')
       else Inr ())))"

definition checked_add_fails :: "nat \<Rightarrow> nat \<Rightarrow> bool" where
  "checked_add_fails a b = (a + b > u64_max)"

definition validate_acquire :: "remote_lease_acquire \<Rightarrow> unit lease_result" where
  "validate_acquire r =
     lease_try (validate_key (la_key r)) (\<lambda>_.
     lease_try (validate_identity ''writer owner'' (la_writer_owner r)) (\<lambda>_.
     lease_try (validate_identity ''operation ID'' (la_operation_id r)) (\<lambda>_.
       if la_ttl_ms r = 0 \<or> la_ttl_ms r > max_lease_ttl_ms \<or> la_heartbeat_ms r = 0
          \<or> la_heartbeat_ms r \<ge> la_ttl_ms r
          \<or> checked_add_fails (la_now_unix_ms r) (la_ttl_ms r)
          \<or> checked_add_fails (la_now_unix_ms r) (la_heartbeat_ms r)
       then Inl (LeaseInvalid ''lease TTL/heartbeat bounds are invalid'')
       else Inr ())))"

definition validate_grant :: "remote_lease_grant \<Rightarrow> unit lease_result" where
  "validate_grant g =
     (if lg_schema_version g \<noteq> lease_schema_version
      then Inl (LeaseInvalid ''unsupported remote lease schema version'')
      else
     lease_try (validate_key (lg_key g)) (\<lambda>_.
     lease_try (validate_identity ''writer owner'' (lg_writer_owner g)) (\<lambda>_.
     lease_try (validate_identity ''operation ID'' (lg_operation_id g)) (\<lambda>_.
     lease_try (validate_identity ''backend revision'' (lg_backend_revision g)) (\<lambda>_.
       if lg_fencing_token g = 0 \<or> lg_heartbeat_due_unix_ms g \<ge> lg_expires_unix_ms g
       then Inl (LeaseInvalid ''remote lease grant has invalid fence or expiry'')
       else Inr ())))))"

definition same_holder :: "remote_lease_grant \<Rightarrow> remote_lease_acquire \<Rightarrow> bool" where
  "same_holder g r =
     (lg_key g = la_key r \<and> lg_writer_owner g = la_writer_owner r \<and> lg_operation_id g = la_operation_id r)"

definition exact_fence :: "remote_lease_grant \<Rightarrow> remote_lease_grant \<Rightarrow> bool" where
  "exact_fence g h =
     (lg_key g = lg_key h \<and> lg_writer_owner g = lg_writer_owner h
      \<and> lg_operation_id g = lg_operation_id h \<and> lg_fencing_token g = lg_fencing_token h)"

definition live_at :: "remote_lease_grant \<Rightarrow> nat \<Rightarrow> bool" where
  "live_at g now = (now < lg_expires_unix_ms g)"

definition validate_renewed_grant ::
    "remote_lease_grant \<Rightarrow> remote_lease_grant option \<Rightarrow> remote_lease_grant lease_result" where
  "validate_renewed_grant previous renewed =
     (case renewed of
        None \<Rightarrow> Inl (LeaseInvalid ''renew response omitted grant'')
      | Some g \<Rightarrow>
          lease_try (validate_grant g) (\<lambda>_.
            if \<not> exact_fence g previous \<or> lg_expires_unix_ms g \<le> lg_expires_unix_ms previous
            then Inl (LeaseLost ''renew changed the fence or failed to advance expiry'')
            else Inr g))"

subsection \<open>The broker adapter\<close>

datatype broker_operation = BrokerAcquire | BrokerInspect | BrokerRenew | BrokerRelease

fun broker_operation_code :: "broker_operation \<Rightarrow> string" where
  "broker_operation_code BrokerAcquire = ''acquire''"
| "broker_operation_code BrokerInspect = ''inspect''"
| "broker_operation_code BrokerRenew = ''renew''"
| "broker_operation_code BrokerRelease = ''release''"

datatype broker_request =
    AcquireRequest nat remote_lease_acquire
  | InspectRequest nat remote_lease_key
  | RenewRequest nat remote_lease_grant nat nat nat
  | ReleaseRequest nat remote_lease_grant

record broker_response =
  bx_schema_version :: nat
  bx_operation :: broker_operation
  bx_grant :: "remote_lease_grant option"
  bx_released :: bool
  bx_contended :: bool

definition response_shape_valid :: "broker_response \<Rightarrow> bool" where
  "response_shape_valid r =
     (case bx_operation r of
        BrokerAcquire \<Rightarrow> bx_grant r \<noteq> None \<and> \<not> bx_released r
      | BrokerRenew \<Rightarrow> bx_grant r \<noteq> None \<and> \<not> bx_released r \<and> \<not> bx_contended r
      | BrokerInspect \<Rightarrow> \<not> bx_released r \<and> \<not> bx_contended r
      | BrokerRelease \<Rightarrow> bx_grant r = None \<and> \<not> bx_contended r)"

text \<open>
  The outside of the adapter: encoding and decoding, and one run of the broker command with the
  operation in its environment and the request on its input, which may change the broker's state.
\<close>

record 'b broker_io =
  io_encode :: "broker_request \<Rightarrow> string option"
  io_decode :: "string \<Rightarrow> broker_response option"
  io_run :: "'b \<Rightarrow> string \<Rightarrow> string \<Rightarrow> 'b \<times> (unit + command_output)"

definition response_of ::
    "'b broker_io \<Rightarrow> broker_operation \<Rightarrow> unit + command_output \<Rightarrow> broker_response lease_result" where
  "response_of io operation answer =
     (case answer of
        Inl _ \<Rightarrow> Inl (LeaseExecution ''broker command did not complete'')
      | Inr out \<Rightarrow>
          if \<not> is_success out then Inl (LeaseExecution ''broker command returned a nonzero status'')
          else if length (co_stdout out) > max_protocol_bytes
          then Inl (LeaseInvalid ''remote lease response exceeds protocol bound'')
          else case io_decode io (co_stdout out) of
                 None \<Rightarrow> Inl (LeaseInvalid ''broker returned invalid strict JSON'')
               | Some r \<Rightarrow>
                   if bx_schema_version r \<noteq> lease_schema_version \<or> bx_operation r \<noteq> operation
                   then Inl (LeaseInvalid ''broker response operation/schema mismatch'')
                   else if \<not> response_shape_valid r
                   then Inl (LeaseInvalid ''broker response fields do not match the operation'')
                   else case bx_grant r of
                          None \<Rightarrow> Inr r
                        | Some g \<Rightarrow> lease_try (validate_grant g) (\<lambda>_. Inr r))"

definition invoke ::
    "'b broker_io \<Rightarrow> 'b \<Rightarrow> broker_operation \<Rightarrow> broker_request \<Rightarrow> 'b \<times> broker_response lease_result" where
  "invoke io b operation request =
     (case io_encode io request of
        None \<Rightarrow> (b, Inl (LeaseInvalid ''could not encode lease request''))
      | Some input \<Rightarrow>
          if length input > max_protocol_bytes
          then (b, Inl (LeaseInvalid ''remote lease request exceeds protocol bound''))
          else let (b', answer) = io_run io b (broker_operation_code operation) input
               in (b', response_of io operation answer))"

definition inspect_once ::
    "'b broker_io \<Rightarrow> 'b \<Rightarrow> remote_lease_key \<Rightarrow> 'b \<times> remote_lease_grant option lease_result" where
  "inspect_once io b key =
     (case validate_key key of
        Inl e \<Rightarrow> (b, Inl e)
      | Inr _ \<Rightarrow>
          (let (b', r) = invoke io b BrokerInspect (InspectRequest lease_schema_version key)
           in (b', lease_try r (\<lambda>response. Inr (bx_grant response)))))"

definition acquired_grant :: "remote_lease_acquire \<Rightarrow> broker_response \<Rightarrow> remote_lease_grant lease_result" where
  "acquired_grant request response =
     (case bx_grant response of
        None \<Rightarrow> Inl (LeaseInvalid ''acquire response omitted grant'')
      | Some g \<Rightarrow>
          if bx_contended response
          then if \<not> live_at g (la_now_unix_ms request)
               then Inl (LeaseInvalid ''contention response named an expired holder'')
               else Inl (LeaseContended (lg_writer_owner g) (lg_operation_id g) (lg_fencing_token g)
                      (lg_expires_unix_ms g))
          else if \<not> same_holder g request \<or> \<not> live_at g (la_now_unix_ms request)
          then Inl (LeaseLost ''acquire returned wrong or expired ownership'')
          else Inr g)"

definition rediscovered_grant ::
    "remote_lease_acquire \<Rightarrow> remote_lease_grant option \<Rightarrow> remote_lease_grant lease_result" where
  "rediscovered_grant request observed =
     (case filter_opt (\<lambda>g. same_holder g request \<and> live_at g (la_now_unix_ms request)) observed of
        None \<Rightarrow> Inl (LeaseIndeterminate ''acquire failed and exact ownership was not rediscovered'')
      | Some g \<Rightarrow> Inr g)"

definition lease_acquire ::
    "'b broker_io \<Rightarrow> 'b \<Rightarrow> remote_lease_acquire \<Rightarrow> 'b \<times> remote_lease_grant lease_result" where
  "lease_acquire io b request =
     (case validate_acquire request of
        Inl e \<Rightarrow> (b, Inl e)
      | Inr _ \<Rightarrow>
          (case invoke io b BrokerAcquire (AcquireRequest lease_schema_version request) of
             (b', Inr response) \<Rightarrow> (b', acquired_grant request response)
           | (b', Inl (LeaseExecution _)) \<Rightarrow>
               (let (b'', observed) = inspect_once io b' (la_key request)
                in (b'', lease_try observed (rediscovered_grant request)))
           | (b', Inl e) \<Rightarrow> (b', Inl e)))"

definition lease_renew ::
    "'b broker_io \<Rightarrow> 'b \<Rightarrow> remote_lease_grant \<Rightarrow> nat \<Rightarrow> nat \<Rightarrow> nat \<Rightarrow> 'b \<times> remote_lease_grant lease_result" where
  "lease_renew io b g now ttl heartbeat =
     (case lease_try (validate_grant g) (\<lambda>_. validate_acquire
             \<lparr>la_key = lg_key g, la_writer_owner = lg_writer_owner g, la_operation_id = lg_operation_id g,
              la_now_unix_ms = now, la_ttl_ms = ttl, la_heartbeat_ms = heartbeat\<rparr>) of
        Inl e \<Rightarrow> (b, Inl e)
      | Inr _ \<Rightarrow>
          (case invoke io b BrokerRenew (RenewRequest lease_schema_version g now ttl heartbeat) of
             (b', Inr response) \<Rightarrow> (b', validate_renewed_grant g (bx_grant response))
           | (b', Inl (LeaseExecution _)) \<Rightarrow>
               (let (b'', observed) = inspect_once io b' (lg_key g)
                in (b'', lease_try observed (\<lambda>seen.
                     case validate_renewed_grant g seen of
                       Inl _ \<Rightarrow> Inl (LeaseIndeterminate ''renew failed and exact ownership was not rediscovered'')
                     | Inr renewed \<Rightarrow> Inr renewed)))
           | (b', Inl e) \<Rightarrow> (b', Inl e)))"

definition released_after :: "remote_lease_grant \<Rightarrow> remote_lease_grant option \<Rightarrow> bool lease_result" where
  "released_after g observed =
     (case observed of
        None \<Rightarrow> Inr True
      | Some seen \<Rightarrow>
          if exact_fence seen g
          then Inl (LeaseIndeterminate ''release failed and ownership remains'')
          else Inl (LeaseLost ''release ambiguity observed a replacement fence''))"

definition lease_release :: "'b broker_io \<Rightarrow> 'b \<Rightarrow> remote_lease_grant \<Rightarrow> 'b \<times> bool lease_result" where
  "lease_release io b g =
     (case validate_grant g of
        Inl e \<Rightarrow> (b, Inl e)
      | Inr _ \<Rightarrow>
          (case invoke io b BrokerRelease (ReleaseRequest lease_schema_version g) of
             (b', Inr response) \<Rightarrow> (b', Inr (bx_released response))
           | (b', Inl (LeaseExecution _)) \<Rightarrow>
               (let (b'', observed) = inspect_once io b' (lg_key g)
                in (b'', lease_try observed (released_after g)))
           | (b', Inl e) \<Rightarrow> (b', Inl e)))"

subsection \<open>The trait and the guard\<close>

text \<open>A lease backend, the trait \<open>RemoteWriterLease\<close>, over a state of type \<open>'b\<close>.\<close>

record 'b lease_backend =
  lb_acquire :: "'b \<Rightarrow> remote_lease_acquire \<Rightarrow> 'b \<times> remote_lease_grant lease_result"
  lb_inspect :: "'b \<Rightarrow> remote_lease_key \<Rightarrow> 'b \<times> remote_lease_grant option lease_result"
  lb_renew :: "'b \<Rightarrow> remote_lease_grant \<Rightarrow> nat \<Rightarrow> nat \<Rightarrow> nat \<Rightarrow> 'b \<times> remote_lease_grant lease_result"
  lb_release :: "'b \<Rightarrow> remote_lease_grant \<Rightarrow> 'b \<times> bool lease_result"

definition command_lease :: "'b broker_io \<Rightarrow> 'b lease_backend" where
  "command_lease io = \<lparr>lb_acquire = lease_acquire io, lb_inspect = inspect_once io,
     lb_renew = lease_renew io, lb_release = lease_release io\<rparr>"

text \<open>Construction of the adapter; \<open>io\<close> is the runner applied to the command.\<close>

definition command_lease_new :: "(string \<Rightarrow> 'b broker_io) \<Rightarrow> string \<Rightarrow> 'b lease_backend lease_result" where
  "command_lease_new runner command =
     (if trim command = [] then Inl (LeaseInvalid ''remote lease broker command is empty'')
      else Inr (command_lease (runner command)))"

record remote_lease_guard =
  rg_grant :: remote_lease_grant
  rg_ttl_ms :: nat
  rg_heartbeat_ms :: nat
  rg_released :: bool

definition guard_acquire ::
    "'b lease_backend \<Rightarrow> 'b \<Rightarrow> remote_lease_acquire \<Rightarrow> 'b \<times> remote_lease_guard lease_result" where
  "guard_acquire backend b request =
     (let (b', r) = lb_acquire backend b request
      in (b', lease_try r (\<lambda>g.
           if \<not> same_holder g request \<or> \<not> live_at g (la_now_unix_ms request)
           then Inl (LeaseLost ''acquire returned wrong or expired ownership'')
           else Inr \<lparr>rg_grant = g, rg_ttl_ms = la_ttl_ms request, rg_heartbeat_ms = la_heartbeat_ms request,
                     rg_released = False\<rparr>)))"

definition observed_fence :: "remote_lease_grant \<Rightarrow> nat \<Rightarrow> remote_lease_grant option \<Rightarrow> unit lease_result" where
  "observed_fence g now observed =
     (case observed of
        Some seen \<Rightarrow> if exact_fence seen g \<and> live_at seen now then Inr ()
                     else Inl (LeaseLost ''exact live fencing token was not observed'')
      | None \<Rightarrow> Inl (LeaseLost ''exact live fencing token was not observed''))"

definition guard_revalidate ::
    "'b lease_backend \<Rightarrow> 'b \<Rightarrow> remote_lease_guard \<Rightarrow> nat \<Rightarrow> 'b \<times> unit lease_result" where
  "guard_revalidate backend b guard now =
     (if rg_released guard then (b, Inl (LeaseLost ''lease guard is released''))
      else let (b', r) = lb_inspect backend b (lg_key (rg_grant guard))
           in (b', lease_try r (observed_fence (rg_grant guard) now)))"

text \<open>The critical section of a renewal: replace the grant, or keep it and fail.\<close>

definition renewed_guard ::
    "'b lease_backend \<Rightarrow> 'b \<Rightarrow> remote_lease_guard \<Rightarrow> nat \<Rightarrow> 'b \<times> remote_lease_guard \<times> unit lease_result" where
  "renewed_guard backend b guard now =
     (let (b', r) = lb_renew backend b (rg_grant guard) now (rg_ttl_ms guard) (rg_heartbeat_ms guard)
      in case lease_try r (\<lambda>g. validate_renewed_grant (rg_grant guard) (Some g)) of
           Inl e \<Rightarrow> (b', guard, Inl e)
         | Inr g \<Rightarrow> (b', guard\<lparr>rg_grant := g\<rparr>, Inr ()))"

definition guard_renew ::
    "'b lease_backend \<Rightarrow> 'b \<Rightarrow> remote_lease_guard \<Rightarrow> nat \<Rightarrow> 'b \<times> remote_lease_guard \<times> unit lease_result" where
  "guard_renew backend b guard now =
     (if rg_released guard then (b, guard, Inl (LeaseLost ''lease guard is released''))
      else if \<not> live_at (rg_grant guard) now
      then (b, guard, Inl (LeaseLost ''lease expired before heartbeat renewal''))
      else renewed_guard backend b guard now)"

definition guard_before_write ::
    "'b lease_backend \<Rightarrow> 'b \<Rightarrow> remote_lease_guard \<Rightarrow> nat \<Rightarrow> 'b \<times> remote_lease_guard \<times> unit lease_result" where
  "guard_before_write backend b guard now =
     (if rg_released guard then (b, guard, Inl (LeaseLost ''lease guard is released''))
      else if \<not> live_at (rg_grant guard) now
      then (b, guard, Inl (LeaseLost ''lease expired before write revalidation''))
      else if now \<ge> lg_heartbeat_due_unix_ms (rg_grant guard) then renewed_guard backend b guard now
      else let (b', r) = lb_inspect backend b (lg_key (rg_grant guard))
           in (b', guard, lease_try r (observed_fence (rg_grant guard) now)))"

text \<open>\<open>release\<close> consumes the guard; on failure its \<open>Drop\<close> tries once more and ignores the answer.\<close>

definition guard_drop :: "'b lease_backend \<Rightarrow> 'b \<Rightarrow> remote_lease_guard \<Rightarrow> 'b" where
  "guard_drop backend b guard =
     (if rg_released guard then b else fst (lb_release backend b (rg_grant guard)))"

definition guard_release ::
    "'b lease_backend \<Rightarrow> 'b \<Rightarrow> remote_lease_guard \<Rightarrow> 'b \<times> bool lease_result" where
  "guard_release backend b guard =
     (let (b', r) = lb_release backend b (rg_grant guard)
      in case r of
           Inl e \<Rightarrow> (guard_drop backend b' guard, Inl e)
         | Inr released \<Rightarrow> (guard_drop backend b' (guard\<lparr>rg_released := released\<rparr>), Inr released))"

text \<open>
  The mutation fence of the command runner. The wall clock is an argument, in nanoseconds since the
  Unix epoch; it may be before the epoch and the milliseconds must fit a \<open>u64\<close>.
\<close>

definition fence_before_write ::
    "'b lease_backend \<Rightarrow> 'b \<Rightarrow> remote_lease_guard \<Rightarrow> int \<Rightarrow> 'b \<times> remote_lease_guard \<times> (string + unit)" where
  "fence_before_write backend b guard clock =
     (if clock < 0 then (b, guard, Inl ''system clock is before the Unix epoch'')
      else let now = nat (clock div 1000000)
           in if now > u64_max then (b, guard, Inl ''system clock exceeds remote lease range'')
              else case guard_before_write backend b guard now of
                     (b', guard', Inl e) \<Rightarrow> (b', guard', Inl (lease_error_text e))
                   | (b', guard', Inr _) \<Rightarrow> (b', guard', Inr ()))"

end
