(* ===== verification/Lease_Facts.thy ===== *)
theory Lease_Facts
  imports Lease
begin

text \<open>
  Theorems on the remote writer lease. The contract a guard relies on is the locale
  \<open>lease_contract\<close>, discharged for the command adapter; the guard's life is a step relation, from
  its acquisition or from any later point, in which other clients may run the broker between any two
  operations.
\<close>

subsection \<open>Results and fences\<close>

lemma lease_try_simps [simp]: "lease_try (Inl e) f = Inl e" "lease_try (Inr x) f = f x"
  by (simp_all add: lease_try_def)

lemma lease_try_Inr: "lease_try r f = Inr y \<longleftrightarrow> (\<exists>x. r = Inr x \<and> f x = Inr y)"
  by (cases r) simp_all

lemma rename_error_Inr [simp]: "(case r of Inl _ \<Rightarrow> Inl e | Inr x \<Rightarrow> Inr x) = Inr y \<longleftrightarrow> r = Inr y"
  by (cases r) simp_all

lemma exact_fence_refl [simp]: "exact_fence g g"
  by (simp add: exact_fence_def)

lemma exact_fence_trans: "exact_fence g h \<Longrightarrow> exact_fence h k \<Longrightarrow> exact_fence g k"
  by (simp add: exact_fence_def)

lemma exact_fence_holder: "exact_fence g h \<Longrightarrow> same_holder h r \<Longrightarrow> same_holder g r"
  by (simp add: exact_fence_def same_holder_def)

lemma live_later: "live_at g now \<Longrightarrow> lg_expires_unix_ms g \<le> lg_expires_unix_ms h \<Longrightarrow> live_at h now"
  by (simp add: live_at_def)

lemma validate_renewed_grant_Inr:
  "validate_renewed_grant g seen = Inr h \<longleftrightarrow>
     seen = Some h \<and> validate_grant h = Inr () \<and> exact_fence h g
     \<and> lg_expires_unix_ms g < lg_expires_unix_ms h"
  by (auto simp: validate_renewed_grant_def lease_try_Inr split: option.splits if_splits)

lemma observed_fence_Inr:
  "observed_fence g now seen = Inr () \<longleftrightarrow> (\<exists>h. seen = Some h \<and> exact_fence h g \<and> live_at h now)"
  by (auto simp: observed_fence_def split: option.splits)

subsection \<open>The answers of the broker\<close>

text \<open>One completed run of the broker command whose answer carries the grant \<open>g\<close>.\<close>

definition broker_answers ::
    "'b broker_io \<Rightarrow> broker_operation \<Rightarrow> 'b \<Rightarrow> 'b \<Rightarrow> remote_lease_grant \<Rightarrow> bool" where
  "broker_answers io operation b b' g =
     (\<exists>input out r. io_run io b (broker_operation_code operation) input = (b', Inr out)
        \<and> is_success out \<and> length (co_stdout out) \<le> max_protocol_bytes
        \<and> io_decode io (co_stdout out) = Some r \<and> bx_operation r = operation \<and> bx_grant r = Some g
        \<and> validate_grant g = Inr ())"

definition broker_step :: "'b broker_io \<Rightarrow> 'b \<Rightarrow> 'b \<Rightarrow> bool" where
  "broker_step io b b' = (\<exists>operation input. b' = fst (io_run io b operation input))"

lemma broker_stepI: "io_run io b operation input = (b', answer) \<Longrightarrow> broker_step io b b'"
  unfolding broker_step_def by (metis fst_conv)

lemma broker_answers_step: "broker_answers io operation b b' g \<Longrightarrow> broker_step io b b'"
  by (metis broker_answers_def broker_step_def fst_conv)

lemma broker_answers_valid: "broker_answers io operation b b' g \<Longrightarrow> validate_grant g = Inr ()"
  by (auto simp: broker_answers_def)

lemma response_of_Inr:
  assumes "response_of io operation answer = Inr r" "bx_grant r = Some g"
  obtains out where "answer = Inr out" "is_success out" "length (co_stdout out) \<le> max_protocol_bytes"
    "io_decode io (co_stdout out) = Some r" "bx_operation r = operation" "validate_grant g = Inr ()"
  using assms by (auto simp: response_of_def lease_try_Inr split: sum.splits if_splits option.splits)

lemma invoke_answers:
  assumes "invoke io b operation request = (b', Inr r)" "bx_grant r = Some g"
  shows "broker_answers io operation b b' g"
  using assms response_of_Inr
  by (fastforce simp: invoke_def broker_answers_def split: option.splits if_splits prod.splits)

lemma invoke_steps: "(broker_step io)\<^sup>*\<^sup>* b (fst (invoke io b operation request))"
  by (auto simp: invoke_def split: option.splits prod.splits intro: broker_stepI)

lemma inspect_answers:
  "inspect_once io b key = (b', Inr (Some g)) \<Longrightarrow> broker_answers io BrokerInspect b b' g"
  by (auto simp: inspect_once_def lease_try_Inr split: sum.splits prod.splits intro: invoke_answers)

lemma inspect_steps: "(broker_step io)\<^sup>*\<^sup>* b (fst (inspect_once io b key))"
  using invoke_steps [of io b]
  by (auto simp: inspect_once_def split: sum.splits prod.splits) (metis fst_conv)

lemma filter_opt_Some: "filter_opt P v = Some x \<longleftrightarrow> v = Some x \<and> P x"
  by (cases v) (auto simp: filter_opt_def)

lemma acquired_grant_Inr:
  "acquired_grant r response = Inr g \<longleftrightarrow>
     bx_grant response = Some g \<and> \<not> bx_contended response \<and> same_holder g r
     \<and> live_at g (la_now_unix_ms r)"
  by (auto simp: acquired_grant_def split: option.splits if_splits)

lemma rediscovered_grant_Inr:
  "rediscovered_grant r seen = Inr g \<longleftrightarrow>
     seen = Some g \<and> same_holder g r \<and> live_at g (la_now_unix_ms r)"
  by (cases seen) (auto simp: rediscovered_grant_def filter_opt_def)

text \<open>An acquisition succeeds only on an answer of the broker that names the requested holder.\<close>

lemma lease_acquire_Inr:
  assumes "lease_acquire io b r = (b', Inr g)"
  obtains b1 operation where "broker_answers io operation b1 b' g" "same_holder g r"
    "live_at g (la_now_unix_ms r)"
proof (cases "invoke io b BrokerAcquire (AcquireRequest lease_schema_version r)")
  case (Pair b1 answer)
  show ?thesis
  proof (cases answer)
    case (Inr response)
    with assms Pair have "acquired_grant r response = Inr g" "b' = b1"
      by (auto simp: lease_acquire_def split: sum.splits)
    then show ?thesis
      using invoke_answers Pair Inr that by (metis acquired_grant_Inr)
  next
    case (Inl e)
    with assms Pair obtain seen where "inspect_once io b1 (la_key r) = (b', Inr seen)"
      "rediscovered_grant r seen = Inr g"
      by (auto simp: lease_acquire_def lease_try_Inr
          split: sum.splits prod.splits remote_lease_error.splits)
    then show ?thesis
      using inspect_answers that by (metis rediscovered_grant_Inr)
  qed
qed

text \<open>A renewal that reports success is an answer of the broker that keeps the fence.\<close>

lemma lease_renew_Inr:
  assumes "lease_renew io b g now ttl heartbeat = (b', Inr h)"
  obtains b1 operation where "operation \<in> {BrokerRenew, BrokerInspect}" "(broker_step io)\<^sup>*\<^sup>* b b1"
    "broker_answers io operation b1 b' h" "exact_fence h g"
    "lg_expires_unix_ms g < lg_expires_unix_ms h"
proof (cases "invoke io b BrokerRenew (RenewRequest lease_schema_version g now ttl heartbeat)")
  case (Pair b1 answer)
  then have steps: "(broker_step io)\<^sup>*\<^sup>* b b1"
    by (metis fst_conv invoke_steps)
  show ?thesis
  proof (cases answer)
    case (Inr response)
    with assms Pair have "validate_renewed_grant g (bx_grant response) = Inr h" "b' = b1"
      by (auto simp: lease_renew_def split: sum.splits)
    moreover from this have "broker_answers io BrokerRenew b b' h"
      using invoke_answers Pair Inr by (metis validate_renewed_grant_Inr)
    ultimately show ?thesis
      using that [of BrokerRenew b] by (auto simp: validate_renewed_grant_Inr)
  next
    case (Inl e)
    with assms Pair obtain seen where "inspect_once io b1 (lg_key g) = (b', Inr seen)"
      "validate_renewed_grant g seen = Inr h"
      by (auto simp: lease_renew_def lease_try_Inr
          split: sum.splits prod.splits remote_lease_error.splits)
    then show ?thesis
      using that [of BrokerInspect b1] steps inspect_answers [of io b1 "lg_key g" b' h]
      by (auto simp: validate_renewed_grant_Inr)
  qed
qed

lemma lease_renew_steps: "(broker_step io)\<^sup>*\<^sup>* b (fst (lease_renew io b g now ttl heartbeat))"
proof (cases "invoke io b BrokerRenew (RenewRequest lease_schema_version g now ttl heartbeat)")
  case (Pair b1 answer)
  have "(broker_step io)\<^sup>*\<^sup>* b b1"
    using invoke_steps Pair by (metis fst_conv)
  moreover from this have "(broker_step io)\<^sup>*\<^sup>* b (fst (inspect_once io b1 (lg_key g)))"
    using inspect_steps by (rule rtranclp_trans)
  ultimately show ?thesis
    using Pair by (auto simp: lease_renew_def split: sum.splits prod.splits remote_lease_error.splits)
qed

subsection \<open>What a guard relies on\<close>

text \<open>A guard in good order for the request \<open>r\<close> it was acquired with and its first grant \<open>g0\<close>.\<close>

definition guard_ok :: "remote_lease_acquire \<Rightarrow> remote_lease_grant \<Rightarrow> remote_lease_guard \<Rightarrow> bool" where
  "guard_ok r g0 guard =
     (validate_grant (rg_grant guard) = Inr () \<and> exact_fence (rg_grant guard) g0
      \<and> same_holder (rg_grant guard) r \<and> lg_expires_unix_ms g0 \<le> lg_expires_unix_ms (rg_grant guard)
      \<and> rg_ttl_ms guard = la_ttl_ms r \<and> rg_heartbeat_ms guard = la_heartbeat_ms r \<and> \<not> rg_released guard)"

text \<open>A grant that is kept, or one that expires later than the one before it.\<close>

definition advances :: "remote_lease_grant \<Rightarrow> remote_lease_grant \<Rightarrow> bool" where
  "advances g h \<longleftrightarrow> h = g \<or> lg_expires_unix_ms g < lg_expires_unix_ms h"

lemma advances_refl [simp]: "advances g g"
  by (simp add: advances_def)

lemma advances_trans: "advances g h \<Longrightarrow> advances h k \<Longrightarrow> advances g k"
  by (auto simp: advances_def)

text \<open>
  The laws of a lease backend: an acquired grant names its requester and is live, and a renewed grant
  keeps the fence, is valid and lasts longer. \<open>confirmed b b' g\<close> says that moving the backend from
  \<open>b\<close> to \<open>b'\<close> reported the grant \<open>g\<close>.
\<close>

locale lease_contract =
  fixes backend :: "'b lease_backend" and confirmed :: "'b \<Rightarrow> 'b \<Rightarrow> remote_lease_grant \<Rightarrow> bool"
  assumes acquire_valid: "lb_acquire backend b r = (b', Inr g) \<Longrightarrow> validate_grant g = Inr ()"
    and inspect_confirmed: "lb_inspect backend b k = (b', Inr (Some g)) \<Longrightarrow> confirmed b b' g"
    and renew_confirmed: "lb_renew backend b g now ttl heartbeat = (b', Inr h) \<Longrightarrow> confirmed b b' h"
begin

lemma acquire_ok:
  assumes "guard_acquire backend b r = (b', Inr guard)"
  shows "guard_ok r (rg_grant guard) guard \<and> live_at (rg_grant guard) (la_now_unix_ms r)"
  using assms acquire_valid
  by (fastforce simp: guard_acquire_def guard_ok_def lease_try_Inr split: prod.splits if_splits)

lemma renewed_guard_cases:
  assumes "renewed_guard backend b guard now = (b', guard', res)"
  obtains (kept) e where "guard' = guard" "res = Inl e"
  | (replaced) h where "guard' = guard\<lparr>rg_grant := h\<rparr>" "res = Inr ()" "validate_grant h = Inr ()"
      "exact_fence h (rg_grant guard)" "lg_expires_unix_ms (rg_grant guard) < lg_expires_unix_ms h"
      "confirmed b b' h"
proof (cases "lb_renew backend b (rg_grant guard) now (rg_ttl_ms guard) (rg_heartbeat_ms guard)")
  case (Pair b1 answer)
  show ?thesis
  proof (cases "lease_try answer (\<lambda>g. validate_renewed_grant (rg_grant guard) (Some g))")
    case (Inl e)
    with assms Pair show ?thesis by (intro kept) (auto simp: renewed_guard_def)
  next
    case (Inr h)
    then have "answer = Inr h" "validate_renewed_grant (rg_grant guard) (Some h) = Inr h"
      by (auto simp: lease_try_Inr validate_renewed_grant_Inr)
    with assms Pair Inr show ?thesis
      by (intro replaced [of h])
        (auto simp: renewed_guard_def validate_renewed_grant_Inr intro: renew_confirmed)
  qed
qed

lemma renewed_guard_ok:
  assumes "renewed_guard backend b guard now = (b', guard', res)" "guard_ok r g0 guard"
  shows "guard_ok r g0 guard'"
  using assms(1)
proof (cases rule: renewed_guard_cases)
  case (replaced h)
  then have "exact_fence h g0" "same_holder h r" "lg_expires_unix_ms g0 \<le> lg_expires_unix_ms h"
    using assms(2) exact_fence_trans [of h "rg_grant guard" g0] exact_fence_holder [of h "rg_grant guard" r]
    by (simp_all add: guard_ok_def)
  with replaced(1,3) assms(2) show ?thesis
    by (simp add: guard_ok_def)
next
  case (kept e)
  with assms(2) show ?thesis by simp
qed

lemma renew_ok:
  "guard_renew backend b guard now = (b', guard', res) \<Longrightarrow> guard_ok r g0 guard \<Longrightarrow> guard_ok r g0 guard'"
  by (auto simp: guard_renew_def intro: renewed_guard_ok split: if_splits)

lemma before_write_ok:
  "guard_before_write backend b guard now = (b', guard', res) \<Longrightarrow> guard_ok r g0 guard
     \<Longrightarrow> guard_ok r g0 guard'"
  by (auto simp: guard_before_write_def intro: renewed_guard_ok split: if_splits prod.splits)

text \<open>An operation of the guard keeps its grant, or replaces it by one that lasts longer.\<close>

lemma renewed_guard_advances:
  "renewed_guard backend b guard now = (b', guard', res) \<Longrightarrow> advances (rg_grant guard) (rg_grant guard')"
  by (erule renewed_guard_cases) (simp_all add: advances_def)

lemma renew_advances:
  "guard_renew backend b guard now = (b', guard', res) \<Longrightarrow> advances (rg_grant guard) (rg_grant guard')"
  by (auto simp: guard_renew_def intro: renewed_guard_advances split: if_splits)

lemma renew_success_extends:
  assumes "guard_renew backend b guard now = (b', guard', Inr ())"
  shows "lg_expires_unix_ms (rg_grant guard) < lg_expires_unix_ms (rg_grant guard')"
proof -
  have "renewed_guard backend b guard now = (b', guard', Inr ())"
    using assms by (auto simp: guard_renew_def split: if_splits)
  thus ?thesis by (rule renewed_guard_cases) simp_all
qed

lemma before_write_advances:
  "guard_before_write backend b guard now = (b', guard', res) \<Longrightarrow> advances (rg_grant guard) (rg_grant guard')"
  by (auto simp: guard_before_write_def intro: renewed_guard_advances split: if_splits prod.splits)

text \<open>An admitted write was confirmed by the backend in that very call.\<close>

lemma before_write_confirmed:
  assumes "guard_before_write backend b guard now = (b', guard', Inr ())"
  obtains seen where "confirmed b b' seen" "exact_fence seen (rg_grant guard)" "live_at seen now"
    "live_at (rg_grant guard') now" "exact_fence (rg_grant guard') (rg_grant guard)"
proof (cases "now \<ge> lg_heartbeat_due_unix_ms (rg_grant guard)")
  case True
  with assms have "live_at (rg_grant guard) now" "renewed_guard backend b guard now = (b', guard', Inr ())"
    by (simp_all add: guard_before_write_def split: if_splits)
  from this(2) show ?thesis
  proof (cases rule: renewed_guard_cases)
    case (replaced h)
    then have "live_at h now" using \<open>live_at (rg_grant guard) now\<close> by (simp add: live_at_def)
    with replaced show ?thesis by (intro that [of h]) simp_all
  next
    case (kept e)
    from kept(2) show ?thesis by simp
  qed
next
  case False
  obtain b1 answer where inspected: "lb_inspect backend b (lg_key (rg_grant guard)) = (b1, answer)"
    by (cases "lb_inspect backend b (lg_key (rg_grant guard))")
  with assms False have "b1 = b'" "guard' = guard" "live_at (rg_grant guard) now"
    "lease_try answer (observed_fence (rg_grant guard) now) = Inr ()"
    by (auto simp: guard_before_write_def split: if_splits)
  moreover from this(4) obtain seen where "answer = Inr (Some seen)" "exact_fence seen (rg_grant guard)"
    "live_at seen now"
    by (auto simp: lease_try_Inr observed_fence_Inr)
  ultimately show ?thesis
    using that [of seen] inspected inspect_confirmed by simp
qed

end

text \<open>The command adapter keeps the contract; a confirmation is an answer of the broker to this call.\<close>

definition broker_confirms :: "'b broker_io \<Rightarrow> 'b \<Rightarrow> 'b \<Rightarrow> remote_lease_grant \<Rightarrow> bool" where
  "broker_confirms io b b' g =
     (\<exists>b1 operation. operation \<in> {BrokerRenew, BrokerInspect} \<and> (broker_step io)\<^sup>*\<^sup>* b b1
        \<and> broker_answers io operation b1 b' g)"

interpretation cl: lease_contract "command_lease io" "broker_confirms io" for io :: "'b broker_io"
proof (unfold_locales, goal_cases)
  case (1 b r b' g)
  then have "lease_acquire io b r = (b', Inr g)" by (simp add: command_lease_def)
  then show ?case by (rule lease_acquire_Inr) (rule broker_answers_valid)
next
  case (2 b k b' g)
  then show ?case by (auto simp: command_lease_def broker_confirms_def dest: inspect_answers)
next
  case (3 b g now ttl heartbeat b' h)
  then have "lease_renew io b g now ttl heartbeat = (b', Inr h)" by (simp add: command_lease_def)
  then show ?case by (rule lease_renew_Inr) (auto simp: broker_confirms_def)
qed

subsection \<open>The life of a guard\<close>

text \<open>
  A guard lives from its acquisition through renewals, revalidations and write checks, each of which
  may fail; between any two of them other clients may run the broker with any request.
\<close>

inductive lease_life ::
    "'b broker_io \<Rightarrow> remote_lease_acquire \<Rightarrow> remote_lease_grant \<Rightarrow> 'b \<Rightarrow> remote_lease_guard \<Rightarrow> bool"
  for io r g0 where
  acquired: "guard_acquire (command_lease io) b r = (b', Inr guard) \<Longrightarrow> rg_grant guard = g0
     \<Longrightarrow> lease_life io r g0 b' guard"
| others: "lease_life io r g0 b guard \<Longrightarrow> broker_step io b b' \<Longrightarrow> lease_life io r g0 b' guard"
| renewal: "lease_life io r g0 b guard \<Longrightarrow> guard_renew (command_lease io) b guard now = (b', guard', res)
     \<Longrightarrow> lease_life io r g0 b' guard'"
| revalidation: "lease_life io r g0 b guard \<Longrightarrow> guard_revalidate (command_lease io) b guard now = (b', res)
     \<Longrightarrow> lease_life io r g0 b' guard"
| write_check: "lease_life io r g0 b guard
     \<Longrightarrow> fence_before_write (command_lease io) b guard clock = (b', guard', res)
     \<Longrightarrow> lease_life io r g0 b' guard'"

text \<open>One step in the life of a guard, on the broker and the guard.\<close>

inductive lease_step ::
    "'b broker_io \<Rightarrow> 'b \<times> remote_lease_guard \<Rightarrow> 'b \<times> remote_lease_guard \<Rightarrow> bool" for io where
  step_others: "broker_step io b b' \<Longrightarrow> lease_step io (b, guard) (b', guard)"
| step_renewal: "guard_renew (command_lease io) b guard now = (b', guard', res)
     \<Longrightarrow> lease_step io (b, guard) (b', guard')"
| step_revalidation: "guard_revalidate (command_lease io) b guard now = (b', res)
     \<Longrightarrow> lease_step io (b, guard) (b', guard)"
| step_write_check: "fence_before_write (command_lease io) b guard clock = (b', guard', res)
     \<Longrightarrow> lease_step io (b, guard) (b', guard')"

lemma lease_life_step:
  "lease_step io (b, guard) (b', guard') \<Longrightarrow> lease_life io r g0 b guard \<Longrightarrow> lease_life io r g0 b' guard'"
  by (erule lease_step.cases)
    (auto intro: lease_life.others lease_life.renewal lease_life.revalidation lease_life.write_check)

lemma lease_life_steps:
  "(lease_step io)\<^sup>*\<^sup>* (b, guard) (b', guard') \<Longrightarrow> lease_life io r g0 b guard \<Longrightarrow> lease_life io r g0 b' guard'"
  by (induction b' guard' rule: rtranclp_induct2) (auto intro: lease_life_step)

lemma fence_before_write_cases:
  assumes "fence_before_write backend b guard clock = (b', guard', res)"
  obtains (refused) message where "b' = b" "guard' = guard" "res = Inl message"
  | (checked) res' where "guard_before_write backend b guard (nat (clock div 1000000)) = (b', guard', res')"
      "res = Inr () \<longleftrightarrow> res' = Inr ()" "0 \<le> clock" "nat (clock div 1000000) \<le> u64_max"
  using assms
  by (auto simp: fence_before_write_def Let_def split: if_splits prod.splits sum.splits)

lemma fence_before_write_ok:
  assumes "fence_before_write (command_lease io) b guard clock = (b', guard', res)" "guard_ok r g0 guard"
  shows "guard_ok r g0 guard'"
  using assms(1)
proof (cases rule: fence_before_write_cases)
  case (refused message)
  with assms(2) show ?thesis by simp
next
  case (checked res')
  from checked(1) assms(2) show ?thesis by (rule cl.before_write_ok)
qed

lemma lease_step_advances:
  "lease_step io (b, guard) (b', guard') \<Longrightarrow> advances (rg_grant guard) (rg_grant guard')"
proof (erule lease_step.cases)
  fix c h clock c' h' res
  assume "(b, guard) = (c, h)" "(b', guard') = (c', h')" "fence_before_write (command_lease io) c h clock = (c', h', res)"
  thus ?thesis
    by (auto elim!: fence_before_write_cases dest: cl.before_write_advances)
qed (auto dest: cl.renew_advances)

lemma lease_steps_advance:
  "(lease_step io)\<^sup>*\<^sup>* (b, guard) (b', guard') \<Longrightarrow> advances (rg_grant guard) (rg_grant guard')"
  by (induction b' guard' rule: rtranclp_induct2) (auto intro: advances_trans lease_step_advances)

lemma lease_life_ok:
  "lease_life io r g0 b guard \<Longrightarrow> guard_ok r g0 guard \<and> live_at g0 (la_now_unix_ms r)"
proof (induction rule: lease_life.induct)
  case (acquired b b' guard)
  then show ?case using cl.acquire_ok by metis
next
  case (renewal b guard now b' guard' res)
  then show ?case using cl.renew_ok by metis
next
  case (write_check b guard clock b' guard' res)
  then show ?case using fence_before_write_ok by metis
qed auto

lemma fence_before_write_confirmed:
  assumes "fence_before_write (command_lease io) b guard clock = (b', guard', Inr ())" "guard_ok r g0 guard"
  obtains seen where "broker_confirms io b b' seen" "exact_fence seen g0"
    "live_at seen (nat (clock div 1000000))" "live_at (rg_grant guard') (nat (clock div 1000000))" "0 \<le> clock"
  using assms(1)
proof (cases rule: fence_before_write_cases)
  case (checked res')
  then obtain seen where "broker_confirms io b b' seen" "exact_fence seen (rg_grant guard)"
    "live_at seen (nat (clock div 1000000))" "live_at (rg_grant guard') (nat (clock div 1000000))"
    using cl.before_write_confirmed by metis
  moreover have "exact_fence (rg_grant guard) g0" using assms(2) by (simp add: guard_ok_def)
  ultimately show ?thesis using checked(3) exact_fence_trans that by metis
qed simp

subsection \<open>Fencing\<close>

text \<open>
  What \<open>docs/remote-writer-lease.md\<close> demands of a broker: the fence of a key, the greatest token
  issued for it, never falls, and the grant reported by an inspection or a renewal is the current one.
\<close>

definition broker_fences :: "'b broker_io \<Rightarrow> ('b \<Rightarrow> remote_lease_key \<Rightarrow> nat) \<Rightarrow> bool" where
  "broker_fences io fence =
     ((\<forall>b b' k. broker_step io b b' \<longrightarrow> fence b k \<le> fence b' k)
      \<and> (\<forall>operation b b' g. operation \<in> {BrokerRenew, BrokerInspect}
           \<longrightarrow> broker_answers io operation b b' g \<longrightarrow> lg_fencing_token g = fence b' (lg_key g)))"

lemma broker_fences_mono:
  "(broker_step io)\<^sup>*\<^sup>* b b' \<Longrightarrow> broker_fences io fence \<Longrightarrow> fence b k \<le> fence b' k"
  by (induction rule: rtranclp_induct) (auto simp: broker_fences_def intro: le_trans)

lemma broker_confirms_steps: "broker_confirms io b b' g \<Longrightarrow> (broker_step io)\<^sup>*\<^sup>* b b'"
  unfolding broker_confirms_def by (meson broker_answers_step rtranclp.rtrancl_into_rtrancl)

text \<open>An admitted write leaves the broker at the writer's own token.\<close>

lemma admitted_at_own_fence:
  assumes "broker_fences io fence" "lease_life io r g0 b guard"
    "fence_before_write (command_lease io) b guard clock = (b', guard', Inr ())"
  shows "fence b' (lg_key g0) = lg_fencing_token g0 \<and> (broker_step io)\<^sup>*\<^sup>* b b'"
proof -
  from assms(3) lease_life_ok [OF assms(2)]
  obtain seen where "broker_confirms io b b' seen" "exact_fence seen g0"
    by (auto elim: fence_before_write_confirmed)
  with assms(1) broker_confirms_steps [of io b b' seen] show ?thesis
    by (auto simp: broker_fences_def broker_confirms_def exact_fence_def)
qed

text \<open>
  C10. From any point in the life of a writer guard to any later one, through failed and successful
  renewals and write checks and whatever other clients do to the broker: the grant stays valid, keeps the
  key, owner, operation and fencing token it was acquired with, and the guard is never marked as released;
  its expiry never moves back, and a grant that has changed expires strictly later than the one before it;
  a renewal that succeeds next moves the expiry forward.
\<close>

theorem lease_keeps_one_fence:
  assumes "lease_life io r g0 b guard" and "(lease_step io)\<^sup>*\<^sup>* (b, guard) (b', guard')"
  shows "validate_grant (rg_grant guard') = Inr () \<and> exact_fence (rg_grant guard') g0
    \<and> same_holder (rg_grant guard') r
    \<and> lg_expires_unix_ms (rg_grant guard) \<le> lg_expires_unix_ms (rg_grant guard')
    \<and> (rg_grant guard' \<noteq> rg_grant guard \<longrightarrow> lg_expires_unix_ms (rg_grant guard) < lg_expires_unix_ms (rg_grant guard'))
    \<and> (\<forall>now b'' guard''. guard_renew (command_lease io) b' guard' now = (b'', guard'', Inr ())
         \<longrightarrow> lg_expires_unix_ms (rg_grant guard') < lg_expires_unix_ms (rg_grant guard''))
    \<and> lg_expires_unix_ms g0 \<le> lg_expires_unix_ms (rg_grant guard')
    \<and> la_now_unix_ms r < lg_expires_unix_ms (rg_grant guard') \<and> \<not> rg_released guard'
    \<and> rg_ttl_ms guard' = la_ttl_ms r \<and> rg_heartbeat_ms guard' = la_heartbeat_ms r"
  using lease_life_ok [OF lease_life_steps [OF assms(2,1)]] lease_steps_advance [OF assms(2)] cl.renew_success_extends [of io]
  by (auto simp: guard_ok_def live_at_def advances_def)

text \<open>
  C9. A stale writer is fenced out: over a broker that issues growing tokens and reports the current
  grant, once a writer with a greater token has been admitted, every later write check of a writer
  with a smaller token for the same key fails, whatever happens in between and whatever its clock says.
\<close>

theorem stale_writer_fenced_out:
  assumes "broker_fences io fence"
    and "lease_life io r2 g2 b1 guard2"
    and "fence_before_write (command_lease io) b1 guard2 clock2 = (b2, guard2', Inr ())"
    and "(broker_step io)\<^sup>*\<^sup>* b2 b3"
    and "lease_life io r1 g1 b3 guard1"
    and "lg_key g1 = lg_key g2" "lg_fencing_token g1 < lg_fencing_token g2"
    and "fence_before_write (command_lease io) b3 guard1 clock1 = (b4, guard1', res)"
  shows "\<exists>message. res = Inl message"
proof (cases res)
  case (Inr u)
  then have "fence b4 (lg_key g1) = lg_fencing_token g1" "(broker_step io)\<^sup>*\<^sup>* b3 b4"
    using admitted_at_own_fence [OF assms(1,5), of clock1 b4 guard1'] assms(8) by simp_all
  moreover have "fence b2 (lg_key g2) = lg_fencing_token g2"
    using admitted_at_own_fence [OF assms(1,2,3)] by simp
  moreover have "fence b2 (lg_key g2) \<le> fence b4 (lg_key g2)"
    using assms(1,4) calculation(2) by (meson broker_fences_mono rtranclp_trans)
  ultimately show ?thesis using assms(6,7) by simp
qed simp

subsection \<open>A small broker\<close>

text \<open>A broker for one key that counts its grants and answers with the last one.\<close>

definition small_key :: remote_lease_key where
  "small_key = \<lparr>lk_host = ''h'', lk_owner = ''o'', lk_repository = ''r'', lk_installation_id = None\<rparr>"

definition small_grant :: "nat \<Rightarrow> remote_lease_grant" where
  "small_grant n = \<lparr>lg_schema_version = 1, lg_key = small_key, lg_writer_owner = ''w'',
     lg_operation_id = replicate n (CHR ''x''), lg_fencing_token = n, lg_heartbeat_due_unix_ms = 50,
     lg_expires_unix_ms = 100, lg_backend_revision = ''v''\<rparr>"

definition small_request :: "nat \<Rightarrow> remote_lease_acquire" where
  "small_request n = \<lparr>la_key = small_key, la_writer_owner = ''w'', la_operation_id = replicate n (CHR ''x''),
     la_now_unix_ms = 1, la_ttl_ms = 99, la_heartbeat_ms = 49\<rparr>"

fun small_decode :: "string \<Rightarrow> broker_response option" where
  "small_decode [] = None"
| "small_decode (c # s) = Some \<lparr>bx_schema_version = 1,
     bx_operation = (if c = CHR ''a'' then BrokerAcquire else BrokerInspect),
     bx_grant = Some (small_grant (length s)), bx_released = False, bx_contended = False\<rparr>"

definition small_run :: "nat \<Rightarrow> string \<Rightarrow> string \<Rightarrow> nat \<times> (unit + command_output)" where
  "small_run b operation input =
     (if operation = ''acquire''
      then (Suc b, Inr \<lparr>co_code = Some 0, co_stdout = CHR ''a'' # replicate (Suc b) (CHR ''x''), co_stderr = []\<rparr>)
      else (b, Inr \<lparr>co_code = Some 0, co_stdout = CHR ''i'' # replicate b (CHR ''x''), co_stderr = []\<rparr>))"

definition small_broker :: "nat broker_io" where
  "small_broker = \<lparr>io_encode = (\<lambda>_. Some []), io_decode = small_decode, io_run = small_run\<rparr>"

definition small_guard :: "nat \<Rightarrow> remote_lease_guard" where
  "small_guard n = \<lparr>rg_grant = small_grant n, rg_ttl_ms = 99, rg_heartbeat_ms = 49, rg_released = False\<rparr>"

lemma small_broker_fences: "broker_fences small_broker (\<lambda>b _. b)"
  by (auto simp: broker_fences_def broker_step_def broker_answers_def small_broker_def small_run_def
      small_grant_def split: if_splits)

lemma small_step: "broker_step small_broker b (Suc b)"
  by (rule broker_stepI [of _ _ "''acquire''" "[]"]) (simp add: small_broker_def small_run_def)

lemma printable_no_control: "list_all (\<lambda>a. 33 \<le> a \<and> a < 127) bs \<Longrightarrow> \<not> has_control bs"
  by (induction bs rule: has_control.induct) auto

lemma printable_identity:
  assumes "s \<noteq> []" "length s \<le> 256" "list_all (\<lambda>c. 33 \<le> (of_char c :: nat) \<and> (of_char c :: nat) < 127) s"
  shows "\<not> bad_identity s"
proof -
  have "\<forall>c\<in>set s. ascii_word c" using assms(3) by (auto simp: ascii_word_def list_all_iff)
  with assms(1) have "trim s = s" by (intro trim_id) auto
  moreover have "\<not> has_control (bytes_of s)"
    using assms(3) by (intro printable_no_control) (auto simp: bytes_of_def list_all_iff)
  ultimately show ?thesis using assms by (simp add: bad_identity_def max_identity_bytes_def)
qed

lemma small_identities [simp]:
  "\<not> bad_identity ''h''" "\<not> bad_identity ''o''" "\<not> bad_identity ''r''" "\<not> bad_identity ''w''"
  "\<not> bad_identity ''v''" "\<not> bad_identity ''x''" "\<not> bad_identity ''xx''"
  by (rule printable_identity, simp_all)+

lemmas small_defs = small_broker_def small_run_def small_key_def small_grant_def small_request_def
  lease_schema_version_def max_protocol_bytes_def max_lease_ttl_ms_def response_of_def
  response_shape_valid_def is_success_def validate_grant_def validate_key_def validate_identity_def
  same_holder_def exact_fence_def live_at_def

lemma small_valid [simp]:
  "validate_grant (small_grant (Suc 0)) = Inr ()" "validate_grant (small_grant 2) = Inr ()"
  "validate_grant (small_grant (Suc (Suc 0))) = Inr ()"
  by (simp_all add: small_defs numeral_2_eq_2)

lemma small_bounds [simp]: "\<not> checked_add_fails (Suc 0) 99" "\<not> checked_add_fails (Suc 0) 49"
  by (simp_all add: checked_add_fails_def u64_max_def)

lemma small_holder [simp]:
  "same_holder (small_grant n) (small_request n)" "live_at (small_grant n) (Suc 0)"
  by (simp_all add: small_grant_def small_request_def same_holder_def live_at_def)

lemma small_inspect:
  "n \<in> {1, 2} \<Longrightarrow> inspect_once small_broker n small_key = (n, Inr (Some (small_grant n)))"
  by (auto simp: inspect_once_def invoke_def small_broker_def small_run_def response_of_def is_success_def
      max_protocol_bytes_def lease_schema_version_def response_shape_valid_def validate_key_def
      validate_identity_def small_key_def)

lemma small_request_valid: "n \<in> {1, 2} \<Longrightarrow> validate_acquire (small_request n) = Inr ()"
  by (auto simp: validate_acquire_def small_request_def validate_key_def validate_identity_def small_key_def
      max_lease_ttl_ms_def numeral_2_eq_2)

lemma small_acquire:
  assumes "b \<in> {0, 1}"
  shows "guard_acquire (command_lease small_broker) b (small_request (Suc b))
     = (Suc b, Inr (small_guard (Suc b)))"
proof -
  have now: "la_now_unix_ms (small_request (Suc b)) = Suc 0" "la_ttl_ms (small_request (Suc b)) = 99"
    "la_heartbeat_ms (small_request (Suc b)) = 49" by (simp_all add: small_request_def)
  have "invoke small_broker b BrokerAcquire (AcquireRequest lease_schema_version (small_request (Suc b)))
    = (Suc b, Inr \<lparr>bx_schema_version = 1, bx_operation = BrokerAcquire,
         bx_grant = Some (small_grant (Suc b)), bx_released = False, bx_contended = False\<rparr>)"
    using assms by (auto simp: invoke_def small_broker_def small_run_def response_of_def is_success_def
        max_protocol_bytes_def lease_schema_version_def response_shape_valid_def)
  moreover have "validate_acquire (small_request (Suc b)) = Inr ()"
    using assms by (intro small_request_valid) auto
  ultimately show ?thesis
    using now by (simp add: guard_acquire_def command_lease_def lease_acquire_def acquired_grant_def small_guard_def)
qed

lemma small_life:
  "lease_life small_broker (small_request 1) (small_grant 1) 1 (small_guard 1)"
  "lease_life small_broker (small_request 1) (small_grant 1) 2 (small_guard 1)"
  "lease_life small_broker (small_request 2) (small_grant 2) 2 (small_guard 2)"
proof -
  have grant: "rg_grant (small_guard n) = small_grant n" for n by (simp add: small_guard_def)
  show one: "lease_life small_broker (small_request 1) (small_grant 1) 1 (small_guard 1)"
    using lease_life.acquired [OF small_acquire [of 0] grant] by simp
  show "lease_life small_broker (small_request 1) (small_grant 1) 2 (small_guard 1)"
    using lease_life.others [OF one small_step] by (simp add: numeral_2_eq_2)
  show "lease_life small_broker (small_request 2) (small_grant 2) 2 (small_guard 2)"
    using lease_life.acquired [OF small_acquire [of 1] grant] by (simp add: numeral_2_eq_2)
qed

lemma small_write:
  "n \<in> {1, 2} \<Longrightarrow> fence_before_write (command_lease small_broker) 2 (small_guard n) 10000000
     = (2, small_guard n, if n = 2 then Inr ()
          else Inl (lease_error_text (LeaseLost ''exact live fencing token was not observed'')))"
  using small_inspect [of 2]
  by (auto simp: fence_before_write_def guard_before_write_def command_lease_def u64_max_def small_guard_def
      observed_fence_def small_grant_def exact_fence_def live_at_def)

text \<open>A broker for one writer that extends its grant by 100 ms at each renewal.\<close>

definition extended_grant :: "nat \<Rightarrow> remote_lease_grant" where
  "extended_grant n = (small_grant 1)\<lparr>lg_heartbeat_due_unix_ms := 100 * n + 50, lg_expires_unix_ms := 100 * n + 100\<rparr>"

fun extending_decode :: "string \<Rightarrow> broker_response option" where
  "extending_decode [] = None"
| "extending_decode (c # s) = Some \<lparr>bx_schema_version = 1,
     bx_operation = (if c = CHR ''a'' then BrokerAcquire else if c = CHR ''n'' then BrokerRenew else BrokerInspect),
     bx_grant = Some (extended_grant (length s)), bx_released = False, bx_contended = False\<rparr>"

definition extending_run :: "nat \<Rightarrow> string \<Rightarrow> string \<Rightarrow> nat \<times> (unit + command_output)" where
  "extending_run b operation input =
     (let b' = (if operation = ''renew'' then Suc b else b)
      in (b', Inr \<lparr>co_code = Some 0, co_stdout =
           (if operation = ''acquire'' then CHR ''a'' else if operation = ''renew'' then CHR ''n'' else CHR ''i'')
             # replicate b' (CHR ''x''), co_stderr = []\<rparr>))"

definition extending_broker :: "nat broker_io" where
  "extending_broker = \<lparr>io_encode = (\<lambda>_. Some []), io_decode = extending_decode, io_run = extending_run\<rparr>"

definition extended_guard :: "nat \<Rightarrow> remote_lease_guard" where
  "extended_guard n = (small_guard 1)\<lparr>rg_grant := extended_grant n\<rparr>"

lemma extended_valid: "validate_grant (extended_grant n) = Inr ()"
  by (simp add: extended_grant_def small_defs)

lemma extending_acquire:
  "guard_acquire (command_lease extending_broker) 0 (small_request 1) = (0, Inr (extended_guard 0))"
proof -
  have "invoke extending_broker 0 BrokerAcquire (AcquireRequest lease_schema_version (small_request 1))
    = (0, Inr \<lparr>bx_schema_version = 1, bx_operation = BrokerAcquire,
         bx_grant = Some (extended_grant 0), bx_released = False, bx_contended = False\<rparr>)"
    using extended_valid [of 0] by (simp add: invoke_def extending_broker_def extending_run_def response_of_def is_success_def
        max_protocol_bytes_def lease_schema_version_def response_shape_valid_def Let_def)
  moreover have "validate_acquire (small_request 1) = Inr ()"
    by (rule small_request_valid) simp
  ultimately show ?thesis
    by (simp add: guard_acquire_def command_lease_def lease_acquire_def acquired_grant_def extended_guard_def
        small_guard_def small_request_def extended_grant_def small_grant_def same_holder_def live_at_def)
qed

lemma extending_renew:
  assumes "now \<le> 400" "n \<le> 3"
  shows "lease_renew extending_broker n (extended_grant n) now 99 49 = (Suc n, Inr (extended_grant (Suc n)))"
proof -
  have "invoke extending_broker n BrokerRenew (RenewRequest lease_schema_version (extended_grant n) now 99 49)
    = (Suc n, Inr \<lparr>bx_schema_version = 1, bx_operation = BrokerRenew,
         bx_grant = Some (extended_grant (Suc n)), bx_released = False, bx_contended = False\<rparr>)"
    using assms extended_valid [of "Suc n"]
    by (simp add: invoke_def extending_broker_def extending_run_def response_of_def is_success_def
        max_protocol_bytes_def lease_schema_version_def response_shape_valid_def Let_def)
  moreover have "validate_acquire \<lparr>la_key = lg_key (extended_grant n), la_writer_owner = lg_writer_owner (extended_grant n),
      la_operation_id = lg_operation_id (extended_grant n), la_now_unix_ms = now, la_ttl_ms = 99, la_heartbeat_ms = 49\<rparr> = Inr ()"
    using assms by (simp add: validate_acquire_def extended_grant_def small_defs checked_add_fails_def u64_max_def)
  moreover have "validate_renewed_grant (extended_grant n) (Some (extended_grant (Suc n))) = Inr (extended_grant (Suc n))"
    using extended_valid [of "Suc n"] by (simp add: validate_renewed_grant_def extended_grant_def exact_fence_def)
  ultimately show ?thesis using extended_valid [of n] by (simp add: lease_renew_def)
qed

lemma extending_guard_renew:
  assumes "n \<le> 3" "now \<le> 400"
  shows "renewed_guard (command_lease extending_broker) n (extended_guard n) now = (Suc n, extended_guard (Suc n), Inr ())"
proof -
  have "validate_renewed_grant (extended_grant n) (Some (extended_grant (Suc n))) = Inr (extended_grant (Suc n))"
    using extended_valid [of "Suc n"] by (simp add: validate_renewed_grant_def extended_grant_def exact_fence_def)
  thus ?thesis using extending_renew [OF assms(2,1)]
    by (simp add: renewed_guard_def command_lease_def extended_guard_def small_guard_def)
qed

text \<open>A renewal at 10 ms, a write at 160 ms that is past the heartbeat, and a renewal at 350 ms that is too late.\<close>

lemma extending_steps:
  "(lease_step extending_broker)\<^sup>*\<^sup>* (0, extended_guard 0) (2, extended_guard 2)"
proof -
  have "guard_renew (command_lease extending_broker) 0 (extended_guard 0) 10 = (1, extended_guard 1, Inr ())"
    using extending_guard_renew [of 0 10]
    by (simp add: guard_renew_def) (simp add: extended_guard_def small_guard_def extended_grant_def live_at_def)
  hence "lease_step extending_broker (0, extended_guard 0) (1, extended_guard 1)" by (rule step_renewal)
  moreover have "fence_before_write (command_lease extending_broker) 1 (extended_guard 1) 160000000 = (2, extended_guard 2, Inr ())"
    using extending_guard_renew [of 1 160]
    by (simp add: fence_before_write_def guard_before_write_def u64_max_def)
      (simp add: extended_guard_def small_guard_def extended_grant_def live_at_def numeral_2_eq_2)
  hence "lease_step extending_broker (1, extended_guard 1) (2, extended_guard 2)" by (rule step_write_check)
  moreover have "guard_renew (command_lease extending_broker) 2 (extended_guard 2) 350
      = (2, extended_guard 2, Inl (LeaseLost ''lease expired before heartbeat renewal''))"
    by (simp add: guard_renew_def extended_guard_def small_guard_def extended_grant_def live_at_def)
  hence "lease_step extending_broker (2, extended_guard 2) (2, extended_guard 2)" by (rule step_renewal)
  ultimately show ?thesis by (meson rtranclp.rtrancl_into_rtrancl rtranclp.rtrancl_refl)
qed

theorem lease_keeps_one_fence_witness:
  "validate_grant (extended_grant 2) = Inr () \<and> lg_fencing_token (extended_grant 2) = 1
   \<and> lg_expires_unix_ms (extended_grant 0) = 100 \<and> lg_expires_unix_ms (extended_grant 2) = 300
   \<and> lg_expires_unix_ms (extended_grant 0) < lg_expires_unix_ms (extended_grant 2)"
proof -
  have grant: "rg_grant (extended_guard n) = extended_grant n" for n by (simp add: extended_guard_def)
  have "lease_life extending_broker (small_request 1) (extended_grant 0) 0 (extended_guard 0)"
    using lease_life.acquired [OF extending_acquire grant] .
  from lease_keeps_one_fence [OF this extending_steps] show ?thesis
    by (simp add: grant) (simp add: extended_grant_def small_grant_def)
qed

theorem stale_writer_fenced_out_witness:
  "\<exists>message. snd (snd (fence_before_write (command_lease small_broker) 2 (small_guard 1) 10000000)) = Inl message"
  using stale_writer_fenced_out [OF small_broker_fences small_life(3) _ _ small_life(2), of 10000000 2 "small_guard 2"
      10000000 2 "small_guard 1"] small_write [of 1] small_write [of 2]
  by (simp add: small_grant_def)

end
