(* ===== verification/Command_Facts.thy ===== *)
theory Command_Facts
  imports Command
begin

text \<open>
  Theorems on subprocess requests: what diagnostics can reveal, what the bounded capture keeps of a
  stream, and which requests reach the runner behind a fence.
\<close>

subsection \<open>Redaction\<close>

text \<open>A URL with a nonempty user part in front of a host and path; the user part has no \<open>@\<close>.\<close>

definition credential_url :: "string \<Rightarrow> string \<Rightarrow> string \<Rightarrow> string" where
  "credential_url scheme userinfo host_and_path = scheme @ userinfo @ ''@'' @ host_and_path"

lemma redact_credential_url:
  assumes "scheme \<in> {''https://'', ''http://''}" "userinfo \<noteq> []" "CHR ''@'' \<notin> set userinfo"
    "CHR ''/'' \<in> set host_and_path"
  shows "redact_url_userinfo (credential_url scheme userinfo host_and_path)
    = scheme @ ''<redacted>@'' @ host_and_path"
proof -
  have "split_once ''@'' (userinfo @ ''@'' @ host_and_path) = Some (userinfo, host_and_path)"
    using split_once_char [of "CHR ''@''" userinfo host_and_path] assms(3) by simp
  moreover have "strip_prefix scheme (scheme @ s) = Some s" for s
    by (simp add: strip_prefix_def starts_with_def)
  moreover have "strip_prefix ''https://'' (''http://'' @ s) = None" for s
    by (simp add: strip_prefix_def starts_with_def)
  ultimately show ?thesis
    using assms unfolding redact_url_userinfo_def credential_url_def redact_scheme_def
    by auto
qed

text \<open>Two arguments an observer of diagnostics cannot tell apart: equal up to the user part of a URL.\<close>

definition same_but_userinfo :: "string \<Rightarrow> string \<Rightarrow> bool" where
  "same_but_userinfo a b =
     (a = b \<or> (\<exists>scheme u v rest. scheme \<in> {''https://'', ''http://''} \<and> CHR ''/'' \<in> set rest
        \<and> u \<noteq> [] \<and> CHR ''@'' \<notin> set u \<and> v \<noteq> [] \<and> CHR ''@'' \<notin> set v
        \<and> a = credential_url scheme u rest \<and> b = credential_url scheme v rest))"

lemma redact_same: "same_but_userinfo a b \<Longrightarrow> redact_url_userinfo a = redact_url_userinfo b"
  unfolding same_but_userinfo_def
proof (elim disjE exE conjE)
  fix scheme u v rest
  assume s: "scheme \<in> {''https://'', ''http://''}" "CHR ''/'' \<in> set rest"
    and u: "u \<noteq> []" "CHR ''@'' \<notin> set u" and v: "v \<noteq> []" "CHR ''@'' \<notin> set v"
    and ab: "a = credential_url scheme u rest" "b = credential_url scheme v rest"
  show ?thesis
    unfolding ab redact_credential_url [OF s(1) u s(2)] redact_credential_url [OF s(1) v s(2)] ..
qed simp

fun on_command :: "command_spec \<Rightarrow> run_error \<Rightarrow> run_error" where
  "on_command c (BudgetExceeded _ limit used) = BudgetExceeded c limit used"
| "on_command c (AppAuthRefused _ r) = AppAuthRefused c r"
| "on_command c (AppGitTransportRefused _ r) = AppGitTransportRefused c r"
| "on_command c (MutationFenceRefused _ intent m) = MutationFenceRefused c intent m"
| "on_command c (SpawnError _ m) = SpawnError c m"
| "on_command c (InvalidUtf8 _ stream m) = InvalidUtf8 c stream m"
| "on_command c (OutputLimitExceeded _ code stdout stderr) = OutputLimitExceeded c code stdout stderr"
| "on_command c (DeadlineExceeded _ pgid ms stdout stderr) = DeadlineExceeded c pgid ms stdout stderr"

lemma display_same:
  assumes "cs_program c = cs_program d" "list_all2 same_but_userinfo (cs_args c) (cs_args d)"
  shows "cs_display c = cs_display d"
proof -
  have "map redact_url_userinfo (cs_args c) = map redact_url_userinfo (cs_args d)"
    using assms(2) by (induction rule: list_all2_induct) (simp_all add: redact_same)
  with assms(1) show ?thesis by (simp add: cs_display_def)
qed

text \<open>
  C28. Diagnostics do not depend on secrets: two requests of the same program whose arguments differ
  at most in the user part of a URL render alike, whatever their environments, standard inputs and
  intents are, and so does every run error that carries one of them.
\<close>

theorem diagnostics_hide_secrets:
  assumes "cs_program c = cs_program d" "list_all2 same_but_userinfo (cs_args c) (cs_args d)"
  shows "cs_display c = cs_display d \<and> run_error_text (on_command c e) = run_error_text (on_command d e)"
  using display_same [OF assms] by (cases e) simp_all

theorem diagnostics_hide_secrets_witness:
  "cs_display (cs_env ''GH_TOKEN'' ''s1'' (cs_arg ''https://me:s2@host/o/r'' (cs_new ''git'')))
     = cs_display (cs_arg ''https://x@host/o/r'' (cs_new ''git''))"
proof -
  have "same_but_userinfo ''https://me:s2@host/o/r'' ''https://x@host/o/r''"
    unfolding same_but_userinfo_def credential_url_def
    by (intro disjI2 exI [of _ "''https://''"] exI [of _ "''me:s2''"] exI [of _ "''x''"]
        exI [of _ "''host/o/r''"]) simp
  then show ?thesis
    using diagnostics_hide_secrets [of "cs_env ''GH_TOKEN'' ''s1'' (cs_arg ''https://me:s2@host/o/r'' (cs_new ''git''))"
        "cs_arg ''https://x@host/o/r'' (cs_new ''git'')"]
    by (simp add: cs_env_def cs_arg_def cs_new_def)
qed

subsection \<open>Capture\<close>

abbreviation evidence_tail :: "string \<Rightarrow> string" where
  "evidence_tail s \<equiv> drop (length s - output_limit_evidence_bytes) s"

lemma keep_suffix_tail: "keep_suffix (evidence_tail s) chunk = evidence_tail (s @ chunk)"
  by (cases "length s \<le> output_limit_evidence_bytes") (auto simp: keep_suffix_def Let_def add.commute)

lemma capture_loop_chunks:
  assumes "list_all (\<lambda>c. c \<noteq> []) pieces"
  shows "capture_loop limit (map Inr pieces @ Inr [] # rest) (take limit s) (evidence_tail s)
      (min u64_max (length s))
    = (let all = s @ concat pieces
       in Inr \<lparr>cp_bytes = take limit all, cp_suffix = evidence_tail all,
               cp_total_bytes = min u64_max (length all),
               cp_truncated = min u64_max (length all) > to_u64 limit\<rparr>)"
  using assms
proof (induction pieces arbitrary: s)
  case Nil
  then show ?case by (simp add: Let_def)
next
  case (Cons c cs)
  have "take limit s @ take (limit - length (take limit s)) c = take limit (s @ c)"
    by (cases "length s \<le> limit") auto
  moreover have "sat_add (min u64_max (length s)) (to_u64 (length c)) = min u64_max (length (s @ c))"
    by (auto simp: sat_add_def to_u64_def)
  ultimately show ?case
    using Cons.prems Cons.IH [of "s @ c"] by (simp add: keep_suffix_tail Let_def)
qed

text \<open>
  C29. However a stream is cut into reads, the bounded capture is that of the whole stream: it keeps
  exactly the first bytes up to the limit and the last bytes up to the evidence bound, counts every
  byte, and marks truncation exactly when something was dropped.
\<close>

theorem capture_is_chunking_independent:
  assumes "list_all (\<lambda>c. c \<noteq> []) pieces" "limit < u64_max"
  shows "capture limit (map Inr pieces @ Inr [] # rest)
    = Inr \<lparr>cp_bytes = take limit (concat pieces),
           cp_suffix = drop (length (concat pieces) - output_limit_evidence_bytes) (concat pieces),
           cp_total_bytes = min u64_max (length (concat pieces)),
           cp_truncated = (take limit (concat pieces) \<noteq> concat pieces)\<rparr>"
proof -
  have "min u64_max n > to_u64 limit \<longleftrightarrow> n > limit" for n
    using assms(2) by (auto simp: to_u64_def)
  moreover have "take limit xs = xs \<longleftrightarrow> \<not> limit < length xs" for xs :: string
    by (simp add: take_all_iff not_less)
  ultimately show ?thesis
    using capture_loop_chunks [OF assms(1), of limit rest "[]"] by (simp add: capture_def Let_def)
qed

theorem capture_is_chunking_independent_witness:
  "capture 3 [Inr ''ab'', Inr ''cd'', Inr []]
     = Inr \<lparr>cp_bytes = ''abc'', cp_suffix = ''abcd'', cp_total_bytes = 4, cp_truncated = True\<rparr>"
  using capture_is_chunking_independent [of "[''ab'', ''cd'']" 3 "[]"]
  by (simp add: u64_max_def output_limit_evidence_bytes_def)

subsection \<open>The fenced runner\<close>

text \<open>A write is refused without touching the runner, or the fence admitted it first.\<close>

lemma inferred_is_write: "inferred_write_intent c = Some i \<Longrightarrow> is_write i"
  by (auto simp: inferred_write_intent_def split: option.splits if_splits)

lemma marked_run_cases:
  assumes "is_write (cs_intent c)"
  obtains (refused) w' i m where "marked_run inner fence w c = (w', Inl (MutationFenceRefused c i m))"
      "w' = w \<or> w' = fst (fence w (cs_intent c))"
  | (admitted) w' where "fence w (cs_intent c) = (w', Inr ())" "marked_run inner fence w c = inner w' c"
proof (cases "fence w (cs_intent c)")
  case (Pair w' answer)
  show ?thesis
  proof (cases answer)
    case (Inl m)
    with Pair assms show ?thesis by (intro refused [of w' "cs_intent c" m]) (simp_all add: marked_run_def)
  next
    case (Inr u)
    with Pair assms show ?thesis by (intro admitted [of w']) (simp_all add: marked_run_def)
  qed
qed

lemma fenced_run_cases:
  assumes "inferred_write_intent c \<noteq> None \<or> is_write (cs_intent c)"
  obtains (refused) w' i m where "fenced_run inner fence w c = (w', Inl (MutationFenceRefused c i m))"
      "w' = w \<or> w' = fst (fence w (cs_intent c))"
  | (admitted) w' where "fence w (cs_intent c) = (w', Inr ())" "fenced_run inner fence w c = inner w' c"
proof (cases "\<exists>i. inferred_write_intent c = Some i \<and> cs_intent c \<noteq> i")
  case True
  then show ?thesis using refused [of w] by (auto simp: fenced_run_def)
next
  case False
  with assms have marked: "is_write (cs_intent c)" by (auto dest: inferred_is_write)
  have same: "fenced_run inner fence w c = marked_run inner fence w c"
    using False by (auto simp: fenced_run_def split: option.splits)
  from marked show ?thesis
    by (cases rule: marked_run_cases [where inner = inner and fence = fence and w = w])
      (use refused admitted same in auto)
qed

end
