(* ===== verification/Fence_Facts.thy ===== *)
theory Fence_Facts
  imports Lease_Facts Command_Facts
begin

text \<open>
  The composition of the remote lease with the fenced runner: the guard of \<open>src/src/remote_lease.rs\<close> is
  the mutation fence of \<open>FencedCommandRunner\<close> in \<open>src/src/command.rs\<close>.
\<close>

text \<open>The world is the broker's state, the guard, and the rest, which the wall clock is read from.\<close>

definition lease_fence :: "'b broker_io \<Rightarrow> ('w \<Rightarrow> int) \<Rightarrow> ('b \<times> remote_lease_guard \<times> 'w) fence" where
  "lease_fence io clock = (\<lambda>(b, guard, w) intent.
     case fence_before_write (command_lease io) b guard (clock w) of
       (b', guard', answer) \<Rightarrow> ((b', guard', w), answer))"

text \<open>
  C8. No mutating command runs on a lost lease. Whatever the broker and other clients did before,
  a command that is marked as a write or looks like one (a push, a provider mutation) is refused
  without running, or it runs after the broker confirmed in this very call a live grant with the key,
  owner, operation and fencing token this process acquired, and the guard lives on.
\<close>

theorem mutations_need_live_fence:
  assumes "lease_life io r g0 b guard"
    and "inferred_write_intent c \<noteq> None \<or> is_write (cs_intent c)"
  shows "(\<exists>b' guard' i m. fenced_run inner (lease_fence io clock) (b, guard, w) c
            = ((b', guard', w), Inl (MutationFenceRefused c i m)))
    \<or> (\<exists>b' guard' seen. fenced_run inner (lease_fence io clock) (b, guard, w) c = inner (b', guard', w) c
         \<and> broker_confirms io b b' seen \<and> exact_fence seen g0 \<and> live_at seen (nat (clock w div 1000000))
         \<and> live_at (rg_grant guard') (nat (clock w div 1000000)) \<and> lease_life io r g0 b' guard')"
  using assms(2)
proof (cases rule: fenced_run_cases [where inner = inner and fence = "lease_fence io clock" and w = "(b, guard, w)"])
  case (refused w' i m)
  then show ?thesis by (auto simp: lease_fence_def split: prod.splits)
next
  case (admitted w')
  from admitted(1) obtain b' guard' where w': "w' = (b', guard', w)"
    and ok: "fence_before_write (command_lease io) b guard (clock w) = (b', guard', Inr ())"
    by (auto simp: lease_fence_def split: prod.splits)
  then have "lease_life io r g0 b' guard'" using assms(1) by (blast intro: lease_life.write_check)
  moreover obtain seen where "broker_confirms io b b' seen" "exact_fence seen g0"
    "live_at seen (nat (clock w div 1000000))" "live_at (rg_grant guard') (nat (clock w div 1000000))"
    using fence_before_write_confirmed [OF ok] lease_life_ok [OF assms(1)] by blast
  ultimately show ?thesis using admitted(2) w' by blast
qed

text \<open>On the small broker: the current holder's push runs, the stale holder's does not.\<close>

definition push_command :: command_spec where
  "push_command = cs_git_write (cs_with_args [''push'', ''origin''] (cs_new ''git''))"

lemma push_intent: "cs_intent push_command = GitWrite"
  by (simp add: push_command_def cs_intent_def cs_git_write_def)

theorem mutations_need_live_fence_witness:
  "(\<exists>b' guard' i m. fenced_run (\<lambda>w c. (w, Inr \<lparr>co_code = Some 0, co_stdout = [], co_stderr = []\<rparr>))
        (lease_fence small_broker (\<lambda>_. 10000000)) (2, small_guard 2, ()) push_command
      = ((b', guard', ()), Inl (MutationFenceRefused push_command i m)))
   \<or> (\<exists>b' guard' seen. fenced_run (\<lambda>w c. (w, Inr \<lparr>co_code = Some 0, co_stdout = [], co_stderr = []\<rparr>))
        (lease_fence small_broker (\<lambda>_. 10000000)) (2, small_guard 2, ()) push_command
      = ((b', guard', ()), Inr \<lparr>co_code = Some 0, co_stdout = [], co_stderr = []\<rparr>)
      \<and> exact_fence seen (small_grant 2) \<and> live_at seen 10)"
  using mutations_need_live_fence [OF small_life(3), of push_command
      "\<lambda>w c. (w, Inr \<lparr>co_code = Some 0, co_stdout = [], co_stderr = []\<rparr>)" "\<lambda>_. 10000000" "()"] push_intent
  by fastforce

end
