(* ===== verification/App_Facts.thy ===== *)
theory App_Facts
  imports App_Runner
begin

text \<open>
  Lemmas on GitHub authentication: what a resolved App credential proves; the record of the children
  of a run, by which the origin of a token and of a repository is stated; and that every attempt at a
  request leaves its evidence in that record, keeps cached credentials issued ones and never rebinds a
  principal.
\<close>

subsection \<open>Retries\<close>

lemma wait_before_retry_cases:
  assumes "wait_before_retry su retry attempt r w = (w', again)"
  obtains "w' = w" | d where "w' = su_sleep su d w"
  using assms by (auto simp: wait_before_retry_def Let_def split: if_splits)

lemma retry_loop_cases:
  obtains (answered) w1 x where "step w = (w1, Inr x)" "retry_loop su retry step attempt w = (w1, Inr (x, attempt))"
  | (again) w1 r w2 where "step w = (w1, Inl r)" "w2 = w1 \<or> (\<exists>d. w2 = su_sleep su d w1)"
      "attempt < pt_attempts retry" "retry_loop su retry step attempt w = retry_loop su retry step (attempt + 1) w2"
  | (refused) w1 r w2 where "step w = (w1, Inl r)" "w2 = w1 \<or> (\<exists>d. w2 = su_sleep su d w1)"
      "retry_loop su retry step attempt w = (w2, Inl (with_attempts attempt r))"
proof (cases "step w")
  case (Pair w1 answer)
  show ?thesis
  proof (cases answer)
    case (Inr x)
    with Pair show ?thesis by (intro answered) (simp_all add: retry_loop.simps)
  next
    case (Inl r)
    obtain w2 go where wait: "wait_before_retry su retry attempt (with_attempts attempt r) w1 = (w2, go)"
      by (cases "wait_before_retry su retry attempt (with_attempts attempt r) w1")
    then have slept: "w2 = w1 \<or> (\<exists>d. w2 = su_sleep su d w1)" using wait_before_retry_cases by metis
    show ?thesis
    proof (cases go)
      case True
      with wait have "attempt < pt_attempts retry" using wait_before_retry_attempt by metis
      with Pair Inl wait slept True show ?thesis
        by (intro again) (simp_all add: retry_loop.simps [of su retry step attempt])
    next
      case False
      with Pair Inl wait slept show ?thesis
        by (intro refused) (simp_all add: retry_loop.simps [of su retry step attempt])
    qed
  qed
qed

lemma retry_loop_invariant:
  assumes steps: "\<And>w w' answer. step w = (w', answer) \<Longrightarrow> I w \<Longrightarrow> I w'"
    and sleeps: "\<And>d w. I w \<Longrightarrow> I (su_sleep su d w)"
  shows "retry_loop su retry step attempt w = (w', answer) \<Longrightarrow> I w \<Longrightarrow> I w'"
proof (induction "pt_attempts retry - attempt" arbitrary: attempt w rule: less_induct)
  case less
  show ?case
  proof (cases rule: retry_loop_cases [of step w su retry attempt])
    case (answered w1 x)
    with less.prems steps show ?thesis by auto
  next
    case (again w1 r w2)
    then have "I w2" using less.prems(2) steps sleeps by blast
    with again less.prems(1) less.hyps [of "attempt + 1" w2] show ?thesis by simp
  next
    case (refused w1 r w2)
    then show ?thesis using less.prems steps sleeps by (metis prod.inject)
  qed
qed

lemma retry_loop_Inr:
  "retry_loop su retry step attempt w = (w', Inr (x, n)) \<Longrightarrow>
     (\<exists>w0. step w0 = (w', Inr x)) \<and> attempt \<le> n \<and> n \<le> max attempt (pt_attempts retry)"
proof (induction "pt_attempts retry - attempt" arbitrary: attempt w rule: less_induct)
  case less
  show ?case
  proof (cases rule: retry_loop_cases [of step w su retry attempt])
    case (answered w1 y)
    with less.prems show ?thesis by auto
  next
    case (again w1 r w2)
    then have "retry_loop su retry step (attempt + 1) w2 = (w', Inr (x, n))" using less.prems by simp
    then have "(\<exists>w0. step w0 = (w', Inr x)) \<and> attempt + 1 \<le> n \<and> n \<le> max (attempt + 1) (pt_attempts retry)"
      using again(3) by (intro less.hyps) auto
    with again(3) show ?thesis by auto
  next
    case (refused w1 r w2)
    with less.prems show ?thesis by simp
  qed
qed

subsection \<open>A resolved credential\<close>

lemma broker_step_of_Inr: "broker_step_of run c w = (w', Inr out) \<longleftrightarrow> run w c = (w', Inr out)"
  by (auto simp: broker_step_of_def split: prod.splits sum.splits)

lemma classify_Inr: "classify_github_app_repository_access out = Inr u \<longleftrightarrow> is_success out"
  by (simp add: classify_github_app_repository_access_def Let_def)

lemma probe_step_of_Inr:
  "probe_step_of run c w = (w', Inr u) \<longleftrightarrow> (\<exists>out. run w c = (w', Inr out) \<and> is_success out)"
  by (auto simp: probe_step_of_def classify_Inr split: prod.splits sum.splits)

lemma repository_access_Inr:
  assumes "github_app_token_repository_access su run r token retry w = (w', Inr ())"
  obtains w0 out where "run w0 (github_repository_access_command r token) = (w', Inr out)" "is_success out"
  using assms retry_loop_Inr [of su retry "probe_step_of run (github_repository_access_command r token)" 1 w w']
  by (fastforce simp: github_app_token_repository_access_def probe_step_of_Inr split: prod.splits sum.splits)

lemma validate_credential_Inr:
  "validate_github_app_credential now response r = Inr k \<longleftrightarrow>
     trim (ar_token response) \<noteq> [] \<and> ar_repository response = gr_owner r @ ''/'' @ gr_name r
     \<and> trim (ar_app_slug response) \<noteq> [] \<and> ar_installation_id response \<noteq> 0
     \<and> k = \<lparr>ac_token = ar_token response, ac_app_slug = ar_app_slug response,
            ac_installation_id = ar_installation_id response,
            ac_expires_unix_secs = ar_expires_unix_secs response\<rparr> \<and> usable now k"
  by (auto simp: validate_github_app_credential_def Let_def)

lemma credential_of_output_Inr:
  "credential_of_output su now r mode n out = Inr k \<longleftrightarrow>
     is_success out \<and> (\<exists>response. su_decode su (co_stdout out) = Some response
       \<and> validate_github_app_credential now response r = Inr k)
     \<and> ac_app_slug k = am_expected_slug mode \<and> ac_installation_id k = am_expected_installation_id mode"
  by (auto simp: credential_of_output_def split: option.splits sum.splits)

lemma bind_principal:
  assumes "bind_github_app_principal ps r k = (ps', answer)"
  shows "ps \<subseteq>\<^sub>m ps'" "answer = Inr () \<Longrightarrow> ps' (cache_key r) = Some (ac_app_slug k, ac_installation_id k)"
    "answer \<noteq> Inr () \<Longrightarrow> ps' = ps"
  using assms by (auto simp: bind_github_app_principal_def Let_def map_le_def split: option.splits if_splits)

text \<open>The evidence behind a resolved credential.\<close>

lemma resolved_credential:
  assumes "resolve_github_app_credential_with su run r mode retry ps w = (ps', w', Inr k)"
  shows "\<exists>w0 w1 out response w2 probe n. run w0 (broker_command r mode) = (w1, Inr out) \<and> is_success out
    \<and> su_decode su (co_stdout out) = Some response \<and> ar_repository response = gr_owner r @ ''/'' @ gr_name r
    \<and> ar_app_slug response = am_expected_slug mode \<and> ar_installation_id response = am_expected_installation_id mode
    \<and> ac_token k = ar_token response \<and> trim (ac_token k) \<noteq> []
    \<and> ac_app_slug k = am_expected_slug mode \<and> ac_installation_id k = am_expected_installation_id mode
    \<and> usable (su_unix_secs su w1) k
    \<and> retry_loop su retry (broker_step_of run (broker_command r mode)) 1 w = (w1, Inr (out, n))
    \<and> n \<le> max 1 (pt_attempts retry)
    \<and> run w2 (github_repository_access_command r (ac_token k)) = (w', Inr probe) \<and> is_success probe
    \<and> github_app_token_repository_access su run r (ac_token k) retry w1 = (w', Inr ())
    \<and> ps \<subseteq>\<^sub>m ps' \<and> ps' (cache_key r) = Some (am_expected_slug mode, am_expected_installation_id mode)"
proof -
  from assms obtain w1 out n where loop:
    "retry_loop su retry (broker_step_of run (broker_command r mode)) 1 w = (w1, Inr (out, n))"
    and credential: "credential_of_output su (su_unix_secs su w1) r mode n out = Inr k"
    and bound: "bind_github_app_principal ps r k = (ps', Inr ())"
    and access: "github_app_token_repository_access su run r (ac_token k) retry w1 = (w', Inr ())"
    by (auto simp: resolve_github_app_credential_with_def split: prod.splits sum.splits)
  obtain w0 where "run w0 (broker_command r mode) = (w1, Inr out)" "n \<le> max 1 (pt_attempts retry)"
    using retry_loop_Inr [OF loop] by (auto simp: broker_step_of_Inr)
  moreover obtain response where "is_success out" "su_decode su (co_stdout out) = Some response"
    "validate_github_app_credential (su_unix_secs su w1) response r = Inr k"
    "ac_app_slug k = am_expected_slug mode" "ac_installation_id k = am_expected_installation_id mode"
    using credential by (auto simp: credential_of_output_Inr)
  moreover obtain w2 probe where "run w2 (github_repository_access_command r (ac_token k)) = (w', Inr probe)"
    "is_success probe"
    using access by (rule repository_access_Inr)
  ultimately show ?thesis
    using bind_principal [OF bound] loop access unfolding validate_credential_Inr by fastforce
qed

subsection \<open>A record of the children\<close>

text \<open>
  The executions of children a world has seen: the command, what the child got, and its answer. A
  recorded world carries this list beside the world; the record is written at every child and is never
  read by the program.
\<close>

type_synonym child_event = "command_spec \<times> child_request \<times> command_output run_result"

type_synonym 'w recorded = "'w \<times> child_event list"

definition logged_child :: "'w child \<Rightarrow> 'w recorded child" where
  "logged_child child = (\<lambda>(w, events) c request.
     let (w', answer) = child w c request in ((w', events @ [(c, request, answer)]), answer))"

definition logged_env :: "'w process_env \<Rightarrow> 'w recorded process_env" where
  "logged_env pe = \<lparr>pe_monotonic = pe_monotonic pe \<circ> fst, pe_unix_secs = pe_unix_secs pe \<circ> fst,
     pe_sleep = (\<lambda>d. apfst (pe_sleep pe d)), pe_vars = pe_vars pe, pe_json = pe_json pe, pe_credential = pe_credential pe\<rparr>"

definition run_log :: "'w recorded process_state \<Rightarrow> child_event list" where
  "run_log st = snd (st_world st)"

lemma logged_env_simps [simp]:
  "pe_vars (logged_env pe) = pe_vars pe" "pe_credential (logged_env pe) = pe_credential pe"
  "snd (pe_sleep (logged_env pe) d w) = snd w"
  by (simp_all add: logged_env_def)

lemma surroundings_decode: "su_decode (surroundings_of (logged_env pe)) = pe_credential pe"
  by (simp add: surroundings_of_def)

lemma logged_child_appends:
  "logged_child child w c request = (w', answer) \<Longrightarrow> snd w' = snd w @ [(c, request, answer)]"
  by (auto simp: logged_child_def split: prod.splits)

lemma run_log_updates [simp]:
  "run_log (st\<lparr>st_telemetry := t\<rparr>) = run_log st" "run_log (st\<lparr>st_cache := cache\<rparr>) = run_log st"
  "run_log (st\<lparr>st_principals := ps\<rparr>) = run_log st" "run_log (st\<lparr>st_budget := b\<rparr>) = run_log st"
  "run_log (st\<lparr>st_origin_is_github := m\<rparr>) = run_log st" "run_log (st\<lparr>st_world := w\<rparr>) = snd w"
  by (simp_all add: run_log_def)

text \<open>
  What a record shows of a token: the configured broker answered for a repository of this key with the
  configured App slug and installation and this token, and the provider accepted the token for it.
\<close>

definition issued ::
    "(string \<Rightarrow> app_credential_response option) \<Rightarrow> app_mode \<Rightarrow> child_event list \<Rightarrow> string \<Rightarrow> string \<Rightarrow> bool" where
  "issued decode mode events key token \<longleftrightarrow>
     (\<exists>r request out response request' probe. cache_key r = key
        \<and> (broker_command r mode, request, Inr out) \<in> set events \<and> is_success out
        \<and> decode (co_stdout out) = Some response \<and> ar_repository response = gr_owner r @ ''/'' @ gr_name r
        \<and> ar_app_slug response = am_expected_slug mode \<and> ar_installation_id response = am_expected_installation_id mode
        \<and> ar_token response = token \<and> trim token \<noteq> []
        \<and> (github_repository_access_command r token, request', Inr probe) \<in> set events \<and> is_success probe)"

definition origin_query :: command_spec where
  "origin_query = cs_with_args [''config'', ''--get-all'', ''remote.origin.url''] (cs_new ''git'')"

definition configuration_query :: command_spec where
  "configuration_query = cs_with_args [''config'', ''--get-regexp'',
     ''^(url'' @ [CHR 0x5C] @ ''..*'' @ [CHR 0x5C] @ ''.insteadof|remote'' @ [CHR 0x5C] @ ''..*'' @ [CHR 0x5C]
     @ ''.pushurl|http'' @ [CHR 0x5C] @ ''..*'' @ [CHR 0x5C] @ ''.sslverify)$''] (cs_new ''git'')"

text \<open>Git named \<open>r\<close> as the only origin; Git found no rewrite, push URL or TLS override.\<close>

definition origin_answered :: "child_event list \<Rightarrow> github_repository \<Rightarrow> bool" where
  "origin_answered events r \<longleftrightarrow>
     (\<exists>request out. (origin_query, request, Inr out) \<in> set events \<and> is_success out \<and> sole_remote (co_stdout out) = Some r)"

definition configuration_answered :: "child_event list \<Rightarrow> bool" where
  "configuration_answered events \<longleftrightarrow>
     (\<exists>request out. (configuration_query, request, Inr out) \<in> set events
        \<and> co_code out \<in> {Some 0, Some 1} \<and> trim (co_stdout out) = [])"

lemma answered_mono:
  "issued decode mode events key token \<Longrightarrow> set events \<subseteq> set events' \<Longrightarrow> issued decode mode events' key token"
  "origin_answered events r \<Longrightarrow> set events \<subseteq> set events' \<Longrightarrow> origin_answered events' r"
  "configuration_answered events \<Longrightarrow> set events \<subseteq> set events' \<Longrightarrow> configuration_answered events'"
  unfolding issued_def origin_answered_def configuration_answered_def by blast+

subsection \<open>The caches\<close>

text \<open>Same caches and a longer record; a step that keeps cached App credentials issued.\<close>

definition grows :: "'w recorded process_state \<Rightarrow> 'w recorded process_state \<Rightarrow> child_event list \<Rightarrow> bool" where
  "grows st st' events \<longleftrightarrow> run_log st' = run_log st @ events"

definition quiet_step :: "'w recorded process_state \<Rightarrow> 'w recorded process_state \<Rightarrow> bool" where
  "quiet_step st st' \<longleftrightarrow> st_cache st' = st_cache st \<and> st_principals st' = st_principals st \<and> (\<exists>events. grows st st' events)"

definition cache_issued ::
    "(string \<Rightarrow> app_credential_response option) \<Rightarrow> app_mode \<Rightarrow> 'w recorded process_state \<Rightarrow> bool" where
  "cache_issued decode mode st \<longleftrightarrow>
     (\<forall>key k. st_cache st key = Some (Some (AuthApp k)) \<longrightarrow> issued decode mode (run_log st) key (ac_token k))"

definition app_step ::
    "(string \<Rightarrow> app_credential_response option) \<Rightarrow> app_mode \<Rightarrow> 'w recorded process_state \<Rightarrow> 'w recorded process_state \<Rightarrow> bool" where
  "app_step decode mode st st' \<longleftrightarrow> (cache_issued decode mode st \<longrightarrow> cache_issued decode mode st')
     \<and> st_principals st \<subseteq>\<^sub>m st_principals st' \<and> (\<exists>events. grows st st' events)"

lemma grows_refl [simp]: "grows st st []" "\<exists>events. grows st st events"
  by (simp_all add: grows_def)

lemma grows_trans: "grows a b events \<Longrightarrow> grows b c events' \<Longrightarrow> grows a c (events @ events')"
  by (simp add: grows_def)

lemma grows_log: "grows st st' events \<Longrightarrow> set (run_log st) \<subseteq> set (run_log st')"
  by (simp add: grows_def)

lemma quiet_step_refl [simp]: "quiet_step st st"
  by (simp add: quiet_step_def)

lemma quiet_step_trans: "quiet_step a b \<Longrightarrow> quiet_step b c \<Longrightarrow> quiet_step a c"
  using grows_trans by (fastforce simp: quiet_step_def)

lemma cache_issued_later:
  "cache_issued decode mode st \<Longrightarrow> st_cache st' = st_cache st \<Longrightarrow> grows st st' events \<Longrightarrow> cache_issued decode mode st'"
  unfolding cache_issued_def using answered_mono(1) grows_log by metis

lemma quiet_app_step: "quiet_step st st' \<Longrightarrow> app_step decode mode st st'"
  by (auto simp: quiet_step_def app_step_def intro: cache_issued_later)

lemma app_step_trans: "app_step decode mode a b \<Longrightarrow> app_step decode mode b c \<Longrightarrow> app_step decode mode a c"
  unfolding app_step_def by (blast intro: grows_trans map_le_trans)

lemma quiet_step_telemetry [simp]: "quiet_step (st\<lparr>st_telemetry := t\<rparr>) st' = quiet_step st st'"
  "quiet_step st (st'\<lparr>st_telemetry := t\<rparr>) = quiet_step st st'"
  by (simp_all add: quiet_step_def grows_def)

text \<open>In App mode a resolution yields an issued credential or a refusal.\<close>

definition app_selection ::
    "(string \<Rightarrow> app_credential_response option) \<Rightarrow> app_mode \<Rightarrow> child_event list \<Rightarrow> string \<Rightarrow> auth_selection option \<Rightarrow> bool" where
  "app_selection decode mode events key selection =
     (case selection of
        Some (AuthApp k) \<Rightarrow> issued decode mode events key (ac_token k)
      | Some (AuthRefused _) \<Rightarrow> True
      | _ \<Rightarrow> False)"

text \<open>What authentication relies on of the probes: they leave the caches alone and their answers are recorded.\<close>

locale quiet_probe =
  fixes probe :: "'w recorded probe"
  assumes quiet: "probe st c = (st', answer) \<Longrightarrow> quiet_step st st'"
    and recorded: "probe st c = (st', Inr out) \<Longrightarrow> \<exists>request. grows st st' [(c, request, Inr out)]"
begin

lemma discover_quiet:
  assumes "discover_github_repository probe cwd st = (st', found)"
  shows "quiet_step st st'" and "found = Some r \<Longrightarrow> \<exists>events. grows st st' events \<and> origin_answered events r"
proof -
  obtain st1 answer where q: "probe st origin_query = (st1, answer)" by fastforce
  have st': "st_cache st' = st_cache st1 \<and> st_principals st' = st_principals st1 \<and> run_log st' = run_log st1"
    using assms q by (auto simp: discover_github_repository_def Let_def simp flip: origin_query_def split: sum.splits if_splits)
  with quiet [OF q] show "quiet_step st st'" by (simp add: quiet_step_def grows_def)
  assume found: "found = Some r"
  then obtain out where out: "answer = Inr out" "is_success out" "sole_remote (co_stdout out) = Some r"
    using assms q by (auto simp: discover_github_repository_def Let_def simp flip: origin_query_def split: sum.splits if_splits)
  then obtain request where "grows st st1 [(origin_query, request, Inr out)]" using recorded q by blast
  with st' out(2,3) show "\<exists>events. grows st st' events \<and> origin_answered events r"
    by (intro exI [of _ "[(origin_query, request, Inr out)]"]) (auto simp: grows_def origin_answered_def)
qed

lemma configuration_queried:
  "validate_github_app_git_configuration probe st =
     (case probe st configuration_query of
        (st', Inl _) \<Rightarrow> (st', Inl ''could not inspect Git transport configuration'')
      | (st', Inr out) \<Rightarrow>
          (st', if co_code out \<in> {Some 0, Some 1} \<and> trim (co_stdout out) = [] then Inr ()
                else if co_code out = Some 0
                then Inl ''Git URL rewrites, pushurl, and URL-specific TLS overrides are forbidden in App mode''
                else Inl ''could not inspect Git transport configuration''))"
  by (simp only: validate_github_app_git_configuration_def configuration_query_def)

lemma configuration_quiet:
  assumes "validate_github_app_git_configuration probe st = (st', answer)"
  shows "quiet_step st st'" and "answer = Inr () \<Longrightarrow> \<exists>events. grows st st' events \<and> configuration_answered events"
proof -
  obtain st1 a where p: "probe st configuration_query = (st1, a)" by fastforce
  have q: "probe st configuration_query = (st', a)"
    using assms p by (simp add: configuration_queried split: sum.splits)
  thus "quiet_step st st'" by (rule quiet)
  assume "answer = Inr ()"
  then obtain out where out: "a = Inr out" "co_code out \<in> {Some 0, Some 1}" "trim (co_stdout out) = []"
    using assms q by (auto simp: configuration_queried split: sum.splits if_splits)
  then obtain request where "grows st st' [(configuration_query, request, Inr out)]" using recorded q by blast
  with out(2,3) show "\<exists>events. grows st st' events \<and> configuration_answered events"
    by (intro exI [of _ "[(configuration_query, request, Inr out)]"]) (auto simp: configuration_answered_def)
qed

lemma broker_step_quiet: "broker_step_of probe c st = (st', answer) \<Longrightarrow> quiet_step st st'"
  by (auto simp: broker_step_of_def dest!: quiet split: prod.splits sum.splits)

lemma probe_step_quiet: "probe_step_of probe c st = (st', answer) \<Longrightarrow> quiet_step st st'"
  by (auto simp: probe_step_of_def dest!: quiet split: prod.splits sum.splits)

lemma retry_quiet:
  assumes "\<And>st st' answer. step st = (st', answer) \<Longrightarrow> quiet_step st st'"
    and "retry_loop (surroundings_of (logged_env pe)) retry step n st = (st', answer)"
  shows "quiet_step st st'"
proof (rule retry_loop_invariant [where I = "quiet_step st", OF _ _ assms(2)])
  fix d st1
  assume "quiet_step st st1"
  then show "quiet_step st (su_sleep (surroundings_of (logged_env pe)) d st1)"
    by (simp add: quiet_step_def grows_def surroundings_of_def) (simp add: run_log_def)
qed (use assms(1) quiet_step_trans quiet_step_refl in blast)+

lemma access_quiet:
  "github_app_token_repository_access (surroundings_of (logged_env pe)) probe r token retry st = (st', answer)
   \<Longrightarrow> quiet_step st st'"
  using retry_quiet [OF probe_step_quiet]
  by (fastforce simp: github_app_token_repository_access_def split: prod.splits sum.splits)

lemma credential_quiet:
  assumes "resolve_github_app_credential (surroundings_of (logged_env pe)) probe deadline r mode ps st = (ps', st', answer)"
  shows "quiet_step st st' \<and> ps \<subseteq>\<^sub>m ps'"
proof -
  have first: "quiet_step st st1"
    if "retry_loop (surroundings_of (logged_env pe)) (production_retry deadline) (broker_step_of probe (broker_command r mode)) (Suc 0) st
      = (st1, a)" for st1 a
    using that broker_step_quiet by (rule retry_quiet [rotated])
  show ?thesis
    using assms unfolding resolve_github_app_credential_def resolve_github_app_credential_with_def
    by (auto split: prod.splits sum.splits dest: first access_quiet bind_principal(1) intro: quiet_step_trans)
qed

text \<open>A resolved credential is issued by the record.\<close>

lemma credential_issued:
  assumes "resolve_github_app_credential (surroundings_of (logged_env pe)) probe deadline r mode ps st = (ps', st', Inr k)"
  shows "issued (pe_credential pe) mode (run_log st') (cache_key r) (ac_token k)"
proof -
  let ?su = "surroundings_of (logged_env pe)"
  obtain s0 s1 out response s2 access where e: "probe s0 (broker_command r mode) = (s1, Inr out)" "is_success out"
      "pe_credential pe (co_stdout out) = Some response" "ar_repository response = gr_owner r @ ''/'' @ gr_name r"
      "ar_app_slug response = am_expected_slug mode" "ar_installation_id response = am_expected_installation_id mode"
      "ac_token k = ar_token response" "trim (ac_token k) \<noteq> []"
      "probe s2 (github_repository_access_command r (ac_token k)) = (st', Inr access)" "is_success access"
      "github_app_token_repository_access ?su probe r (ac_token k) (production_retry deadline) s1 = (st', Inr ())"
    using resolved_credential [OF assms [unfolded resolve_github_app_credential_def]] surroundings_decode by metis
  obtain request where "grows s0 s1 [(broker_command r mode, request, Inr out)]" using recorded [OF e(1)] by blast
  moreover obtain events where "grows s1 st' events" using access_quiet [OF e(11)] by (auto simp: quiet_step_def)
  moreover obtain request' where "grows s2 st' [(github_repository_access_command r (ac_token k), request', Inr access)]"
    using recorded [OF e(9)] by blast
  ultimately have "(broker_command r mode, request, Inr out) \<in> set (run_log s1)" "set (run_log s1) \<subseteq> set (run_log st')"
      "(github_repository_access_command r (ac_token k), request', Inr access) \<in> set (run_log st')"
    by (simp_all add: grows_log) (simp_all add: grows_def)
  then have "(broker_command r mode, request, Inr out) \<in> set (run_log st')"
      "(github_repository_access_command r (ac_token k), request', Inr access) \<in> set (run_log st')"
    by blast+
  with e(2-8,10) show ?thesis
    unfolding issued_def
    by (intro exI [of _ r] exI [of _ request] exI [of _ out] exI [of _ response] exI [of _ request'] exI [of _ access]) simp
qed

lemma uncached_app:
  assumes mode: "github_app_mode (pe_vars pe) = Inr (Some mode)"
    and run: "resolve_github_auth_uncached (logged_env pe) probe deadline r st = (st', selection)"
  shows "app_selection (pe_credential pe) mode (run_log st') (cache_key r) selection
    \<and> st_cache st' = st_cache st \<and> st_principals st \<subseteq>\<^sub>m st_principals st' \<and> (\<exists>events. grows st st' events)"
proof -
  obtain ps st1 answer where
    resolved: "resolve_github_app_credential (surroundings_of (logged_env pe)) probe deadline r mode (st_principals st) st
      = (ps, st1, answer)"
    by (metis prod_cases3)
  then have "quiet_step st st1" "st_principals st \<subseteq>\<^sub>m ps" by (simp_all add: credential_quiet)
  moreover have "issued (pe_credential pe) mode (run_log st1) (cache_key r) (ac_token k)" if "answer = Inr k" for k
    using credential_issued resolved that by blast
  ultimately show ?thesis
    using run mode resolved
    by (cases answer) (auto simp: resolve_github_auth_uncached_def app_selection_def quiet_step_def grows_def)
qed

lemma resolve_app:
  assumes mode: "github_app_mode (pe_vars pe) = Inr (Some mode)"
    and run: "resolve_github_auth_for_repository (logged_env pe) probe deadline r st = (st', selection)"
    and ok: "cache_issued (pe_credential pe) mode st"
  shows "app_selection (pe_credential pe) mode (run_log st') (cache_key r) selection
    \<and> app_step (pe_credential pe) mode st st'"
proof (cases "cached_selection True (pe_unix_secs (logged_env pe) (st_world st)) (st_cache st (cache_key r))")
  case (Some cached)
  then obtain k where "st_cache st (cache_key r) = Some (Some (AuthApp k))" "cached = Some (AuthApp k)"
    by (auto simp: cached_selection_def split: option.splits auth_selection.splits if_splits)
  with run mode Some ok show ?thesis
    using quiet_app_step [OF quiet_step_refl]
    by (auto simp: resolve_github_auth_for_repository_def app_selection_def cache_issued_def)
next
  case None
  obtain st1 chosen where uncached: "resolve_github_auth_uncached (logged_env pe) probe deadline r st = (st1, chosen)"
    by (cases "resolve_github_auth_uncached (logged_env pe) probe deadline r st")
  from uncached_app [OF mode uncached] obtain events where
    facts: "app_selection (pe_credential pe) mode (run_log st1) (cache_key r) chosen" "st_cache st1 = st_cache st"
      "st_principals st \<subseteq>\<^sub>m st_principals st1" "grows st st1 events"
    by blast
  have "cache_issued (pe_credential pe) mode st1" using cache_issued_later [OF ok facts(2,4)] .
  with facts(1) have stored: "cache_issued (pe_credential pe) mode (st1\<lparr>st_cache := (st_cache st1)(cache_key r \<mapsto> chosen)\<rparr>)"
    by (auto simp: cache_issued_def app_selection_def split: if_splits)
  have "selection = chosen" "st' = st1 \<or> st' = st1\<lparr>st_cache := (st_cache st1)(cache_key r \<mapsto> chosen)\<rparr>"
    using run mode None uncached
    by (auto simp: resolve_github_auth_for_repository_def split: option.splits auth_selection.splits)
  with facts stored \<open>cache_issued (pe_credential pe) mode st1\<close> show ?thesis
    by (auto simp: app_step_def grows_def)
qed

end

lemma reserve_quiet: "reserve_for pn c st = (st', answer) \<Longrightarrow> quiet_step st st' \<and> run_log st' = run_log st"
  by (auto simp: reserve_for_def quiet_step_def grows_def split: if_splits option.splits prod.splits)

lemma run_child_recorded:
  assumes "run_child (logged_child child) pn c env timeout st = (st', answer)"
  shows "quiet_step st st' \<and> grows st st' [(c, child_of pn c env timeout, answer)]"
proof -
  obtain w where "logged_child child (st_world st) c (child_of pn c env timeout) = (w, answer)" "st' = st\<lparr>st_world := w\<rparr>"
    using assms by (auto simp: run_child_def split: prod.splits)
  thus ?thesis using logged_child_appends [of child "st_world st" c "child_of pn c env timeout" w answer]
    by (simp add: quiet_step_def grows_def) (simp add: run_log_def)
qed

interpretation pr: quiet_probe "probe_run (logged_env pe) (logged_child child) pn" for pe :: "'w process_env" and child and pn
proof
  fix st st' :: "'w recorded process_state" and c answer
  assume run: "probe_run (logged_env pe) (logged_child child) pn st c = (st', answer)"
  then show "quiet_step st st'"
    by (auto simp: probe_run_def dest: reserve_quiet run_child_recorded intro: quiet_step_trans
        split: prod.splits sum.splits)
next
  fix st st' :: "'w recorded process_state" and c out
  assume run: "probe_run (logged_env pe) (logged_child child) pn st c = (st', Inr out)"
  obtain st1 reserved where r: "reserve_for pn c st = (st1, reserved)" by (cases "reserve_for pn c st")
  then obtain timeout where "run_child (logged_child child) pn c (base_env c) timeout st1 = (st', Inr out)"
    using run by (auto simp: probe_run_def split: sum.splits)
  with reserve_quiet [OF r] show "\<exists>request. grows st st' [(c, request, Inr out)]"
    using run_child_recorded by (fastforce simp: grows_def)
qed

subsection \<open>One attempt\<close>

text \<open>The repository of a request: the one it names, or else the checkout's only origin.\<close>

definition request_bound :: "command_spec \<Rightarrow> child_event list \<Rightarrow> github_repository \<Rightarrow> bool" where
  "request_bound c events r =
     (case explicit_gh_repository c of Some named \<Rightarrow> r = named | None \<Rightarrow> origin_answered events r)"

definition git_bound :: "command_spec \<Rightarrow> child_event list \<Rightarrow> github_repository \<Rightarrow> bool" where
  "git_bound c events r \<longleftrightarrow>
     (\<exists>origin. git_repository_of c origin = Inr r \<and> (\<forall>o'. origin = Some o' \<longrightarrow> origin_answered events o'))"

lemma bound_mono:
  "request_bound c events r \<Longrightarrow> set events \<subseteq> set events' \<Longrightarrow> request_bound c events' r"
  "git_bound c events r \<Longrightarrow> set events \<subseteq> set events' \<Longrightarrow> git_bound c events' r"
  using answered_mono(2) by (auto simp: request_bound_def git_bound_def split: option.splits)

lemma request_repository_step:
  assumes "request_repository (probe_run (logged_env pe) (logged_child child) qn) pn c st = (st', found)"
  shows "quiet_step st st'" and "found = Some r \<Longrightarrow> \<exists>events. grows st st' events \<and> request_bound c events r"
proof -
  show "quiet_step st st'"
    using assms by (auto simp: request_repository_def dest: pr.discover_quiet(1) split: option.splits)
  assume "found = Some r"
  show "\<exists>events. grows st st' events \<and> request_bound c events r"
  proof (cases "explicit_gh_repository c")
    case None
    with assms \<open>found = Some r\<close> have "discover_github_repository (probe_run (logged_env pe) (logged_child child) qn) (runner_cwd pn) st
        = (st', Some r)"
      by (simp add: request_repository_def)
    from pr.discover_quiet(2) [OF this refl] None show ?thesis by (simp add: request_bound_def)
  next
    case (Some named)
    with assms \<open>found = Some r\<close> have "st' = st" "r = named" by (simp_all add: request_repository_def)
    with Some show ?thesis by (simp add: request_bound_def)
  qed
qed

lemma inferred_auth_app:
  assumes mode: "github_app_mode (pe_vars pe) = Inr (Some mode)"
    and infer: "pn_infer_github_auth pn" "is_gh_request c" "\<not> explicit_token c"
    and run: "inferred_github_auth (logged_env pe) (logged_child child) pn c st = (st', selection)"
    and ok: "cache_issued (pe_credential pe) mode st"
  shows "app_step (pe_credential pe) mode st st'
    \<and> ((\<exists>refusal. selection = Some (AuthRefused refusal))
       \<or> (\<exists>k r events. selection = Some (AuthApp k) \<and> grows st st' events \<and> request_bound c events r
            \<and> issued (pe_credential pe) mode (run_log st') (cache_key r) (ac_token k)))"
proof -
  define qn where "qn = (probe_runner_for (logged_env pe) pn)\<lparr>pn_budgeted := pn_budgeted pn\<rparr>"
  let ?probe = "probe_run (logged_env pe) (logged_child child) qn"
  obtain st1 repository where found: "request_repository ?probe pn c st = (st1, repository)"
    by (cases "request_repository ?probe pn c st")
  then have step1: "app_step (pe_credential pe) mode st st1" by (intro quiet_app_step request_repository_step(1))
  with ok have ok1: "cache_issued (pe_credential pe) mode st1" by (simp add: app_step_def)
  show ?thesis
  proof (cases repository)
    case None
    with run mode infer found step1 show ?thesis
      by (auto simp: inferred_github_auth_def simp flip: qn_def)
  next
    case (Some r)
    obtain st2 chosen where resolved:
      "resolve_github_auth_for_repository (logged_env pe) ?probe (pn_operation_deadline pn) r st1 = (st2, chosen)"
      by (cases "resolve_github_auth_for_repository (logged_env pe) ?probe (pn_operation_deadline pn) r st1")
    from pr.resolve_app [OF mode resolved ok1]
    have chosen: "app_selection (pe_credential pe) mode (run_log st2) (cache_key r) chosen"
      and step2: "app_step (pe_credential pe) mode st1 st2" by simp_all
    obtain e1 where e1: "grows st st1 e1" "request_bound c e1 r"
      using request_repository_step(2) [OF found Some] by blast
    obtain e2 where "grows st1 st2 e2" using step2 by (auto simp: app_step_def)
    with e1 have bound: "grows st st2 (e1 @ e2) \<and> request_bound c (e1 @ e2) r"
      using grows_trans bound_mono(1) [of c e1 r "e1 @ e2"] by auto
    have end_state: "st' = st2" "selection = Some (the chosen)" "chosen \<noteq> None"
      using run mode infer found Some resolved chosen
      by (auto simp: inferred_github_auth_def app_selection_def simp flip: qn_def split: option.splits)
    have "(\<exists>refusal. chosen = Some (AuthRefused refusal))
        \<or> (\<exists>k. chosen = Some (AuthApp k) \<and> issued (pe_credential pe) mode (run_log st2) (cache_key r) (ac_token k))"
      using chosen by (auto simp: app_selection_def split: option.splits auth_selection.splits)
    with bound end_state app_step_trans [OF step1 step2] show ?thesis by auto
  qed
qed

lemma inferred_auth_step:
  assumes "github_app_mode (pe_vars pe) = Inr (Some mode)"
    and "inferred_github_auth (logged_env pe) (logged_child child) pn c st = (st', selection)"
    and "cache_issued (pe_credential pe) mode st"
  shows "app_step (pe_credential pe) mode st st'"
proof (cases "pn_infer_github_auth pn \<and> is_gh_request c \<and> \<not> explicit_token c")
  case True
  with assms show ?thesis using inferred_auth_app by blast
next
  case False
  then have "st' = st" using assms(2) by (auto simp: inferred_github_auth_def)
  then show ?thesis using quiet_app_step [OF quiet_step_refl] by simp
qed

text \<open>The Git transport is bound to the repository the command names, or to the checkout's remote.\<close>

lemma inferred_git_auth_app:
  assumes mode: "github_app_mode (pe_vars pe) = Inr (Some mode)"
    and run: "inferred_github_app_git_auth (logged_env pe) (logged_child child) pn c st = (st', answer)"
    and ok: "cache_issued (pe_credential pe) mode st"
  shows "app_step (pe_credential pe) mode st st' \<and>
    (pn_infer_github_auth pn \<and> is_remote_git_request c \<longrightarrow> answer \<noteq> Inr None) \<and>
    (\<forall>a. answer = Inr (Some a) \<longrightarrow> is_remote_git_request c
       \<and> (\<exists>events. grows st st' events \<and> git_bound c events (ag_repository a) \<and> configuration_answered events)
       \<and> issued (pe_credential pe) mode (run_log st') (cache_key (ag_repository a)) (ac_token (ag_credential a)))"
proof (cases "pn_infer_github_auth pn \<and> is_remote_git_request c")
  case False
  with run quiet_app_step [OF quiet_step_refl] show ?thesis by (auto simp: inferred_github_app_git_auth_def)
next
  case True
  let ?decode = "pe_credential pe"
  let ?probe = "probe_run (logged_env pe) (logged_child child) (probe_runner_for (logged_env pe) pn)"
  obtain st1 origin where found: "discover_github_repository ?probe (runner_cwd pn) st = (st1, origin)" by fastforce
  then have step1: "app_step ?decode mode st st1" by (intro quiet_app_step pr.discover_quiet(1))
  obtain e1 where e1: "grows st st1 e1" "\<And>o'. origin = Some o' \<Longrightarrow> origin_answered e1 o'"
  proof (cases origin)
    case None
    then show ?thesis using that step1 by (auto simp: app_step_def)
  next
    case (Some r)
    then show ?thesis using that pr.discover_quiet(2) [OF found Some] by auto
  qed
  show ?thesis
  proof (cases "git_repository_of c origin")
    case (Inl e)
    with run mode True found step1 show ?thesis by (auto simp: inferred_github_app_git_auth_def Let_def)
  next
    case (Inr r)
    obtain st2 checked where config: "validate_github_app_git_configuration ?probe st1 = (st2, checked)" by fastforce
    then have "app_step ?decode mode st1 st2" by (intro quiet_app_step pr.configuration_quiet(1))
    with step1 have step2: "app_step ?decode mode st st2" by (rule app_step_trans)
    obtain st3 chosen where resolved:
      "resolve_github_auth_for_repository (logged_env pe) ?probe (pn_operation_deadline pn) r st2 = (st3, chosen)" by fastforce
    have "cache_issued ?decode mode st2" using ok step2 by (simp add: app_step_def)
    from pr.resolve_app [OF mode resolved this]
    have chosen: "app_selection ?decode mode (run_log st3) (cache_key r) chosen" and step23: "app_step ?decode mode st2 st3"
      by simp_all
    from step2 step23 have step3: "app_step ?decode mode st st3" by (rule app_step_trans)
    show ?thesis
    proof (cases checked)
      case (Inl e)
      with run mode True found Inr config step2 show ?thesis
        by (auto simp: inferred_github_app_git_auth_def Let_def)
    next
      case checked: (Inr u)
      then obtain e2 where e2: "grows st1 st2 e2" "configuration_answered e2" using pr.configuration_quiet(2) [OF config] by auto
      obtain e3 where "grows st2 st3 e3" using step23 by (auto simp: app_step_def)
      with e1(1) e2(1) have grown: "grows st st3 (e1 @ e2 @ e3)" using grows_trans by blast
      have "git_bound c e1 r" unfolding git_bound_def using Inr e1(2) by blast
      then have bound: "git_bound c (e1 @ e2 @ e3) r" by (rule bound_mono(2)) simp
      have configured: "configuration_answered (e1 @ e2 @ e3)" by (rule answered_mono(3) [OF e2(2)]) auto
      have end_state: "st' = st3" "answer = git_auth_of_selection r chosen"
        using run mode True found Inr checked config resolved
        by (auto simp: inferred_github_app_git_auth_def Let_def)
      have "(\<exists>refusal. chosen = Some (AuthRefused refusal))
          \<or> (\<exists>k. chosen = Some (AuthApp k) \<and> issued ?decode mode (run_log st3) (cache_key r) (ac_token k))"
        using chosen by (auto simp: app_selection_def split: option.splits auth_selection.splits)
      moreover have "\<exists>events. grows st st3 events \<and> git_bound c events r \<and> configuration_answered events"
        using grown bound configured by blast
      ultimately show ?thesis using end_state step3 True
        by (elim disjE exE conjE) (simp_all add: git_auth_of_selection_def, blast)
    qed
  qed
qed

text \<open>
  What an attempt that produced output shows: with \<open>events\<close> the children it ran before and \<open>all\<close> the whole
  record, the authentication that was selected is issued for the repository of the request.
\<close>

definition attempt_evidence ::
    "(string \<Rightarrow> app_credential_response option) \<Rightarrow> app_mode \<Rightarrow> process_runner \<Rightarrow> command_spec \<Rightarrow> child_event list
     \<Rightarrow> child_event list \<Rightarrow> auth_selection option \<Rightarrow> app_git_auth option \<Rightarrow> bool" where
  "attempt_evidence decode mode pn c all events auth git \<longleftrightarrow>
     (pn_infer_github_auth pn \<and> is_gh_request c \<and> \<not> explicit_token c
        \<longrightarrow> (\<exists>k r. auth = Some (AuthApp k) \<and> request_bound c events r \<and> issued decode mode all (cache_key r) (ac_token k)))
      \<and> (pn_infer_github_auth pn \<and> is_remote_git_request c \<longrightarrow> git \<noteq> None)
      \<and> (\<forall>a. git = Some a \<longrightarrow> is_remote_git_request c \<and> git_bound c events (ag_repository a) \<and> configuration_answered events
              \<and> issued decode mode all (cache_key (ag_repository a)) (ac_token (ag_credential a)))"

lemma attempt_evidence_mono:
  assumes "attempt_evidence decode mode pn c all events auth git" "set events \<subseteq> set events'" "set all \<subseteq> set all'"
  shows "attempt_evidence decode mode pn c all' events' auth git"
  using assms(1) unfolding attempt_evidence_def
  by (elim conjE, intro conjI)
    (blast intro: answered_mono(1) [OF _ assms(3)] answered_mono(3) [OF _ assms(2)] bound_mono [OF _ assms(2)])+

lemma run_authenticated_cases:
  assumes "run_authenticated pe (logged_child child) pn c timeout auth git st = (st', answer)"
  shows "quiet_step st st'"
    "answer = Inr (out, auth', git') \<Longrightarrow> auth' = auth \<and> git' = git \<and> (\<forall>r. auth \<noteq> Some (AuthRefused r))
       \<and> grows st st' [(c, child_of pn c (child_env c auth git) timeout, Inr out)]"
proof -
  obtain t where t: "run_authenticated pe (logged_child child) pn c timeout auth git st =
      (case auth of
         Some (AuthRefused refusal) \<Rightarrow> (st\<lparr>st_telemetry := t\<rparr>, Inl (AppAuthRefused c refusal))
       | _ \<Rightarrow>
           (case run_child (logged_child child) pn c (child_env c auth git) timeout (st\<lparr>st_telemetry := t\<rparr>) of
              (st'', Inl e) \<Rightarrow> (st'', Inl e)
            | (st'', Inr out) \<Rightarrow> (st'', Inr (out, auth, git))))"
    unfolding run_authenticated_def Let_def by blast
  obtain st2 r where child: "run_child (logged_child child) pn c (child_env c auth git) timeout (st\<lparr>st_telemetry := t\<rparr>) = (st2, r)"
    by fastforce
  from run_child_recorded [OF this] have ran: "quiet_step st st2" "grows st st2 [(c, child_of pn c (child_env c auth git) timeout, r)]"
    by (simp_all add: grows_def)
  show "quiet_step st st'"
    using assms t child ran(1) by (auto split: option.splits auth_selection.splits sum.splits)
  assume "answer = Inr (out, auth', git')"
  with assms t child ran(2) show "auth' = auth \<and> git' = git \<and> (\<forall>r. auth \<noteq> Some (AuthRefused r))
       \<and> grows st st' [(c, child_of pn c (child_env c auth git) timeout, Inr out)]"
    by (auto split: option.splits auth_selection.splits sum.splits)
qed

text \<open>The parts of an attempt that reaches its child.\<close>

lemma run_attempt_parts:
  assumes "run_attempt pe child pn c st = (st', answer)"
  obtains (early) st1 reserved where "reserve_for pn c st = (st1, reserved)" "st' = st1" "\<exists>e. answer = Inl e"
  | (unbound) st1 reserved st2 sel e where "reserve_for pn c st = (st1, reserved)"
      "inferred_github_auth pe child pn c st1 = (st2, sel)" "inferred_github_app_git_auth pe child pn c st2 = (st', Inl e)"
      "\<exists>e. answer = Inl e"
  | (ran) st1 reserved st2 sel st3 git timeout where "reserve_for pn c st = (st1, reserved)"
      "inferred_github_auth pe child pn c st1 = (st2, sel)" "inferred_github_app_git_auth pe child pn c st2 = (st3, Inr git)"
      "run_authenticated pe child pn c timeout sel git st3 = (st', answer)"
proof -
  obtain st1 reserved where r: "reserve_for pn c st = (st1, reserved)" by fastforce
  obtain st2 sel where a: "inferred_github_auth pe child pn c st1 = (st2, sel)" by fastforce
  obtain st3 bound where g: "inferred_github_app_git_auth pe child pn c st2 = (st3, bound)" by fastforce
  let ?limit = "effective_timeout (pn_timeout pn) (pn_operation_deadline pn) (pe_monotonic pe (st_world st1)) c"
  show ?thesis
    using assms r a g early unbound ran
    by (cases reserved; cases ?limit; cases bound) (simp_all add: run_attempt_def, blast+)
qed

lemma run_attempt_app:
  assumes mode: "github_app_mode (pe_vars pe) = Inr (Some mode)"
    and run: "run_attempt (logged_env pe) (logged_child child) pn c st = (st', answer)"
    and ok: "cache_issued (pe_credential pe) mode st"
  shows "app_step (pe_credential pe) mode st st' \<and> (\<forall>out auth git. answer = Inr (out, auth, git)
    \<longrightarrow> (\<exists>events timeout. grows st st' (events @ [(c, child_of pn c (child_env c auth git) timeout, Inr out)])
          \<and> attempt_evidence (pe_credential pe) mode pn c (run_log st @ events) events auth git))"
  using run
proof (cases rule: run_attempt_parts)
  case (early st1 reserved)
  with reserve_quiet [OF early(1)] show ?thesis by (auto intro: quiet_app_step)
next
  case (unbound st1 reserved st2 sel e)
  have step1: "app_step (pe_credential pe) mode st st1" using reserve_quiet [OF unbound(1)] by (simp add: quiet_app_step)
  then have ok1: "cache_issued (pe_credential pe) mode st1" using ok by (simp add: app_step_def)
  have step2: "app_step (pe_credential pe) mode st1 st2" by (rule inferred_auth_step [OF mode unbound(2) ok1])
  then have ok2: "cache_issued (pe_credential pe) mode st2" using ok1 by (simp add: app_step_def)
  have "app_step (pe_credential pe) mode st2 st'" using inferred_git_auth_app [OF mode unbound(3) ok2] by simp
  with step1 step2 unbound(4) show ?thesis by (auto intro: app_step_trans)
next
  case (ran st1 reserved st2 sel st3 git timeout)
  let ?decode = "pe_credential pe"
  have step1: "app_step ?decode mode st st1" using reserve_quiet [OF ran(1)] by (simp add: quiet_app_step)
  then have ok1: "cache_issued ?decode mode st1" using ok by (simp add: app_step_def)
  have step2: "app_step ?decode mode st1 st2" by (rule inferred_auth_step [OF mode ran(2) ok1])
  then have ok2: "cache_issued ?decode mode st2" using ok1 by (simp add: app_step_def)
  note bound = inferred_git_auth_app [OF mode ran(3) ok2]
  have step3: "app_step ?decode mode st2 st3" using bound by simp
  have step4: "app_step ?decode mode st3 st'" by (rule quiet_app_step [OF run_authenticated_cases(1) [OF ran(4)]])
  have steps: "app_step ?decode mode st st'" using step1 step2 step3 step4 by (blast intro: app_step_trans)
  have "\<exists>events timeout. grows st st' (events @ [(c, child_of pn c (child_env c auth git') timeout, Inr out)])
      \<and> attempt_evidence ?decode mode pn c (run_log st @ events) events auth git'"
    if answer: "answer = Inr (out, auth, git')" for out auth git'
  proof -
    from run_authenticated_cases(2) [OF ran(4) answer]
    have used: "auth = sel" "git' = git" "\<forall>r. sel \<noteq> Some (AuthRefused r)"
      and last: "grows st3 st' [(c, child_of pn c (child_env c sel git) timeout, Inr out)]" by auto
    obtain e1 where e1: "grows st st1 e1" using step1 by (auto simp: app_step_def)
    obtain e2 where e2: "grows st1 st2 e2"
        "pn_infer_github_auth pn \<and> is_gh_request c \<and> \<not> explicit_token c \<longrightarrow> (\<exists>k r. sel = Some (AuthApp k)
           \<and> request_bound c e2 r \<and> issued ?decode mode (run_log st2) (cache_key r) (ac_token k))"
    proof (cases "pn_infer_github_auth pn \<and> is_gh_request c \<and> \<not> explicit_token c")
      case True
      then show ?thesis using that inferred_auth_app [OF mode _ _ _ ran(2) ok1] used(3) by blast
    next
      case False
      then show ?thesis using that step2 by (auto simp: app_step_def)
    qed
    obtain e3 where e3: "grows st2 st3 e3"
        "\<forall>a. git = Some a \<longrightarrow> git_bound c e3 (ag_repository a) \<and> configuration_answered e3"
    proof (cases git)
      case None
      then show ?thesis using that step3 by (auto simp: app_step_def)
    next
      case (Some a)
      then obtain e3 where "grows st2 st3 e3" "git_bound c e3 (ag_repository a)" "configuration_answered e3"
        using bound by auto
      then show ?thesis using that Some by blast
    qed
    let ?events = "e1 @ e2 @ e3"
    have grown: "grows st st3 ?events" using grows_trans [OF e1 grows_trans [OF e2(1) e3(1)]] .
    then have log3: "run_log st3 = run_log st @ ?events" by (simp add: grows_def)
    have log2: "set (run_log st2) \<subseteq> set (run_log st @ ?events)" using grows_log [OF e3(1)] log3 by simp
    have subsets: "set e2 \<subseteq> set ?events" "set e3 \<subseteq> set ?events" by auto
    have gh: "pn_infer_github_auth pn \<and> is_gh_request c \<and> \<not> explicit_token c \<longrightarrow> (\<exists>k r. sel = Some (AuthApp k)
        \<and> request_bound c ?events r \<and> issued ?decode mode (run_log st @ ?events) (cache_key r) (ac_token k))"
      using e2(2) bound_mono(1) [OF _ subsets(1)] answered_mono(1) [OF _ log2] by blast
    have transport: "git = Some a \<longrightarrow> is_remote_git_request c \<and> git_bound c ?events (ag_repository a) \<and> configuration_answered ?events
        \<and> issued ?decode mode (run_log st @ ?events) (cache_key (ag_repository a)) (ac_token (ag_credential a))" for a
      using bound e3(2) bound_mono(2) [OF _ subsets(2)] answered_mono(3) [OF _ subsets(2)] unfolding log3 by blast
    have "pn_infer_github_auth pn \<and> is_remote_git_request c \<longrightarrow> git \<noteq> None" using bound by simp
    with gh transport have "attempt_evidence ?decode mode pn c (run_log st @ ?events) ?events sel git"
      unfolding attempt_evidence_def by blast
    with grows_trans [OF grown last] show ?thesis unfolding used by blast
  qed
  with steps show ?thesis by blast
qed

lemma process_run_attempts:
  assumes mode: "github_app_mode (pe_vars pe) = Inr (Some mode)"
    and run: "process_run (logged_env pe) (logged_child child) pn st c = (st', answer)"
    and ok: "cache_issued (pe_credential pe) mode st"
  shows "app_step (pe_credential pe) mode st st' \<and> (\<forall>out. answer = Inr out
    \<longrightarrow> (\<exists>auth git events timeout. grows st st' (events @ [(c, child_of pn c (child_env c auth git) timeout, Inr out)])
          \<and> attempt_evidence (pe_credential pe) mode pn c (run_log st @ events) events auth git))"
proof -
  let ?decode = "pe_credential pe"
  let ?pn = "pn\<lparr>pn_github_app_auth_retry := False\<rparr>"
  let ?shown = "\<lambda>st' out. \<exists>auth git events timeout.
      grows st st' (events @ [(c, child_of pn c (child_env c auth git) timeout, Inr out)])
      \<and> attempt_evidence ?decode mode pn c (run_log st @ events) events auth git"
  have same: "attempt_evidence ?decode mode ?pn = attempt_evidence ?decode mode pn" "child_of ?pn = child_of pn"
    by (simp_all add: attempt_evidence_def child_of_def fun_eq_iff)
  obtain st1 first where one: "run_attempt (logged_env pe) (logged_child child) pn c st = (st1, first)" by fastforce
  note first = run_attempt_app [OF mode one ok]
  let ?cleared = "invalidate_github_app_auth_cache st1"
  have log: "run_log ?cleared = run_log st1" by (simp add: invalidate_github_app_auth_cache_def)
  have cleared: "app_step ?decode mode st1 ?cleared"
    by (auto simp: app_step_def cache_issued_def grows_def invalidate_github_app_auth_cache_def
        split: option.splits auth_selection.splits)
  have ok1: "cache_issued ?decode mode ?cleared" using ok first cleared by (simp add: app_step_def)
  obtain st2 second where two: "run_attempt (logged_env pe) (logged_child child) ?pn c ?cleared = (st2, second)" by fastforce
  note second = run_attempt_app [OF mode two ok1, unfolded same]
  have step2: "app_step ?decode mode st st2" using first cleared second by (blast intro: app_step_trans)
  have finished: "app_step ?decode mode st (finish_run (logged_env pe) c out s)" if "app_step ?decode mode st s" for out s
    using that by (auto simp: app_step_def finish_run_def cache_issued_def grows_def)
  have shown_finished: "?shown (finish_run (logged_env pe) c o' s) out = ?shown s out" for o' s out
    by (simp add: grows_def finish_run_def)
  have shown1: "?shown st1 out" if "first = Inr (out, auth, git)" for out auth git
    using first that by blast
  have shown2: "?shown st2 out" if "second = Inr (out, auth, git)" for out auth git
  proof -
    obtain e1 where e1: "run_log st1 = run_log st @ e1" using first by (auto simp: app_step_def grows_def)
    from second that obtain events timeout where
      e2: "grows ?cleared st2 (events @ [(c, child_of pn c (child_env c auth git) timeout, Inr out)])"
        "attempt_evidence ?decode mode pn c (run_log ?cleared @ events) events auth git" by blast
    have "grows st st2 ((e1 @ events) @ [(c, child_of pn c (child_env c auth git) timeout, Inr out)])"
      using e2(1) e1 log by (simp add: grows_def)
    moreover have "attempt_evidence ?decode mode pn c (run_log st @ e1 @ events) (e1 @ events) auth git"
      by (rule attempt_evidence_mono [OF e2(2)]) (auto simp: log e1)
    ultimately show ?thesis by blast
  qed
  consider (failed) "st' = st1 \<or> st' = st2" "\<exists>e. answer = Inl e"
    | (once) out auth git where "first = Inr (out, auth, git)" "st' = finish_run (logged_env pe) c out st1" "answer = Inr out"
    | (twice) out auth git where "second = Inr (out, auth, git)" "st' = finish_run (logged_env pe) c out st2" "answer = Inr out"
    using run one two by (auto simp: process_run_def split: sum.splits prod.splits if_splits)
  then show ?thesis
  proof cases
    case failed
    with first step2 show ?thesis by auto
  next
    case (once out auth git)
    with first finished shown1 [OF once(1)] shown_finished [of out st1 out] show ?thesis by auto
  next
    case (twice out auth git)
    with step2 finished shown2 [OF twice(1)] shown_finished [of out st2 out] show ?thesis by auto
  qed
qed

subsection \<open>Environments of a child\<close>

lemma bt_get_fold_entries:
  "bt_get (fold (\<lambda>(k, v). bt_insert k (f v)) xs m) key
     = (case map_of (rev xs) key of Some v \<Rightarrow> Some (f v) | None \<Rightarrow> bt_get m key)"
  by (induction xs arbitrary: m) (auto simp: bt_get_insert map_add_def split: option.splits)

lemma bt_get_fold_remove:
  "bt_get (fold (\<lambda>k. bt_insert k None) ks m) key = (if key \<in> set ks then Some None else bt_get m key)"
  by (induction ks arbitrary: m) (auto simp: bt_get_insert)

lemma bt_wf_fold_insert: "bt_wf m \<Longrightarrow> bt_wf (fold (\<lambda>(k, v). bt_insert k v) xs m)"
  by (induction xs arbitrary: m) (auto simp: bt_wf_insert)

lemma git_environment_wf: "bt_wf (github_app_git_environment a)"
  unfolding github_app_git_environment_def Let_def
  by (split if_split, intro conjI impI) (intro bt_wf_insert bt_wf_fold_insert bt.wf_empty)+

lemma child_env_git:
  "bt_get (child_env c auth (Some a)) key
     = (case bt_get (github_app_git_environment a) key of
          Some v \<Rightarrow> Some (Some v)
        | None \<Rightarrow> if key \<in> set removed_git_variables then Some None else bt_get (child_env c auth None) key)"
proof -
  have "distinct (map fst (github_app_git_environment a))"
    using bt.keys_distinct [OF git_environment_wf] by (simp add: bt_keys_def)
  then have "map_of (rev (github_app_git_environment a)) key = bt_get (github_app_git_environment a) key"
    by (metis bt_get_def distinct_rev map_of_inject_set rev_map set_rev)
  then show ?thesis
    by (simp add: child_env_def Let_def bt_get_fold_entries bt_get_fold_remove split: option.split)
qed

lemma child_env_app_token: "bt_get (child_env c (Some (AuthApp k)) None) ''GH_TOKEN'' = Some (Some (ac_token k))"
  by (simp add: child_env_def bt_get_insert)

lemma gh_not_git: "is_gh_request c \<Longrightarrow> \<not> is_remote_git_request c"
  by (simp add: is_gh_request_def is_remote_git_request_def)

subsection \<open>Git transport\<close>

lemma select_remote_clean:
  "select_remote args selected = Inr found \<Longrightarrow> list_all (\<lambda>a. redact_url_userinfo a = a) args"
  by (induction args selected rule: select_remote.induct) (auto split: if_splits option.splits)

lemma git_repository_of_Inr:
  assumes "git_repository_of c origin = Inr r"
  shows "gr_git_transport r \<noteq> TransportHttp" "list_all (\<lambda>a. redact_url_userinfo a = a) (cs_args c)"
    "list_all (\<lambda>a. \<not> names_other_remote r a) (cs_args c)"
proof -
  from assms obtain explicit where e: "explicit_github_repository c = Inr explicit"
    and v: "validate_github_app_git_repository r c = Inr ()"
    by (auto simp: git_repository_of_def split: sum.splits option.splits)
  from e show "list_all (\<lambda>a. redact_url_userinfo a = a) (cs_args c)"
    unfolding explicit_github_repository_def by (rule select_remote_clean)
  from v show "gr_git_transport r \<noteq> TransportHttp" "list_all (\<lambda>a. \<not> names_other_remote r a) (cs_args c)"
    by (auto simp: validate_github_app_git_repository_def list_ex_iff list_all_iff split: if_splits)
qed

text \<open>Which repository a bound Git command has.\<close>

lemma git_bound_named:
  assumes "git_bound c events r"
  shows "explicit_github_repository c = Inr (Some r) \<or> explicit_github_repository c = Inr None \<and> origin_answered events r"
proof -
  obtain origin where o: "git_repository_of c origin = Inr r" "\<forall>o'. origin = Some o' \<longrightarrow> origin_answered events o'"
    using assms by (auto simp: git_bound_def)
  obtain explicit where e: "explicit_github_repository c = Inr explicit"
    using o(1) by (cases "explicit_github_repository c") (simp_all add: git_repository_of_def)
  show ?thesis
  proof (cases explicit)
    case None
    then obtain named where "origin = Some named" using o(1) e by (cases origin) (simp_all add: git_repository_of_def)
    moreover from this have "named = r" using o(1) e None by (simp add: git_repository_of_def split: sum.splits)
    ultimately show ?thesis using o(2) e None by simp
  next
    case (Some named)
    then have "named = r" using o(1) e by (simp add: git_repository_of_def split: sum.splits)
    with e Some show ?thesis by simp
  qed
qed

lemma git_environment_get:
  "bt_get (github_app_git_environment a) ''CARA_GITHUB_APP_GIT_TOKEN'' = Some (ac_token (ag_credential a))"
  "bt_get (github_app_git_environment a) ''GIT_CONFIG_KEY_4'' = Some ''http.sslVerify''"
  "bt_get (github_app_git_environment a) ''GIT_CONFIG_VALUE_4'' = Some ''true''"
  "bt_get (github_app_git_environment a) ''GIT_SSL_NO_VERIFY'' = None"
  "gr_git_transport (ag_repository a) = TransportSsh \<Longrightarrow>
     bt_get (github_app_git_environment a) ''GIT_CONFIG_COUNT'' = Some ''6''"
  "gr_git_transport (ag_repository a) \<noteq> TransportSsh \<Longrightarrow>
     bt_get (github_app_git_environment a) ''GIT_CONFIG_COUNT'' = Some ''5''"
  "gr_git_transport (ag_repository a) = TransportSsh \<Longrightarrow>
     bt_get (github_app_git_environment a) ''GIT_CONFIG_KEY_5'' = Some ''remote.origin.url''"
  "gr_git_transport (ag_repository a) = TransportSsh \<Longrightarrow>
     bt_get (github_app_git_environment a) ''GIT_CONFIG_VALUE_5''
       = Some (''https://'' @ cache_key (ag_repository a) @ ''.git'')"
  by (simp_all add: github_app_git_environment_def github_app_git_token_env_def cache_key_def
      bt_get_insert bt_get_def [of "[]"] Let_def del: bt_insert.simps)

end
