(* ===== verification/App_Record.thy ===== *)
theory App_Record
  imports App_Facts
begin

text \<open>
  Recording the children of a run is transparent: over the recorded world of \<open>App_Facts\<close> every
  operation of \<open>App_Runner\<close> does, beside writing the record, exactly what it does over the plain world.
  So a recorded run is the run of the program with the history of its children beside it.
\<close>

subsection \<open>Forgetting the record\<close>

definition unrecorded :: "'w recorded process_state \<Rightarrow> 'w process_state" where
  "unrecorded st = \<lparr>st_world = fst (st_world st), st_budget = st_budget st, st_cache = st_cache st,
     st_principals = st_principals st, st_origin_is_github = st_origin_is_github st, st_telemetry = st_telemetry st\<rparr>"

lemma unrecorded_fields [simp]:
  "st_world (unrecorded st) = fst (st_world st)" "st_budget (unrecorded st) = st_budget st"
  "st_cache (unrecorded st) = st_cache st" "st_principals (unrecorded st) = st_principals st"
  "st_origin_is_github (unrecorded st) = st_origin_is_github st" "st_telemetry (unrecorded st) = st_telemetry st"
  by (simp_all add: unrecorded_def)

lemma unrecorded_updates [simp]:
  "(unrecorded st)\<lparr>st_world := fst w\<rparr> = unrecorded (st\<lparr>st_world := w\<rparr>)"
  "(unrecorded st)\<lparr>st_budget := b\<rparr> = unrecorded (st\<lparr>st_budget := b\<rparr>)"
  "(unrecorded st)\<lparr>st_cache := cache\<rparr> = unrecorded (st\<lparr>st_cache := cache\<rparr>)"
  "(unrecorded st)\<lparr>st_principals := ps\<rparr> = unrecorded (st\<lparr>st_principals := ps\<rparr>)"
  "(unrecorded st)\<lparr>st_origin_is_github := m\<rparr> = unrecorded (st\<lparr>st_origin_is_github := m\<rparr>)"
  "(unrecorded st)\<lparr>st_telemetry := t\<rparr> = unrecorded (st\<lparr>st_telemetry := t\<rparr>)"
  by (simp_all add: unrecorded_def)

lemma case_apfst: "(case apfst f p of (a, b) \<Rightarrow> h a b) = (case p of (a, b) \<Rightarrow> h (f a) b)"
  by (cases p) simp

lemma logged_child_forgets: "child (fst w) c request = apfst fst (logged_child child w c request)"
  by (cases w) (simp add: logged_child_def split: prod.split)

lemma logged_env_forgets [simp]:
  "pe_monotonic (logged_env pe) w = pe_monotonic pe (fst w)" "pe_unix_secs (logged_env pe) w = pe_unix_secs pe (fst w)"
  "fst (pe_sleep (logged_env pe) d w) = pe_sleep pe d (fst w)" "pe_json (logged_env pe) = pe_json pe"
  by (simp_all add: logged_env_def)

lemma surroundings_forget:
  "su_monotonic (surroundings_of pe) (unrecorded st) = su_monotonic (surroundings_of (logged_env pe)) st"
  "su_unix_secs (surroundings_of pe) (unrecorded st) = su_unix_secs (surroundings_of (logged_env pe)) st"
  "su_sleep (surroundings_of pe) d (unrecorded st) = unrecorded (su_sleep (surroundings_of (logged_env pe)) d st)"
  "su_decode (surroundings_of (logged_env pe)) = su_decode (surroundings_of pe)"
  by (simp_all add: surroundings_of_def unrecorded_def)

named_theorems forget \<open>an operation on a state without its record\<close>

lemma reserve_forgets [forget]: "reserve_for pn c (unrecorded st) = apfst unrecorded (reserve_for pn c st)"
  by (simp add: reserve_for_def split: option.split prod.split)

lemma run_child_forgets [forget]:
  "run_child child pn c env timeout (unrecorded st) = apfst unrecorded (run_child (logged_child child) pn c env timeout st)"
  by (simp add: run_child_def logged_child_forgets case_apfst split: prod.split)

lemma wait_forgets:
  "wait_before_retry (surroundings_of pe) retry attempt r (unrecorded st)
     = apfst unrecorded (wait_before_retry (surroundings_of (logged_env pe)) retry attempt r st)"
  by (simp add: wait_before_retry_def Let_def surroundings_forget split: option.split)

lemma retry_forgets:
  assumes step: "\<And>st. step' (unrecorded st) = apfst unrecorded (step st)"
  shows "retry_loop (surroundings_of pe) retry step' attempt (unrecorded st)
     = apfst unrecorded (retry_loop (surroundings_of (logged_env pe)) retry step attempt st)"
  using step
proof (induction "surroundings_of (logged_env pe)" retry step attempt st rule: retry_loop.induct)
  case (1 retry step attempt st)
  show ?case
    using 1
    by (subst (1 2) retry_loop.simps) (simp add: case_apfst wait_forgets Let_def split: prod.split sum.split)
qed

subsection \<open>Over a probe\<close>

locale forgetful_probe =
  fixes probe :: "'w recorded probe" and plain :: "'w probe"
  assumes probe_forgets: "plain (unrecorded st) c = apfst unrecorded (probe st c)"
begin

lemma token_forgets: "github_token_for_login plain r login (unrecorded st) = apfst unrecorded (github_token_for_login probe r login st)"
  by (simp add: github_token_for_login_def probe_forgets case_apfst split: prod.split sum.split)

lemma access_forgets: "github_token_can_access plain r token (unrecorded st) = apfst unrecorded (github_token_can_access probe r token st)"
  by (simp add: github_token_can_access_def probe_forgets case_apfst split: prod.split sum.split)

lemma logins_forget: "try_logins plain r logins (unrecorded st) = apfst unrecorded (try_logins probe r logins st)"
  by (induction logins arbitrary: st)
    (simp_all add: token_forgets access_forgets case_apfst split: prod.split option.split bool.split)

lemma account_forgets: "resolve_account pe plain r (unrecorded st) = apfst unrecorded (resolve_account (logged_env pe) probe r st)"
  by (simp del: try_logins.simps add: resolve_account_def logins_forget probe_forgets case_apfst Let_def split: prod.split option.split)

lemma credential_forgets:
  "resolve_github_app_credential (surroundings_of pe) plain deadline r mode ps (unrecorded st)
     = apsnd (apfst unrecorded) (resolve_github_app_credential (surroundings_of (logged_env pe)) probe deadline r mode ps st)"
proof -
  have broker: "broker_step_of plain c (unrecorded s) = apfst unrecorded (broker_step_of probe c s)" for c s
    by (simp add: broker_step_of_def probe_forgets case_apfst split: prod.split sum.split)
  have access: "probe_step_of plain c (unrecorded s) = apfst unrecorded (probe_step_of probe c s)" for c s
    by (simp add: probe_step_of_def probe_forgets case_apfst split: prod.split sum.split)
  show ?thesis
    by (simp add: resolve_github_app_credential_def resolve_github_app_credential_with_def
        github_app_token_repository_access_def retry_forgets [where step' = "broker_step_of plain c" and step = "broker_step_of probe c" for c, OF broker]
        retry_forgets [where step' = "probe_step_of plain c" and step = "probe_step_of probe c" for c, OF access]
        surroundings_forget credential_of_output_def case_apfst split: prod.split sum.split)
qed

lemma uncached_forgets:
  "resolve_github_auth_uncached pe plain deadline r (unrecorded st)
     = apfst unrecorded (resolve_github_auth_uncached (logged_env pe) probe deadline r st)"
  by (simp add: resolve_github_auth_uncached_def credential_forgets account_forgets split: prod.split sum.split option.split)

lemma selection_forgets:
  "resolve_github_auth_for_repository pe plain deadline r (unrecorded st)
     = apfst unrecorded (resolve_github_auth_for_repository (logged_env pe) probe deadline r st)"
  by (simp add: resolve_github_auth_for_repository_def uncached_forgets case_apfst
      split: prod.split option.split auth_selection.split)

lemma discover_forgets: "discover_github_repository plain cwd (unrecorded st) = apfst unrecorded (discover_github_repository probe cwd st)"
  by (simp add: discover_github_repository_def probe_forgets case_apfst Let_def split: prod.split sum.split)

lemma repository_forgets: "request_repository plain pn c (unrecorded st) = apfst unrecorded (request_repository probe pn c st)"
  by (simp add: request_repository_def discover_forgets split: option.split)

lemma configuration_forgets:
  "validate_github_app_git_configuration plain (unrecorded st) = apfst unrecorded (validate_github_app_git_configuration probe st)"
  by (simp add: validate_github_app_git_configuration_def probe_forgets case_apfst split: prod.split sum.split)

end

lemma probe_run_forgets: "probe_run pe child pn (unrecorded st) c = apfst unrecorded (probe_run (logged_env pe) (logged_child child) pn st c)"
  by (simp add: probe_run_def forget case_apfst split: prod.split sum.split)

interpretation fp: forgetful_probe "probe_run (logged_env pe) (logged_child child) pn" "probe_run pe child pn"
  by unfold_locales (rule probe_run_forgets)

subsection \<open>A whole run\<close>

lemma probe_runner_logged [simp]: "probe_runner_for (logged_env pe) pn = probe_runner_for pe pn"
  by (simp add: probe_runner_for_def)

lemma inferred_auth_forgets [forget]:
  "inferred_github_auth pe child pn c (unrecorded st)
     = apfst unrecorded (inferred_github_auth (logged_env pe) (logged_child child) pn c st)"
  by (simp add: inferred_github_auth_def Let_def fp.repository_forgets fp.selection_forgets case_apfst
      split: prod.split sum.split option.split)

lemma inferred_git_forgets [forget]:
  "inferred_github_app_git_auth pe child pn c (unrecorded st)
     = apfst unrecorded (inferred_github_app_git_auth (logged_env pe) (logged_child child) pn c st)"
  by (simp add: inferred_github_app_git_auth_def Let_def fp.discover_forgets fp.configuration_forgets fp.selection_forgets
      case_apfst split: prod.split sum.split option.split)

lemma authenticated_forgets [forget]:
  "run_authenticated pe child pn c timeout auth git (unrecorded st)
     = apfst unrecorded (run_authenticated (logged_env pe) (logged_child child) pn c timeout auth git st)"
  by (simp add: run_authenticated_def Let_def origin_is_not_github_def forget case_apfst
      split: prod.split sum.split option.split auth_selection.split)

lemma attempt_forgets [forget]:
  "run_attempt pe child pn c (unrecorded st) = apfst unrecorded (run_attempt (logged_env pe) (logged_child child) pn c st)"
  by (simp add: run_attempt_def forget case_apfst split: prod.split sum.split)

lemma invalidate_forgets [forget]:
  "invalidate_github_app_auth_cache (unrecorded st) = unrecorded (invalidate_github_app_auth_cache st)"
  by (simp add: invalidate_github_app_auth_cache_def)

lemma finish_forgets [forget]: "finish_run pe c out (unrecorded st) = unrecorded (finish_run (logged_env pe) c out st)"
  by (simp add: finish_run_def)

text \<open>
  Forgetting the record of a recorded run gives the run of the program: the same answer, and the same
  world, caches, budget and telemetry.
\<close>

theorem recorded_run_is_the_run:
  "process_run pe child pn (unrecorded st) c = apfst unrecorded (process_run (logged_env pe) (logged_child child) pn st c)"
  by (simp add: process_run_def forget case_apfst split: prod.split sum.split)

lemma recorded_run:
  "process_run (logged_env pe) (logged_child child) pn st c = (st', answer)
     \<Longrightarrow> process_run pe child pn (unrecorded st) c = (unrecorded st', answer)"
  by (simp add: recorded_run_is_the_run)

end
