(* ===== verification/App_Safety.thy ===== *)
theory App_Safety
  imports App_Record
begin

text \<open>
  The guarantees of App mode, with a small installation on which they are exercised: a broker, a
  provider and a Git that answer every command with success.
\<close>

text \<open>
  What a resolved App credential proves, for any broker and provider: the credential broker
  answered for exactly this repository with the configured App slug and installation, the token is
  not blank and outlives the next minute, the principal is bound to the repository and no binding
  made before has changed, and the provider accepted the token for this repository. Both loops end,
  each within the configured number of attempts.
\<close>

theorem resolved_app_credential_sound:
  assumes "resolve_github_app_credential_with su run r mode retry ps w = (ps', w', Inr k)"
  shows "\<exists>w0 w1 out response w2 probe n. run w0 (broker_command r mode) = (w1, Inr out) \<and> is_success out
    \<and> su_decode su (co_stdout out) = Some response \<and> ar_repository response = gr_owner r @ ''/'' @ gr_name r
    \<and> ar_app_slug response = am_expected_slug mode \<and> ar_installation_id response = am_expected_installation_id mode
    \<and> ac_token k = ar_token response \<and> trim (ac_token k) \<noteq> []
    \<and> ac_app_slug k = am_expected_slug mode \<and> ac_installation_id k = am_expected_installation_id mode
    \<and> usable (su_unix_secs su w1) k
    \<and> retry_loop su retry (broker_step_of run (broker_command r mode)) 1 w = (w1, Inr (out, n))
    \<and> n \<le> max 1 (pt_attempts retry)
    \<and> run w2 (github_repository_access_command r (ac_token k)) = (w', Inr probe) \<and> is_success probe
    \<and> github_app_token_repository_access su run r (ac_token k) retry w1 = (w', Inr ())
    \<and> ps \<subseteq>\<^sub>m ps' \<and> ps' (cache_key r) = Some (am_expected_slug mode, am_expected_installation_id mode)"
  by (rule resolved_credential [OF assms])

text \<open>
  C11. App mode never falls back to another identity. Whatever the broker, Git and the provider answer, and
  whatever retries it takes: a provider request without its own token that ends with output has, as the
  last child of its run, run the request itself, with a token that the record shows issued: the configured
  broker answered with this token for the repository of the request under the configured App slug and
  installation, and the provider accepted it for that repository. The repository is the one the request
  names, or else the only origin Git named during this run. Cached credentials stay issued ones, and a
  principal bound to a repository is never bound to another. The record is only a history: without it the
  run is the program's, with the same answer and state.
\<close>

theorem app_mode_never_falls_back:
  assumes "github_app_mode (pe_vars pe) = Inr (Some mode)" "pn_infer_github_auth pn"
    and "is_gh_request c" "\<not> explicit_token c" "cache_issued (pe_credential pe) mode st"
    and "process_run (logged_env pe) (logged_child child) pn st c = (st', answer)"
  shows "process_run pe child pn (unrecorded st) c = (unrecorded st', answer)
    \<and> cache_issued (pe_credential pe) mode st' \<and> st_principals st \<subseteq>\<^sub>m st_principals st'
    \<and> (\<forall>out. answer = Inr out \<longrightarrow>
         (\<exists>events env timeout r token.
            run_log st' = run_log st @ events @ [(c, child_of pn c env timeout, Inr out)]
            \<and> bt_get env ''GH_TOKEN'' = Some (Some token)
            \<and> request_bound c events r
            \<and> issued (pe_credential pe) mode (run_log st @ events) (cache_key r) token))"
proof -
  from process_run_attempts [OF assms(1,6,5)] have step: "app_step (pe_credential pe) mode st st'"
    and ran: "\<And>out. answer = Inr out \<Longrightarrow> \<exists>auth git events timeout.
      grows st st' (events @ [(c, child_of pn c (child_env c auth git) timeout, Inr out)])
      \<and> attempt_evidence (pe_credential pe) mode pn c (run_log st @ events) events auth git" by auto
  have "\<exists>events env timeout r token.
      run_log st' = run_log st @ events @ [(c, child_of pn c env timeout, Inr out)]
      \<and> bt_get env ''GH_TOKEN'' = Some (Some token) \<and> request_bound c events r
      \<and> issued (pe_credential pe) mode (run_log st @ events) (cache_key r) token" if out: "answer = Inr out" for out
  proof -
    obtain auth git events timeout where last: "grows st st' (events @ [(c, child_of pn c (child_env c auth git) timeout, Inr out)])"
      and evidence: "attempt_evidence (pe_credential pe) mode pn c (run_log st @ events) events auth git"
      using ran [OF out] by blast
    obtain k r where k: "auth = Some (AuthApp k)" "request_bound c events r"
        "issued (pe_credential pe) mode (run_log st @ events) (cache_key r) (ac_token k)"
      using evidence assms(2,3,4) unfolding attempt_evidence_def by blast
    have "git = None" using evidence gh_not_git [OF assms(3)] by (cases git) (auto simp: attempt_evidence_def)
    with last k show ?thesis
      using child_env_app_token [of c k] unfolding grows_def
      by (intro exI [of _ events] exI [of _ "child_env c auth git"] exI [of _ timeout] exI [of _ r] exI [of _ "ac_token k"]) simp
  qed
  with step assms(5) recorded_run [OF assms(6)] show ?thesis by (auto simp: app_step_def)
qed

subsection \<open>Remote URLs\<close>

lemma split_chars_pieces: "\<forall>w\<in>set (split_chars p s). \<forall>x\<in>set w. \<not> p x"
  by (induction s) (auto split: list.splits)

lemma split_chars_one: "split_chars (\<lambda>x. x = c) s = [v] \<Longrightarrow> s = v"
  by (induction s arbitrary: v) (auto split: list.splits if_splits)

lemma split_chars_pair: "split_chars (\<lambda>x. x = c) s = [u, v] \<Longrightarrow> s = u @ c # v"
  by (induction s arbitrary: u) (auto split: list.splits if_splits dest: split_chars_one)

lemma last_piece_free: "c \<notin> set (last_piece c s)"
proof
  assume "c \<in> set (last_piece c s)"
  moreover have "last_piece c s \<in> set (split_chars (\<lambda>x. x = c) s)"
    unfolding last_piece_def by (rule last_in_set) simp
  ultimately show False using split_chars_pieces [of "\<lambda>x. x = c" s] by blast
qed

lemma trim_end_str_fixed: "p \<noteq> [] \<Longrightarrow> \<not> ends_with (trim_end_str p s) p"
proof (induction "length s" arbitrary: s rule: less_induct)
  case less
  show ?case
  proof (cases "ends_with s p")
    case True
    then have "length (take (length s - length p) s) < length s"
      using less.prems by (auto simp: ends_with_def neq_Nil_conv)
    with less True show ?thesis by (subst trim_end_str.simps) simp
  next
    case False
    then show ?thesis by (subst trim_end_str.simps) simp
  qed
qed

lemma trim_end_str_id: "\<not> ends_with s p \<Longrightarrow> trim_end_str p s = s"
  by (subst trim_end_str.simps) simp

lemma trim_end_str_once: "p \<noteq> [] \<Longrightarrow> trim_end_str p (s @ p) = trim_end_str p s"
  by (subst trim_end_str.simps) (simp add: ends_with_def)

lemma trim_end_char_id: "s \<noteq> [] \<Longrightarrow> last s \<noteq> c \<Longrightarrow> trim_end_char c s = s"
  by (cases s rule: rev_cases) (simp_all add: trim_end_char_def)

lemma parse_remote_Some:
  assumes "parse_github_remote remote = Some r"
  obtains path where "remote_location remote = Some (gr_host r, path, gr_git_transport r)"
    "CHR ''/'' \<notin> set (gr_owner r)" "CHR ''/'' \<notin> set (gr_name r)" "gr_owner r \<noteq> []" "gr_name r \<noteq> []"
    "\<not> ends_with (gr_owner r @ ''/'' @ gr_name r) ''.git''"
proof -
  from assms obtain host path transport owner name where l: "remote_location remote = Some (host, path, transport)"
    and parts: "split_chars (\<lambda>x. x = CHR ''/'') (trim_end_str ''.git'' (trim_end_char (CHR ''/'') path)) = [owner, name]"
    and r: "owner \<noteq> []" "name \<noteq> []"
      "r = \<lparr>gr_host = host, gr_owner = owner, gr_name = name, gr_git_transport = transport\<rparr>"
    by (auto simp: parse_github_remote_def split: option.splits list.splits if_splits)
  have "trim_end_str ''.git'' (trim_end_char (CHR ''/'') path) = owner @ CHR ''/'' # name"
    by (rule split_chars_pair [OF parts])
  then have "\<not> ends_with (owner @ ''/'' @ name) ''.git''"
    using trim_end_str_fixed [of "''.git''"] by (metis append_Cons append_Nil list.discI)
  moreover have "CHR ''/'' \<notin> set owner" "CHR ''/'' \<notin> set name"
    using split_chars_pieces [of "\<lambda>x. x = CHR ''/''" "trim_end_str ''.git'' (trim_end_char (CHR ''/'') path)"]
    unfolding parts by auto
  ultimately show ?thesis using that l r by simp
qed

lemma parse_https_url:
  assumes "CHR ''/'' \<notin> set host" "CHR ''@'' \<notin> set host" "CHR ''/'' \<notin> set owner" "CHR ''/'' \<notin> set name"
    "owner \<noteq> []" "name \<noteq> []" "\<not> ends_with (owner @ ''/'' @ name) ''.git''"
  shows "parse_github_remote (''https://'' @ host @ ''/'' @ owner @ ''/'' @ name @ ''.git'')
    = Some \<lparr>gr_host = host, gr_owner = owner, gr_name = name, gr_git_transport = TransportHttps\<rparr>"
proof -
  let ?path = "owner @ ''/'' @ name @ ''.git''"
  have "remote_location (''https://'' @ host @ ''/'' @ ?path) = Some (host, ?path, TransportHttps)"
    using assms(1,2) split_once_char [of "CHR ''/''" host ?path]
    by (simp add: remote_location_def strip_prefix_def starts_with_def)
  moreover have "trim_end_char (CHR ''/'') ?path = ?path"
    by (rule trim_end_char_id) simp_all
  moreover have "trim_end_str ''.git'' ?path = owner @ ''/'' @ name"
    using trim_end_str_once [of "''.git''" "owner @ ''/'' @ name"] trim_end_str_id [OF assms(7)] by simp
  moreover have "split_chars (\<lambda>x. x = CHR ''/'') (owner @ ''/'' @ name) = [owner, name]"
    using split_chars_append [of "\<lambda>x. x = CHR ''/''" "CHR ''/''" owner name]
      split_chars_single [of name "\<lambda>x. x = CHR ''/''"] assms(3,4) by (metis append_Cons append_Nil)
  ultimately show ?thesis using assms(5,6) by (simp add: parse_github_remote_def)
qed

text \<open>
  C39. The HTTPS URL that replaces an SSH remote in App mode names the same repository: it is read
  back as the same host, owner and name, over HTTPS. (A host with a slash, which only the
  \<open>host:path\<close> form can produce, is excluded.)
\<close>

theorem ssh_overlay_roundtrip:
  assumes "parse_github_remote remote = Some r" "gr_git_transport r = TransportSsh" "CHR ''/'' \<notin> set (gr_host r)"
  shows "parse_github_remote (''https://'' @ cache_key r @ ''.git'') = Some (r\<lparr>gr_git_transport := TransportHttps\<rparr>)"
proof -
  from assms(1) obtain path where l: "remote_location remote = Some (gr_host r, path, gr_git_transport r)"
    and parts: "CHR ''/'' \<notin> set (gr_owner r)" "CHR ''/'' \<notin> set (gr_name r)" "gr_owner r \<noteq> []" "gr_name r \<noteq> []"
      "\<not> ends_with (gr_owner r @ ''/'' @ gr_name r) ''.git''"
    by (rule parse_remote_Some)
  from l assms(2) obtain authority where "last_piece (CHR ''@'') authority = gr_host r"
    by (auto simp: remote_location_def split: option.splits if_splits)
  then have "CHR ''@'' \<notin> set (gr_host r)" using last_piece_free by metis
  from parse_https_url [OF assms(3) this parts] show ?thesis by (simp add: cache_key_def)
qed

text \<open>
  C12. A remote Git command that ran in App mode is bound to one repository \<open>r\<close>: the remote its arguments
  name, or else the only origin Git named during this run. During this run Git also reported no URL
  rewrite, push URL or TLS override, and the token of the child is one that the record shows issued for
  \<open>r\<close> under the configured identity. The child got certificate checks on and no way to switch them off; no
  argument carried credentials; every remote it names is \<open>r\<close> over HTTPS; \<open>r\<close> is not reached over plain HTTP;
  and when it is an SSH remote, the child's configuration has a sixth entry that overlays the origin
  with the HTTPS URL of \<open>r\<close>. Without the record the run is the program's, with the same answer and state.
\<close>

theorem app_git_transport_bound:
  assumes "github_app_mode (pe_vars pe) = Inr (Some mode)" "pn_infer_github_auth pn"
    and "is_remote_git_request c" "cache_issued (pe_credential pe) mode st"
    and "process_run (logged_env pe) (logged_child child) pn st c = (st', Inr out)"
  shows "process_run pe child pn (unrecorded st) c = (unrecorded st', Inr out) \<and> (\<exists>events env timeout r token.
    run_log st' = run_log st @ events @ [(c, child_of pn c env timeout, Inr out)]
    \<and> (explicit_github_repository c = Inr (Some r) \<or> explicit_github_repository c = Inr None \<and> origin_answered events r)
    \<and> configuration_answered events
    \<and> issued (pe_credential pe) mode (run_log st @ events) (cache_key r) token
    \<and> bt_get env ''CARA_GITHUB_APP_GIT_TOKEN'' = Some (Some token)
    \<and> bt_get env ''GIT_CONFIG_KEY_4'' = Some (Some ''http.sslVerify'')
    \<and> bt_get env ''GIT_CONFIG_VALUE_4'' = Some (Some ''true'') \<and> bt_get env ''GIT_SSL_NO_VERIFY'' = Some None
    \<and> (\<forall>x\<in>set (cs_args c). redact_url_userinfo x = x)
    \<and> (\<forall>x\<in>set (cs_args c). \<forall>e. parse_github_remote x = Some e
         \<longrightarrow> cache_key e = cache_key r \<and> gr_git_transport e = TransportHttps)
    \<and> gr_git_transport r \<noteq> TransportHttp
    \<and> (gr_git_transport r = TransportSsh
         \<longrightarrow> bt_get env ''GIT_CONFIG_COUNT'' = Some (Some ''6'')
           \<and> bt_get env ''GIT_CONFIG_KEY_5'' = Some (Some ''remote.origin.url'')
           \<and> bt_get env ''GIT_CONFIG_VALUE_5'' = Some (Some (''https://'' @ cache_key r @ ''.git'')))
    \<and> (gr_git_transport r \<noteq> TransportSsh \<longrightarrow> bt_get env ''GIT_CONFIG_COUNT'' = Some (Some ''5'')))"
proof -
  obtain auth git events timeout where
    last: "grows st st' (events @ [(c, child_of pn c (child_env c auth git) timeout, Inr out)])"
    and evidence: "attempt_evidence (pe_credential pe) mode pn c (run_log st @ events) events auth git"
    using process_run_attempts [OF assms(1,5,4)] by blast
  then obtain a where a: "git = Some a" using assms(2,3) by (auto simp: attempt_evidence_def)
  with evidence have bound: "git_bound c events (ag_repository a)" "configuration_answered events"
      "issued (pe_credential pe) mode (run_log st @ events) (cache_key (ag_repository a)) (ac_token (ag_credential a))"
    unfolding attempt_evidence_def by blast+
  then obtain origin where named: "git_repository_of c origin = Inr (ag_repository a)" by (auto simp: git_bound_def)
  have env: "bt_get (child_env c auth git) key = Some (Some v)"
    if "bt_get (github_app_git_environment a) key = Some v" for key v
    using that a by (simp add: child_env_git)
  have verify: "bt_get (child_env c auth git) ''GIT_SSL_NO_VERIFY'' = Some None"
    using a git_environment_get(4) by (simp add: child_env_git removed_git_variables_def)
  have remotes: "cache_key e = cache_key (ag_repository a) \<and> gr_git_transport e = TransportHttps"
    if "x \<in> set (cs_args c)" "parse_github_remote x = Some e" for x e
    using git_repository_of_Inr(3) [OF named] that by (auto simp: list_all_iff names_other_remote_def)
  have clean: "\<forall>x\<in>set (cs_args c). redact_url_userinfo x = x" "gr_git_transport (ag_repository a) \<noteq> TransportHttp"
    using git_repository_of_Inr(1,2) [OF named] by (simp_all add: list_all_iff)
  note entries = env [OF git_environment_get(1)] env [OF git_environment_get(2)] env [OF git_environment_get(3)]
    env [OF git_environment_get(5)] env [OF git_environment_get(6)] env [OF git_environment_get(7)] env [OF git_environment_get(8)]
  show ?thesis
    by (rule conjI [OF recorded_run [OF assms(5)]], intro exI [of _ events] exI [of _ "child_env c auth git"]
        exI [of _ timeout] exI [of _ "ag_repository a"] exI [of _ "ac_token (ag_credential a)"])
      (use last [unfolded grows_def] git_bound_named [OF bound(1)] bound(2,3) entries verify remotes clean in blast)
qed

subsection \<open>A small installation\<close>

definition app_vars :: "string \<Rightarrow> string option" where
  "app_vars = [''CARA_GITHUB_AUTH_MODE'' \<mapsto> ''app_installation'', ''CARA_GITHUB_APP_CREDENTIAL_COMMAND'' \<mapsto> ''b'',
     ''CARA_GITHUB_APP_SLUG'' \<mapsto> ''s'', ''CARA_GITHUB_APP_INSTALLATION_ID'' \<mapsto> ''7'']"

definition app_env :: "unit process_env" where
  "app_env = \<lparr>pe_monotonic = (\<lambda>_. 0), pe_unix_secs = (\<lambda>_. 0), pe_sleep = (\<lambda>_ w. w), pe_vars = app_vars,
     pe_json = (\<lambda>_. None), pe_credential = (\<lambda>_. Some \<lparr>ar_token = ''t'', ar_app_slug = ''s'',
       ar_installation_id = 7, ar_repository = ''o/r'', ar_expires_unix_secs = 100\<rparr>)\<rparr>"

definition ok_output :: command_output where
  "ok_output = \<lparr>co_code = Some 0, co_stdout = [], co_stderr = []\<rparr>"

text \<open>Git names one SSH origin; every other command succeeds with no output.\<close>

definition origin_output :: command_output where
  "origin_output = \<lparr>co_code = Some 0, co_stdout = ''git@h:o/r'' @ [newline], co_stderr = []\<rparr>"

definition app_child :: "unit child" where
  "app_child w c request = (w, Inr (if c = origin_query then origin_output else ok_output))"

definition app_state :: "unit recorded process_state" where
  "app_state = \<lparr>st_world = ((), []), st_budget = None, st_cache = Map.empty, st_principals = Map.empty,
     st_origin_is_github = Map.empty, st_telemetry = \<lparr>at_authenticated = None, at_auth_source = None,
       at_github_app_slug = None, at_github_app_installation_id = None,
       at_github_app_token_expires_unix_secs = None, at_github_app_git_transport = None,
       at_github_app_git_repository = None, at_github_app_refusal_stage = None,
       at_github_app_refusal_category = None, at_calls = 0, at_graphql_calls = 0, at_rest_calls = 0,
       at_gh_cli_calls = 0, at_cache_hits = 0, at_cache_age_ms = None, at_rate_limit = None\<rparr>\<rparr>"

definition sample_mode :: app_mode where
  "sample_mode = \<lparr>am_credential_command = ''b'', am_expected_slug = ''s'', am_expected_installation_id = 7\<rparr>"

definition push_request :: command_spec where
  "push_request = cs_with_args [''push'', ''origin''] (cs_new ''git'')"

lemma trim_word: "s \<noteq> [] \<Longrightarrow> list_all (\<lambda>c. 33 \<le> (of_char c :: nat) \<and> (of_char c :: nat) < 128) s \<Longrightarrow> trim s = s"
  by (rule trim_id) (auto simp: ascii_word_def list_all_iff)

lemma app_mode_sample: "github_app_mode (pe_vars app_env) = Inr (Some sample_mode)"
proof -
  have words: "trim ''app_installation'' = ''app_installation''" "trim ''b'' = ''b''" "trim ''s'' = ''s''"
    "trim ''7'' = ''7''" by (rule trim_word; simp)+
  have "parse_unsigned 64 ''7'' = Some 7" by (simp add: parse_unsigned_def digit_val_def)
  then show ?thesis
    by (simp add: github_app_mode_def app_env_def app_vars_def github_app_mode_from_values_def words
        nonempty_trimmed_def sample_mode_def)
qed

lemma sample_probe:
  assumes "pn_timeout pn \<noteq> 0" "pn_operation_deadline pn = None" "\<not> pn_budgeted pn"
  shows "\<exists>st' request. probe_run (logged_env app_env) (logged_child app_child) pn st c
      = (st', Inr (if c = origin_query then origin_output else ok_output))
    \<and> run_log st' = run_log st @ [(c, request, Inr (if c = origin_query then origin_output else ok_output))]"
proof -
  let ?out = "if c = origin_query then origin_output else ok_output"
  have "\<exists>st'. probe_run (logged_env app_env) (logged_child app_child) pn st c = (st', Inr ?out)"
    using assms
    by (simp add: probe_run_def reserve_for_def effective_timeout_def remaining_budget_def run_child_def
        logged_child_def app_child_def split: prod.splits)
  then show ?thesis using pr.recorded unfolding grows_def by metis
qed

definition sample_credential :: app_credential where
  "sample_credential = \<lparr>ac_token = ''t'', ac_app_slug = ''s'', ac_installation_id = 7, ac_expires_unix_secs = 100\<rparr>"

lemma cs_program_env [simp]: "cs_program (cs_env k v c) = cs_program c" "cs_program (cs_with_args as c) = cs_program c"
  "cs_program (cs_new p) = p"
  by (simp_all add: cs_env_def cs_with_args_def cs_new_def)

lemma not_origin_query: "cs_program c \<noteq> ''git'' \<Longrightarrow> c \<noteq> origin_query"
  by (auto simp: origin_query_def)

lemma sample_commands:
  "broker_command r sample_mode \<noteq> origin_query" "github_repository_access_command r token \<noteq> origin_query"
  by (rule not_origin_query; simp add: broker_command_def github_repository_access_command_def sample_mode_def)+

lemma sample_resolve:
  assumes "\<And>st c. c \<noteq> origin_query
      \<Longrightarrow> \<exists>st' request. probe st c = (st', Inr ok_output) \<and> run_log st' = run_log st @ [(c, request, Inr ok_output)]"
    and "gr_owner r = ''o''" "gr_name r = ''r''" "ps (cache_key r) = None"
  shows "\<exists>st' events. run_log st' = run_log st @ events \<and> origin_query \<notin> fst ` set events \<and> resolve_github_app_credential (surroundings_of (logged_env app_env)) probe deadline r sample_mode ps st
    = (ps(cache_key r \<mapsto> (''s'', 7)), st', Inr sample_credential)"
proof -
  have words: "trim ''t'' = ''t''" "trim ''s'' = ''s''" by (rule trim_word; simp)+
  obtain st1 q1 where broker: "probe st (broker_command r sample_mode) = (st1, Inr ok_output)"
      and log1: "run_log st1 = run_log st @ [(broker_command r sample_mode, q1, Inr ok_output)]"
    using assms(1) [OF sample_commands(1)] by blast
  obtain st2 q2 where access: "probe st1 (github_repository_access_command r ''t'') = (st2, Inr ok_output)"
      and log2: "run_log st2 = run_log st1 @ [(github_repository_access_command r ''t'', q2, Inr ok_output)]"
    using assms(1) [OF sample_commands(2)] by blast
  have now: "su_unix_secs (surroundings_of (logged_env app_env)) st1 = 0"
    by (simp add: surroundings_of_def logged_env_def app_env_def)
  have "pe_credential app_env [] = Some \<lparr>ar_token = ''t'', ar_app_slug = ''s'',
       ar_installation_id = 7, ar_repository = ''o/r'', ar_expires_unix_secs = 100\<rparr>" by (simp add: app_env_def)
  then have "credential_of_output (surroundings_of (logged_env app_env)) 0 r sample_mode (Suc 0) ok_output = Inr sample_credential"
    using assms(2,3)
    by (simp add: credential_of_output_def ok_output_def is_success_def surroundings_decode
        validate_github_app_credential_def words usable_def sat_add_def u64_max_def Let_def sample_mode_def sample_credential_def)
  moreover have "bind_github_app_principal ps r sample_credential = (ps(cache_key r \<mapsto> (''s'', 7)), Inr ())"
    using assms(4) by (simp add: bind_github_app_principal_def sample_credential_def)
  moreover have "classify_github_app_repository_access ok_output = Inr ()"
    by (simp add: classify_github_app_repository_access_def ok_output_def is_success_def)
  moreover have "ac_token sample_credential = ''t''" by (simp add: sample_credential_def)
  ultimately have "resolve_github_app_credential (surroundings_of (logged_env app_env)) probe deadline r sample_mode ps st
      = (ps(cache_key r \<mapsto> (''s'', 7)), st2, Inr sample_credential)"
    using broker access now
    by (simp add: resolve_github_app_credential_def resolve_github_app_credential_with_def retry_loop.simps
        broker_step_of_def probe_step_of_def github_app_token_repository_access_def)
  moreover have "run_log st2 = run_log st @ [(broker_command r sample_mode, q1, Inr ok_output),
      (github_repository_access_command r ''t'', q2, Inr ok_output)]"
    by (simp add: log1 log2)
  ultimately show ?thesis
    using sample_commands [of r]
    by (intro exI [of _ st2] exI [of _ "[(broker_command r sample_mode, q1, Inr ok_output),
        (github_repository_access_command r ''t'', q2, Inr ok_output)]"]) (simp, metis)
qed

lemma sample_selects:
  assumes "\<And>st c. c \<noteq> origin_query
      \<Longrightarrow> \<exists>st' request. probe st c = (st', Inr ok_output) \<and> run_log st' = run_log st @ [(c, request, Inr ok_output)]"
    and "gr_owner r = ''o''" "gr_name r = ''r''" "st_cache st = Map.empty" "st_principals st = Map.empty"
  shows "\<exists>st' events. run_log st' = run_log st @ events \<and> origin_query \<notin> fst ` set events
    \<and> resolve_github_auth_for_repository (logged_env app_env) probe deadline r st = (st', Some (AuthApp sample_credential))"
proof -
  obtain st1 events where log: "run_log st1 = run_log st @ events" "origin_query \<notin> fst ` set events"
    and resolved: "resolve_github_app_credential (surroundings_of (logged_env app_env)) probe deadline r sample_mode Map.empty st
      = ([cache_key r \<mapsto> (''s'', 7)], st1, Inr sample_credential)"
    using sample_resolve [of probe r Map.empty st deadline, OF assms(1-3)] by auto
  have "resolve_github_auth_for_repository (logged_env app_env) probe deadline r st
      = (st1\<lparr>st_principals := [cache_key r \<mapsto> (''s'', 7)], st_cache := (st_cache st1)(cache_key r \<mapsto> Some (AuthApp sample_credential))\<rparr>,
         Some (AuthApp sample_credential))"
    using resolved assms(4,5) app_mode_sample
    by (simp add: resolve_github_auth_for_repository_def cached_selection_def resolve_github_auth_uncached_def)
  with log show ?thesis by (metis run_log_updates(2,3))
qed

definition push_repository :: github_repository where
  "push_repository = \<lparr>gr_host = ''h'', gr_owner = ''o'', gr_name = ''r'', gr_git_transport = TransportSsh\<rparr>"

lemma push_remotes:
  "parse_github_remote ''push'' = None" "parse_github_remote ''origin'' = None"
  "parse_github_remote ''git@h:o/r'' = Some push_repository"
proof -
  show "parse_github_remote ''push'' = None" "parse_github_remote ''origin'' = None"
    by (simp_all add: parse_github_remote_def remote_location_def strip_prefix_def starts_with_def)
  have "trim_end_str ''.git'' ''o/r'' = ''o/r''" by (rule trim_end_str_id) (simp add: ends_with_def)
  then show "parse_github_remote ''git@h:o/r'' = Some push_repository"
    by (simp add: parse_github_remote_def remote_location_def strip_prefix_def starts_with_def trim_end_char_def
        last_piece_def push_repository_def)
qed

lemma push_origin: "sole_remote (co_stdout origin_output) = Some push_repository"
proof -
  have "lines_of (''git@h:o/r'' @ newline # []) = ''git@h:o/r'' # lines_of []"
    by (rule lines_of_word) (simp add: ascii_word_def)
  moreover have "trim ''git@h:o/r'' = ''git@h:o/r''" by (rule trim_word) simp_all
  ultimately show ?thesis by (simp add: sole_remote_def origin_output_def push_remotes)
qed

lemma push_repository_of: "git_repository_of push_request (Some push_repository) = Inr push_repository"
  "explicit_github_repository push_request = Inr None"
proof -
  have "redact_url_userinfo ''push'' = ''push''" "redact_url_userinfo ''origin'' = ''origin''"
    by (simp_all add: redact_url_userinfo_def redact_scheme_def strip_prefix_def starts_with_def)
  then show none: "explicit_github_repository push_request = Inr None"
    by (simp add: explicit_github_repository_def push_request_def cs_with_args_def cs_new_def push_remotes)
  show "git_repository_of push_request (Some push_repository) = Inr push_repository"
    using none by (simp add: git_repository_of_def push_request_def cs_with_args_def cs_new_def
        push_remotes validate_github_app_git_repository_def names_other_remote_def) (simp add: push_repository_def)
qed

lemma push_is_git: "is_remote_git_request push_request" "\<not> is_gh_request push_request"
  by (simp_all add: is_remote_git_request_def is_gh_request_def file_name_def push_request_def cs_with_args_def cs_new_def)

lemma push_runs:
  "\<exists>st'. process_run (logged_env app_env) (logged_child app_child) (in_directory 0 ''d'') app_state push_request
       = (st', Inr ok_output)
     \<and> (\<forall>r. origin_answered (run_log st') r \<longrightarrow> r = push_repository)"
proof -
  let ?pn = "in_directory 0 ''d''"
  let ?probe = "probe_run (logged_env app_env) (logged_child app_child) (probe_runner_for (logged_env app_env) ?pn)"
  have runner: "pn_timeout (probe_runner_for (logged_env app_env) ?pn) \<noteq> 0"
      "pn_operation_deadline (probe_runner_for (logged_env app_env) ?pn) = None"
      "\<not> pn_budgeted (probe_runner_for (logged_env app_env) ?pn)"
    by (simp_all add: probe_runner_for_def auth_probe_runner_def Let_def with_timeout_def in_directory_def)
  have probe: "\<exists>st' request. ?probe st c = (st', Inr ok_output) \<and> run_log st' = run_log st @ [(c, request, Inr ok_output)]"
    if "c \<noteq> origin_query" for st c
    using sample_probe [OF runner, of st c] that by simp
  obtain st0 q0 where origin: "?probe app_state origin_query = (st0, Inr origin_output)"
      "run_log st0 = run_log app_state @ [(origin_query, q0, Inr origin_output)]"
    using sample_probe [OF runner, of app_state origin_query] by auto
  then obtain st1 where d: "discover_github_repository ?probe (runner_cwd ?pn) app_state = (st1, Some push_repository)"
      and log1: "run_log st1 = [(origin_query, q0, Inr origin_output)]"
    using push_origin
    by (simp add: discover_github_repository_def Let_def is_success_def flip: origin_query_def)
      (simp add: origin_output_def run_log_def app_state_def)
  have other: "configuration_query \<noteq> origin_query" "push_request \<noteq> origin_query"
    by (simp_all add: configuration_query_def push_request_def origin_query_def cs_with_args_def cs_new_def)
  obtain st2 q1 where q1: "?probe st1 configuration_query = (st2, Inr ok_output)"
      "run_log st2 = run_log st1 @ [(configuration_query, q1, Inr ok_output)]"
    using probe [OF other(1)] by blast
  then have config: "validate_github_app_git_configuration ?probe st1 = (st2, Inr ())"
    by (simp add: pr.configuration_queried ok_output_def trim_Nil)
  have "quiet_step app_state st2"
    using pr.discover_quiet(1) [OF d] pr.configuration_quiet(1) [OF config] by (rule quiet_step_trans)
  then have "st_cache st2 = Map.empty" "st_principals st2 = Map.empty" by (simp_all add: quiet_step_def app_state_def)
  then obtain st3 events where log3: "run_log st3 = run_log st2 @ events" "origin_query \<notin> fst ` set events"
      and "resolve_github_auth_for_repository (logged_env app_env) ?probe None push_repository st2
      = (st3, Some (AuthApp sample_credential))"
    using sample_selects [of ?probe push_repository st2 None, OF probe] by (auto simp: push_repository_def)
  then have "inferred_github_app_git_auth (logged_env app_env) (logged_child app_child) ?pn push_request app_state
      = (st3, Inr (Some \<lparr>ag_credential = sample_credential, ag_repository = push_repository\<rparr>))"
    using push_is_git d config push_repository_of app_mode_sample
    by (simp add: inferred_github_app_git_auth_def Let_def git_auth_of_selection_def) (simp add: in_directory_def)
  moreover have "inferred_github_auth (logged_env app_env) (logged_child app_child) ?pn push_request app_state = (app_state, None)"
    using push_is_git by (simp add: inferred_github_auth_def)
  moreover obtain l where "st_world st3 = ((), l)" by (cases "st_world st3") auto
  ultimately obtain st4 q4 where run:
      "process_run (logged_env app_env) (logged_child app_child) ?pn app_state push_request = (st4, Inr ok_output)"
      "run_log st4 = run_log st3 @ [(push_request, q4, Inr ok_output)]"
    using push_is_git other(2) that
    by (simp add: process_run_def run_attempt_def reserve_for_def effective_timeout_def remaining_budget_def
        in_directory_def default_command_timeout_def from_secs_def run_authenticated_def run_child_def logged_child_def app_child_def
        should_refresh_github_app_auth_def should_refresh_github_app_git_auth_def is_success_def ok_output_def Let_def
        finish_run_def run_log_def split: prod.splits)
  have "r = push_repository" if answered: "origin_answered (run_log st4) r" for r
  proof -
    have all: "run_log st4 = [(origin_query, q0, Inr origin_output), (configuration_query, q1, Inr ok_output)] @ events
        @ [(push_request, q4, Inr ok_output)]"
      by (simp add: run(2) log3(1) q1(2) log1)
    obtain request out where "(origin_query, request, Inr out) \<in> set (run_log st4)" "sole_remote (co_stdout out) = Some r"
      using answered by (auto simp: origin_answered_def)
    moreover have "(origin_query, request, Inr out) \<notin> set events" using log3(2) by force
    ultimately have "out = origin_output" using other unfolding all by auto
    then show ?thesis using \<open>sole_remote (co_stdout out) = Some r\<close> push_origin by simp
  qed
  with run(1) show ?thesis by blast
qed

definition list_request :: command_spec where
  "list_request = cs_with_args [''pr'', ''list'', ''--repo'', ''o/r''] (cs_new ''gh'')"

lemma list_is_gh: "is_gh_request list_request" "\<not> explicit_token list_request" "\<not> is_remote_git_request list_request"
  by (simp_all add: is_remote_git_request_def is_gh_request_def file_name_def list_request_def cs_with_args_def
      cs_new_def explicit_token_def cs_has_env_def)

lemma list_repository:
  "explicit_gh_repository list_request
     = Some \<lparr>gr_host = ''github.com'', gr_owner = ''o'', gr_name = ''r'', gr_git_transport = TransportHttps\<rparr>"
proof -
  have "trim ''o/r'' = ''o/r''" by (rule trim_word) simp_all
  moreover have "trim_end_str ''.git'' ''o/r'' = ''o/r''" by (rule trim_end_str_id) (simp add: ends_with_def)
  ultimately have "github_repository_from_slug ''o/r''
      = Some \<lparr>gr_host = ''github.com'', gr_owner = ''o'', gr_name = ''r'', gr_git_transport = TransportHttps\<rparr>"
    by (simp add: github_repository_from_slug_def starts_with_def)
  then show ?thesis
    using list_is_gh(1)
    by (simp add: explicit_gh_repository_def list_request_def cs_with_args_def cs_new_def strip_prefix_def starts_with_def)
qed

lemma list_runs:
  "\<exists>st'. process_run (logged_env app_env) (logged_child app_child) (in_directory 0 ''d'') app_state list_request
     = (st', Inr ok_output)"
proof -
  let ?pn = "in_directory 0 ''d''"
  let ?qn = "(probe_runner_for (logged_env app_env) ?pn)\<lparr>pn_budgeted := pn_budgeted ?pn\<rparr>"
  let ?probe = "probe_run (logged_env app_env) (logged_child app_child) ?qn"
  let ?r = "\<lparr>gr_host = ''github.com'', gr_owner = ''o'', gr_name = ''r'', gr_git_transport = TransportHttps\<rparr>"
  have runner: "pn_timeout ?qn \<noteq> 0" "pn_operation_deadline ?qn = None" "\<not> pn_budgeted ?qn"
    by (simp_all add: probe_runner_for_def auth_probe_runner_def Let_def with_timeout_def in_directory_def)
  have probe: "\<exists>st' request. ?probe st c = (st', Inr ok_output) \<and> run_log st' = run_log st @ [(c, request, Inr ok_output)]"
    if "c \<noteq> origin_query" for st c
    using sample_probe [OF runner, of st c] that by simp
  have "st_cache app_state = Map.empty" "st_principals app_state = Map.empty" by (simp_all add: app_state_def)
  then obtain st2 where "resolve_github_auth_for_repository (logged_env app_env) ?probe None ?r app_state
      = (st2, Some (AuthApp sample_credential))"
    using sample_selects [of ?probe ?r app_state None, OF probe] by auto
  then have "inferred_github_auth (logged_env app_env) (logged_child app_child) ?pn list_request app_state
      = (st2, Some (AuthApp sample_credential))"
    using list_is_gh list_repository app_mode_sample
    by (simp add: inferred_github_auth_def request_repository_def Let_def) (simp add: in_directory_def)
  moreover have "inferred_github_app_git_auth (logged_env app_env) (logged_child app_child) ?pn list_request st = (st, Inr None)" for st
    using list_is_gh by (simp add: inferred_github_app_git_auth_def)
  moreover have "list_request \<noteq> origin_query" by (rule not_origin_query) (simp add: list_request_def)
  ultimately show ?thesis
    by (simp add: process_run_def run_attempt_def reserve_for_def effective_timeout_def remaining_budget_def
        in_directory_def default_command_timeout_def from_secs_def run_authenticated_def run_child_def logged_child_def app_child_def
        should_refresh_github_app_auth_def should_refresh_github_app_git_auth_def ok_output_def Let_def split: prod.splits)
qed

text \<open>
  The fields \<open>owner\<close> and \<open>name\<close> name a repository on every API request, not only on GraphQL ones:
  creating a repository under a user binds App authentication to it.
\<close>

lemma plain_api_fields_bind_repository:
  "explicit_gh_repository (cs_with_args [''api'', ''user/x'', ''owner=o'', ''name=r''] (cs_new ''gh''))
     = Some \<lparr>gr_host = ''github.com'', gr_owner = ''o'', gr_name = ''r'', gr_git_transport = TransportHttps\<rparr>"
proof -
  have "trim ''o/r'' = ''o/r''" by (rule trim_word) simp_all
  moreover have "trim_end_str ''.git'' ''o/r'' = ''o/r''" by (rule trim_end_str_id) (simp add: ends_with_def)
  ultimately show ?thesis
    by (simp add: explicit_gh_repository_def is_gh_request_def file_name_def cs_with_args_def cs_new_def
        strip_prefix_def starts_with_def cs_first_def cs_second_def api_repository_def api_path_repository_def
        graphql_repository_def quote_char_def field_repository_def github_repository_from_slug_def)
qed

lemma sample_state_ok: "cache_issued (pe_credential app_env) sample_mode app_state"
  by (simp add: cache_issued_def app_state_def)

theorem resolved_app_credential_sound_witness:
  "trim (ac_token sample_credential) \<noteq> [] \<and> ac_app_slug sample_credential = am_expected_slug sample_mode"
proof -
  let ?probe = "\<lambda>st c. (st\<lparr>st_world := ((), run_log st @ [(c, undefined, Inr ok_output)])\<rparr>, Inr ok_output)"
  obtain st' where "resolve_github_app_credential (surroundings_of (logged_env app_env)) ?probe None push_repository sample_mode
      Map.empty app_state = ([cache_key push_repository \<mapsto> (''s'', 7)], st', Inr sample_credential)"
    using sample_resolve [of ?probe push_repository Map.empty app_state None] by (auto simp: push_repository_def)
  from resolved_app_credential_sound [OF this [unfolded resolve_github_app_credential_def]] show ?thesis by blast
qed

theorem app_mode_never_falls_back_witness:
  "\<exists>st' events env timeout.
     process_run (logged_env app_env) (logged_child app_child) (in_directory 0 ''d'') app_state list_request = (st', Inr ok_output)
     \<and> run_log st' = events @ [(list_request, child_of (in_directory 0 ''d'') list_request env timeout, Inr ok_output)]
     \<and> length events \<ge> 1 \<and> bt_get env ''GH_TOKEN'' = Some (Some ''t'')"
proof -
  obtain st' where run:
    "process_run (logged_env app_env) (logged_child app_child) (in_directory 0 ''d'') app_state list_request = (st', Inr ok_output)"
    using list_runs by blast
  have infer: "pn_infer_github_auth (in_directory 0 ''d'')" by (simp add: in_directory_def)
  have start: "run_log app_state = []" by (simp add: run_log_def app_state_def)
  obtain events env timeout r token where shown:
      "run_log st' = events @ [(list_request, child_of (in_directory 0 ''d'') list_request env timeout, Inr ok_output)]"
      "bt_get env ''GH_TOKEN'' = Some (Some token)" "issued (pe_credential app_env) sample_mode events (cache_key r) token"
    using app_mode_never_falls_back [OF app_mode_sample infer list_is_gh(1,2) sample_state_ok run] start by auto
  have "token = ''t''" "events \<noteq> []" using shown(3) by (auto simp: issued_def app_env_def)
  with run shown(1,2) show ?thesis by (cases events) auto
qed

theorem ssh_overlay_roundtrip_witness:
  "parse_github_remote (''https://'' @ ''h/o/r'' @ ''.git'') = Some (push_repository\<lparr>gr_git_transport := TransportHttps\<rparr>)"
  using ssh_overlay_roundtrip [OF push_remotes(3)] by (simp add: cache_key_def push_repository_def)

theorem app_git_transport_bound_witness:
  "\<exists>st' events env timeout.
     process_run (logged_env app_env) (logged_child app_child) (in_directory 0 ''d'') app_state push_request = (st', Inr ok_output)
     \<and> run_log st' = events @ [(push_request, child_of (in_directory 0 ''d'') push_request env timeout, Inr ok_output)]
     \<and> origin_answered events push_repository \<and> configuration_answered events
     \<and> bt_get env ''CARA_GITHUB_APP_GIT_TOKEN'' = Some (Some ''t'')
     \<and> bt_get env ''GIT_CONFIG_KEY_5'' = Some (Some ''remote.origin.url'')
     \<and> bt_get env ''GIT_CONFIG_VALUE_5'' = Some (Some ''https://h/o/r.git'')"
proof -
  obtain st' where run:
    "process_run (logged_env app_env) (logged_child app_child) (in_directory 0 ''d'') app_state push_request = (st', Inr ok_output)"
    and origin: "\<forall>r. origin_answered (run_log st') r \<longrightarrow> r = push_repository"
    using push_runs by blast
  have infer: "pn_infer_github_auth (in_directory 0 ''d'')" by (simp add: in_directory_def)
  have start: "run_log app_state @ events = events" for events by (simp add: run_log_def app_state_def)
  obtain events env timeout r token where shown:
      "run_log st' = events @ [(push_request, child_of (in_directory 0 ''d'') push_request env timeout, Inr ok_output)]"
      "origin_answered events r" "configuration_answered events" "issued (pe_credential app_env) sample_mode events (cache_key r) token"
      "bt_get env ''CARA_GITHUB_APP_GIT_TOKEN'' = Some (Some token)"
      "gr_git_transport r = TransportSsh \<longrightarrow> bt_get env ''GIT_CONFIG_KEY_5'' = Some (Some ''remote.origin.url'')
         \<and> bt_get env ''GIT_CONFIG_VALUE_5'' = Some (Some (''https://'' @ cache_key r @ ''.git''))"
    using app_git_transport_bound [OF app_mode_sample infer push_is_git(1) sample_state_ok run]
    unfolding start push_repository_of(2) by blast
  have token: "token = ''t''" using shown(4) by (auto simp: issued_def app_env_def)
  have "origin_answered (run_log st') r" by (rule answered_mono(2) [OF shown(2)]) (auto simp: shown(1))
  then have r: "r = push_repository" using origin by blast
  have overlay: "bt_get env ''GIT_CONFIG_KEY_5'' = Some (Some ''remote.origin.url'')"
      "bt_get env ''GIT_CONFIG_VALUE_5'' = Some (Some ''https://h/o/r.git'')"
    using shown(6) by (simp_all add: r push_repository_def cache_key_def)
  show ?thesis
    using run shown(1-3,5) overlay unfolding token r by blast
qed

end
