(* ===== verification/Operation_Lock.thy ===== *)
theory Operation_Lock
  imports App_Runner
begin

text \<open>
  The repository operation lock of \<open>src/src/operation_lock.rs\<close> on Unix. Each operation is a program of
  system calls: a tree that names the next call and continues with its answer. The same program is run
  against a file system alone, or interleaved with the programs of other processes. The JSON codec of
  the owner file and the digest are parameters; closing a file has no effect and is left out; the JSON
  details of errors are left out.
\<close>

subsection \<open>Programs\<close>

datatype io_kind = NotFound | AlreadyExists | InvalidData | OtherKind

record io_error =
  ie_kind :: io_kind
  ie_text :: string

text \<open>
  Times are nanoseconds since the Unix epoch, negative before it. \<open>Write\<close> is \<open>write_all\<close> and \<open>sync_all\<close> on
  an open file, \<open>Read\<close> opens a path and reads its bytes, \<open>Stat\<close> answers with the modification time.
\<close>

datatype 'a program =
    Return 'a
  | MkDirs string "io_error + unit \<Rightarrow> 'a program"
  | CreateNew string "io_error + nat \<Rightarrow> 'a program"
  | Open string "io_error + nat \<Rightarrow> 'a program"
  | Write nat string "io_error + unit \<Rightarrow> 'a program"
  | Read string "io_error + string \<Rightarrow> 'a program"
  | Stat string "io_error + int option \<Rightarrow> 'a program"
  | Unlink string "io_error + unit \<Rightarrow> 'a program"
  | Rename string string "io_error + unit \<Rightarrow> 'a program"
  | Pid "nat \<Rightarrow> 'a program"
  | Probe nat "string + bool \<Rightarrow> 'a program"
  | Clock "int \<Rightarrow> 'a program"
  | Sequence "nat \<Rightarrow> 'a program"
  | Run string command_spec "run_error + command_output \<Rightarrow> 'a program"

primrec pthen :: "'a program \<Rightarrow> ('a \<Rightarrow> 'b program) \<Rightarrow> 'b program" where
  "pthen (Return x) f = f x"
| "pthen (MkDirs p k) f = MkDirs p (\<lambda>a. pthen (k a) f)"
| "pthen (CreateNew p k) f = CreateNew p (\<lambda>a. pthen (k a) f)"
| "pthen (Open p k) f = Open p (\<lambda>a. pthen (k a) f)"
| "pthen (Write h b k) f = Write h b (\<lambda>a. pthen (k a) f)"
| "pthen (Read p k) f = Read p (\<lambda>a. pthen (k a) f)"
| "pthen (Stat p k) f = Stat p (\<lambda>a. pthen (k a) f)"
| "pthen (Unlink p k) f = Unlink p (\<lambda>a. pthen (k a) f)"
| "pthen (Rename p q k) f = Rename p q (\<lambda>a. pthen (k a) f)"
| "pthen (Pid k) f = Pid (\<lambda>a. pthen (k a) f)"
| "pthen (Probe n k) f = Probe n (\<lambda>a. pthen (k a) f)"
| "pthen (Clock k) f = Clock (\<lambda>a. pthen (k a) f)"
| "pthen (Sequence k) f = Sequence (\<lambda>a. pthen (k a) f)"
| "pthen (Run d c k) f = Run d c (\<lambda>a. pthen (k a) f)"

text \<open>The \<open>?\<close> operator.\<close>

definition ptry :: "('e + 'a) program \<Rightarrow> ('a \<Rightarrow> ('e + 'b) program) \<Rightarrow> ('e + 'b) program" where
  "ptry m f = pthen m (\<lambda>r. case r of Inl e \<Rightarrow> Return (Inl e) | Inr x \<Rightarrow> f x)"

subsection \<open>Owner files\<close>

definition default_stale_after :: duration where
  "default_stale_after = from_secs (30 * 60)"

definition lock_directory :: string where
  "lock_directory = ''caravan''"

definition lock_file :: string where
  "lock_file = ''operation.lock''"

definition max_owner_bytes :: nat where
  "max_owner_bytes = 16 * 1024"

record checkpoint_compaction =
  cc_original_bytes :: nat
  cc_original_digest :: string
  cc_keys :: "string list"
  cc_counts :: "(string, nat) btree_map"

record operation_lock_checkpoint =
  lc_phase :: string
  lc_updated_unix_ms :: nat
  lc_evidence :: json
  lc_evidence_compaction :: "checkpoint_compaction option"
  lc_provider_state_indeterminate :: bool

record operation_lock_owner =
  ow_version :: nat
  ow_pid :: nat
  ow_operation :: string
  ow_created_unix_secs :: nat
  ow_token :: string
  ow_checkpoint :: "operation_lock_checkpoint option"

record operation_lock_status =
  ls_path :: string
  ls_present :: bool
  ls_owner :: "operation_lock_owner option"
  ls_age_secs :: "nat option"
  ls_owner_alive :: "bool option"
  ls_auto_recoverable :: bool
  ls_stale_after_secs :: nat
  ls_stale :: bool

record operation_lock_recovery =
  lr_path :: string
  lr_removed_owner :: operation_lock_owner
  lr_age_secs :: nat
  lr_owner_alive :: bool
  lr_token_verified :: bool

record operation_lock =
  ol_path :: string
  ol_owner :: operation_lock_owner
  ol_file :: "nat option"
  ol_recovered_dead_owner :: "operation_lock_recovery option"
  ol_released :: bool

text \<open>
  The codec: \<open>serde_json\<close> for the owner and for the evidence, and the SHA-256 digest. Encoding an
  owner may fail; decoding fails on bytes that are not one owner.
\<close>

record owner_codec =
  oc_encode :: "operation_lock_owner \<Rightarrow> string + string"
  oc_decode :: "string \<Rightarrow> string + operation_lock_owner"
  oc_evidence :: "json \<Rightarrow> string"
  oc_digest :: "string \<Rightarrow> string"

definition lock_io_error :: "string \<Rightarrow> string \<Rightarrow> io_error \<Rightarrow> app_error" where
  "lock_io_error code message e = app_structured ExecutionFailure code (message @ '': '' @ ie_text e)"

definition read_owner :: "owner_codec \<Rightarrow> string \<Rightarrow> (io_error + operation_lock_owner) program" where
  "read_owner oc path = Read path (\<lambda>r. Return (case r of
       Inl e \<Rightarrow> Inl e
     | Inr bytes \<Rightarrow>
         (case oc_decode oc (take max_owner_bytes bytes) of
            Inl message \<Rightarrow> Inl \<lparr>ie_kind = InvalidData, ie_text = message\<rparr>
          | Inr owner \<Rightarrow> Inr owner)))"

text \<open>A result with its I/O error turned into a lock error.\<close>

definition pmap_err :: "string \<Rightarrow> string \<Rightarrow> (io_error + 'a) program \<Rightarrow> (app_error + 'a) program" where
  "pmap_err code message m = pthen m (\<lambda>r. Return (case r of
       Inl e \<Rightarrow> Inl (lock_io_error code message e) | Inr x \<Rightarrow> Inr x))"

definition owner_changed :: "string \<Rightarrow> app_error" where
  "owner_changed message = app_structured Validation ''operation_lock_owner_changed'' message"

subsection \<open>Finding the lock\<close>

definition lock_command_error :: "run_error \<Rightarrow> app_error" where
  "lock_command_error e =
     (case e of
        DeadlineExceeded c pgid timeout_ms stdout stderr \<Rightarrow>
          app_structured Timeout ''operation_lock_command_timeout'' (run_error_text e)
      | _ \<Rightarrow> app_structured ExecutionFailure ''git_spawn_failed''
               (''could not execute Git while locating lock metadata: '' @ run_error_text e))"

text \<open>\<open>PathBuf::join\<close> of a relative component.\<close>

definition join_path :: "string \<Rightarrow> string \<Rightarrow> string" where
  "join_path a b = (if ends_with a ''/'' then a @ b else a @ ''/'' @ b)"

definition lock_parent :: "string \<Rightarrow> string" where
  "lock_parent common_dir = join_path common_dir lock_directory"

text \<open>The directory of the lock and its path.\<close>

definition lock_path :: "string \<Rightarrow> (app_error + string \<times> string) program" where
  "lock_path repository =
     Run repository (cs_with_args [''rev-parse'', ''--path-format=absolute'', ''--git-common-dir''] (cs_new ''git''))
       (\<lambda>r. Return (case r of
          Inl e \<Rightarrow> Inl (lock_command_error e)
        | Inr out \<Rightarrow>
            if \<not> is_success out
            then Inl (app_structured TargetNotFound ''git_repository_not_found''
                   ''the operation lock requires a Git repository'')
            else let common_dir = trim (co_stdout out)
                 in if common_dir = []
                    then Inl (app_structured ExecutionFailure ''git_common_dir_missing''
                           ''Git did not return its common metadata directory'')
                    else Inr (lock_parent common_dir, join_path (lock_parent common_dir) lock_file)))"

definition new_owner :: "string \<Rightarrow> operation_lock_owner program" where
  "new_owner operation =
     Clock (\<lambda>now. Sequence (\<lambda>n. Pid (\<lambda>pid.
       let created = nat now
       in Return \<lparr>ow_version = 1, ow_pid = pid, ow_operation = operation, ow_created_unix_secs = as_secs created,
            ow_token = show_nat pid @ ''-'' @ show_nat created @ ''-'' @ show_nat n, ow_checkpoint = None\<rparr>)))"

text \<open>\<open>SystemTime::now().duration_since(modified)\<close>, zero when there is no such time.\<close>

definition modified_age :: "int \<Rightarrow> int option \<Rightarrow> duration" where
  "modified_age now modified = (case modified of None \<Rightarrow> 0 | Some m \<Rightarrow> nat (now - m))"

definition lock_age_secs :: "int option \<Rightarrow> operation_lock_owner \<Rightarrow> nat program" where
  "lock_age_secs modified owner =
     Clock (\<lambda>now.
       if now \<ge> 0 then Return (as_secs (nat now) - ow_created_unix_secs owner)
       else case modified of
              None \<Rightarrow> Return 0
            | Some m \<Rightarrow> Clock (\<lambda>later. Return (as_secs (modified_age later modified))))"

text \<open>A process id is a positive \<open>i32\<close>; the probe is \<open>kill(pid, 0)\<close>.\<close>

definition process_is_alive :: "nat \<Rightarrow> (app_error + bool) program" where
  "process_is_alive pid =
     (if pid \<ge> 2 ^ 31
      then Return (Inl (app_structured Validation ''operation_lock_pid_invalid''
             ''the operation lock owner PID is outside the platform range''))
      else if pid = 0
      then Return (Inl (app_structured Validation ''operation_lock_pid_invalid''
             ''the operation lock owner PID must be positive''))
      else Probe pid (\<lambda>r. Return (case r of
             Inr alive \<Rightarrow> Inr alive
           | Inl e \<Rightarrow> Inl (app_structured ExecutionFailure ''operation_lock_process_probe_failed''
               (''could not determine whether operation lock owner PID exists: '' @ e)))))"

subsection \<open>Acquiring\<close>

datatype dead_owner_probe = Gone | Live | Recovered operation_lock_recovery

definition remove_dead_owner ::
    "string \<Rightarrow> int option \<Rightarrow> operation_lock_owner \<Rightarrow> (app_error + dead_owner_probe) program" where
  "remove_dead_owner path modified latest =
     Unlink path (\<lambda>r. case r of
       Inl e \<Rightarrow> Return (Inl (lock_io_error ''operation_lock_recovery_failed''
                  ''could not remove a proven-dead operation lock'' e))
     | Inr _ \<Rightarrow> pthen (lock_age_secs modified latest) (\<lambda>age.
         Return (Inr (Recovered \<lparr>lr_path = path, lr_removed_owner = latest, lr_age_secs = age,
                        lr_owner_alive = False, lr_token_verified = True\<rparr>))))"

definition recheck_dead_owner ::
    "owner_codec \<Rightarrow> string \<Rightarrow> int option \<Rightarrow> operation_lock_owner \<Rightarrow> (app_error + dead_owner_probe) program" where
  "recheck_dead_owner oc path modified owner =
     pthen (read_owner oc path) (\<lambda>r. case r of
       Inl e \<Rightarrow>
         if ie_kind e = NotFound then Return (Inr Gone)
         else Return (Inl (lock_io_error ''operation_lock_recovery_inspection_failed''
                ''could not re-read dead owner evidence before cleanup'' e))
     | Inr latest \<Rightarrow>
         if latest \<noteq> owner \<or> ow_token latest \<noteq> ow_token owner
         then Return (Inl (owner_changed
                ''operation lock ownership changed during dead-owner cleanup; refusing removal''))
         else ptry (process_is_alive (ow_pid latest)) (\<lambda>alive.
                if alive then Return (Inr Live) else remove_dead_owner path modified latest))"

definition recover_dead_owner_for_acquire :: "owner_codec \<Rightarrow> string \<Rightarrow> (app_error + dead_owner_probe) program" where
  "recover_dead_owner_for_acquire oc path =
     Stat path (\<lambda>metadata. case metadata of
       Inl e \<Rightarrow>
         if ie_kind e = NotFound then Return (Inr Gone)
         else Return (Inl (lock_io_error ''operation_lock_inspection_failed''
                ''could not inspect the existing operation lock'' e))
     | Inr modified \<Rightarrow>
         pthen (read_owner oc path) (\<lambda>r. case r of
           Inl e \<Rightarrow>
             if ie_kind e = NotFound then Return (Inr Gone)
             else Return (Inl (lock_io_error ''operation_lock_owner_invalid''
                    ''could not read existing operation lock owner evidence'' e))
         | Inr owner \<Rightarrow> ptry (process_is_alive (ow_pid owner)) (\<lambda>alive.
             if alive then Return (Inr Live) else recheck_dead_owner oc path modified owner)))"

definition existing_lock_error :: "owner_codec \<Rightarrow> string \<Rightarrow> duration \<Rightarrow> (io_error + app_error) program" where
  "existing_lock_error oc path stale_after =
     Stat path (\<lambda>metadata. case metadata of
       Inl e \<Rightarrow> Return (Inl e)
     | Inr modified \<Rightarrow>
         pthen (case modified of None \<Rightarrow> Return 0 | Some m \<Rightarrow> Clock (\<lambda>now. Return (modified_age now modified))) (\<lambda>age.
         pthen (read_owner oc path) (\<lambda>_.
           Return (Inr (if age \<ge> stale_after
             then app_structured Validation ''stale_operation_lock''
                    ''a repository operation lock is older than the configured stale threshold''
             else app_structured Validation ''operation_lock_contended''
                    ''another mutating Caravan operation owns this repository'')))))"

definition lock_race :: "string \<Rightarrow> app_error" where
  "lock_race message = app_structured ExecutionFailure ''operation_lock_race'' message"

definition write_owner ::
    "owner_codec \<Rightarrow> string \<Rightarrow> operation_lock_owner \<Rightarrow> nat \<Rightarrow> operation_lock_recovery option
     \<Rightarrow> (app_error + operation_lock) program" where
  "write_owner oc path owner handle recovered =
     (case oc_encode oc owner of
        Inl e \<Rightarrow> Return (Inl (app_structured SerializationError ''operation_lock_encode_failed''
                  (''could not encode operation lock owner: '' @ e)))
      | Inr encoded \<Rightarrow> Write handle encoded (\<lambda>r. case r of
          Inl e \<Rightarrow> Unlink path (\<lambda>_. Return (Inl (lock_io_error ''operation_lock_write_failed''
                     ''could not persist operation lock owner evidence'' e)))
        | Inr _ \<Rightarrow> Return (Inr \<lparr>ol_path = path, ol_owner = owner, ol_file = Some handle,
                     ol_recovered_dead_owner = recovered, ol_released = False\<rparr>)))"

text \<open>The loop over the attempts, with the number of attempts that are left.\<close>

primrec acquire_attempts ::
    "nat \<Rightarrow> owner_codec \<Rightarrow> string \<Rightarrow> duration \<Rightarrow> operation_lock_owner \<Rightarrow> operation_lock_recovery option
     \<Rightarrow> (app_error + operation_lock) program" where
  "acquire_attempts 0 oc path stale_after owner recovered =
     Return (Inl (lock_race ''the operation lock repeatedly changed while it was being acquired''))"
| "acquire_attempts (Suc left) oc path stale_after owner recovered =
     CreateNew path (\<lambda>created. case created of
       Inr handle \<Rightarrow> write_owner oc path owner handle recovered
     | Inl e \<Rightarrow>
         if ie_kind e \<noteq> AlreadyExists
         then Return (Inl (lock_io_error ''operation_lock_create_failed''
                ''could not create the repository operation lock'' e))
         else ptry (recover_dead_owner_for_acquire oc path) (\<lambda>probe. case probe of
           Recovered receipt \<Rightarrow>
             acquire_attempts left oc path stale_after owner
               (case recovered of None \<Rightarrow> Some receipt | Some first \<Rightarrow> Some first)
         | Gone \<Rightarrow>
             if left > 0 then acquire_attempts left oc path stale_after owner recovered
             else Return (Inl (lock_race
                    ''the operation lock repeatedly changed during dead-owner inspection''))
         | Live \<Rightarrow> pthen (existing_lock_error oc path stale_after) (\<lambda>r. case r of
             Inr e \<Rightarrow> Return (Inl e)
           | Inl read_error \<Rightarrow>
               if ie_kind read_error = NotFound \<and> left > 0
               then acquire_attempts left oc path stale_after owner recovered
               else Return (Inl (lock_io_error ''operation_lock_inspection_failed''
                      ''the operation lock exists but its owner evidence could not be read'' read_error)))))"

definition acquire_with_stale_after ::
    "owner_codec \<Rightarrow> string \<Rightarrow> string \<Rightarrow> duration \<Rightarrow> (app_error + operation_lock) program" where
  "acquire_with_stale_after oc repository operation stale_after =
     (if trim operation = [] \<or> CHR 0x0A \<in> set operation \<or> CHR 0x0D \<in> set operation
      then Return (Inl (app_validation ''invalid_operation_name''
             ''a lock operation name must be non-empty and single-line''))
      else
        ptry (lock_path repository) (\<lambda>(parent, path).
        MkDirs parent (\<lambda>made. case made of
          Inl e \<Rightarrow> Return (Inl (lock_io_error ''operation_lock_directory_failed''
                     (''could not create Caravan'' @ [CHR 0x27] @ ''s Git metadata directory'') e))
        | Inr _ \<Rightarrow> pthen (new_owner operation) (\<lambda>owner. acquire_attempts 3 oc path stale_after owner None))))"

definition lock_acquire :: "owner_codec \<Rightarrow> string \<Rightarrow> string \<Rightarrow> (app_error + operation_lock) program" where
  "lock_acquire oc repository operation = acquire_with_stale_after oc repository operation default_stale_after"

subsection \<open>Checkpoints\<close>

definition map_checkpoint ::
    "(operation_lock_checkpoint \<Rightarrow> operation_lock_checkpoint) \<Rightarrow> operation_lock_owner \<Rightarrow> operation_lock_owner" where
  "map_checkpoint f owner = owner\<lparr>ow_checkpoint := map_option f (ow_checkpoint owner)\<rparr>"

fun evidence_keys :: "json \<Rightarrow> string list" where
  "evidence_keys (JObject entries) = map fst entries"
| "evidence_keys _ = []"

fun evidence_counts :: "json \<Rightarrow> (string, nat) btree_map" where
  "evidence_counts (JObject entries) =
     fold (\<lambda>(key, v) counts. case v of JArray items \<Rightarrow> bt_insert key (to_u64 (length items)) counts | _ \<Rightarrow> counts)
       entries []"
| "evidence_counts _ = []"

definition compact_checkpoint_evidence :: "owner_codec \<Rightarrow> operation_lock_owner \<Rightarrow> operation_lock_owner" where
  "compact_checkpoint_evidence oc owner = map_checkpoint (\<lambda>c.
     let serialized = oc_evidence oc (lc_evidence c)
     in c\<lparr>lc_evidence_compaction := Some \<lparr>cc_original_bytes = to_u64 (length serialized),
            cc_original_digest = oc_digest oc serialized, cc_keys = evidence_keys (lc_evidence c),
            cc_counts = evidence_counts (lc_evidence c)\<rparr>,
          lc_evidence := JObject [(''compacted'', JBool True),
            (''reason'', JString ''evidence exceeded the bounded operation-lock owner file'')]\<rparr>) owner"

definition minimize_checkpoint_evidence :: "operation_lock_owner \<Rightarrow> operation_lock_owner" where
  "minimize_checkpoint_evidence owner = map_checkpoint (\<lambda>c.
     c\<lparr>lc_evidence := JObject [(''compacted'', JBool True)],
       lc_evidence_compaction := map_option (\<lambda>m. m\<lparr>cc_keys := [], cc_counts := []\<rparr>) (lc_evidence_compaction c)\<rparr>) owner"

definition encoded_owner :: "owner_codec \<Rightarrow> operation_lock_owner \<Rightarrow> app_error + string" where
  "encoded_owner oc owner =
     (case oc_encode oc owner of
        Inl e \<Rightarrow> Inl (app_structured SerializationError ''operation_lock_checkpoint_encode_failed''
                  (''could not encode operation lock checkpoint: '' @ e))
      | Inr bytes \<Rightarrow> Inr bytes)"

text \<open>One step of shrinking: an owner that does not fit is replaced and encoded again.\<close>

definition shrink_owner ::
    "owner_codec \<Rightarrow> (operation_lock_owner \<Rightarrow> operation_lock_owner) \<Rightarrow> operation_lock_owner \<times> (app_error + string)
     \<Rightarrow> operation_lock_owner \<times> (app_error + string)" where
  "shrink_owner oc f = (\<lambda>(owner, r). case r of
     Inl e \<Rightarrow> (owner, Inl e)
   | Inr bytes \<Rightarrow> if to_u64 (length bytes) > max_owner_bytes then (f owner, encoded_owner oc (f owner)) else (owner, Inr bytes))"

definition bounded_owner ::
    "owner_codec \<Rightarrow> operation_lock_owner \<Rightarrow> operation_lock_owner \<times> (app_error + string)" where
  "bounded_owner oc owner =
     (case shrink_owner oc minimize_checkpoint_evidence
             (shrink_owner oc (compact_checkpoint_evidence oc) (owner, encoded_owner oc owner)) of
        (owner', Inl e) \<Rightarrow> (owner', Inl e)
      | (owner', Inr bytes) \<Rightarrow>
          if to_u64 (length bytes) > max_owner_bytes
          then (owner', Inl (app_structured Validation ''operation_lock_checkpoint_too_large''
                  ''operation lock checkpoint exceeds the bounded owner-file limit''))
          else (owner', Inr bytes))"

definition checkpoint_write_error :: "string \<Rightarrow> io_error \<Rightarrow> app_error" where
  "checkpoint_write_error message e = lock_io_error ''operation_lock_checkpoint_write_failed'' message e"

text \<open>The lock path ends in \<open>operation.lock\<close>, whose extension is replaced.\<close>

definition checkpoint_path :: "string \<Rightarrow> nat \<Rightarrow> nat \<Rightarrow> string" where
  "checkpoint_path path pid n =
     take (length path - length ''lock'') path @ ''checkpoint-'' @ show_nat pid @ ''-'' @ show_nat n @ ''.tmp''"

definition discard :: "string \<Rightarrow> 'a \<Rightarrow> 'a program" where
  "discard temporary x = Unlink temporary (\<lambda>_. Return x)"

definition replace_checkpoint ::
    "owner_codec \<Rightarrow> operation_lock \<Rightarrow> string \<Rightarrow> (operation_lock \<times> (app_error + unit)) program" where
  "replace_checkpoint oc l temporary =
     pthen (read_owner oc (ol_path l)) (\<lambda>latest. case latest of
       Inl e \<Rightarrow> discard temporary (l, Inl (lock_io_error ''operation_lock_checkpoint_inspection_failed''
                  ''could not revalidate owner before atomic checkpoint'' e))
     | Inr owner \<Rightarrow>
         if ow_token owner \<noteq> ow_token (ol_owner l)
         then discard temporary (l, Inl (owner_changed
                ''operation lock owner changed before atomic checkpoint; refusing replacement''))
         else Rename temporary (ol_path l) (\<lambda>renamed. case renamed of
                Inl e \<Rightarrow> discard temporary (l, Inl (checkpoint_write_error
                           ''could not atomically replace operation lock checkpoint'' e))
              | Inr _ \<Rightarrow> Open (ol_path l) (\<lambda>opened. Return (case opened of
                  Inl e \<Rightarrow> (l, Inl (lock_io_error ''operation_lock_checkpoint_reopen_failed''
                             ''could not reopen operation lock after atomic checkpoint'' e))
                | Inr handle \<Rightarrow> (l\<lparr>ol_file := Some handle\<rparr>, Inr ())))))"

definition persist_checkpoint_bytes ::
    "owner_codec \<Rightarrow> operation_lock \<Rightarrow> string \<Rightarrow> (operation_lock \<times> (app_error + unit)) program" where
  "persist_checkpoint_bytes oc l encoded =
     Sequence (\<lambda>n.
       let temporary = checkpoint_path (ol_path l) (ow_pid (ol_owner l)) n;
           failed = (\<lambda>e. discard temporary (l, Inl (checkpoint_write_error
                       ''could not persist operation lock checkpoint temporary file'' e)))
       in CreateNew temporary (\<lambda>created. case created of
            Inl e \<Rightarrow> failed e
          | Inr handle \<Rightarrow> Write handle encoded (\<lambda>written. case written of
              Inl e \<Rightarrow> failed e
            | Inr _ \<Rightarrow> replace_checkpoint oc l temporary)))"

definition lock_checkpoint ::
    "owner_codec \<Rightarrow> string \<Rightarrow> json \<Rightarrow> bool \<Rightarrow> operation_lock \<Rightarrow> (operation_lock \<times> (app_error + unit)) program" where
  "lock_checkpoint oc phase evidence indeterminate l =
     pthen (read_owner oc (ol_path l)) (\<lambda>r. case r of
       Inl e \<Rightarrow> Return (l, Inl (lock_io_error ''operation_lock_checkpoint_inspection_failed''
                  ''could not verify operation lock ownership before checkpoint'' e))
     | Inr existing \<Rightarrow>
         if ow_token existing \<noteq> ow_token (ol_owner l)
         then Return (l, Inl (owner_changed
                ''refusing to checkpoint an operation lock now owned by another process''))
         else Clock (\<lambda>now.
           let noted = (ol_owner l)\<lparr>ow_checkpoint := Some \<lparr>lc_phase = phase,
                 lc_updated_unix_ms = to_u64 (as_millis (nat now)), lc_evidence = evidence,
                 lc_evidence_compaction = None, lc_provider_state_indeterminate = indeterminate\<rparr>\<rparr>
           in case bounded_owner oc noted of
                (owner, Inl e) \<Rightarrow> Return (l\<lparr>ol_owner := owner\<rparr>, Inl e)
              | (owner, Inr encoded) \<Rightarrow>
                  if ol_file l = None
                  then Return (l\<lparr>ol_owner := owner\<rparr>,
                         Inl (app_structured ExecutionFailure ''operation_lock_checkpoint_file_closed''
                           ''cannot checkpoint a released operation lock''))
                  else persist_checkpoint_bytes oc (l\<lparr>ol_owner := owner\<rparr>) encoded))"

subsection \<open>Releasing\<close>

definition release_inner :: "owner_codec \<Rightarrow> operation_lock \<Rightarrow> (operation_lock \<times> (app_error + unit)) program" where
  "release_inner oc l =
     (if ol_released l then Return (l, Inr ())
      else pthen (read_owner oc (ol_path l)) (\<lambda>r. case r of
        Inl e \<Rightarrow> Return (l, Inl (lock_io_error ''operation_lock_release_inspection_failed''
                   ''could not verify operation lock ownership before release'' e))
      | Inr existing \<Rightarrow>
          if ow_token existing \<noteq> ow_token (ol_owner l)
          then Return (l, Inl (owner_changed
                 ''refusing to remove an operation lock now owned by another process''))
          else Unlink (ol_path l) (\<lambda>removed. case removed of
                 Inl e \<Rightarrow> Return (l\<lparr>ol_file := None\<rparr>, Inl (lock_io_error ''operation_lock_release_failed''
                            ''could not remove the repository operation lock'' e))
               | Inr _ \<Rightarrow> Return (l\<lparr>ol_file := None, ol_released := True\<rparr>, Inr ()))))"

definition lock_drop :: "owner_codec \<Rightarrow> operation_lock \<Rightarrow> unit program" where
  "lock_drop oc l =
     (if ol_released l then Return ()
      else pthen (read_owner oc (ol_path l)) (\<lambda>r. case r of
        Inl _ \<Rightarrow> Return ()
      | Inr owner \<Rightarrow>
          if ow_token owner = ow_token (ol_owner l) then Unlink (ol_path l) (\<lambda>_. Return ()) else Return ()))"

text \<open>\<open>release\<close> consumes the guard, so a guard it could not release is dropped.\<close>

definition lock_release :: "owner_codec \<Rightarrow> operation_lock \<Rightarrow> (app_error + unit) program" where
  "lock_release oc l = pthen (release_inner oc l) (\<lambda>(l', r). pthen (lock_drop oc l') (\<lambda>_. Return r))"

subsection \<open>Inspection and recovery\<close>

definition inspect_lock :: "owner_codec \<Rightarrow> string \<Rightarrow> duration \<Rightarrow> (app_error + operation_lock_status) program" where
  "inspect_lock oc repository stale_after =
     ptry (lock_path repository) (\<lambda>(_, path).
     Stat path (\<lambda>metadata. case metadata of
       Inl e \<Rightarrow>
         if ie_kind e = NotFound
         then Return (Inr \<lparr>ls_path = path, ls_present = False, ls_owner = None, ls_age_secs = None,
                ls_owner_alive = None, ls_auto_recoverable = False, ls_stale_after_secs = as_secs stale_after,
                ls_stale = False\<rparr>)
         else Return (Inl (lock_io_error ''operation_lock_inspection_failed'' ''could not inspect the operation lock'' e))
     | Inr modified \<Rightarrow>
         ptry (pmap_err ''operation_lock_owner_invalid'' ''could not read operation lock owner evidence''
                 (read_owner oc path)) (\<lambda>owner.
         pthen (lock_age_secs modified owner) (\<lambda>age.
         ptry (process_is_alive (ow_pid owner)) (\<lambda>alive.
           Return (Inr \<lparr>ls_path = path, ls_present = True, ls_owner = Some owner, ls_age_secs = Some age,
             ls_owner_alive = Some alive, ls_auto_recoverable = (\<not> alive),
             ls_stale_after_secs = as_secs stale_after, ls_stale = (age \<ge> as_secs stale_after)\<rparr>))))))"

text \<open>The last check and the removal of an inspected stale lock.\<close>

definition remove_stale_lock ::
    "owner_codec \<Rightarrow> string \<Rightarrow> string \<Rightarrow> operation_lock_owner \<Rightarrow> nat \<Rightarrow> (app_error + operation_lock_recovery) program" where
  "remove_stale_lock oc path expected_token owner age_secs =
     ptry (pmap_err ''operation_lock_recovery_inspection_failed'' ''could not re-read owner evidence before recovery''
             (read_owner oc path)) (\<lambda>latest.
       if latest \<noteq> owner \<or> ow_token latest \<noteq> expected_token
       then Return (Inl (owner_changed ''operation lock ownership changed during recovery; refusing removal''))
       else ptry (process_is_alive (ow_pid latest)) (\<lambda>alive.
         if alive
         then Return (Inl (app_structured Validation ''operation_lock_owner_alive''
                ''the recorded PID became live during recovery; refusing removal''))
         else Unlink path (\<lambda>removed. Return (case removed of
           Inl e \<Rightarrow> Inl (lock_io_error ''operation_lock_recovery_failed''
                      ''could not remove the verified-stale operation lock'' e)
         | Inr _ \<Rightarrow> Inr \<lparr>lr_path = path, lr_removed_owner = latest, lr_age_secs = age_secs,
                      lr_owner_alive = False, lr_token_verified = True\<rparr>))))"

text \<open>A present lock has an owner and an age, so the two \<open>expect\<close>s hold; otherwise it is not recovered.\<close>

definition recover_stale_lock ::
    "owner_codec \<Rightarrow> string \<Rightarrow> duration \<Rightarrow> string \<Rightarrow> (app_error + operation_lock_recovery) program" where
  "recover_stale_lock oc repository stale_after expected_token =
     (if trim expected_token = []
      then Return (Inl (app_validation ''operation_lock_token_required''
             ''recovery requires the exact token returned by `cara lock status`''))
      else
        ptry (inspect_lock oc repository stale_after) (\<lambda>status.
          case (ls_owner status, ls_age_secs status) of
            (Some owner, Some age_secs) \<Rightarrow>
              if ow_token owner \<noteq> expected_token
              then Return (Inl (app_structured Validation ''operation_lock_token_mismatch''
                     ''the supplied recovery token does not match the current lock owner''))
              else if \<not> ls_stale status
              then Return (Inl (app_structured Validation ''operation_lock_not_stale''
                     ''the operation lock has not reached the required recovery age''))
              else if ls_owner_alive status = Some True
              then Return (Inl (app_structured Validation ''operation_lock_owner_alive''
                     ''refusing to recover an operation lock whose recorded PID is alive''))
              else ptry (lock_path repository) (\<lambda>(_, path). remove_stale_lock oc path expected_token owner age_secs)
          | _ \<Rightarrow> Return (Inl (app_structured TargetNotFound ''operation_lock_not_found''
                   ''there is no Caravan operation lock to recover''))))"

end
