(* ===== verification/Lock_World.thy ===== *)
theory Lock_World
  imports Operation_Lock
begin

text \<open>
  The world in which lock programs run: one directory of paths, the files behind them, the processes
  that have ended and their counters. A client is a thread of a process and runs one lock operation
  at a time. A file keeps the client that created it, which no program can read. Every call either
  does its work or fails with an I/O error; a failed write may leave any part of its bytes. Process
  ids are not reused while the repository is in use.
\<close>

subsection \<open>Files\<close>

record lock_inode =
  li_bytes :: string
  li_modified :: int
  li_creator :: nat

record lock_world =
  lw_dir :: "string \<Rightarrow> nat option"
  lw_inode :: "nat \<Rightarrow> lock_inode"
  lw_next :: nat
  lw_clock :: int
  lw_sequence :: "nat \<Rightarrow> nat"
  lw_dead :: "nat list"
  lw_common_dir :: string

datatype fault = NoFault | Fault string nat

definition fault_error :: "string \<Rightarrow> io_error" where
  "fault_error text = \<lparr>ie_kind = OtherKind, ie_text = text\<rparr>"

definition not_found :: io_error where
  "not_found = \<lparr>ie_kind = NotFound, ie_text = ''entity not found''\<rparr>"

definition already_exists :: io_error where
  "already_exists = \<lparr>ie_kind = AlreadyExists, ie_text = ''entity already exists''\<rparr>"

definition add_file :: "nat \<Rightarrow> string \<Rightarrow> lock_world \<Rightarrow> lock_world" where
  "add_file c path w = w
     \<lparr>lw_dir := (lw_dir w)(path := Some (lw_next w)),
      lw_inode := (lw_inode w)(lw_next w := \<lparr>li_bytes = [], li_modified = lw_clock w, li_creator = c\<rparr>),
      lw_next := Suc (lw_next w)\<rparr>"

definition set_bytes :: "nat \<Rightarrow> string \<Rightarrow> lock_world \<Rightarrow> lock_world" where
  "set_bytes h bytes w = w\<lparr>lw_inode := (lw_inode w)(h := (lw_inode w h)\<lparr>li_bytes := bytes, li_modified := lw_clock w\<rparr>)\<rparr>"

definition remove_path :: "string \<Rightarrow> lock_world \<Rightarrow> lock_world" where
  "remove_path path w = w\<lparr>lw_dir := (lw_dir w)(path := None)\<rparr>"

definition move_path :: "string \<Rightarrow> string \<Rightarrow> lock_world \<Rightarrow> lock_world" where
  "move_path a b w = w\<lparr>lw_dir := (lw_dir w)(b := lw_dir w a, a := None)\<rparr>"

subsection \<open>One call\<close>

text \<open>
  \<open>sys_step\<close> runs the first call of a program for client \<open>c\<close> of process \<open>pid\<close>. Git answers with the common
  directory of the repository, or fails.
\<close>

primrec sys_step :: "fault \<Rightarrow> nat \<Rightarrow> nat \<Rightarrow> lock_world \<Rightarrow> 'a program \<Rightarrow> lock_world \<times> 'a program" where
  "sys_step f c pid w (Return x) = (w, Return x)"
| "sys_step f c pid w (MkDirs p k) =
     (case f of NoFault \<Rightarrow> (w, k (Inr ())) | Fault text _ \<Rightarrow> (w, k (Inl (fault_error text))))"
| "sys_step f c pid w (CreateNew p k) =
     (case f of
        Fault text _ \<Rightarrow> (w, k (Inl (fault_error text)))
      | NoFault \<Rightarrow> if lw_dir w p = None then (add_file c p w, k (Inr (lw_next w))) else (w, k (Inl already_exists)))"
| "sys_step f c pid w (Open p k) =
     (case f of
        Fault text _ \<Rightarrow> (w, k (Inl (fault_error text)))
      | NoFault \<Rightarrow> (w, k (case lw_dir w p of None \<Rightarrow> Inl not_found | Some h \<Rightarrow> Inr h)))"
| "sys_step f c pid w (Write h bytes k) =
     (case f of
        Fault text n \<Rightarrow> (set_bytes h (take n bytes) w, k (Inl (fault_error text)))
      | NoFault \<Rightarrow> (set_bytes h bytes w, k (Inr ())))"
| "sys_step f c pid w (Read p k) =
     (case f of
        Fault text _ \<Rightarrow> (w, k (Inl (fault_error text)))
      | NoFault \<Rightarrow> (w, k (case lw_dir w p of None \<Rightarrow> Inl not_found | Some h \<Rightarrow> Inr (li_bytes (lw_inode w h)))))"
| "sys_step f c pid w (Stat p k) =
     (case f of
        Fault text _ \<Rightarrow> (w, k (Inl (fault_error text)))
      | NoFault \<Rightarrow> (w, k (case lw_dir w p of None \<Rightarrow> Inl not_found | Some h \<Rightarrow> Inr (Some (li_modified (lw_inode w h))))))"
| "sys_step f c pid w (Unlink p k) =
     (case f of
        Fault text _ \<Rightarrow> (w, k (Inl (fault_error text)))
      | NoFault \<Rightarrow> if lw_dir w p = None then (w, k (Inl not_found)) else (remove_path p w, k (Inr ())))"
| "sys_step f c pid w (Rename a b k) =
     (case f of
        Fault text _ \<Rightarrow> (w, k (Inl (fault_error text)))
      | NoFault \<Rightarrow> if lw_dir w a = None then (w, k (Inl not_found)) else (move_path a b w, k (Inr ())))"
| "sys_step f c pid w (Pid k) = (w, k pid)"
| "sys_step f c pid w (Probe n k) =
     (case f of Fault text _ \<Rightarrow> (w, k (Inl text)) | NoFault \<Rightarrow> (w, k (Inr (n \<notin> set (lw_dead w)))))"
| "sys_step f c pid w (Clock k) = (w, k (lw_clock w))"
| "sys_step f c pid w (Sequence k) =
     (w\<lparr>lw_sequence := (lw_sequence w)(pid := Suc (lw_sequence w pid))\<rparr>, k (lw_sequence w pid))"
| "sys_step f c pid w (Run d command k) =
     (case f of
        Fault text _ \<Rightarrow> (w, k (Inl (SpawnError command text)))
      | NoFault \<Rightarrow> (w, k (Inr \<lparr>co_code = Some 0, co_stdout = lw_common_dir w, co_stderr = []\<rparr>)))"

text \<open>A program alone, without failures.\<close>

primrec solo :: "nat \<Rightarrow> nat \<Rightarrow> lock_world \<Rightarrow> 'a program \<Rightarrow> lock_world \<times> 'a" where
  "solo c pid w (Return x) = (w, x)"
| "solo c pid w (MkDirs p k) = solo c pid w (k (Inr ()))"
| "solo c pid w (CreateNew p k) =
     (if lw_dir w p = None then solo c pid (add_file c p w) (k (Inr (lw_next w))) else solo c pid w (k (Inl already_exists)))"
| "solo c pid w (Open p k) = solo c pid w (k (case lw_dir w p of None \<Rightarrow> Inl not_found | Some h \<Rightarrow> Inr h))"
| "solo c pid w (Write h bytes k) = solo c pid (set_bytes h bytes w) (k (Inr ()))"
| "solo c pid w (Read p k) =
     solo c pid w (k (case lw_dir w p of None \<Rightarrow> Inl not_found | Some h \<Rightarrow> Inr (li_bytes (lw_inode w h))))"
| "solo c pid w (Stat p k) =
     solo c pid w (k (case lw_dir w p of None \<Rightarrow> Inl not_found | Some h \<Rightarrow> Inr (Some (li_modified (lw_inode w h)))))"
| "solo c pid w (Unlink p k) =
     (if lw_dir w p = None then solo c pid w (k (Inl not_found)) else solo c pid (remove_path p w) (k (Inr ())))"
| "solo c pid w (Rename a b k) =
     (if lw_dir w a = None then solo c pid w (k (Inl not_found)) else solo c pid (move_path a b w) (k (Inr ())))"
| "solo c pid w (Pid k) = solo c pid w (k pid)"
| "solo c pid w (Probe n k) = solo c pid w (k (Inr (n \<notin> set (lw_dead w))))"
| "solo c pid w (Clock k) = solo c pid w (k (lw_clock w))"
| "solo c pid w (Sequence k) =
     solo c pid (w\<lparr>lw_sequence := (lw_sequence w)(pid := Suc (lw_sequence w pid))\<rparr>) (k (lw_sequence w pid))"
| "solo c pid w (Run d command k) =
     solo c pid w (k (Inr \<lparr>co_code = Some 0, co_stdout = lw_common_dir w, co_stderr = []\<rparr>))"

lemma solo_pthen: "solo c pid w (pthen m f) = (case solo c pid w m of (w', x) \<Rightarrow> solo c pid w' (f x))"
  by (induction m arbitrary: w) (simp_all split: prod.splits)

lemma solo_ptry:
  "solo c pid w (ptry m f) = (case solo c pid w m of (w', Inl e) \<Rightarrow> (w', Inl e) | (w', Inr x) \<Rightarrow> solo c pid w' (f x))"
  by (simp add: ptry_def solo_pthen split: prod.splits sum.splits)

lemma solo_sys_step: "solo c pid w m = (case sys_step NoFault c pid w m of (w', m') \<Rightarrow> solo c pid w' m')"
  by (cases m) simp_all

subsection \<open>Clients\<close>

text \<open>What a client is doing. \<open>Idle\<close> clients hold nothing; a process that ended takes its clients with it.\<close>

datatype phase =
    Idle
  | Acquiring "(app_error + operation_lock) program"
  | Holding operation_lock
  | Checkpointing "(operation_lock \<times> (app_error + unit)) program"
  | Releasing "(app_error + unit) program"
  | Dropping "unit program"
  | Recovering "(app_error + operation_lock_recovery) program"
  | Ended

record lock_system =
  sy_world :: lock_world
  sy_phase :: "nat \<Rightarrow> phase"

definition set_phase :: "nat \<Rightarrow> phase \<Rightarrow> lock_system \<Rightarrow> lock_system" where
  "set_phase c ph s = s\<lparr>sy_phase := (sy_phase s)(c := ph)\<rparr>"

fun phase_call :: "fault \<Rightarrow> nat \<Rightarrow> nat \<Rightarrow> lock_world \<Rightarrow> phase \<Rightarrow> lock_world \<times> phase" where
  "phase_call f c pid w (Acquiring m) = map_prod id Acquiring (sys_step f c pid w m)"
| "phase_call f c pid w (Checkpointing m) = map_prod id Checkpointing (sys_step f c pid w m)"
| "phase_call f c pid w (Releasing m) = map_prod id Releasing (sys_step f c pid w m)"
| "phase_call f c pid w (Dropping m) = map_prod id Dropping (sys_step f c pid w m)"
| "phase_call f c pid w (Recovering m) = map_prod id Recovering (sys_step f c pid w m)"
| "phase_call f c pid w ph = (w, ph)"

text \<open>What a finished operation leaves the client with.\<close>

inductive phase_done :: "phase \<Rightarrow> phase \<Rightarrow> bool" where
  acquired: "phase_done (Acquiring (Return (Inr l))) (Holding l)"
| refused: "phase_done (Acquiring (Return (Inl e))) Idle"
| checkpointed: "phase_done (Checkpointing (Return (l, r))) (Holding l)"
| released: "phase_done (Releasing (Return r)) Idle"
| dropped: "phase_done (Dropping (Return ())) Idle"
| recovered: "phase_done (Recovering (Return r)) Idle"

inductive phase_begin :: "owner_codec \<Rightarrow> phase \<Rightarrow> phase \<Rightarrow> bool" for oc where
  acquire: "phase_begin oc Idle (Acquiring (acquire_with_stale_after oc repository operation stale_after))"
| recover: "phase_begin oc Idle (Recovering (recover_stale_lock oc repository stale_after token))"
| checkpoint: "phase_begin oc (Holding l) (Checkpointing (lock_checkpoint oc phase evidence indeterminate l))"
| release: "phase_begin oc (Holding l) (Releasing (lock_release oc l))"
| drop_guard: "phase_begin oc (Holding l) (Dropping (lock_drop oc l))"

text \<open>
  One step of the system: a call of one client, the begin or the end of an operation, the end of a
  process at any point, or a change of the clock. \<open>pid_of\<close> gives the process of a client.
\<close>

inductive lock_step :: "owner_codec \<Rightarrow> (nat \<Rightarrow> nat) \<Rightarrow> lock_system \<Rightarrow> lock_system \<Rightarrow> bool" for oc pid_of where
  call: "phase_call f c (pid_of c) (sy_world s) (sy_phase s c) = (w, ph)
     \<Longrightarrow> lock_step oc pid_of s (set_phase c ph (s\<lparr>sy_world := w\<rparr>))"
| begin_operation: "phase_begin oc (sy_phase s c) ph \<Longrightarrow> pid_of c \<notin> set (lw_dead (sy_world s))
     \<Longrightarrow> lock_step oc pid_of s (set_phase c ph s)"
| end_operation: "phase_done (sy_phase s c) ph \<Longrightarrow> lock_step oc pid_of s (set_phase c ph s)"
| end_process: "lock_step oc pid_of s
     (s\<lparr>sy_world := (sy_world s)\<lparr>lw_dead := n # lw_dead (sy_world s)\<rparr>,
        sy_phase := (\<lambda>c. if pid_of c = n then Ended else sy_phase s c)\<rparr>)"
| tick: "lock_step oc pid_of s (s\<lparr>sy_world := (sy_world s)\<lparr>lw_clock := t\<rparr>\<rparr>)"

definition initial_world :: "string \<Rightarrow> lock_world" where
  "initial_world common_dir = \<lparr>lw_dir = (\<lambda>_. None),
     lw_inode = (\<lambda>_. \<lparr>li_bytes = [], li_modified = 0, li_creator = 0\<rparr>), lw_next = 0, lw_clock = 0,
     lw_sequence = (\<lambda>_. 0), lw_dead = [], lw_common_dir = common_dir\<rparr>"

definition initial_system :: "string \<Rightarrow> lock_system" where
  "initial_system common_dir = \<lparr>sy_world = initial_world common_dir, sy_phase = (\<lambda>_. Idle)\<rparr>"

fun holds_lock :: "phase \<Rightarrow> bool" where
  "holds_lock (Holding l) = True"
| "holds_lock (Checkpointing m) = True"
| "holds_lock _ = False"

text \<open>The lock of the repository.\<close>

definition the_lock :: "lock_world \<Rightarrow> string" where
  "the_lock w = join_path (lock_parent (trim (lw_common_dir w))) lock_file"

text \<open>A lock file is orphaned when the client that created it is not running an operation on it.\<close>

definition orphaned :: "lock_system \<Rightarrow> bool" where
  "orphaned s \<longleftrightarrow> (\<exists>i. lw_dir (sy_world s) (the_lock (sy_world s)) = Some i
     \<and> sy_phase s (li_creator (lw_inode (sy_world s) i)) \<in> {Idle, Ended})"

inductive reachable :: "owner_codec \<Rightarrow> (nat \<Rightarrow> nat) \<Rightarrow> string \<Rightarrow> lock_system \<Rightarrow> bool" for oc pid_of common_dir where
  start: "reachable oc pid_of common_dir (initial_system common_dir)"
| step: "reachable oc pid_of common_dir s \<Longrightarrow> lock_step oc pid_of s s' \<Longrightarrow> reachable oc pid_of common_dir s'"

text \<open>Reachable without ever leaving an orphaned lock file.\<close>

inductive orderly :: "owner_codec \<Rightarrow> (nat \<Rightarrow> nat) \<Rightarrow> string \<Rightarrow> lock_system \<Rightarrow> bool" for oc pid_of common_dir where
  start: "orderly oc pid_of common_dir (initial_system common_dir)"
| step: "orderly oc pid_of common_dir s \<Longrightarrow> lock_step oc pid_of s s' \<Longrightarrow> \<not> orphaned s'
     \<Longrightarrow> orderly oc pid_of common_dir s'"

end
