(* ===== verification/Lock_Rules.thy ===== *)
theory Lock_Rules
  imports Lock_World Generation_Text
begin

text \<open>
  What one client may do to the lock whatever the other clients do. \<open>lawful\<close> follows a program with the
  knowledge its answers give the client; the programs of the lock are lawful. The rules say which
  calls are allowed (a client removes or replaces the lock only when it owns it) and which answers
  the others guarantee (the lock never names a process that the client has seen dead).
\<close>

subsection \<open>Checkpoint names\<close>

lemma minus_not_digit: "CHR ''-'' \<notin> set (show_nat n)"
  using show_nat_digits [of "CHR ''-''" n] by (auto simp: digit_val_def)

lemma dot_not_digit: "CHR ''.'' \<notin> set (show_nat n)"
  using show_nat_digits [of "CHR ''.''" n] by (auto simp: digit_val_def)

lemma append_sep_inject:
  "c \<notin> set xs \<Longrightarrow> c \<notin> set ys \<Longrightarrow> xs @ c # rest = ys @ c # rest' \<longleftrightarrow> xs = ys \<and> rest = rest'"
proof (induction xs arbitrary: ys)
  case Nil
  thus ?case by (cases ys) auto
next
  case (Cons x xs)
  thus ?case by (cases ys) auto
qed

lemma checkpoint_path_inject [simp]:
  "checkpoint_path P p n = checkpoint_path P p' n' \<longleftrightarrow> p = p' \<and> n = n'"
  by (simp add: checkpoint_path_def append_sep_inject [OF minus_not_digit minus_not_digit]
      append_sep_inject [OF dot_not_digit dot_not_digit, of n "''tmp''" n' "''tmp''", simplified])

definition lock_name :: "string \<Rightarrow> string" where
  "lock_name common_dir = join_path (lock_parent (trim common_dir)) lock_file"

lemma lock_name_ends: "\<exists>pre. lock_name common_dir = pre @ ''lock''"
proof -
  have "lock_file = ''operation.'' @ ''lock''" by (simp add: lock_file_def)
  thus ?thesis by (simp only: lock_name_def join_path_def split: if_splits) (metis append.assoc)
qed

lemma checkpoint_path_not_lock [simp]:
  "checkpoint_path (lock_name d) p n \<noteq> lock_name d" "lock_name d \<noteq> checkpoint_path (lock_name d) p n"
proof -
  obtain pre where "lock_name d = pre @ ''lock''" using lock_name_ends by blast
  thus "checkpoint_path (lock_name d) p n \<noteq> lock_name d" "lock_name d \<noteq> checkpoint_path (lock_name d) p n"
    by (simp_all add: checkpoint_path_def)
qed

subsection \<open>Lawful programs\<close>

text \<open>The processes a client has seen dead, whether it owns the lock, its temporary paths, its open files.\<close>

record knowledge =
  kn_dead :: "nat set"
  kn_own :: bool
  kn_temps :: "string set"
  kn_files :: "nat set"

definition admissible :: "owner_codec \<Rightarrow> knowledge \<Rightarrow> io_error + string \<Rightarrow> bool" where
  "admissible oc K answer \<longleftrightarrow> (\<forall>bytes owner. answer = Inr bytes \<longrightarrow>
     oc_decode oc (take max_owner_bytes bytes) = Inr owner \<longrightarrow> ow_pid owner \<notin> kn_dead K)"

primrec lawful ::
    "owner_codec \<Rightarrow> string \<Rightarrow> nat \<Rightarrow> ('a \<Rightarrow> knowledge \<Rightarrow> bool) \<Rightarrow> 'a program \<Rightarrow> knowledge \<Rightarrow> bool" where
  "lawful oc d pid Q (Return x) K = Q x K"
| "lawful oc d pid Q (MkDirs p k) K = (\<forall>a. lawful oc d pid Q (k a) K)"
| "lawful oc d pid Q (CreateNew p k) K =
     ((p = lock_name d \<or> p \<in> kn_temps K) \<and> (\<forall>e. lawful oc d pid Q (k (Inl e)) K)
      \<and> (\<forall>h. lawful oc d pid Q (k (Inr h))
            (K\<lparr>kn_own := kn_own K \<or> p = lock_name d, kn_files := insert h (kn_files K)\<rparr>)))"
| "lawful oc d pid Q (Open p k) K = (\<forall>a. lawful oc d pid Q (k a) K)"
| "lawful oc d pid Q (Write h bytes k) K =
     (h \<in> kn_files K \<and> (\<exists>owner. oc_encode oc owner = Inr bytes \<and> ow_pid owner = pid)
      \<and> (\<forall>a. lawful oc d pid Q (k a) K))"
| "lawful oc d pid Q (Read p k) K =
     (\<forall>a. (p = lock_name d \<longrightarrow> admissible oc K a) \<longrightarrow> lawful oc d pid Q (k a) K)"
| "lawful oc d pid Q (Stat p k) K = (\<forall>a. lawful oc d pid Q (k a) K)"
| "lawful oc d pid Q (Unlink p k) K =
     ((p = lock_name d \<longrightarrow> kn_own K) \<and> (\<forall>e. lawful oc d pid Q (k (Inl e)) K)
      \<and> lawful oc d pid Q (k (Inr ())) (K\<lparr>kn_own := kn_own K \<and> p \<noteq> lock_name d\<rparr>))"
| "lawful oc d pid Q (Rename a b k) K =
     (a \<in> kn_temps K \<and> b = lock_name d \<and> kn_own K \<and> (\<forall>r. lawful oc d pid Q (k r) K))"
| "lawful oc d pid Q (Pid k) K = lawful oc d pid Q (k pid) K"
| "lawful oc d pid Q (Probe n k) K =
     ((\<forall>e. lawful oc d pid Q (k (Inl e)) K) \<and> lawful oc d pid Q (k (Inr True)) K
      \<and> lawful oc d pid Q (k (Inr False)) (K\<lparr>kn_dead := insert n (kn_dead K)\<rparr>))"
| "lawful oc d pid Q (Clock k) K = (\<forall>t. lawful oc d pid Q (k t) K)"
| "lawful oc d pid Q (Sequence k) K =
     (\<forall>n. lawful oc d pid Q (k n) (K\<lparr>kn_temps := insert (checkpoint_path (lock_name d) pid n) (kn_temps K)\<rparr>))"
| "lawful oc d pid Q (Run dir command k) K =
     ((\<forall>e. lawful oc d pid Q (k (Inl e)) K)
      \<and> lawful oc d pid Q (k (Inr \<lparr>co_code = Some 0, co_stdout = d, co_stderr = []\<rparr>)) K)"

lemma lawful_mono:
  assumes "lawful oc d pid Q m K" and Q: "\<And>x K'. Q x K' \<Longrightarrow> Q' x K'"
  shows "lawful oc d pid Q' m K"
  using assms(1) by (induction m arbitrary: K) (auto simp: Q)

lemma lawful_pthen:
  "lawful oc d pid (\<lambda>x. lawful oc d pid Q (f x)) m K \<Longrightarrow> lawful oc d pid Q (pthen m f) K"
  by (induction m arbitrary: K) simp_all

lemma lawful_then:
  "lawful oc d pid R m K \<Longrightarrow> (\<And>x K'. R x K' \<Longrightarrow> lawful oc d pid Q (f x) K')
   \<Longrightarrow> lawful oc d pid Q (pthen m f) K"
  by (rule lawful_pthen) (rule lawful_mono)

lemma lawful_try:
  "lawful oc d pid (\<lambda>x K'. case x of Inl e \<Rightarrow> Q (Inl e) K' | Inr y \<Rightarrow> lawful oc d pid Q (f y) K') m K
   \<Longrightarrow> lawful oc d pid Q (ptry m f) K"
  unfolding ptry_def by (rule lawful_then, assumption) (simp split: sum.splits)

end
