(* ===== verification/Lock_Guard.thy ===== *)
theory Lock_Guard
  imports Lock_Rules
begin

text \<open>
  The programs of the operation lock are lawful: whatever the system calls answer, a client removes or
  replaces the lock only while it owns it, and an acquired guard owns it.
\<close>

definition owns_guard :: "string \<Rightarrow> nat \<Rightarrow> operation_lock \<Rightarrow> knowledge \<Rightarrow> bool" where
  "owns_guard d pid l K \<longleftrightarrow> ol_path l = lock_name d \<and> ow_pid (ol_owner l) = pid \<and> kn_own K"

definition any_result :: "'a \<Rightarrow> knowledge \<Rightarrow> bool" where
  "any_result x K = True"

definition owns_result :: "string \<Rightarrow> nat \<Rightarrow> app_error + operation_lock \<Rightarrow> knowledge \<Rightarrow> bool" where
  "owns_result d pid r K = (case r of Inl _ \<Rightarrow> True | Inr l \<Rightarrow> owns_guard d pid l K)"

definition owns_after :: "string \<Rightarrow> nat \<Rightarrow> operation_lock \<times> 'a \<Rightarrow> knowledge \<Rightarrow> bool" where
  "owns_after d pid r K = owns_guard d pid (fst r) K"

lemma any_result [simp]: "any_result x K"
  by (simp add: any_result_def)

lemma owns_result_simps [simp]:
  "owns_result d pid (Inl e) K" "owns_result d pid (Inr l) K = owns_guard d pid l K"
  by (simp_all add: owns_result_def)

lemma owns_after_pair [simp]: "owns_after d pid (l, r) K = owns_guard d pid l K"
  by (simp add: owns_after_def)

subsection \<open>Reading and probing\<close>

lemma lawful_read_owner:
  assumes "\<And>e. Q (Inl e) K"
    and "\<And>owner. (path = lock_name d \<Longrightarrow> ow_pid owner \<notin> kn_dead K) \<Longrightarrow> Q (Inr owner) K"
  shows "lawful oc d pid Q (read_owner oc path) K"
  using assms by (auto simp: read_owner_def admissible_def split: sum.splits)

lemma lawful_process_is_alive:
  assumes "\<And>e. Q (Inl e) K" "Q (Inr True) K" "Q (Inr False) (K\<lparr>kn_dead := insert n (kn_dead K)\<rparr>)"
  shows "lawful oc d pid Q (process_is_alive n) K"
  using assms by (simp add: process_is_alive_def)

lemma lawful_pmap_err:
  assumes "lawful oc d pid (\<lambda>r. case r of Inl e \<Rightarrow> Q (Inl (lock_io_error code message e)) | Inr x \<Rightarrow> Q (Inr x)) m K"
  shows "lawful oc d pid Q (pmap_err code message m) K"
  using assms unfolding pmap_err_def by (rule lawful_then) (simp split: sum.splits)

lemma lawful_lock_path:
  assumes "\<And>e. Q (Inl e) K" "Q (Inr (lock_parent (trim d), lock_name d)) K"
  shows "lawful oc d pid Q (lock_path repository) K"
  using assms by (simp add: lock_path_def is_success_def lock_name_def Let_def)

lemma lawful_lock_age:
  assumes "\<And>n. Q n K"
  shows "lawful oc d pid Q (lock_age_secs modified owner) K"
  using assms by (simp add: lock_age_secs_def split: option.splits)

lemma lawful_new_owner:
  assumes "\<And>owner temps. ow_pid owner = pid \<Longrightarrow> kn_temps K \<subseteq> temps \<Longrightarrow> Q owner (K\<lparr>kn_temps := temps\<rparr>)"
  shows "lawful oc d pid Q (new_owner operation) K"
  by (simp add: new_owner_def Let_def assms subset_insertI)

subsection \<open>Acquiring\<close>

text \<open>
  The removal of a dead owner's lock is never reached while the lock keeps naming live processes: the
  second reading would have to name the process the client has just seen dead.
\<close>

lemma lawful_recheck_dead_owner:
  assumes "ow_pid owner \<in> kn_dead K"
  shows "lawful oc d pid any_result (recheck_dead_owner oc (lock_name d) modified owner) K"
  unfolding recheck_dead_owner_def
  by (rule lawful_pthen, rule lawful_read_owner) (use assms in \<open>auto\<close>)

lemma lawful_recover_dead_owner:
  "lawful oc d pid any_result (recover_dead_owner_for_acquire oc (lock_name d)) K"
proof -
  have "lawful oc d pid any_result (ptry (process_is_alive (ow_pid owner)) (\<lambda>alive.
      if alive then Return (Inr Live) else recheck_dead_owner oc (lock_name d) modified owner)) K" for owner modified
    by (rule lawful_try, rule lawful_process_is_alive) (simp_all add: lawful_recheck_dead_owner)
  thus ?thesis unfolding recover_dead_owner_for_acquire_def
    by (auto split: sum.splits intro!: lawful_pthen lawful_read_owner)
qed

lemma lawful_existing_lock_error:
  "lawful oc d pid any_result (existing_lock_error oc path stale_after) K"
  unfolding existing_lock_error_def
  by (auto split: sum.splits option.splits intro!: lawful_pthen lawful_read_owner)

lemma lawful_write_owner:
  assumes "ow_pid owner = pid" "handle \<in> kn_files K" "kn_own K"
  shows "lawful oc d pid (owns_result d pid) (write_owner oc (lock_name d) owner handle recovered) K"
  using assms by (auto simp: write_owner_def owns_guard_def split: sum.splits)

lemma lawful_acquire_attempts:
  assumes "ow_pid owner = pid"
  shows "lawful oc d pid (owns_result d pid) (acquire_attempts n oc (lock_name d) stale_after owner recovered) K"
proof (induction n arbitrary: recovered K)
  case 0
  thus ?case by simp
next
  case (Suc left)
  show ?case
    by (auto simp: assms lawful_write_owner Suc.IH
        intro!: lawful_try lawful_mono [OF lawful_recover_dead_owner] lawful_then [OF lawful_existing_lock_error]
        split: sum.splits dead_owner_probe.splits option.splits)
qed

lemma lawful_acquire:
  "lawful oc d pid (owns_result d pid) (acquire_with_stale_after oc repository operation stale_after) K"
  by (auto simp: acquire_with_stale_after_def lawful_acquire_attempts
      intro!: lawful_try lawful_lock_path lawful_pthen lawful_new_owner split: sum.splits)

lemma lawful_recover_stale:
  "lawful oc d pid any_result (recover_stale_lock oc repository stale_after token) K"
proof -
  have remove: "lawful oc d pid any_result (remove_stale_lock oc (lock_name d) token owner age) K"
    if "ow_pid owner \<in> kn_dead K" for token owner age K
    using that unfolding remove_stale_lock_def
    by (auto intro!: lawful_try lawful_pmap_err lawful_read_owner)
  have inspect: "lawful oc d pid (\<lambda>r K'. \<forall>status owner. r = Inr status \<longrightarrow> ls_owner status = Some owner
      \<longrightarrow> ls_owner_alive status = Some True \<or> ow_pid owner \<in> kn_dead K') (inspect_lock oc repository stale_after) K" for K
    unfolding inspect_lock_def
    by (auto intro!: lawful_try lawful_lock_path lawful_pmap_err lawful_read_owner lawful_then [OF lawful_lock_age]
        lawful_process_is_alive split: sum.splits)
  show ?thesis
    unfolding recover_stale_lock_def ptry_def [of "inspect_lock oc repository stale_after"]
    by (auto intro!: lawful_then [OF inspect] lawful_try lawful_lock_path remove split: sum.splits option.splits)
qed

subsection \<open>Guards\<close>

lemma bounded_owner_pid: "ow_pid (fst (bounded_owner oc owner)) = ow_pid owner"
  by (auto simp: bounded_owner_def shrink_owner_def compact_checkpoint_evidence_def minimize_checkpoint_evidence_def
      map_checkpoint_def Let_def split: sum.splits prod.splits if_splits)

lemma bounded_owner_encodes: "bounded_owner oc owner = (owner', Inr bytes) \<Longrightarrow> oc_encode oc owner' = Inr bytes"
  by (auto simp: bounded_owner_def shrink_owner_def encoded_owner_def Let_def
      split: sum.splits prod.splits if_splits)

lemma lawful_replace_checkpoint:
  assumes "owns_guard d pid l K" "temporary \<in> kn_temps K" "temporary \<noteq> lock_name d"
  shows "lawful oc d pid (owns_after d pid) (replace_checkpoint oc l temporary) K"
  using assms unfolding replace_checkpoint_def discard_def
  by (auto simp: owns_guard_def intro!: lawful_pthen lawful_read_owner split: sum.splits)

lemma lawful_persist_checkpoint:
  assumes "owns_guard d pid l K" "oc_encode oc owner = Inr bytes" "ow_pid owner = pid"
  shows "lawful oc d pid (owns_after d pid) (persist_checkpoint_bytes oc l bytes) K"
  using assms unfolding persist_checkpoint_bytes_def discard_def
  by (auto simp: owns_guard_def Let_def intro!: lawful_replace_checkpoint split: sum.splits)

lemma lawful_checkpoint:
  assumes "owns_guard d pid l K"
  shows "lawful oc d pid (owns_after d pid) (lock_checkpoint oc phase evidence indeterminate l) K"
proof -
  have "ow_pid owner = pid"
    if "bounded_owner oc ((ol_owner l)\<lparr>ow_checkpoint := c\<rparr>) = (owner, r)" for owner r c
    using that bounded_owner_pid [of oc "(ol_owner l)\<lparr>ow_checkpoint := c\<rparr>"] assms by (simp add: owns_guard_def)
  moreover from this have "owns_guard d pid (l\<lparr>ol_owner := owner\<rparr>) K"
    if "bounded_owner oc ((ol_owner l)\<lparr>ow_checkpoint := c\<rparr>) = (owner, r)" for owner r c
    using that assms by (simp add: owns_guard_def)
  ultimately show ?thesis unfolding lock_checkpoint_def
    using assms by (auto simp: Let_def intro!: lawful_pthen lawful_read_owner lawful_persist_checkpoint bounded_owner_encodes
        split: sum.splits prod.splits)
qed

lemma lawful_drop:
  assumes "ol_released l \<or> owns_guard d pid l K"
  shows "lawful oc d pid any_result (lock_drop oc l) K"
  using assms unfolding lock_drop_def by (auto simp: owns_guard_def intro!: lawful_pthen lawful_read_owner)

lemma lawful_release:
  assumes "owns_guard d pid l K"
  shows "lawful oc d pid any_result (lock_release oc l) K"
  using assms unfolding lock_release_def release_inner_def
  by (auto intro!: lawful_pthen lawful_read_owner lawful_mono [OF lawful_drop] simp: owns_guard_def split: sum.splits)

end
