(* ===== verification/Lock_Exclusion.thy ===== *)
theory Lock_Exclusion
  imports Lock_Guard
begin

text \<open>
  Exclusion over all interleavings: the knowledge of every client is true of the world, every call keeps
  it so, and two clients cannot both own the lock, as long as no lock file is ever orphaned.
\<close>

subsection \<open>Programs that keep the lock\<close>

primrec keeps :: "string \<Rightarrow> 'a program \<Rightarrow> bool" where
  "keeps p (Return x) = True"
| "keeps p (MkDirs q k) = (\<forall>a. keeps p (k a))"
| "keeps p (CreateNew q k) = (\<forall>a. keeps p (k a))"
| "keeps p (Open q k) = (\<forall>a. keeps p (k a))"
| "keeps p (Write h b k) = (\<forall>a. keeps p (k a))"
| "keeps p (Read q k) = (\<forall>a. keeps p (k a))"
| "keeps p (Stat q k) = (\<forall>a. keeps p (k a))"
| "keeps p (Unlink q k) = (q \<noteq> p \<and> (\<forall>a. keeps p (k a)))"
| "keeps p (Rename q r k) = (\<forall>a. keeps p (k a))"
| "keeps p (Pid k) = (\<forall>a. keeps p (k a))"
| "keeps p (Probe n k) = (\<forall>a. keeps p (k a))"
| "keeps p (Clock k) = (\<forall>a. keeps p (k a))"
| "keeps p (Sequence k) = (\<forall>a. keeps p (k a))"
| "keeps p (Run d c k) = (\<forall>a. keeps p (k a))"

lemma keeps_pthen: "keeps p m \<Longrightarrow> (\<And>x. keeps p (f x)) \<Longrightarrow> keeps p (pthen m f)"
  by (induction m) simp_all

lemma keeps_read_owner [simp]: "keeps p (read_owner oc path)"
  by (simp add: read_owner_def)

lemma keeps_checkpoint:
  assumes "ol_path l = lock_name d"
  shows "keeps (lock_name d) (lock_checkpoint oc phase evidence indeterminate l)"
  using assms unfolding lock_checkpoint_def persist_checkpoint_bytes_def replace_checkpoint_def discard_def
  by (auto simp: Let_def intro!: keeps_pthen split: sum.splits prod.splits)

lemma keeps_sys_step: "sys_step f c pid w m = (w', m') \<Longrightarrow> keeps p m \<Longrightarrow> keeps p m'"
  by (cases m) (auto split: fault.splits if_splits)

subsection \<open>True knowledge\<close>

definition codec_ok :: "owner_codec \<Rightarrow> bool" where
  "codec_ok oc \<longleftrightarrow> (\<forall>owner. oc_decode oc [] \<noteq> Inr owner)
     \<and> (\<forall>owner bytes n owner'. oc_encode oc owner = Inr bytes \<longrightarrow> oc_decode oc (take n bytes) = Inr owner'
          \<longrightarrow> ow_pid owner' = ow_pid owner)"

text \<open>The bytes of a file are empty or part of an owner its creator has encoded for its process.\<close>

definition safe_bytes :: "owner_codec \<Rightarrow> nat \<Rightarrow> string \<Rightarrow> bool" where
  "safe_bytes oc pid bytes \<longleftrightarrow>
     (\<exists>owner all n. bytes = [] \<or> oc_encode oc owner = Inr all \<and> ow_pid owner = pid \<and> bytes = take n all)"

lemma safe_bytes_decode:
  assumes "codec_ok oc" "safe_bytes oc pid bytes" "oc_decode oc (take m bytes) = Inr owner"
  shows "ow_pid owner = pid"
  using assms unfolding codec_ok_def safe_bytes_def by auto

definition lock_creator :: "string \<Rightarrow> lock_world \<Rightarrow> nat option" where
  "lock_creator p w = map_option (\<lambda>i. li_creator (lw_inode w i)) (lw_dir w p)"

text \<open>
  What the clients know is true: the temporary paths of a client are its own and the files there too,
  its open files are its own, a client that owns the lock has created it, and the processes it has
  seen dead are dead.
\<close>

definition knows_world :: "owner_codec \<Rightarrow> string \<Rightarrow> (nat \<Rightarrow> nat) \<Rightarrow> lock_world \<Rightarrow> (nat \<Rightarrow> knowledge) \<Rightarrow> bool" where
  "knows_world oc d pid_of w K \<longleftrightarrow> lw_common_dir w = d
     \<and> (\<forall>q i. lw_dir w q = Some i \<longrightarrow> i < lw_next w)
     \<and> (\<forall>q i. lw_dir w q = Some i \<longrightarrow> q \<noteq> lock_name d
          \<longrightarrow> (\<exists>p n. n < lw_sequence w p \<and> q = checkpoint_path (lock_name d) p n))
     \<and> (\<forall>c q. q \<in> kn_temps (K c)
          \<longrightarrow> (\<exists>n. n < lw_sequence w (pid_of c) \<and> q = checkpoint_path (lock_name d) (pid_of c) n))
     \<and> (\<forall>c c' q. q \<in> kn_temps (K c) \<longrightarrow> q \<in> kn_temps (K c') \<longrightarrow> c = c')
     \<and> (\<forall>i. safe_bytes oc (pid_of (li_creator (lw_inode w i))) (li_bytes (lw_inode w i)))
     \<and> (\<forall>c h. h \<in> kn_files (K c) \<longrightarrow> h < lw_next w \<and> li_creator (lw_inode w h) = c)
     \<and> (\<forall>c q i. q \<in> kn_temps (K c) \<longrightarrow> lw_dir w q = Some i \<longrightarrow> li_creator (lw_inode w i) = c)
     \<and> (\<forall>c. kn_own (K c) \<longrightarrow> lock_creator (lock_name d) w = Some c)
     \<and> (\<forall>c. kn_dead (K c) \<subseteq> set (lw_dead w))"

lemma knows_worldI:
  assumes "lw_common_dir w = d"
    and "\<And>q i. lw_dir w q = Some i \<Longrightarrow> i < lw_next w"
    and "\<And>q i. lw_dir w q = Some i \<Longrightarrow> q \<noteq> lock_name d
          \<Longrightarrow> \<exists>p n. n < lw_sequence w p \<and> q = checkpoint_path (lock_name d) p n"
    and "\<And>c q. q \<in> kn_temps (K c)
          \<Longrightarrow> \<exists>n. n < lw_sequence w (pid_of c) \<and> q = checkpoint_path (lock_name d) (pid_of c) n"
    and "\<And>c c' q. q \<in> kn_temps (K c) \<Longrightarrow> q \<in> kn_temps (K c') \<Longrightarrow> c = c'"
    and "\<And>i. safe_bytes oc (pid_of (li_creator (lw_inode w i))) (li_bytes (lw_inode w i))"
    and "\<And>c h. h \<in> kn_files (K c) \<Longrightarrow> h < lw_next w \<and> li_creator (lw_inode w h) = c"
    and "\<And>c q i. q \<in> kn_temps (K c) \<Longrightarrow> lw_dir w q = Some i \<Longrightarrow> li_creator (lw_inode w i) = c"
    and "\<And>c. kn_own (K c) \<Longrightarrow> lock_creator (lock_name d) w = Some c"
    and "\<And>c. kn_dead (K c) \<subseteq> set (lw_dead w)"
  shows "knows_world oc d pid_of w K"
  using assms unfolding knows_world_def by blast

lemma knows_worldD:
  assumes "knows_world oc d pid_of w K"
  shows knows_dir: "lw_common_dir w = d"
    and knows_next: "lw_dir w q = Some i \<Longrightarrow> i < lw_next w"
    and knows_name: "lw_dir w q = Some i \<Longrightarrow> q \<noteq> lock_name d
          \<Longrightarrow> \<exists>p n. n < lw_sequence w p \<and> q = checkpoint_path (lock_name d) p n"
    and knows_temp: "q \<in> kn_temps (K c)
          \<Longrightarrow> \<exists>n. n < lw_sequence w (pid_of c) \<and> q = checkpoint_path (lock_name d) (pid_of c) n"
    and knows_disjoint: "q \<in> kn_temps (K c) \<Longrightarrow> q \<in> kn_temps (K c') \<Longrightarrow> c = c'"
    and knows_safe: "safe_bytes oc (pid_of (li_creator (lw_inode w i))) (li_bytes (lw_inode w i))"
    and knows_file: "h \<in> kn_files (K c) \<Longrightarrow> h < lw_next w \<and> li_creator (lw_inode w h) = c"
    and knows_temp_file: "q \<in> kn_temps (K c) \<Longrightarrow> lw_dir w q = Some i \<Longrightarrow> li_creator (lw_inode w i) = c"
    and knows_own: "kn_own (K c) \<Longrightarrow> lock_creator (lock_name d) w = Some c"
    and knows_dead: "kn_dead (K c) \<subseteq> set (lw_dead w)"
  using assms unfolding knows_world_def by blast+

lemma lock_not_temp: "knows_world oc d pid_of w K \<Longrightarrow> lock_name d \<notin> kn_temps (K c)"
  using knows_temp checkpoint_path_not_lock(2) by blast

lemma safe_bytes_Nil [simp]: "safe_bytes oc pid []"
  by (simp add: safe_bytes_def)

text \<open>A new file: the lock itself, or one of the client's temporary files.\<close>

lemma lock_creator_add_file:
  assumes "\<And>q i. lw_dir w q = Some i \<Longrightarrow> i < lw_next w"
  shows "lock_creator q (add_file c p w) = (if q = p then Some c else lock_creator q w)"
  using assms by (auto simp: add_file_def lock_creator_def map_option_case split: option.splits)

lemma knows_add_file:
  assumes K: "knows_world oc d pid_of w K" and p: "lw_dir w p = None" "p = lock_name d \<or> p \<in> kn_temps (K c)"
  shows "knows_world oc d pid_of (add_file c p w)
    (K(c := (K c)\<lparr>kn_own := kn_own (K c) \<or> p = lock_name d, kn_files := insert (lw_next w) (kn_files (K c))\<rparr>))"
proof -
  have "lock_creator (lock_name d) w = None" if "p = lock_name d"
    using that p by (simp add: lock_creator_def)
  hence "lock_creator (lock_name d) (add_file c p w) = Some c'"
    if "kn_own (K c') \<or> p = lock_name d \<and> c' = c" for c'
    using that knows_own [OF K, of c'] by (auto simp: lock_creator_add_file [OF knows_next [OF K]])
  thus ?thesis
    using p lock_not_temp [OF K]
    by (intro knows_worldI)
      (auto simp: add_file_def knows_dir [OF K] knows_safe [OF K]
        dest: knows_next [OF K] knows_name [OF K] knows_temp [OF K] knows_disjoint [OF K] knows_file [OF K]
          knows_temp_file [OF K] knows_dead [OF K, THEN subsetD] split: if_splits)
qed

text \<open>A write to one of the client's files.\<close>

lemma knows_set_bytes:
  assumes K: "knows_world oc d pid_of w K" and h: "h \<in> kn_files (K c)" "safe_bytes oc (pid_of c) bytes"
  shows "knows_world oc d pid_of (set_bytes h bytes w) K"
proof -
  have creators: "li_creator (lw_inode (set_bytes h bytes w) i) = li_creator (lw_inode w i)" for i
    by (simp add: set_bytes_def)
  moreover have "lock_creator p (set_bytes h bytes w) = lock_creator p w" for p
    by (simp add: lock_creator_def creators) (simp add: set_bytes_def)
  moreover have "li_creator (lw_inode w h) = c" using knows_file [OF K] h by blast
  hence "safe_bytes oc (pid_of (li_creator (lw_inode w i))) (li_bytes (lw_inode (set_bytes h bytes w) i))" for i
    using h knows_safe [OF K] by (simp add: set_bytes_def)
  ultimately show ?thesis using K unfolding knows_world_def by (simp add: set_bytes_def)
qed

lemma knows_own_unique: "knows_world oc d pid_of w K \<Longrightarrow> kn_own (K c) \<Longrightarrow> kn_own (K c') \<Longrightarrow> c' = c"
  by (metis knows_own option.inject)

text \<open>A change of the directory to files that are there, and of what one client owns.\<close>

lemma knows_new_dir:
  assumes K: "knows_world oc d pid_of w K"
    and dir: "\<And>q i. dir q = Some i \<Longrightarrow> lw_dir w q = Some i \<or> q = lock_name d \<and> i < lw_next w"
    and own: "\<And>c'. (if c' = c then b else kn_own (K c'))
      \<Longrightarrow> map_option (\<lambda>i. li_creator (lw_inode w i)) (dir (lock_name d)) = Some c'"
  shows "knows_world oc d pid_of (w\<lparr>lw_dir := dir\<rparr>) (K(c := (K c)\<lparr>kn_own := b\<rparr>))"
proof (rule knows_worldI)
  fix c' q i assume "q \<in> kn_temps ((K(c := (K c)\<lparr>kn_own := b\<rparr>)) c')" "lw_dir (w\<lparr>lw_dir := dir\<rparr>) q = Some i"
  thus "li_creator (lw_inode (w\<lparr>lw_dir := dir\<rparr>) i) = c'"
    using dir [of q i] lock_not_temp [OF K] knows_temp_file [OF K, of q c' i] by (auto split: if_splits)
next
  fix c' assume "kn_own ((K(c := (K c)\<lparr>kn_own := b\<rparr>)) c')"
  thus "lock_creator (lock_name d) (w\<lparr>lw_dir := dir\<rparr>) = Some c'"
    using own [of c'] by (simp add: lock_creator_def split: if_splits)
next
  fix q i assume "lw_dir (w\<lparr>lw_dir := dir\<rparr>) q = Some i"
  thus "i < lw_next (w\<lparr>lw_dir := dir\<rparr>)" using dir [of q i] knows_next [OF K, of q i] by auto
next
  fix q i assume "lw_dir (w\<lparr>lw_dir := dir\<rparr>) q = Some i" "q \<noteq> lock_name d"
  thus "\<exists>p n. n < lw_sequence (w\<lparr>lw_dir := dir\<rparr>) p \<and> q = checkpoint_path (lock_name d) p n"
    using dir [of q i] knows_name [OF K, of q i] by auto
qed (auto simp: knows_dir [OF K] knows_safe [OF K] dest: knows_temp [OF K] knows_disjoint [OF K] knows_file [OF K]
      knows_dead [OF K, THEN subsetD] split: if_splits)

lemma knows_remove_path:
  assumes K: "knows_world oc d pid_of w K" and p: "p = lock_name d \<longrightarrow> kn_own (K c)"
  shows "knows_world oc d pid_of (remove_path p w) (K(c := (K c)\<lparr>kn_own := kn_own (K c) \<and> p \<noteq> lock_name d\<rparr>))"
  unfolding remove_path_def
proof (rule knows_new_dir [OF K])
  fix c' assume own: "if c' = c then kn_own (K c) \<and> p \<noteq> lock_name d else kn_own (K c')"
  hence "p \<noteq> lock_name d" using p knows_own_unique [OF K, of c c'] by (auto split: if_splits)
  moreover have "kn_own (K c')" using own by (auto split: if_splits)
  hence "lock_creator (lock_name d) w = Some c'" by (rule knows_own [OF K])
  ultimately show "map_option (\<lambda>i. li_creator (lw_inode w i)) (((lw_dir w)(p := None)) (lock_name d)) = Some c'"
    by (simp add: lock_creator_def)
qed (auto split: if_splits)

lemma knows_move_path:
  assumes K: "knows_world oc d pid_of w K"
    and q: "q \<in> kn_temps (K c)" "lw_dir w q = Some i" "kn_own (K c)"
  shows "knows_world oc d pid_of (move_path q (lock_name d) w) K"
proof -
  have "q \<noteq> lock_name d" using lock_not_temp [OF K] q(1) by metis
  hence "knows_world oc d pid_of (move_path q (lock_name d) w) (K(c := (K c)\<lparr>kn_own := True\<rparr>))"
    unfolding move_path_def
  proof (intro knows_new_dir [OF K])
    fix c' assume "if c' = c then True else kn_own (K c')"
    hence "c' = c" using knows_own_unique [OF K q(3), of c'] by (cases "c' = c") simp_all
    thus "map_option (\<lambda>i. li_creator (lw_inode w i))
        (((lw_dir w)(lock_name d := lw_dir w q, q := None)) (lock_name d)) = Some c'"
      using \<open>q \<noteq> lock_name d\<close> q(2) knows_temp_file [OF K q(1,2)] by simp
  qed (use q(2) knows_next [OF K q(2)] in \<open>auto split: if_splits\<close>)
  moreover have "K(c := (K c)\<lparr>kn_own := True\<rparr>) = K" using q(3) by (simp add: fun_upd_idem)
  ultimately show ?thesis by simp
qed

lemma knows_sequence:
  fixes c
  assumes K: "knows_world oc d pid_of w K"
  defines "n \<equiv> lw_sequence w (pid_of c)"
  shows "knows_world oc d pid_of (w\<lparr>lw_sequence := (lw_sequence w)(pid_of c := Suc n)\<rparr>)
    (K(c := (K c)\<lparr>kn_temps := insert (checkpoint_path (lock_name d) (pid_of c) n) (kn_temps (K c))\<rparr>))"
proof -
  let ?q = "checkpoint_path (lock_name d) (pid_of c) n"
  have fresh: "?q \<notin> kn_temps (K c')" for c'
    using knows_temp [OF K, of ?q c'] by (auto simp: n_def)
  have absent: "lw_dir w ?q = None"
    using knows_name [OF K, of ?q] by (cases "lw_dir w ?q") (auto simp: n_def)
  let ?w = "w\<lparr>lw_sequence := (lw_sequence w)(pid_of c := Suc n)\<rparr>"
  let ?K = "K(c := (K c)\<lparr>kn_temps := insert ?q (kn_temps (K c))\<rparr>)"
  have more: "m < lw_sequence ?w p" if "m < lw_sequence w p" for m p
    using that by (cases "p = pid_of c") (simp_all add: n_def)
  show ?thesis
  proof (rule knows_worldI)
    fix q i assume "lw_dir ?w q = Some i" "q \<noteq> lock_name d"
    thus "\<exists>p n. n < lw_sequence ?w p \<and> q = checkpoint_path (lock_name d) p n"
      using knows_name [OF K, of q i] more by (simp del: fun_upd_apply) blast
  next
    fix c' q assume "q \<in> kn_temps (?K c')"
    thus "\<exists>m. m < lw_sequence ?w (pid_of c') \<and> q = checkpoint_path (lock_name d) (pid_of c') m"
      using knows_temp [OF K, of q c'] more by (cases "q = ?q \<and> c' = c") (auto simp: n_def split: if_splits)
  next
    fix c' c'' q assume "q \<in> kn_temps (?K c')" "q \<in> kn_temps (?K c'')"
    thus "c' = c''" using fresh knows_disjoint [OF K, of q c' c''] by (auto split: if_splits)
  next
    fix c' q i assume "q \<in> kn_temps (?K c')" "lw_dir ?w q = Some i"
    thus "li_creator (lw_inode ?w i) = c'" using absent knows_temp_file [OF K, of q c' i] by (auto split: if_splits)
  qed (use knows_own [OF K] in \<open>auto simp: knows_dir [OF K] knows_safe [OF K] lock_creator_def
      dest: knows_next [OF K] knows_file [OF K] knows_dead [OF K, THEN subsetD] split: if_splits\<close>)
qed

lemma knows_new_dead:
  assumes "knows_world oc d pid_of w K" "n \<in> set (lw_dead w)"
  shows "knows_world oc d pid_of w (K(c := (K c)\<lparr>kn_dead := insert n (kn_dead (K c))\<rparr>))"
  using assms unfolding knows_world_def by (simp add: eq_commute) blast

subsection \<open>One call\<close>

lemma sys_step_dead: "sys_step f c pid w m = (w', m') \<Longrightarrow> lw_dead w' = lw_dead w"
  by (cases m) (auto simp: add_file_def set_bytes_def remove_path_def move_path_def split: fault.splits if_splits)

lemma read_admissible:
  assumes "codec_ok oc" and K: "knows_world oc d pid_of w K" and i: "lw_dir w (lock_name d) = Some i"
    and live: "\<And>c'. lock_creator (lock_name d) w = Some c' \<Longrightarrow> pid_of c' \<notin> set (lw_dead w)"
  shows "admissible oc (K c) (Inr (li_bytes (lw_inode w i)))"
  unfolding admissible_def
proof (intro allI impI)
  fix bytes owner
  assume "Inr (li_bytes (lw_inode w i)) = Inr bytes" "oc_decode oc (take max_owner_bytes bytes) = Inr owner"
  hence "ow_pid owner = pid_of (li_creator (lw_inode w i))"
    using safe_bytes_decode [OF assms(1) knows_safe [OF K]] by simp
  thus "ow_pid owner \<notin> kn_dead (K c)"
    using live [of "li_creator (lw_inode w i)"] i knows_dead [OF K, of c] by (auto simp: lock_creator_def)
qed

lemma lawful_call:
  assumes oc: "codec_ok oc" and K: "knows_world oc d pid_of w K" and m: "lawful oc d (pid_of c) Q m (K c)"
    and live: "\<And>c'. lock_creator (lock_name d) w = Some c' \<Longrightarrow> pid_of c' \<notin> set (lw_dead w)"
    and step: "sys_step f c (pid_of c) w m = (w', m')"
  shows "\<exists>k. knows_world oc d pid_of w' (K(c := k)) \<and> lawful oc d (pid_of c) Q m' k
    \<and> (keeps (lock_name d) m \<longrightarrow> kn_own (K c) \<longrightarrow> kn_own k)"
proof -
  have same: ?thesis if "w' = w" "lawful oc d (pid_of c) Q m' (K c)"
    using that K by (intro exI [of _ "K c"]) simp
  show ?thesis
  proof (cases m)
    case (CreateNew p go)
    show ?thesis
    proof (cases "f = NoFault \<and> lw_dir w p = None")
      case True
      thus ?thesis using m step knows_add_file [OF K, of p c] by (auto simp: CreateNew)
    qed (use m step same in \<open>auto simp: CreateNew split: fault.splits if_splits\<close>)
  next
    case (Write h bytes go)
    obtain owner where owner: "h \<in> kn_files (K c)" "oc_encode oc owner = Inr bytes" "ow_pid owner = pid_of c"
      using m by (auto simp: Write)
    have "safe_bytes oc (pid_of c) (take n bytes)" for n
      using owner unfolding safe_bytes_def by blast
    from this this [of "length bytes"] have "safe_bytes oc (pid_of c) (take n bytes)" "safe_bytes oc (pid_of c) bytes" for n
      by simp_all
    hence "knows_world oc d pid_of w' K"
      using step owner(1) by (auto simp: Write split: fault.splits intro: knows_set_bytes [OF K])
    thus ?thesis using m step by (intro exI [of _ "K c"]) (auto simp: Write split: fault.splits)
  next
    case (Read p go)
    have "admissible oc (K c) (Inl e)" for e by (simp add: admissible_def)
    hence "w' = w \<and> lawful oc d (pid_of c) Q m' (K c)"
      using m step read_admissible [OF oc K _ live, of _ c]
      by (cases "p = lock_name d") (auto simp: Read split: fault.splits option.splits)
    thus ?thesis using same by blast
  next
    case (Unlink p go)
    show ?thesis
    proof (cases "f = NoFault \<and> lw_dir w p \<noteq> None")
      case True
      thus ?thesis using m step knows_remove_path [OF K, of p c]
        by (intro exI [of _ "(K c)\<lparr>kn_own := kn_own (K c) \<and> p \<noteq> lock_name d\<rparr>"]) (auto simp: Unlink)
    qed (use m step same in \<open>auto simp: Unlink split: fault.splits if_splits\<close>)
  next
    case (Rename q p go)
    show ?thesis
    proof (cases "f = NoFault \<and> lw_dir w q \<noteq> None")
      case True
      thus ?thesis using m step knows_move_path [OF K, of q c]
        by (intro exI [of _ "K c"]) (auto simp: Rename)
    qed (use m step same in \<open>auto simp: Rename split: fault.splits if_splits\<close>)
  next
    case (Probe n go)
    show ?thesis
    proof (cases "f = NoFault \<and> n \<in> set (lw_dead w)")
      case True
      thus ?thesis using m step knows_new_dead [OF K, of n c] by (auto simp: Probe)
    qed (use m step same in \<open>auto simp: Probe split: fault.splits\<close>)
  next
    case (Sequence go)
    thus ?thesis using m step knows_sequence [OF K, of c] by auto
  next
    case (Run dir command go)
    thus ?thesis using m step same knows_dir [OF K] by (auto split: fault.splits)
  qed (use m step same in \<open>auto split: fault.splits option.splits\<close>)
qed

subsection \<open>The system\<close>

fun phase_ok :: "owner_codec \<Rightarrow> string \<Rightarrow> nat \<Rightarrow> knowledge \<Rightarrow> phase \<Rightarrow> bool" where
  "phase_ok oc d pid K Idle = True"
| "phase_ok oc d pid K Ended = True"
| "phase_ok oc d pid K (Acquiring m) = lawful oc d pid (owns_result d pid) m K"
| "phase_ok oc d pid K (Holding l) = owns_guard d pid l K"
| "phase_ok oc d pid K (Checkpointing m) = (lawful oc d pid (owns_after d pid) m K \<and> kn_own K \<and> keeps (lock_name d) m)"
| "phase_ok oc d pid K (Releasing m) = lawful oc d pid any_result m K"
| "phase_ok oc d pid K (Dropping m) = lawful oc d pid any_result m K"
| "phase_ok oc d pid K (Recovering m) = lawful oc d pid any_result m K"

definition system_ok :: "owner_codec \<Rightarrow> string \<Rightarrow> (nat \<Rightarrow> nat) \<Rightarrow> lock_system \<Rightarrow> (nat \<Rightarrow> knowledge) \<Rightarrow> bool" where
  "system_ok oc d pid_of s K \<longleftrightarrow> knows_world oc d pid_of (sy_world s) K
     \<and> (\<forall>c. phase_ok oc d (pid_of c) (K c) (sy_phase s c))
     \<and> (\<forall>c. pid_of c \<in> set (lw_dead (sy_world s)) \<longrightarrow> sy_phase s c = Ended)"

lemma phase_begin_ok: "phase_begin oc ph ph' \<Longrightarrow> phase_ok oc d pid K ph \<Longrightarrow> phase_ok oc d pid K ph'"
  by (induction rule: phase_begin.induct)
    (auto simp: lawful_acquire lawful_recover_stale lawful_checkpoint lawful_release lawful_drop keeps_checkpoint owns_guard_def)

lemma phase_done_ok: "phase_done ph ph' \<Longrightarrow> phase_ok oc d pid K ph \<Longrightarrow> phase_ok oc d pid K ph'"
  by (induction rule: phase_done.induct) auto

lemma phase_call_ok:
  assumes oc: "codec_ok oc" and K: "knows_world oc d pid_of w K" and ok: "phase_ok oc d (pid_of c) (K c) ph"
    and live: "\<And>c'. lock_creator (lock_name d) w = Some c' \<Longrightarrow> pid_of c' \<notin> set (lw_dead w)"
    and step: "phase_call f c (pid_of c) w ph = (w', ph')"
  shows "\<exists>k. knows_world oc d pid_of w' (K(c := k)) \<and> phase_ok oc d (pid_of c) k ph'"
proof -
  note call = lawful_call [where c = c, OF oc K _ live]
  have same: ?thesis if "w' = w" "ph' = ph" using that K ok by (intro exI [of _ "K c"]) simp
  show ?thesis
  proof (cases ph)
    case (Acquiring m)
    thus ?thesis using step ok call by (auto simp: map_prod_def split: prod.splits) blast
  next
    case (Checkpointing m)
    obtain m' where m': "sys_step f c (pid_of c) w m = (w', m')" "ph' = Checkpointing m'"
      using step by (auto simp: Checkpointing map_prod_def split: prod.splits)
    thus ?thesis using ok call [of _ m f w' m'] keeps_sys_step [OF m'(1)] by (auto simp: Checkpointing)
  next
    case (Releasing m)
    thus ?thesis using step ok call by (auto simp: map_prod_def split: prod.splits) blast
  next
    case (Dropping m)
    thus ?thesis using step ok call by (auto simp: map_prod_def split: prod.splits) blast
  next
    case (Recovering m)
    thus ?thesis using step ok call by (auto simp: map_prod_def split: prod.splits) blast
  qed (use step same in auto)
qed

lemma phase_call_ended: "phase_call f c pid w ph = (w', ph') \<Longrightarrow> lw_dead w' = lw_dead w \<and> (ph = Ended \<longrightarrow> ph' = Ended)"
  by (cases ph) (auto simp: map_prod_def dest: sys_step_dead split: prod.splits)

lemma phase_done_ended: "phase_done ph ph' \<Longrightarrow> ph \<noteq> Ended"
  by (induction rule: phase_done.induct) simp_all

lemma live_creator:
  assumes "system_ok oc d pid_of s K" "\<not> orphaned s" "lock_creator (lock_name d) (sy_world s) = Some c"
  shows "pid_of c \<notin> set (lw_dead (sy_world s))"
proof -
  have "the_lock (sy_world s) = lock_name d"
    using assms(1) knows_dir by (auto simp: system_ok_def the_lock_def lock_name_def)
  thus ?thesis using assms by (auto simp: system_ok_def orphaned_def lock_creator_def)
qed

lemma knows_more_dead:
  assumes "knows_world oc d pid_of w K"
  shows "knows_world oc d pid_of (w\<lparr>lw_dead := n # lw_dead w\<rparr>) K"
  using assms unfolding knows_world_def lock_creator_def by simp blast

lemma knows_clock: "knows_world oc d pid_of w K \<Longrightarrow> knows_world oc d pid_of (w\<lparr>lw_clock := t\<rparr>) K"
  unfolding knows_world_def lock_creator_def by simp

lemma lock_step_ok:
  assumes oc: "codec_ok oc" and ok: "system_ok oc d pid_of s K" and live: "\<not> orphaned s"
    and step: "lock_step oc pid_of s s'"
  shows "\<exists>K'. system_ok oc d pid_of s' K'"
  using step
proof cases
  case (call f c w ph)
  have "knows_world oc d pid_of (sy_world s) K" "phase_ok oc d (pid_of c) (K c) (sy_phase s c)"
    using ok unfolding system_ok_def by blast+
  then obtain k where k: "knows_world oc d pid_of w (K(c := k))" "phase_ok oc d (pid_of c) k ph"
    using phase_call_ok [of oc d pid_of "sy_world s" K c "sy_phase s c" f w ph] oc live_creator [OF ok live] call(2) by blast
  thus ?thesis using ok phase_call_ended [OF call(2)] unfolding call(1) system_ok_def set_phase_def
    by (intro exI [of _ "K(c := k)"]) auto
next
  case (begin_operation c ph)
  thus ?thesis using ok phase_begin_ok [OF begin_operation(2)] unfolding system_ok_def set_phase_def
    by (intro exI [of _ K]) auto
next
  case (end_operation c ph)
  thus ?thesis using ok phase_done_ok [OF end_operation(2)] phase_done_ended [OF end_operation(2)]
    unfolding system_ok_def set_phase_def by (intro exI [of _ K]) auto
next
  case (end_process n)
  thus ?thesis using ok knows_more_dead unfolding system_ok_def by (intro exI [of _ K]) auto
next
  case (tick t)
  thus ?thesis using ok knows_clock unfolding system_ok_def by (intro exI [of _ K]) auto
qed

lemma initial_system_ok: "system_ok oc d pid_of (initial_system d)
    (\<lambda>_. \<lparr>kn_dead = {}, kn_own = False, kn_temps = {}, kn_files = {}\<rparr>)"
  by (simp add: system_ok_def initial_system_def initial_world_def knows_world_def)

lemma initial_not_orphaned: "\<not> orphaned (initial_system d)"
  by (simp add: orphaned_def initial_system_def initial_world_def)

lemma orderly_ok: "orderly oc pid_of d s \<Longrightarrow> codec_ok oc \<Longrightarrow> (\<exists>K. system_ok oc d pid_of s K) \<and> \<not> orphaned s"
proof (induction rule: orderly.induct)
  case start
  thus ?case using initial_system_ok initial_not_orphaned by blast
next
  case (step s s')
  thus ?case using lock_step_ok by blast
qed

lemma holds_lock_owns: "phase_ok oc d pid K ph \<Longrightarrow> holds_lock ph \<Longrightarrow> kn_own K"
  by (cases ph) (simp_all add: owns_guard_def)

lemma the_lock_creator:
  "system_ok oc d pid_of s K \<Longrightarrow> lock_creator (the_lock (sy_world s)) (sy_world s) = lock_creator (lock_name d) (sy_world s)"
  using knows_dir by (auto simp: system_ok_def the_lock_def lock_name_def)

text \<open>
  C5. Mutual exclusion of the operation lock. In every interleaving of any number of clients acquiring,
  checkpointing, releasing, dropping and recovering the lock, with failing system calls, processes
  that end and a clock that jumps, and as long as no lock file is orphaned (its creator ended, or
  gave up without removing it): at most one client holds the lock, and the lock file there is the one
  it created.
\<close>

theorem operation_lock_exclusive:
  assumes "codec_ok oc" and "orderly oc pid_of common_dir s" and "holds_lock (sy_phase s c)"
  shows "lock_creator (the_lock (sy_world s)) (sy_world s) = Some c
    \<and> (\<forall>c'. holds_lock (sy_phase s c') \<longrightarrow> c' = c)"
proof -
  obtain K where K: "system_ok oc common_dir pid_of s K" using orderly_ok [OF assms(2,1)] by blast
  hence own: "kn_own (K c')" if "holds_lock (sy_phase s c')" for c'
    using that holds_lock_owns unfolding system_ok_def by blast
  thus ?thesis
    using K assms(3) knows_own knows_own_unique the_lock_creator [OF K] unfolding system_ok_def by metis
qed

end
