(* ===== verification/Lock_Facts.thy ===== *)
theory Lock_Facts
  imports Lock_Exclusion
begin

text \<open>
  The operation lock at work: a codec and a scheduler for concrete runs, and the take-over of a dead
  owner's lock in which two clients come to hold it, from any state in which two have begun.
\<close>

subsection \<open>A codec\<close>

text \<open>An owner as fields separated by spaces; a checkpoint is written behind them.\<close>

definition sample_evidence :: "json \<Rightarrow> string" where
  "sample_evidence v = (case v of JString text \<Rightarrow> text | _ \<Rightarrow> ''{}'')"

definition sample_encode :: "operation_lock_owner \<Rightarrow> string + string" where
  "sample_encode owner = Inr (show_nat (ow_pid owner) @ '' '' @ show_nat (ow_created_unix_secs owner) @ '' ''
     @ ow_token owner @ '' '' @ ow_operation owner
     @ (case ow_checkpoint owner of None \<Rightarrow> [] | Some cp \<Rightarrow> '' '' @ lc_phase cp @ '' '' @ sample_evidence (lc_evidence cp)))"

definition sample_field :: "string \<Rightarrow> (string \<times> string) option" where
  "sample_field bytes = (case dropWhile (\<lambda>b. b \<noteq> CHR '' '') bytes of
     [] \<Rightarrow> None | b # rest \<Rightarrow> Some (takeWhile (\<lambda>b. b \<noteq> CHR '' '') bytes, rest))"

definition sample_decode :: "string \<Rightarrow> string + operation_lock_owner" where
  "sample_decode bytes =
     (case sample_field bytes of
        None \<Rightarrow> Inl ''truncated''
      | Some (pid_text, rest) \<Rightarrow>
          (case sample_field rest of
             None \<Rightarrow> Inl ''truncated''
           | Some (created_text, rest') \<Rightarrow>
               (case sample_field rest' of
                  None \<Rightarrow> Inl ''truncated''
                | Some (token, operation) \<Rightarrow>
                    (case (parse_unsigned 32 pid_text, parse_unsigned 64 created_text) of
                       (Some pid, Some created) \<Rightarrow>
                         Inr \<lparr>ow_version = 1, ow_pid = pid, ow_operation = operation, ow_created_unix_secs = created,
                              ow_token = token, ow_checkpoint = None\<rparr>
                     | _ \<Rightarrow> Inl ''invalid number''))))"

definition sample_codec :: owner_codec where
  "sample_codec = \<lparr>oc_encode = sample_encode, oc_decode = sample_decode, oc_evidence = sample_evidence,
     oc_digest = (\<lambda>bytes. show_nat (length bytes))\<rparr>"

lemma sample_field_take:
  assumes "CHR '' '' \<notin> set word" "sample_field (take n (word @ '' '' @ rest)) = Some (text, rest')"
  shows "text = word"
proof (cases "n \<le> length word")
  case True
  hence cut: "take n (word @ '' '' @ rest) = take n word" by simp
  hence "\<forall>b\<in>set (take n (word @ '' '' @ rest)). b \<noteq> CHR '' ''" using assms(1) by (auto dest: in_set_takeD)
  hence "sample_field (take n (word @ '' '' @ rest)) = None"
    by (simp only: sample_field_def dropWhile_eq_Nil_conv [THEN iffD2]) simp
  thus ?thesis using assms(2) by simp
next
  case False
  then obtain m where "n = length word + Suc m" by (metis add_Suc_right less_imp_Suc_add not_le)
  hence "take n (word @ '' '' @ rest) = word @ CHR '' '' # take m rest" by simp
  moreover have "\<forall>b\<in>set word. b \<noteq> CHR '' ''" using assms(1) by auto
  ultimately show ?thesis
    using assms(2) by (simp add: sample_field_def takeWhile_append2 dropWhile_append2)
qed

lemma space_not_digit: "CHR '' '' \<notin> set (show_nat n)"
  using show_nat_digits [of "CHR '' ''" n] by (auto simp: digit_val_def)

lemma parse_unsigned_show_nat_eq: "parse_unsigned bits (show_nat n) = Some m \<Longrightarrow> m = n"
  using hd_show_nat_not_plus [of n] parse_digits_show_nat [of n]
  by (cases "show_nat n") (auto simp: parse_unsigned_def Let_def split: if_splits)

lemma sample_codec_ok: "codec_ok sample_codec"
  unfolding codec_ok_def sample_codec_def
proof (intro conjI allI impI; simp only: owner_codec.simps)
  fix owner show "sample_decode [] \<noteq> Inr owner" by (simp add: sample_decode_def sample_field_def)
next
  fix owner bytes n owner'
  assume "sample_encode owner = Inr bytes" and decode: "sample_decode (take n bytes) = Inr owner'"
  then obtain rest where "bytes = show_nat (ow_pid owner) @ '' '' @ rest" by (auto simp: sample_encode_def)
  moreover obtain word rest' where "sample_field (take n bytes) = Some (word, rest')"
      and "parse_unsigned 32 word = Some (ow_pid owner')"
    using decode by (auto simp: sample_decode_def split: option.splits prod.splits)
  ultimately show "ow_pid owner' = ow_pid owner"
    using sample_field_take [OF space_not_digit] parse_unsigned_show_nat_eq by metis
qed

subsection \<open>Runs\<close>

text \<open>Some calls of one client, all of which work.\<close>

primrec calls :: "nat \<Rightarrow> nat \<Rightarrow> nat \<Rightarrow> lock_world \<times> 'a program \<Rightarrow> lock_world \<times> 'a program" where
  "calls 0 c pid wm = wm"
| "calls (Suc n) c pid wm = calls n c pid (sys_step NoFault c pid (fst wm) (snd wm))"

lemma calls_numeral [simp]:
  "calls (numeral n) c pid wm = calls (pred_numeral n) c pid (sys_step NoFault c pid (fst wm) (snd wm))"
  by (simp add: numeral_eq_Suc)

definition first_owner :: "nat \<Rightarrow> lock_world \<Rightarrow> string \<Rightarrow> operation_lock_owner" where
  "first_owner pid w operation =
     \<lparr>ow_version = 1, ow_pid = pid, ow_operation = operation, ow_created_unix_secs = as_secs (nat (lw_clock w)),
      ow_token = show_nat pid @ ''-'' @ show_nat (nat (lw_clock w)) @ ''-'' @ show_nat (lw_sequence w pid),
      ow_checkpoint = None\<rparr>"

definition next_sequence :: "nat \<Rightarrow> lock_world \<Rightarrow> lock_world" where
  "next_sequence pid w = w\<lparr>lw_sequence := (lw_sequence w)(pid := Suc (lw_sequence w pid))\<rparr>"

definition operation_name_ok :: "string \<Rightarrow> bool" where
  "operation_name_ok operation \<longleftrightarrow> trim operation \<noteq> [] \<and> CHR 0x0A \<notin> set operation \<and> CHR 0x0D \<notin> set operation"

text \<open>From the begin of an acquisition to its first attempt.\<close>

lemma calls_acquire:
  assumes "operation_name_ok operation" "trim (lw_common_dir w) \<noteq> []"
  shows "calls 5 c pid (w, acquire_with_stale_after oc repository operation stale_after)
    = (next_sequence pid w, acquire_attempts 3 oc (the_lock w) stale_after (first_owner pid w operation) None)"
  using assms
  by (simp add: operation_name_ok_def acquire_with_stale_after_def lock_path_def ptry_def is_success_def
      new_owner_def next_sequence_def first_owner_def the_lock_def Let_def del: acquire_attempts.simps)

text \<open>The guard and the receipt of an acquisition.\<close>

definition new_guard ::
    "string \<Rightarrow> operation_lock_owner \<Rightarrow> nat \<Rightarrow> operation_lock_recovery option \<Rightarrow> operation_lock" where
  "new_guard path owner handle recovered = \<lparr>ol_path = path, ol_owner = owner, ol_file = Some handle,
     ol_recovered_dead_owner = recovered, ol_released = False\<rparr>"

definition dead_owner_receipt :: "string \<Rightarrow> operation_lock_owner \<Rightarrow> lock_world \<Rightarrow> int option \<Rightarrow> operation_lock_recovery" where
  "dead_owner_receipt path owner w modified = \<lparr>lr_path = path, lr_removed_owner = owner,
     lr_age_secs = (if lw_clock w \<ge> 0 then as_secs (nat (lw_clock w)) - ow_created_unix_secs owner
       else as_secs (modified_age (lw_clock w) modified)),
     lr_owner_alive = False, lr_token_verified = True\<rparr>"

definition retry_after ::
    "nat \<Rightarrow> owner_codec \<Rightarrow> string \<Rightarrow> duration \<Rightarrow> operation_lock_owner \<Rightarrow> operation_lock_recovery option
     \<Rightarrow> dead_owner_probe \<Rightarrow> (app_error + operation_lock) program" where
  "retry_after left oc path stale_after owner recovered probe = (case probe of
     Recovered receipt \<Rightarrow>
       acquire_attempts left oc path stale_after owner
         (case recovered of None \<Rightarrow> Some receipt | Some first \<Rightarrow> Some first)
   | Gone \<Rightarrow>
       if left > 0 then acquire_attempts left oc path stale_after owner recovered
       else Return (Inl (lock_race ''the operation lock repeatedly changed during dead-owner inspection''))
   | Live \<Rightarrow> pthen (existing_lock_error oc path stale_after) (\<lambda>r. case r of
       Inr e \<Rightarrow> Return (Inl e)
     | Inl read_error \<Rightarrow>
         if ie_kind read_error = NotFound \<and> left > 0
         then acquire_attempts left oc path stale_after owner recovered
         else Return (Inl (lock_io_error ''operation_lock_inspection_failed''
                ''the operation lock exists but its owner evidence could not be read'' read_error))))"

lemma acquire_attempts_Suc:
  "acquire_attempts (Suc left) oc path stale_after owner recovered =
     CreateNew path (\<lambda>created. case created of
       Inr handle \<Rightarrow> write_owner oc path owner handle recovered
     | Inl e \<Rightarrow>
         if ie_kind e \<noteq> AlreadyExists
         then Return (Inl (lock_io_error ''operation_lock_create_failed''
                ''could not create the repository operation lock'' e))
         else ptry (recover_dead_owner_for_acquire oc path) (retry_after left oc path stale_after owner recovered))"
  unfolding retry_after_def [abs_def] acquire_attempts.simps by (rule refl)

declare acquire_attempts.simps(2) [simp del]

text \<open>An attempt at a free path takes the lock.\<close>

lemma calls_take:
  assumes "lw_dir w path = None" "oc_encode oc owner = Inr bytes"
  shows "calls 2 c pid (w, acquire_attempts (Suc left) oc path stale_after owner recovered)
    = (set_bytes (lw_next w) bytes (add_file c path w), Return (Inr (new_guard path owner (lw_next w) recovered)))"
  using assms by (simp add: acquire_attempts_Suc write_owner_def new_guard_def)

text \<open>An attempt at the lock of a dead process comes to its removal, and the removal starts over.\<close>

lemma calls_probe_dead:
  assumes "lw_dir w path = Some i" "oc_decode oc (take max_owner_bytes (li_bytes (lw_inode w i))) = Inr dead"
    and "0 < ow_pid dead" "ow_pid dead < 2 ^ 31" "ow_pid dead \<in> set (lw_dead w)"
  shows "calls 6 c pid (w, acquire_attempts (Suc left) oc path stale_after owner recovered)
    = (w, ptry (remove_dead_owner path (Some (li_modified (lw_inode w i))) dead)
            (retry_after left oc path stale_after owner recovered))"
  using assms
  by (simp add: acquire_attempts_Suc ptry_def recover_dead_owner_for_acquire_def already_exists_def
      read_owner_def process_is_alive_def recheck_dead_owner_def)

lemma calls_remove_dead:
  assumes "lw_dir w path = Some i" "0 \<le> lw_clock w"
  shows "calls 2 c pid (w, ptry (remove_dead_owner path modified dead) (retry_after left oc path stale_after owner None))
    = (remove_path path w, acquire_attempts left oc path stale_after owner
         (Some (dead_owner_receipt path dead (remove_path path w) modified)))"
  using assms
  by (simp add: ptry_def remove_dead_owner_def lock_age_secs_def retry_after_def dead_owner_receipt_def
      remove_path_def)

subsection \<open>Runs of the system\<close>

lemma step_acquiring:
  assumes "sy_phase s c = Acquiring m" "sys_step NoFault c (pid_of c) (sy_world s) m = (w, m')"
  shows "lock_step oc pid_of s (set_phase c (Acquiring m') (s\<lparr>sy_world := w\<rparr>))"
  by (rule lock_step.call [of NoFault]) (simp add: assms)

lemma set_phase_again [simp]: "set_phase c ph' ((set_phase c ph s)\<lparr>sy_world := w\<rparr>) = set_phase c ph' (s\<lparr>sy_world := w\<rparr>)"
  "sy_phase (set_phase c ph s) = (sy_phase s)(c := ph)" "sy_world (set_phase c ph s) = sy_world s"
  by (simp_all add: set_phase_def)

text \<open>
  One step of a client that is acquiring the lock: a call that works, or the end of the acquisition.
  These are steps of the system in which nobody else moves, nothing fails and no clock jumps.
\<close>

inductive acquire_step :: "(nat \<Rightarrow> nat) \<Rightarrow> nat \<Rightarrow> lock_system \<Rightarrow> lock_system \<Rightarrow> bool" for pid_of c where
  acquire_call: "sy_phase s c = Acquiring m \<Longrightarrow> sys_step NoFault c (pid_of c) (sy_world s) m = (w, m')
     \<Longrightarrow> acquire_step pid_of c s (set_phase c (Acquiring m') (s\<lparr>sy_world := w\<rparr>))"
| acquire_end: "sy_phase s c = Acquiring (Return (Inr l)) \<Longrightarrow> acquire_step pid_of c s (set_phase c (Holding l) s)"

lemma acquire_step_lock_step: "acquire_step pid_of c s s' \<Longrightarrow> lock_step oc pid_of s s'"
proof (induction rule: acquire_step.induct)
  case (acquire_call s m w m')
  thus ?case by (rule step_acquiring)
next
  case (acquire_end s l)
  thus ?case by (metis lock_step.end_operation phase_done.acquired)
qed

lemma reachable_acquire_steps:
  "(acquire_step pid_of c)\<^sup>*\<^sup>* s s' \<Longrightarrow> reachable oc pid_of d s \<Longrightarrow> reachable oc pid_of d s'"
  by (induction rule: rtranclp_induct) (auto intro: reachable.step acquire_step_lock_step)

lemma acquire_calls:
  "sy_phase s c = Acquiring m \<Longrightarrow> calls n c (pid_of c) (sy_world s, m) = (w, m')
   \<Longrightarrow> (acquire_step pid_of c)\<^sup>*\<^sup>* s (set_phase c (Acquiring m') (s\<lparr>sy_world := w\<rparr>))"
proof (induction n arbitrary: s m)
  case 0
  hence "set_phase c (Acquiring m') (s\<lparr>sy_world := w\<rparr>) = s" by (simp add: set_phase_def fun_upd_idem)
  thus ?case by simp
next
  case (Suc n)
  obtain w1 m1 where one: "sys_step NoFault c (pid_of c) (sy_world s) m = (w1, m1)" by fastforce
  let ?s = "set_phase c (Acquiring m1) (s\<lparr>sy_world := w1\<rparr>)"
  have "acquire_step pid_of c s ?s" by (rule acquire_call [where pid_of = pid_of, OF Suc.prems(1) one])
  moreover have "(acquire_step pid_of c)\<^sup>*\<^sup>* ?s (set_phase c (Acquiring m') (?s\<lparr>sy_world := w\<rparr>))"
    by (rule Suc.IH) (use Suc.prems(2) one in simp_all)
  ultimately show ?case by (simp add: converse_rtranclp_into_rtranclp)
qed

text \<open>While only one client has ever created files and it is running, nothing is orphaned.\<close>

definition all_created_by :: "nat \<Rightarrow> lock_world \<Rightarrow> bool" where
  "all_created_by c w \<longleftrightarrow> (\<forall>i. li_creator (lw_inode w i) = c)"

lemma sys_step_created: "all_created_by c w \<Longrightarrow> sys_step f c pid w m = (w', m') \<Longrightarrow> all_created_by c w'"
  by (cases m) (auto simp: all_created_by_def add_file_def set_bytes_def remove_path_def move_path_def
      split: fault.splits if_splits)

lemma running_not_orphaned:
  "all_created_by c (sy_world s) \<Longrightarrow> sy_phase s c \<notin> {Idle, Ended} \<Longrightarrow> \<not> orphaned s"
  by (auto simp: orphaned_def all_created_by_def)

lemma orderly_calls:
  "orderly oc pid_of d s \<Longrightarrow> sy_phase s c = Acquiring m \<Longrightarrow> all_created_by c (sy_world s)
   \<Longrightarrow> calls n c (pid_of c) (sy_world s, m) = (w, m') \<Longrightarrow> n > 0
   \<Longrightarrow> orderly oc pid_of d (set_phase c (Acquiring m') (s\<lparr>sy_world := w\<rparr>)) \<and> all_created_by c w"
proof (induction n arbitrary: s m)
  case 0
  thus ?case by simp
next
  case (Suc n)
  obtain w1 m1 where one: "sys_step NoFault c (pid_of c) (sy_world s) m = (w1, m1)" by fastforce
  let ?s = "set_phase c (Acquiring m1) (s\<lparr>sy_world := w1\<rparr>)"
  have made: "all_created_by c (sy_world ?s)" using sys_step_created [OF Suc.prems(3) one] by simp
  have r: "orderly oc pid_of d ?s"
    by (rule orderly.step [OF Suc.prems(1) step_acquiring [where pid_of = pid_of, OF Suc.prems(2) one]])
      (rule running_not_orphaned [OF made], simp)
  show ?case
  proof (cases n)
    case 0
    thus ?thesis using r made Suc.prems(4) one by simp
  next
    case (Suc k)
    thus ?thesis using Suc.IH [OF r _ made] Suc.prems(4) one by simp
  qed
qed

text \<open>
  The three parts of a takeover: from the begin of an acquisition to the removal of a dead owner's lock,
  the removal, and the creation of the client's own lock.
\<close>

definition removal :: "owner_codec \<Rightarrow> string \<Rightarrow> duration \<Rightarrow> int option \<Rightarrow> operation_lock_owner \<Rightarrow> operation_lock_owner
     \<Rightarrow> (app_error + operation_lock) program" where
  "removal oc path stale_after modified dead owner = ptry (remove_dead_owner path modified dead)
     (retry_after (Suc (Suc 0)) oc path stale_after owner None)"

lemma removal_unlinks: "\<exists>k. removal oc path stale_after modified dead owner = Unlink path k"
  by (simp add: removal_def ptry_def remove_dead_owner_def)

lemma takeover_approach:
  assumes "sy_phase s c = Acquiring (acquire_with_stale_after oc repository operation stale_after)"
    and "operation_name_ok operation" "trim (lw_common_dir (sy_world s)) \<noteq> []"
    and "lw_dir (sy_world s) (the_lock (sy_world s)) = Some i"
    and "oc_decode oc (take max_owner_bytes (li_bytes (lw_inode (sy_world s) i))) = Inr dead"
    and "0 < ow_pid dead" "ow_pid dead < 2 ^ 31" "ow_pid dead \<in> set (lw_dead (sy_world s))"
  obtains s' modified where "(acquire_step pid_of c)\<^sup>*\<^sup>* s s'"
    and "sy_phase s' = (sy_phase s)(c := Acquiring (removal oc (the_lock (sy_world s)) stale_after modified dead
           (first_owner (pid_of c) (sy_world s) operation)))"
    and "sy_world s' = next_sequence (pid_of c) (sy_world s)"
proof -
  let ?w = "next_sequence (pid_of c) (sy_world s)" and ?lock = "the_lock (sy_world s)"
  let ?owner = "first_owner (pid_of c) (sy_world s) operation"
  let ?attempts = "acquire_attempts (Suc (Suc (Suc 0))) oc ?lock stale_after ?owner None"
  let ?s1 = "set_phase c (Acquiring ?attempts) (s\<lparr>sy_world := ?w\<rparr>)"
  let ?m = "removal oc ?lock stale_after (Some (li_modified (lw_inode ?w i))) dead ?owner"
  have "(acquire_step pid_of c)\<^sup>*\<^sup>* s ?s1"
    by (rule acquire_calls [OF assms(1), of 5]) (unfold calls_acquire [OF assms(2,3)] numeral_3_eq_3, rule refl)
  also have "(acquire_step pid_of c)\<^sup>*\<^sup>* ?s1 (set_phase c (Acquiring ?m) (?s1\<lparr>sy_world := ?w\<rparr>))"
  proof (rule acquire_calls [where n = 6])
    show "calls 6 c (pid_of c) (sy_world ?s1, ?attempts) = (?w, ?m)"
      using calls_probe_dead [of ?w ?lock i oc dead] assms(4-8)
      by (simp add: next_sequence_def removal_def del: calls_numeral)
  qed simp
  finally show ?thesis by (rule that) simp_all
qed

lemma takeover_removal:
  assumes "sy_phase s c = Acquiring (removal oc path stale_after modified dead owner)"
    and "lw_dir (sy_world s) path = Some i" "0 \<le> lw_clock (sy_world s)"
  obtains s' m receipt where "acquire_step pid_of c s s'" "sy_phase s' = (sy_phase s)(c := Acquiring m)"
    and "sy_world s' = remove_path path (sy_world s)"
    and "calls (Suc 0) c (pid_of c) (sy_world s', m)
       = (sy_world s', acquire_attempts (Suc (Suc 0)) oc path stale_after owner (Some receipt))"
    and "lr_removed_owner receipt = dead"
proof -
  let ?w = "remove_path path (sy_world s)" and ?receipt = "dead_owner_receipt path dead (remove_path path (sy_world s)) modified"
  obtain w m where one: "sys_step NoFault c (pid_of c) (sy_world s) (removal oc path stale_after modified dead owner) = (w, m)"
    by fastforce
  have two: "calls (Suc 0) c (pid_of c) (w, m)
      = (?w, acquire_attempts (Suc (Suc 0)) oc path stale_after owner (Some ?receipt))"
    using calls_remove_dead [OF assms(2,3), of c "pid_of c" modified dead "Suc (Suc 0)" oc stale_after owner] one
    by (simp add: removal_def numeral_2_eq_2 del: calls_numeral)
  have "w = ?w" using one assms(2) by (auto simp: removal_def ptry_def remove_dead_owner_def)
  with two show ?thesis
    by (intro that [OF acquire_call [where pid_of = pid_of, OF assms(1) one], of m ?receipt]) (simp_all add: dead_owner_receipt_def)
qed

lemma takeover_take:
  assumes "sy_phase s c = Acquiring (acquire_attempts (Suc left) oc path stale_after owner recovered)"
    and "lw_dir (sy_world s) path = None" "oc_encode oc owner = Inr bytes"
  obtains s' l where "(acquire_step pid_of c)\<^sup>*\<^sup>* s s'" "sy_phase s' = (sy_phase s)(c := Holding l)"
    and "sy_world s' = set_bytes (lw_next (sy_world s)) bytes (add_file c path (sy_world s))"
    and "ol_recovered_dead_owner l = recovered"
proof -
  let ?w = "set_bytes (lw_next (sy_world s)) bytes (add_file c path (sy_world s))"
  let ?l = "new_guard path owner (lw_next (sy_world s)) recovered"
  let ?s2 = "set_phase c (Acquiring (Return (Inr ?l))) (s\<lparr>sy_world := ?w\<rparr>)"
  have "(acquire_step pid_of c)\<^sup>*\<^sup>* s ?s2"
    by (rule acquire_calls [OF assms(1) calls_take [OF assms(2,3)]])
  also have "acquire_step pid_of c ?s2 (set_phase c (Holding ?l) ?s2)" by (rule acquire_end) simp
  finally show ?thesis by (rule that [where l = ?l]) (simp_all add: new_guard_def)
qed

lemma takeover_claim:
  assumes "sy_phase s c = Acquiring m" "lw_dir (sy_world s) path = None" "oc_encode oc owner = Inr bytes"
    and "calls (Suc 0) c (pid_of c) (sy_world s, m)
       = (sy_world s, acquire_attempts (Suc left) oc path stale_after owner recovered)"
  obtains s' l where "(acquire_step pid_of c)\<^sup>*\<^sup>* s s'" "sy_phase s' = (sy_phase s)(c := Holding l)"
    and "sy_world s' = set_bytes (lw_next (sy_world s)) bytes (add_file c path (sy_world s))"
    and "ol_recovered_dead_owner l = recovered"
proof -
  let ?s1 = "set_phase c (Acquiring (acquire_attempts (Suc left) oc path stale_after owner recovered)) s"
  have one: "(acquire_step pid_of c)\<^sup>*\<^sup>* s ?s1" using acquire_calls [where pid_of = pid_of, OF assms(1,4)] by simp
  obtain s' l where s': "(acquire_step pid_of c)\<^sup>*\<^sup>* ?s1 s'" "sy_phase s' = (sy_phase ?s1)(c := Holding l)"
      "sy_world s' = set_bytes (lw_next (sy_world s)) bytes (add_file c path (sy_world s))"
      "ol_recovered_dead_owner l = recovered"
    using takeover_take [of ?s1 c left oc path stale_after owner recovered bytes pid_of] assms(2,3) by auto
  show ?thesis by (rule that [OF rtranclp_trans [OF one s'(1)], of l]) (simp_all add: s'(2-4))
qed

lemma takeover_replaces:
  assumes "sy_phase s c = Acquiring (removal oc path stale_after modified dead owner)"
    and "lw_dir (sy_world s) path = Some i" "0 \<le> lw_clock (sy_world s)" "oc_encode oc owner = Inr bytes"
  obtains u s' m l receipt where "acquire_step pid_of c s u" "sy_phase u = (sy_phase s)(c := Acquiring m)"
    and "sy_world u = remove_path path (sy_world s)"
    and "(acquire_step pid_of c)\<^sup>*\<^sup>* u s'" "sy_phase s' = (sy_phase s)(c := Holding l)"
    and "sy_world s' = set_bytes (lw_next (sy_world s)) bytes (add_file c path (remove_path path (sy_world s)))"
    and "ol_recovered_dead_owner l = Some receipt" "lr_removed_owner receipt = dead"
proof -
  obtain u m receipt where u: "acquire_step pid_of c s u" "sy_phase u = (sy_phase s)(c := Acquiring m)"
      "sy_world u = remove_path path (sy_world s)"
      "calls (Suc 0) c (pid_of c) (sy_world u, m)
        = (sy_world u, acquire_attempts (Suc (Suc 0)) oc path stale_after owner (Some receipt))" "lr_removed_owner receipt = dead"
    by (rule takeover_removal [OF assms(1-3), of pid_of])
  obtain s' l where s': "(acquire_step pid_of c)\<^sup>*\<^sup>* u s'" "sy_phase s' = (sy_phase u)(c := Holding l)"
      "sy_world s' = set_bytes (lw_next (sy_world u)) bytes (add_file c path (sy_world u))"
      "ol_recovered_dead_owner l = Some receipt"
    by (rule takeover_claim [where pid_of = pid_of, OF _ _ assms(4) u(4)]) (simp_all add: u(2,3) remove_path_def)
  show ?thesis
    by (rule that [where receipt = receipt and l = l, OF u(1-3) s'(1)]) (simp_all add: s'(2-4) u(2,3,5) remove_path_def)
qed

lemma takeover_both_removing:
  fixes s :: lock_system
  defines "lock \<equiv> the_lock (sy_world s)"
  assumes "sy_phase s a = Acquiring (acquire_with_stale_after oc repository operation stale_after)"
      "sy_phase s b = Acquiring (acquire_with_stale_after oc repository' operation' stale_after')" "a \<noteq> b"
    and "operation_name_ok operation" "operation_name_ok operation'" "trim (lw_common_dir (sy_world s)) \<noteq> []"
    and dead: "lw_dir (sy_world s) lock = Some i"
      "oc_decode oc (take max_owner_bytes (li_bytes (lw_inode (sy_world s) i))) = Inr dead"
      "0 < ow_pid dead" "ow_pid dead < 2 ^ 31" "ow_pid dead \<in> set (lw_dead (sy_world s))"
  obtains s1 s2 m m' owner owner' where "(acquire_step pid_of a)\<^sup>*\<^sup>* s s1" "(acquire_step pid_of b)\<^sup>*\<^sup>* s1 s2"
    and "sy_phase s2 a = Acquiring (removal oc lock stale_after m dead owner)"
    and "sy_phase s2 b = Acquiring (removal oc lock stale_after' m' dead owner')"
    and "lw_dir (sy_world s2) = lw_dir (sy_world s)" "lw_dead (sy_world s2) = lw_dead (sy_world s)"
    and "lw_clock (sy_world s2) = lw_clock (sy_world s)"
proof -
  let ?kept = "\<lambda>w. lw_dir w = lw_dir (sy_world s) \<and> lw_inode w = lw_inode (sy_world s)
      \<and> lw_dead w = lw_dead (sy_world s) \<and> lw_clock w = lw_clock (sy_world s) \<and> lw_common_dir w = lw_common_dir (sy_world s)"
  obtain s1 m owner where s1: "(acquire_step pid_of a)\<^sup>*\<^sup>* s s1"
      "sy_phase s1 = (sy_phase s)(a := Acquiring (removal oc lock stale_after m dead owner))" "?kept (sy_world s1)"
    by (rule takeover_approach [OF assms(2,5,7) dead [unfolded lock_def], of pid_of])
      (simp add: lock_def next_sequence_def)
  have same: "the_lock (sy_world s1) = lock" using s1(3) by (simp add: lock_def the_lock_def)
  have "sy_phase s1 b = Acquiring (acquire_with_stale_after oc repository' operation' stale_after')"
    using s1(2) assms(3,4) by simp
  then obtain s2 m' owner' where s2: "(acquire_step pid_of b)\<^sup>*\<^sup>* s1 s2"
      "sy_phase s2 = (sy_phase s1)(b := Acquiring (removal oc lock stale_after' m' dead owner'))" "?kept (sy_world s2)"
    by (rule takeover_approach [of s1 b oc repository' operation' stale_after' i dead pid_of])
      (use assms(6,7) dead s1(3) in \<open>simp_all add: same next_sequence_def\<close>)
  show ?thesis
    by (rule that [OF s1(1) s2(1)]) (use s1(2) s2(2,3) assms(4) in simp_all)
qed

subsection \<open>Two clients hold the lock\<close>

text \<open>The owner files of clients that start at the epoch with no sequence number used.\<close>

definition epoch_owner :: "nat \<Rightarrow> string \<Rightarrow> operation_lock_owner" where
  "epoch_owner pid operation = \<lparr>ow_version = 1, ow_pid = pid, ow_operation = operation, ow_created_unix_secs = 0,
     ow_token = show_nat pid @ ''-'' @ show_nat 0 @ ''-'' @ show_nat 0, ow_checkpoint = None\<rparr>"

lemma first_owner_epoch [simp]:
  "lw_clock w = 0 \<Longrightarrow> lw_sequence w pid = 0 \<Longrightarrow> first_owner pid w operation = epoch_owner pid operation"
  by (simp add: first_owner_def epoch_owner_def as_secs_def)

lemma epoch_owner_encodes: "\<exists>bytes. oc_encode sample_codec (epoch_owner pid operation) = Inr bytes"
  by (simp add: sample_codec_def sample_encode_def)

lemma sample_field_word:
  assumes "CHR '' '' \<notin> set word"
  shows "sample_field (word @ CHR '' '' # rest) = Some (word, rest)"
proof -
  have "\<forall>b\<in>set word. b \<noteq> CHR '' ''" using assms by auto
  thus ?thesis by (simp add: sample_field_def takeWhile_append2 dropWhile_append2)
qed

lemma show_digit_length: "n < 10 \<Longrightarrow> length (show_nat n) = 1"
  by (subst show_nat.simps) simp

lemma epoch_owner_decodes:
  assumes "pid < 10" "length operation \<le> 100" "oc_encode sample_codec (epoch_owner pid operation) = Inr bytes"
  shows "oc_decode sample_codec (take max_owner_bytes bytes) = Inr (epoch_owner pid operation)"
proof -
  have bytes: "bytes = show_nat pid @ CHR '' '' # show_nat 0 @ CHR '' '' # (show_nat pid @ ''-'' @ show_nat 0 @ ''-'' @ show_nat 0)
      @ CHR '' '' # operation"
    using assms(3) by (simp add: sample_codec_def sample_encode_def epoch_owner_def)
  have "length bytes \<le> max_owner_bytes"
    using assms(1,2) show_digit_length [of pid] show_digit_length [of 0] by (simp add: bytes max_owner_bytes_def)
  hence "take max_owner_bytes bytes = bytes" by simp
  moreover have "CHR '' '' \<notin> set (show_nat pid @ ''-'' @ show_nat 0 @ ''-'' @ show_nat 0)"
    using space_not_digit by simp
  moreover have "parse_unsigned 32 (show_nat pid) = Some pid" "parse_unsigned 64 (show_nat 0) = Some 0"
    using assms(1) by (simp_all add: parse_unsigned_show_nat)
  moreover have "sample_decode bytes = Inr (epoch_owner pid operation)"
    unfolding sample_decode_def bytes sample_field_word [OF space_not_digit] option.case prod.case
      sample_field_word [OF calculation(2)] calculation(3,4) by (simp add: epoch_owner_def)
  ultimately show ?thesis by (simp add: sample_codec_def)
qed

definition own_process :: "nat \<Rightarrow> nat" where
  "own_process c = Suc c"

lemma own_process_inject [simp]: "own_process c = own_process c' \<longleftrightarrow> c = c'"
  by (simp add: own_process_def)

lemma initial_world_simps [simp]:
  "lw_dir (initial_world d) p = None" "lw_clock (initial_world d) = 0" "lw_sequence (initial_world d) n = 0"
  "lw_dead (initial_world d) = []" "lw_common_dir (initial_world d) = d" "lw_next (initial_world d) = 0"
  "sy_world (initial_system d) = initial_world d" "sy_phase (initial_system d) c = Idle"
  by (simp_all add: initial_world_def initial_system_def)

lemmas world_ops = add_file_def set_bytes_def remove_path_def next_sequence_def

text \<open>Steps of a run in one repository at the epoch.\<close>

definition race_lock :: string where
  "race_lock = lock_name ''/r''"

definition begun :: "string \<Rightarrow> phase" where
  "begun operation = Acquiring (acquire_with_stale_after sample_codec ''.'' operation default_stale_after)"

definition race_state :: "lock_system \<Rightarrow> (nat \<Rightarrow> phase) \<Rightarrow> nat option \<Rightarrow> nat list \<Rightarrow> bool" where
  "race_state s phases lock dead \<longleftrightarrow> reachable sample_codec own_process ''/r'' s \<and> sy_phase s = phases
     \<and> lw_common_dir (sy_world s) = ''/r'' \<and> lw_clock (sy_world s) = 0 \<and> lw_dir (sy_world s) race_lock = lock
     \<and> lw_dead (sy_world s) = dead \<and> (\<forall>c. phases c = Idle \<longrightarrow> lw_sequence (sy_world s) (own_process c) = 0)"

lemma race_stateI:
  "reachable sample_codec own_process ''/r'' s \<Longrightarrow> sy_phase s = phases \<Longrightarrow> lw_common_dir (sy_world s) = ''/r''
   \<Longrightarrow> lw_clock (sy_world s) = 0 \<Longrightarrow> lw_dir (sy_world s) race_lock = lock \<Longrightarrow> lw_dead (sy_world s) = dead
   \<Longrightarrow> (\<And>c. phases c = Idle \<Longrightarrow> lw_sequence (sy_world s) (own_process c) = 0) \<Longrightarrow> race_state s phases lock dead"
  by (simp add: race_state_def)

lemma race_begin:
  assumes s: "race_state s phases lock dead" and c: "phases c = Idle" "own_process c \<notin> set dead"
  obtains s' where "race_state s' (phases(c := begun operation)) lock dead"
    and "sy_world s' = sy_world s"
proof -
  have "reachable sample_codec own_process ''/r'' s" using s by (simp add: race_state_def)
  hence r: "reachable sample_codec own_process ''/r'' (set_phase c (begun operation) s)"
    by (rule reachable.step) (use s c in \<open>simp add: lock_step.begin_operation begun_def phase_begin.acquire race_state_def\<close>)
  show ?thesis
    by (rule that, rule race_stateI, rule r)
      (use s in \<open>auto simp: race_state_def begun_def set_phase_def split: if_splits\<close>)
qed

lemma race_take:
  assumes s: "race_state s phases None dead" and c: "phases c = begun operation" "operation_name_ok operation"
    and fresh: "lw_sequence (sy_world s) (own_process c) = 0"
  obtains s' l i bytes where "race_state s' (phases(c := Holding l)) (Some i) dead"
    and "li_bytes (lw_inode (sy_world s') i) = bytes"
    and "oc_encode sample_codec (epoch_owner (own_process c) operation) = Inr bytes"
proof -
  obtain bytes where bytes: "oc_encode sample_codec (epoch_owner (own_process c) operation) = Inr bytes"
    using epoch_owner_encodes by blast
  let ?w = "next_sequence (own_process c) (sy_world s)" and ?owner = "epoch_owner (own_process c) operation"
  let ?attempts = "acquire_attempts (Suc (Suc (Suc 0))) sample_codec race_lock default_stale_after ?owner None"
  let ?s1 = "set_phase c (Acquiring ?attempts) (s\<lparr>sy_world := ?w\<rparr>)"
  have "trim ''/r'' \<noteq> []" by code_simp
  hence w: "the_lock (sy_world s) = race_lock" "trim (lw_common_dir (sy_world s)) \<noteq> []"
      "first_owner (own_process c) (sy_world s) operation = ?owner"
    using s fresh by (simp_all add: race_state_def the_lock_def race_lock_def lock_name_def)
  have "sy_phase s c = Acquiring (acquire_with_stale_after sample_codec ''.'' operation default_stale_after)"
    using s c(1) by (simp add: race_state_def begun_def)
  hence "(acquire_step own_process c)\<^sup>*\<^sup>* s ?s1"
    by (rule acquire_calls [where n = 5]) (unfold calls_acquire [OF c(2) w(2)] w numeral_3_eq_3, rule refl)
  moreover obtain s' l where s': "(acquire_step own_process c)\<^sup>*\<^sup>* ?s1 s'"
      "sy_phase s' = (sy_phase ?s1)(c := Holding l)" "sy_world s' = set_bytes (lw_next ?w) bytes (add_file c race_lock ?w)"
    using takeover_take [of ?s1 c "Suc (Suc 0)" sample_codec race_lock default_stale_after ?owner None bytes own_process] s bytes
    by (simp add: race_state_def next_sequence_def) metis
  ultimately have "(acquire_step own_process c)\<^sup>*\<^sup>* s s'" by simp
  hence r: "reachable sample_codec own_process ''/r'' s'" using s by (auto simp: race_state_def intro: reachable_acquire_steps)
  show ?thesis
    by (rule that [where l = l and i = "lw_next ?w"], rule race_stateI, rule r)
      (use s s' bytes in \<open>auto simp: race_state_def add_file_def set_bytes_def next_sequence_def split: if_splits\<close>)
qed

text \<open>The phases of clients 0, 1 and 2.\<close>

definition crew :: "phase \<Rightarrow> phase \<Rightarrow> phase \<Rightarrow> nat \<Rightarrow> phase" where
  "crew p q r = (\<lambda>_. Idle)(0 := p, Suc 0 := q, Suc (Suc 0) := r)"

lemma crew_simps [simp]:
  "crew p q r 0 = p" "crew p q r (Suc 0) = q" "crew p q r (Suc (Suc 0)) = r"
  "(crew p q r)(0 := x) = crew x q r" "(crew p q r)(Suc 0 := x) = crew p x r" "(crew p q r)(Suc (Suc 0) := x) = crew p q x"
  by (auto simp: crew_def)

lemma crew_idle: "crew Idle Idle Idle = (\<lambda>_. Idle)"
  by (auto simp: crew_def)

lemma race_end_process:
  assumes "race_state s (crew (Holding l) Idle Idle) lock []"
  obtains s' where "race_state s' (crew Ended Idle Idle) lock [Suc 0]" and "lw_inode (sy_world s') = lw_inode (sy_world s)"
proof -
  have "reachable sample_codec own_process ''/r'' s" using assms by (simp add: race_state_def)
  note r = reachable.step [OF this lock_step.end_process [of _ _ _ "Suc 0"]]
  have phases: "sy_phase s = crew (Holding l) Idle Idle" using assms by (simp add: race_state_def)
  have ended: "(\<lambda>c. if own_process c = Suc 0 then Ended else sy_phase s c) = crew Ended Idle Idle"
    unfolding phases by (auto simp: crew_def own_process_def)
  have idle: "lw_sequence (sy_world s) (own_process c) = 0" if "crew Ended Idle Idle c = Idle" for c
    using assms that unfolding race_state_def crew_def by (metis fun_upd_apply phase.distinct)
  show ?thesis
    by (rule that, rule race_stateI, rule r) (use assms in \<open>simp_all add: race_state_def ended idle\<close>)
qed

text \<open>Client 0 has died with the lock, and clients 1 and 2 have begun to acquire it.\<close>

lemma race_both_begun:
  obtains s i where "race_state s (crew Ended (begun ''sync'') (begun ''repair'')) (Some i) [Suc 0]"
    and "oc_decode sample_codec (take max_owner_bytes (li_bytes (lw_inode (sy_world s) i))) = Inr (epoch_owner (Suc 0) ''merge'')"
proof -
  have name: "operation_name_ok ''merge''" by code_simp
  have s0: "race_state (initial_system ''/r'') (crew Idle Idle Idle) None []"
    by (simp add: race_state_def reachable.start crew_idle fun_eq_iff)
  obtain s1 where s1: "race_state s1 (crew (begun ''merge'') Idle Idle) None []" "sy_world s1 = sy_world (initial_system ''/r'')"
    using race_begin [OF s0, of 0] by auto
  have fresh: "lw_sequence (sy_world s1) (own_process 0) = 0" by (simp add: s1(2))
  obtain s2 l i bytes where s2: "race_state s2 (crew (Holding l) Idle Idle) (Some i) []"
      "li_bytes (lw_inode (sy_world s2) i) = bytes" "oc_encode sample_codec (epoch_owner (own_process 0) ''merge'') = Inr bytes"
    using race_take [OF s1(1) crew_simps(1) name fresh] by (metis crew_simps(4))
  obtain s3 where s3: "race_state s3 (crew Ended Idle Idle) (Some i) [Suc 0]" "lw_inode (sy_world s3) = lw_inode (sy_world s2)"
    using race_end_process [OF s2(1)] by metis
  obtain s4 where s4: "race_state s4 (crew Ended (begun ''sync'') Idle) (Some i) [Suc 0]"
      "sy_world s4 = sy_world s3"
    using race_begin [OF s3(1), of "Suc 0"] by (auto simp: own_process_def)
  obtain s5 where s5: "race_state s5 (crew Ended (begun ''sync'') (begun ''repair'')) (Some i) [Suc 0]"
      "sy_world s5 = sy_world s4"
    using race_begin [OF s4(1), of "Suc (Suc 0)"] by (auto simp: own_process_def)
  have "oc_decode sample_codec (take max_owner_bytes bytes) = Inr (epoch_owner (Suc 0) ''merge'')"
    using epoch_owner_decodes [OF _ _ s2(3)] by (simp add: own_process_def)
  with s5 s4(2) s3(2) s2(2) that show ?thesis by simp
qed

text \<open>
  C6. The second look before a dead owner's lock is removed does not close the window. Let the lock file name
  a dead process, and let two clients of live processes have begun to acquire the lock. Then the following
  order of their own calls is possible, with no fault, no end of a process and no other operation. Both come
  to the removal of the same file, each having read its owner twice and seen its process dead. Client \<open>a\<close>
  removes it, creates its own lock and holds it. The next call of client \<open>b\<close> removes the lock of \<open>a\<close>, whose
  process lives and which still holds it, and \<open>b\<close> creates its own and holds the lock as well, with a receipt
  that says it has removed the dead owner.
\<close>

theorem takeover_race_breaks_exclusion:
  fixes s :: lock_system
  defines "lock \<equiv> the_lock (sy_world s)"
  assumes clients: "sy_phase s a = Acquiring (acquire_with_stale_after oc repository operation stale_after)"
      "sy_phase s b = Acquiring (acquire_with_stale_after oc repository' operation' stale_after')" "a \<noteq> b"
    and names: "operation_name_ok operation" "operation_name_ok operation'" "trim (lw_common_dir (sy_world s)) \<noteq> []"
    and encodes: "\<And>owner. \<exists>bytes. oc_encode oc owner = Inr bytes" and clock: "0 \<le> lw_clock (sy_world s)"
    and dead: "lw_dir (sy_world s) lock = Some i"
      "oc_decode oc (take max_owner_bytes (li_bytes (lw_inode (sy_world s) i))) = Inr dead"
      "0 < ow_pid dead" "ow_pid dead < 2 ^ 31" "ow_pid dead \<in> set (lw_dead (sy_world s))"
  shows "\<exists>s1 s2 s3 s4 s5 l receipt.
      (acquire_step pid_of a)\<^sup>*\<^sup>* s s1 \<and> (acquire_step pid_of b)\<^sup>*\<^sup>* s1 s2
      \<and> lw_dir (sy_world s2) lock = Some i \<and> (\<exists>k. sy_phase s2 a = Acquiring (Unlink lock k)) \<and> (\<exists>k. sy_phase s2 b = Acquiring (Unlink lock k))
      \<and> (acquire_step pid_of a)\<^sup>*\<^sup>* s2 s3 \<and> holds_lock (sy_phase s3 a) \<and> lock_creator lock (sy_world s3) = Some a
      \<and> acquire_step pid_of b s3 s4 \<and> holds_lock (sy_phase s4 a) \<and> lw_dir (sy_world s4) lock = None
      \<and> (acquire_step pid_of b)\<^sup>*\<^sup>* s4 s5 \<and> holds_lock (sy_phase s5 a) \<and> sy_phase s5 b = Holding l
      \<and> lock_creator lock (sy_world s5) = Some b \<and> lw_dead (sy_world s5) = lw_dead (sy_world s)
      \<and> ol_recovered_dead_owner l = Some receipt \<and> lr_removed_owner receipt = dead"
proof -
  obtain s1 s2 m1 m2 own other where s2: "(acquire_step pid_of a)\<^sup>*\<^sup>* s s1" "(acquire_step pid_of b)\<^sup>*\<^sup>* s1 s2"
      "sy_phase s2 a = Acquiring (removal oc lock stale_after m1 dead own)"
      "sy_phase s2 b = Acquiring (removal oc lock stale_after' m2 dead other)"
      "lw_dir (sy_world s2) = lw_dir (sy_world s)" "lw_dead (sy_world s2) = lw_dead (sy_world s)"
      "lw_clock (sy_world s2) = lw_clock (sy_world s)"
    by (rule takeover_both_removing [OF clients names dead [unfolded lock_def], of pid_of]) (simp add: lock_def)
  obtain bytes bytes' where bytes: "oc_encode oc own = Inr bytes" "oc_encode oc other = Inr bytes'" using encodes by blast
  obtain u s3 m l r where s3: "acquire_step pid_of a s2 u" "sy_phase u = (sy_phase s2)(a := Acquiring m)"
      "sy_world u = remove_path lock (sy_world s2)" "(acquire_step pid_of a)\<^sup>*\<^sup>* u s3" "sy_phase s3 = (sy_phase s2)(a := Holding l)"
      "sy_world s3 = set_bytes (lw_next (sy_world s2)) bytes (add_file a lock (remove_path lock (sy_world s2)))"
    by (rule takeover_replaces [where pid_of = pid_of, OF s2(3) _ _ bytes(1)]) (use dead(1) clock s2(5,7) in simp_all)
  have b3: "sy_phase s3 b = Acquiring (removal oc lock stale_after' m2 dead other)"
    using s2(4) s3(5) clients(3) by simp
  obtain s4 s5 m' l' r' where s4: "acquire_step pid_of b s3 s4" "sy_phase s4 = (sy_phase s3)(b := Acquiring m')"
      "sy_world s4 = remove_path lock (sy_world s3)"
    and s5: "(acquire_step pid_of b)\<^sup>*\<^sup>* s4 s5" "sy_phase s5 = (sy_phase s3)(b := Holding l')"
      "sy_world s5 = set_bytes (lw_next (sy_world s3)) bytes' (add_file b lock (remove_path lock (sy_world s3)))"
      "ol_recovered_dead_owner l' = Some r'" "lr_removed_owner r' = dead"
    by (rule takeover_replaces [where pid_of = pid_of and i = "lw_next (sy_world s2)", OF b3 _ _ bytes(2)])
      (use clock s2(7) in \<open>simp_all add: s3(6) set_bytes_def add_file_def remove_path_def\<close>)
  have worlds: "lock_creator lock (sy_world s3) = Some a" "lw_dir (sy_world s4) lock = None"
      "lock_creator lock (sy_world s5) = Some b" "lw_dead (sy_world s5) = lw_dead (sy_world s)"
    using s2(6) by (simp_all add: s5(3) s4(3) s3(6) lock_creator_def set_bytes_def add_file_def remove_path_def)
  have phases: "sy_phase s3 a = Holding l" "sy_phase s4 a = Holding l" "sy_phase s5 a = Holding l" "sy_phase s5 b = Holding l'"
    using clients(3) by (simp_all add: s5(2) s4(2) s3(5))
  have unlinks: "\<exists>k. sy_phase s2 a = Acquiring (Unlink lock k)" "\<exists>k. sy_phase s2 b = Acquiring (Unlink lock k)"
    using removal_unlinks s2(3,4) by metis+
  show ?thesis
    by (rule exI [of _ s1], rule exI [of _ s2], rule exI [of _ s3], rule exI [of _ s4], rule exI [of _ s5],
        rule exI [of _ l'], rule exI [of _ r'])
      (use s2(1,2,5) converse_rtranclp_into_rtranclp [OF s3(1,4)] s4(1) s5(1,4,5) worlds phases unlinks dead(1) in simp)
qed

theorem takeover_race_breaks_exclusion_witness:
  "\<exists>s. reachable sample_codec own_process ''/r'' s \<and> holds_lock (sy_phase s 1) \<and> holds_lock (sy_phase s 2)
     \<and> own_process 1 \<notin> set (lw_dead (sy_world s))"
proof -
  obtain s i where s: "race_state s (crew Ended (begun ''sync'') (begun ''repair'')) (Some i) [Suc 0]"
      "oc_decode sample_codec (take max_owner_bytes (li_bytes (lw_inode (sy_world s) i))) = Inr (epoch_owner (Suc 0) ''merge'')"
    by (rule race_both_begun)
  have names: "operation_name_ok ''sync''" "operation_name_ok ''repair''" "trim ''/r'' \<noteq> []" by code_simp+
  have owner: "0 < ow_pid (epoch_owner (Suc 0) ''merge'')" "ow_pid (epoch_owner (Suc 0) ''merge'') < 2 ^ 31"
      "ow_pid (epoch_owner (Suc 0) ''merge'') = Suc 0"
    by (simp_all add: epoch_owner_def)
  have lock: "the_lock (sy_world s) = race_lock" using s(1) by (simp add: race_state_def the_lock_def race_lock_def lock_name_def)
  have state: "reachable sample_codec own_process ''/r'' s" "sy_phase s (Suc 0) = begun ''sync''"
      "sy_phase s (Suc (Suc 0)) = begun ''repair''" "lw_dir (sy_world s) (the_lock (sy_world s)) = Some i"
      "lw_dead (sy_world s) = [Suc 0]" "0 \<le> lw_clock (sy_world s)" "trim (lw_common_dir (sy_world s)) \<noteq> []"
    using s(1) names(3) by (simp_all add: race_state_def lock)
  have encodes: "\<exists>bytes. oc_encode sample_codec owner = Inr bytes" for owner
    by (simp add: sample_codec_def sample_encode_def)
  obtain s1 s2 s3 s4 s5 l where run: "(acquire_step own_process (Suc 0))\<^sup>*\<^sup>* s s1" "(acquire_step own_process (Suc (Suc 0)))\<^sup>*\<^sup>* s1 s2"
      "(acquire_step own_process (Suc 0))\<^sup>*\<^sup>* s2 s3" "acquire_step own_process (Suc (Suc 0)) s3 s4"
      "(acquire_step own_process (Suc (Suc 0)))\<^sup>*\<^sup>* s4 s5" "holds_lock (sy_phase s5 (Suc 0))"
      "sy_phase s5 (Suc (Suc 0)) = Holding l" "lw_dead (sy_world s5) = lw_dead (sy_world s)"
    using takeover_race_breaks_exclusion [OF state(2,3) [unfolded begun_def] _ names(1,2) state(7) encodes state(6,4) s(2) owner(1,2),
        of own_process] owner(3) state(5) by auto
  have "reachable sample_codec own_process ''/r'' s5"
    using reachable_acquire_steps [OF run(1) state(1)] run(2-5)
    by (meson reachable.step reachable_acquire_steps acquire_step_lock_step)
  thus ?thesis
    using run(6-8) state(5) by (intro exI [of _ s5]) (simp add: own_process_def numeral_2_eq_2)
qed

end
