(* ===== verification/Lock_Alone.thy ===== *)
theory Lock_Alone
  imports Lock_Facts
begin

text \<open>
  The operations of the lock run alone: what an acquisition does in every state of the lock, that a
  release gives the directory back, and that a checkpoint fits the owner file. The witnesses of the
  properties of the lock are here too.
\<close>

subsection \<open>Acquiring alone\<close>

text \<open>The outcome of one attempt on a free path.\<close>

definition taken ::
    "owner_codec \<Rightarrow> nat \<Rightarrow> string \<Rightarrow> operation_lock_owner \<Rightarrow> operation_lock_recovery option \<Rightarrow> lock_world
     \<Rightarrow> lock_world \<times> (app_error + operation_lock)" where
  "taken oc c path owner recovered w =
     (case oc_encode oc owner of
        Inl e \<Rightarrow> (add_file c path w, Inl (app_structured SerializationError ''operation_lock_encode_failed''
                  (''could not encode operation lock owner: '' @ e)))
      | Inr bytes \<Rightarrow> (set_bytes (lw_next w) bytes (add_file c path w), Inr (new_guard path owner (lw_next w) recovered)))"

text \<open>
  What an acquisition does when nothing else runs: it takes a free lock, refuses a lock it cannot read
  or whose owner lives, and takes over a dead owner's lock with a receipt.
\<close>

definition acquire_outcome ::
    "owner_codec \<Rightarrow> nat \<Rightarrow> string \<Rightarrow> duration \<Rightarrow> operation_lock_owner \<Rightarrow> lock_world \<Rightarrow> lock_world \<times> (app_error + operation_lock)" where
  "acquire_outcome oc c path stale_after owner w =
     (case lw_dir w path of
        None \<Rightarrow> taken oc c path owner None w
      | Some i \<Rightarrow>
          let modified = li_modified (lw_inode w i)
          in case oc_decode oc (take max_owner_bytes (li_bytes (lw_inode w i))) of
               Inl e \<Rightarrow> (w, Inl (lock_io_error ''operation_lock_owner_invalid''
                         ''could not read existing operation lock owner evidence'' \<lparr>ie_kind = InvalidData, ie_text = e\<rparr>))
             | Inr existing \<Rightarrow>
                 if ow_pid existing \<ge> 2 ^ 31
                 then (w, Inl (app_structured Validation ''operation_lock_pid_invalid''
                        ''the operation lock owner PID is outside the platform range''))
                 else if ow_pid existing = 0
                 then (w, Inl (app_structured Validation ''operation_lock_pid_invalid''
                        ''the operation lock owner PID must be positive''))
                 else if ow_pid existing \<in> set (lw_dead w)
                 then taken oc c path owner (Some (dead_owner_receipt path existing w (Some modified))) (remove_path path w)
                 else if nat (lw_clock w - modified) \<ge> stale_after
                 then (w, Inl (app_structured Validation ''stale_operation_lock''
                        ''a repository operation lock is older than the configured stale threshold''))
                 else (w, Inl (app_structured Validation ''operation_lock_contended''
                        ''another mutating Caravan operation owns this repository'')))"

lemma solo_take:
  "lw_dir w path = None \<Longrightarrow>
   solo c pid w (acquire_attempts (Suc left) oc path stale_after owner recovered) = taken oc c path owner recovered w"
  by (simp add: acquire_attempts_Suc write_owner_def taken_def new_guard_def split: sum.splits)

lemma solo_read_owner:
  "solo c pid w (read_owner oc path) = (w, case lw_dir w path of None \<Rightarrow> Inl not_found
     | Some i \<Rightarrow> (case oc_decode oc (take max_owner_bytes (li_bytes (lw_inode w i))) of
          Inl e \<Rightarrow> Inl \<lparr>ie_kind = InvalidData, ie_text = e\<rparr> | Inr owner \<Rightarrow> Inr owner))"
  by (simp add: read_owner_def split: option.splits)

lemma solo_lock_age:
  "solo c pid w (lock_age_secs modified owner) = (w, if lw_clock w \<ge> 0
     then as_secs (nat (lw_clock w)) - ow_created_unix_secs owner else as_secs (modified_age (lw_clock w) modified))"
  by (simp add: lock_age_secs_def modified_age_def as_secs_def split: option.splits)

lemma solo_recover_dead:
  assumes "lw_dir w path = Some i" "oc_decode oc (take max_owner_bytes (li_bytes (lw_inode w i))) = Inr dead"
    and "0 < ow_pid dead" "ow_pid dead < 2 ^ 31"
  shows "solo c pid w (recover_dead_owner_for_acquire oc path) =
    (if ow_pid dead \<in> set (lw_dead w)
     then (remove_path path w, Inr (Recovered (dead_owner_receipt path dead w (Some (li_modified (lw_inode w i))))))
     else (w, Inr Live))"
proof -
  have clock: "lw_clock (remove_path path w) = lw_clock w" by (simp add: remove_path_def)
  show ?thesis using assms
    by (simp add: recover_dead_owner_for_acquire_def solo_pthen solo_ptry solo_read_owner process_is_alive_def
        recheck_dead_owner_def remove_dead_owner_def solo_lock_age dead_owner_receipt_def clock)
qed

lemma solo_existing_error:
  assumes "lw_dir w path = Some i"
  shows "solo c pid w (existing_lock_error oc path stale_after) =
    (w, Inr (if nat (lw_clock w - li_modified (lw_inode w i)) \<ge> stale_after
       then app_structured Validation ''stale_operation_lock''
              ''a repository operation lock is older than the configured stale threshold''
       else app_structured Validation ''operation_lock_contended''
              ''another mutating Caravan operation owns this repository''))"
  using assms by (simp add: existing_lock_error_def solo_pthen solo_read_owner modified_age_def)

lemma solo_attempts:
  "solo c pid w (acquire_attempts (Suc (Suc left)) oc path stale_after owner None) = acquire_outcome oc c path stale_after owner w"
proof (cases "lw_dir w path")
  case None
  thus ?thesis by (simp add: solo_take acquire_outcome_def)
next
  case (Some i)
  have gone: "lw_dir (remove_path path w) path = None" by (simp add: remove_path_def)
  let ?read = "oc_decode oc (take max_owner_bytes (li_bytes (lw_inode w i)))"
  show ?thesis
  proof (cases ?read)
    case (Inl e)
    thus ?thesis using Some
      by (simp add: acquire_attempts_Suc [of "Suc left"] already_exists_def solo_ptry recover_dead_owner_for_acquire_def
          solo_pthen solo_read_owner acquire_outcome_def)
  next
    case (Inr existing)
    show ?thesis
    proof (cases "0 < ow_pid existing \<and> ow_pid existing < 2 ^ 31")
      case True
      note probe = solo_recover_dead [OF Some Inr conjunct1 [OF True] conjunct2 [OF True]]
      have "solo c pid w (acquire_attempts (Suc (Suc left)) oc path stale_after owner None) =
          (case solo c pid w (recover_dead_owner_for_acquire oc path) of
             (w', Inl e) \<Rightarrow> (w', Inl e) | (w', Inr p) \<Rightarrow> solo c pid w' (retry_after (Suc left) oc path stale_after owner None p))"
        using Some by (simp add: acquire_attempts_Suc [of "Suc left"] already_exists_def solo_ptry)
      thus ?thesis using True Some Inr
        by (simp add: probe retry_after_def solo_pthen solo_existing_error solo_take [OF gone] acquire_outcome_def
            split: if_splits)
    next
      case False
      thus ?thesis using Some Inr
        by (auto simp: acquire_attempts_Suc [of "Suc left"] already_exists_def solo_ptry recover_dead_owner_for_acquire_def
            solo_pthen solo_read_owner process_is_alive_def acquire_outcome_def)
    qed
  qed
qed

lemma solo_calls: "calls n c pid (w, m) = (w', m') \<Longrightarrow> solo c pid w m = solo c pid w' m'"
proof (induction n arbitrary: w m)
  case 0
  thus ?case by simp
next
  case (Suc n)
  obtain w1 m1 where "sys_step NoFault c pid w m = (w1, m1)" by fastforce
  thus ?case using Suc solo_sys_step [of c pid w m] by simp
qed

lemma solo_acquire:
  assumes "operation_name_ok operation" "trim (lw_common_dir w) \<noteq> []"
  shows "solo c pid w (acquire_with_stale_after oc repository operation stale_after)
    = acquire_outcome oc c (the_lock w) stale_after (first_owner pid w operation) (next_sequence pid w)"
  using solo_calls [OF calls_acquire [OF assms]] solo_attempts [of c pid _ "Suc 0"] by (simp add: numeral_3_eq_3)

lemma solo_acquire_bad_name:
  "\<not> operation_name_ok operation
   \<Longrightarrow> \<exists>e. solo c pid w (acquire_with_stale_after oc repository operation stale_after) = (w, Inl e)"
  by (auto simp: acquire_with_stale_after_def operation_name_ok_def)

text \<open>
  C19. Acquisition alone: with a valid operation name in a repository, an acquisition has exactly the
  outcome of the reference \<open>acquire_outcome\<close>, in every state of the lock file, of the clock and of the
  processes. A lock that is unreadable or whose owner lives is left as it is, with the error of its
  case; the three attempts are enough.
\<close>

theorem acquire_alone_exact:
  assumes "operation_name_ok operation" and "trim (lw_common_dir w) \<noteq> []"
  shows "solo c pid w (acquire_with_stale_after oc repository operation stale_after)
    = acquire_outcome oc c (the_lock w) stale_after (first_owner pid w operation) (next_sequence pid w)"
  by (rule solo_acquire [OF assms])

theorem acquire_alone_exact_witness:
  "solo 0 1 (initial_world ''/r'') (acquire_with_stale_after sample_codec ''.'' ''merge'' 0)
   = acquire_outcome sample_codec 0 (the_lock (initial_world ''/r'')) 0 (first_owner 1 (initial_world ''/r'') ''merge'')
       (next_sequence 1 (initial_world ''/r''))"
proof (rule acquire_alone_exact)
  show "operation_name_ok ''merge''" by code_simp
  show "trim (lw_common_dir (initial_world ''/r'')) \<noteq> []" by simp code_simp
qed

subsection \<open>Acquiring and releasing\<close>

lemma solo_release_own:
  assumes "lw_dir w (ol_path l) = Some i" "\<not> ol_released l"
    and "oc_decode oc (take max_owner_bytes (li_bytes (lw_inode w i))) = Inr owner"
  shows "solo c pid w (lock_release oc l) =
    (if ow_token owner = ow_token (ol_owner l) then (remove_path (ol_path l) w, Inr ())
     else (w, Inl (owner_changed ''refusing to remove an operation lock now owned by another process'')))"
  using assms by (simp add: lock_release_def release_inner_def lock_drop_def solo_pthen solo_read_owner)

text \<open>
  C34. A lock round trip: a guard taken on a free lock holds the path, and releasing it succeeds and gives
  the directory back exactly as it was, provided the codec reads back what it wrote within the size a
  reader takes. While the guard is there and its owner lives, every other acquisition fails, whoever runs
  it, for whatever operation and repository argument and with whatever stale threshold; it changes nothing
  but the counter of its own process.
\<close>

theorem acquire_release_roundtrip:
  assumes "operation_name_ok operation" and "trim (lw_common_dir w) \<noteq> []" and "lw_dir w (the_lock w) = None"
    and "oc_encode oc (first_owner pid w operation) = Inr bytes"
    and "oc_decode oc (take max_owner_bytes bytes) = Inr (first_owner pid w operation)"
    and "0 < pid" "pid < 2 ^ 31" "pid \<notin> set (lw_dead w)"
  shows "\<exists>w' l. solo c pid w (acquire_with_stale_after oc repository operation stale_after) = (w', Inr l)
     \<and> lw_dir w' (the_lock w) = Some (lw_next w)
     \<and> (\<exists>w''. solo c pid w' (lock_release oc l) = (w'', Inr ()) \<and> lw_dir w'' = lw_dir w)
     \<and> (\<forall>c' pid' repository' operation' stale'. \<exists>w'' e.
          solo c' pid' w' (acquire_with_stale_after oc repository' operation' stale') = (w'', Inl e)
          \<and> (w'' = w' \<or> w'' = next_sequence pid' w'))"
proof -
  let ?owner = "first_owner pid w operation" and ?P = "the_lock w"
  let ?w = "set_bytes (lw_next w) bytes (add_file c ?P (next_sequence pid w))"
  let ?l = "new_guard ?P ?owner (lw_next w) None"
  have taken: "solo c pid w (acquire_with_stale_after oc repository operation stale_after) = (?w, Inr ?l)"
    using assms(3,4) by (simp add: solo_acquire [OF assms(1,2)] acquire_outcome_def taken_def next_sequence_def)
  have w: "lw_dir ?w = (lw_dir w)(?P := Some (lw_next w))" "li_bytes (lw_inode ?w (lw_next w)) = bytes"
      "lw_dead ?w = lw_dead w" "lw_common_dir ?w = lw_common_dir w"
    by (simp_all add: world_ops)
  have "solo c pid ?w (lock_release oc ?l) = (remove_path ?P ?w, Inr ())"
    using solo_release_own [of ?w ?l "lw_next w" oc ?owner c pid] assms(5) w by (simp add: new_guard_def)
  moreover have "lw_dir (remove_path ?P ?w) = lw_dir w"
    using assms(3) by (auto simp: remove_path_def w(1))
  ultimately have given_back: "\<exists>w''. solo c pid ?w (lock_release oc ?l) = (w'', Inr ()) \<and> lw_dir w'' = lw_dir w" by blast
  have others: "\<exists>w'' e. solo c' pid' ?w (acquire_with_stale_after oc repository' operation' stale') = (w'', Inl e)
      \<and> (w'' = ?w \<or> w'' = next_sequence pid' ?w)" for c' pid' repository' operation' stale'
  proof (cases "operation_name_ok operation'")
    case True
    have "the_lock ?w = ?P" "trim (lw_common_dir ?w) \<noteq> []" using assms(2) w(4) by (simp_all add: the_lock_def)
    moreover have "ow_pid ?owner = pid" by (simp add: first_owner_def)
    ultimately show ?thesis
      using assms(5-8) w by (simp add: solo_acquire [OF True] acquire_outcome_def next_sequence_def)
  next
    case False
    thus ?thesis using solo_acquire_bad_name by blast
  qed
  have "lw_dir ?w ?P = Some (lw_next w)" by (simp add: w(1))
  with taken given_back others show ?thesis by blast
qed

theorem acquire_release_roundtrip_witness:
  "\<exists>w' l. solo 0 1 (initial_world ''/r'') (acquire_with_stale_after sample_codec ''.'' ''merge'' 0) = (w', Inr l)
     \<and> (\<exists>w''. solo 0 1 w' (lock_release sample_codec l) = (w'', Inr ()) \<and> lw_dir w'' = lw_dir (initial_world ''/r''))
     \<and> (\<exists>w'' e. solo 1 2 w' (acquire_with_stale_after sample_codec ''sub'' ''repair'' 5) = (w'', Inl e))"
proof -
  let ?w = "initial_world ''/r''" and ?owner = "epoch_owner 1 ''merge''"
  obtain bytes where bytes: "oc_encode sample_codec ?owner = Inr bytes" using epoch_owner_encodes by blast
  have name: "operation_name_ok ''merge''" by code_simp
  have dir: "trim (lw_common_dir ?w) \<noteq> []" by simp code_simp
  have owner: "first_owner 1 ?w ''merge'' = ?owner" by simp
  have "oc_decode sample_codec (take max_owner_bytes bytes) = Inr ?owner"
    by (rule epoch_owner_decodes [OF _ _ bytes]) simp_all
  from acquire_release_roundtrip [OF name dir _ bytes [folded owner] this [folded owner], of 0 "''.''" 0] show ?thesis
    by simp blast
qed

subsection \<open>Checkpoints\<close>

definition same_progress :: "operation_lock_checkpoint \<Rightarrow> operation_lock_checkpoint \<Rightarrow> bool" where
  "same_progress a b \<longleftrightarrow> lc_phase b = lc_phase a \<and> lc_updated_unix_ms b = lc_updated_unix_ms a
     \<and> lc_provider_state_indeterminate b = lc_provider_state_indeterminate a"

definition same_owner :: "operation_lock_owner \<Rightarrow> operation_lock_owner \<Rightarrow> bool" where
  "same_owner a b \<longleftrightarrow> b\<lparr>ow_checkpoint := None\<rparr> = a\<lparr>ow_checkpoint := None\<rparr>
     \<and> rel_option same_progress (ow_checkpoint a) (ow_checkpoint b)"

lemma same_owner_refl: "same_owner a a"
  by (simp add: same_owner_def same_progress_def option.rel_refl)

lemma same_owner_trans: "same_owner a b \<Longrightarrow> same_owner b c \<Longrightarrow> same_owner a c"
  by (auto simp: same_owner_def same_progress_def rel_option_iff split: option.splits)

lemma same_owner_map:
  assumes "\<And>cp. same_progress cp (f cp)"
  shows "same_owner a (map_checkpoint f a)"
  using assms by (auto simp: same_owner_def map_checkpoint_def rel_option_iff split: option.splits)

lemma same_owner_compact: "same_owner a (compact_checkpoint_evidence oc a)" "same_owner a (minimize_checkpoint_evidence a)"
  unfolding compact_checkpoint_evidence_def minimize_checkpoint_evidence_def
  by (rule same_owner_map; simp add: same_progress_def Let_def)+

lemma bounded_owner_same: "same_owner owner (fst (bounded_owner oc owner))"
proof -
  have "same_owner owner (fst (shrink_owner oc f (owner', r)))" if "same_owner owner owner'" "\<And>a. same_owner a (f a)" for f owner' r
    using that same_owner_trans by (auto simp: shrink_owner_def split: sum.splits)
  hence "same_owner owner (fst (shrink_owner oc f p))" if "same_owner owner (fst p)" "\<And>a. same_owner a (f a)" for f p
    using that by (cases p) auto
  note shrink = this
  let ?first = "shrink_owner oc (compact_checkpoint_evidence oc) (owner, encoded_owner oc owner)"
  have "same_owner owner (fst ?first)" by (rule shrink) (simp_all add: same_owner_refl same_owner_compact)
  hence "same_owner owner (fst (shrink_owner oc minimize_checkpoint_evidence ?first))"
    by (rule shrink) (simp add: same_owner_compact)
  thus ?thesis by (auto simp: bounded_owner_def split: prod.splits sum.splits)
qed

text \<open>
  C37. A checkpoint that is written fits the owner file: its bytes are within the limit every reader
  takes, so a reader sees all of them; they encode the owner that is kept; and however much of the
  evidence was given up, the owner's identity and the checkpoint's phase, time and indeterminate mark
  are those that were to be written, with the evidence intact when it fits as it is.
\<close>

theorem checkpoint_fits_owner_file:
  assumes "bounded_owner oc owner = (owner', Inr bytes)"
  shows "length bytes \<le> 16384 \<and> take max_owner_bytes bytes = bytes \<and> oc_encode oc owner' = Inr bytes
    \<and> same_owner owner owner'
    \<and> (\<forall>all. oc_encode oc owner = Inr all \<longrightarrow> length all \<le> 16384 \<longrightarrow> owner' = owner)"
proof -
  have "to_u64 (length bytes) \<le> max_owner_bytes"
    using assms(1) by (auto simp: bounded_owner_def split: prod.splits sum.splits if_splits)
  hence "length bytes \<le> 16384" by (simp add: to_u64_def max_owner_bytes_def u64_max_def split: if_splits)
  moreover have "owner' = owner" if "oc_encode oc owner = Inr all" "length all \<le> 16384" for all
    using assms(1) that by (simp add: bounded_owner_def shrink_owner_def encoded_owner_def to_u64_def max_owner_bytes_def u64_max_def)
  ultimately show ?thesis
    using bounded_owner_encodes [OF assms(1)] bounded_owner_same [of owner oc] assms(1) by (auto simp: max_owner_bytes_def)
qed

definition large_owner :: operation_lock_owner where
  "large_owner = (epoch_owner 1 ''merge'')\<lparr>ow_checkpoint := Some \<lparr>lc_phase = ''push'', lc_updated_unix_ms = 5,
     lc_evidence = JString (replicate 20000 CHR ''x''), lc_evidence_compaction = None,
     lc_provider_state_indeterminate = True\<rparr>\<rparr>"

theorem checkpoint_fits_owner_file_witness:
  "\<exists>owner' bytes. bounded_owner sample_codec large_owner = (owner', Inr bytes) \<and> length bytes \<le> 16384
     \<and> owner' \<noteq> large_owner \<and> same_owner large_owner owner'"
proof -
  obtain bytes where bytes: "oc_encode sample_codec (compact_checkpoint_evidence sample_codec large_owner) = Inr bytes"
      "length bytes < 100"
    using show_digit_length [of 1] show_digit_length [of 0]
    by (simp add: sample_codec_def sample_encode_def sample_evidence_def large_owner_def epoch_owner_def
        compact_checkpoint_evidence_def map_checkpoint_def Let_def)
  obtain all where all: "oc_encode sample_codec large_owner = Inr all" "length all > 20000" "length all < 20100"
    using show_digit_length [of 1] show_digit_length [of 0]
    by (simp add: sample_codec_def sample_encode_def sample_evidence_def large_owner_def epoch_owner_def)
  have bounded: "bounded_owner sample_codec large_owner = (compact_checkpoint_evidence sample_codec large_owner, Inr bytes)"
    using bytes all by (simp add: bounded_owner_def shrink_owner_def encoded_owner_def to_u64_def max_owner_bytes_def u64_max_def)
  have "compact_checkpoint_evidence sample_codec large_owner \<noteq> large_owner"
    by (simp add: compact_checkpoint_evidence_def map_checkpoint_def large_owner_def epoch_owner_def Let_def)
  thus ?thesis using bounded checkpoint_fits_owner_file [OF bounded] bytes(2) by auto
qed

subsection \<open>A run with one holder\<close>

lemma orderly_begin:
  assumes "orderly oc pid_of d s" "sy_phase s c = Idle" "pid_of c \<notin> set (lw_dead (sy_world s))"
    and "all_created_by c (sy_world s)" "operation_name_ok operation" "trim (lw_common_dir (sy_world s)) \<noteq> []"
  shows "orderly oc pid_of d (set_phase c
      (Acquiring (acquire_attempts (Suc (Suc (Suc 0))) oc (the_lock (sy_world s)) default_stale_after
         (first_owner (pid_of c) (sy_world s) operation) None))
      (s\<lparr>sy_world := next_sequence (pid_of c) (sy_world s)\<rparr>)) \<and> all_created_by c (next_sequence (pid_of c) (sy_world s))"
proof -
  let ?begun = "set_phase c (Acquiring (acquire_with_stale_after oc ''.'' operation default_stale_after)) s"
  have "orderly oc pid_of d ?begun"
    by (rule orderly.step [OF assms(1) lock_step.begin_operation])
      (use assms running_not_orphaned [of c ?begun] in \<open>simp_all add: phase_begin.acquire\<close>)
  from orderly_calls [OF this, of c _ 5, OF _ _ calls_acquire [OF assms(5)]] assms(4,6) show ?thesis
    by (simp add: numeral_3_eq_3 del: calls_numeral)
qed

lemma orderly_take:
  assumes "orderly oc pid_of d s" "sy_phase s c = Acquiring (acquire_attempts (Suc left) oc path stale_after owner recovered)"
    and "lw_dir (sy_world s) path = None" "oc_encode oc owner = Inr bytes" "all_created_by c (sy_world s)"
  shows "orderly oc pid_of d (set_phase c (Holding (new_guard path owner (lw_next (sy_world s)) recovered))
      (s\<lparr>sy_world := set_bytes (lw_next (sy_world s)) bytes (add_file c path (sy_world s))\<rparr>))"
proof -
  let ?l = "new_guard path owner (lw_next (sy_world s)) recovered"
  let ?w = "set_bytes (lw_next (sy_world s)) bytes (add_file c path (sy_world s))"
  let ?taken = "set_phase c (Acquiring (Return (Inr ?l))) (s\<lparr>sy_world := ?w\<rparr>)"
  have taken: "orderly oc pid_of d ?taken" "all_created_by c ?w"
    using orderly_calls [OF assms(1,2,5), of 2, OF calls_take [OF assms(3,4)]] by simp_all
  have "lock_step oc pid_of ?taken (set_phase c (Holding ?l) ?taken)"
    by (rule lock_step.end_operation) (simp add: phase_done.acquired)
  moreover have "\<not> orphaned (set_phase c (Holding ?l) ?taken)"
    by (rule running_not_orphaned [of c]) (use taken(2) in simp_all)
  ultimately have "orderly oc pid_of d (set_phase c (Holding ?l) ?taken)" by (rule orderly.step [OF taken(1)])
  moreover have "set_phase c (Holding ?l) ?taken = set_phase c (Holding ?l) (s\<lparr>sy_world := ?w\<rparr>)"
    by (simp add: set_phase_def)
  ultimately show ?thesis by simp
qed

lemma orderly_acquired:
  assumes "orderly oc pid_of d s" "sy_phase s c = Idle" "pid_of c \<notin> set (lw_dead (sy_world s))"
    and "all_created_by c (sy_world s)" "operation_name_ok operation" "trim (lw_common_dir (sy_world s)) \<noteq> []"
    and "lw_dir (sy_world s) (the_lock (sy_world s)) = None"
    and "oc_encode oc (first_owner (pid_of c) (sy_world s) operation) = Inr bytes"
  obtains s' l where "orderly oc pid_of d s'" "sy_phase s' = (sy_phase s)(c := Holding l)"
proof -
  note begun = orderly_begin [OF assms(1-6)]
  let ?m = "acquire_attempts (Suc (Suc (Suc 0))) oc (the_lock (sy_world s)) default_stale_after
    (first_owner (pid_of c) (sy_world s) operation) None"
  let ?t = "set_phase c (Acquiring ?m) (s\<lparr>sy_world := next_sequence (pid_of c) (sy_world s)\<rparr>)"
  have "sy_phase ?t c = Acquiring ?m" by simp
  moreover have "lw_dir (sy_world ?t) (the_lock (sy_world s)) = None" using assms(7) by (simp add: next_sequence_def)
  moreover have "all_created_by c (sy_world ?t)" using begun by simp
  ultimately have "orderly oc pid_of d (set_phase c (Holding (new_guard (the_lock (sy_world s))
        (first_owner (pid_of c) (sy_world s) operation) (lw_next (sy_world ?t)) None))
      (?t\<lparr>sy_world := set_bytes (lw_next (sy_world ?t)) bytes (add_file c (the_lock (sy_world s)) (sy_world ?t))\<rparr>))"
    by (rule orderly_take [OF conjunct1 [OF begun] _ _ assms(8)])
  thus ?thesis by (rule that) (simp add: set_phase_def)
qed

theorem operation_lock_exclusive_witness:
  "\<exists>s. orderly sample_codec own_process ''/r'' s \<and> {c. holds_lock (sy_phase s c)} = {0}
     \<and> lock_creator (the_lock (sy_world s)) (sy_world s) = Some 0"
proof -
  let ?s = "initial_system ''/r''"
  obtain bytes where bytes: "oc_encode sample_codec (epoch_owner (own_process 0) ''merge'') = Inr bytes"
    using epoch_owner_encodes by blast
  have name: "operation_name_ok ''merge''" by code_simp
  have dir: "trim ''/r'' \<noteq> []" by code_simp
  have created: "all_created_by 0 (initial_world ''/r'')" by (simp add: all_created_by_def initial_world_def)
  have "orderly sample_codec own_process ''/r'' ?s" "sy_phase ?s 0 = Idle"
      "own_process 0 \<notin> set (lw_dead (sy_world ?s))" "all_created_by 0 (sy_world ?s)"
      "trim (lw_common_dir (sy_world ?s)) \<noteq> []" "lw_dir (sy_world ?s) (the_lock (sy_world ?s)) = None"
      "oc_encode sample_codec (first_owner (own_process 0) (sy_world ?s) ''merge'') = Inr bytes"
    using created dir bytes by (simp_all add: orderly.start)
  note acquired = orderly_acquired [OF this(1-4) name this(5-7)]
  obtain s l where s: "orderly sample_codec own_process ''/r'' s" "sy_phase s = (sy_phase ?s)(0 := Holding l)"
    by (rule acquired)
  have "holds_lock (sy_phase s c) = (c = 0)" for c by (simp add: s(2))
  thus ?thesis using s(1) operation_lock_exclusive [OF sample_codec_ok s(1), of 0] by (intro exI [of _ s]) auto
qed

end
