(* ===== verification/Spec2Isabelle.thy ===== *)
theory Spec2Isabelle
  imports Compat_Safety Required_Runs_Facts Generation_Text Admission_Facts
    Budget_Facts Squash_Facts Fence_Facts App_Safety Lock_Alone
begin

text \<open>
  \<^bold>\<open>Caravan, a merge queue of labelled pull request chains.\<close>

  This library is a shallow embedding of \<open>cara\<close>: the decision logic that turns one discovery snapshot
  of a repository into caravans, problems, an admission order, verdicts on required checks and on
  competing generations of the same work, and a bounded plan of writes; the proof that a squash merge
  already contains a prefix; and the guards around every command it runs, the remote writer lease,
  the fenced runner and GitHub authentication; and the local operation lock. GitHub, Git, child processes, clocks and JSON are
  outside, and their answers are inputs or parameters.

  \<^bold>\<open>How the parts fit together.\<close> Discovery fills a \<open>repository_snapshot\<close>. The graph component
  (\<open>src/src/graph.rs\<close>) derives chains of active members and structural problems from it. Admission
  (\<open>src/src/read.rs\<close>) sorts the remaining open pull requests into candidates, skipped and rejected
  rows, using the required-check policy (\<open>src/src/required_runs.rs\<close>), the reduction of check rows to
  current ones (\<open>src/src/model.rs\<close>) and generation integrity (\<open>src/src/generation.rs\<close>). Admission
  intent (\<open>src/src/admission.rs\<close>) decides whether one selected pull request may act under that order.
  The sync tick admits only as many writes as its deadline can finish (\<open>src/src/sync/budget.rs\<close>). A
  rebase drops commits only on the evidence of \<open>src/src/squash_equivalence.rs\<close>, which asks Git through
  \<open>src/src/compatibility.rs\<close>. Compatibility analysis (\<open>graph.rs\<close> again) merges the exact revisions of the
  derived chains in trial and adds its problems to the fleet. Every subprocess is a request of \<open>src/src/command.rs\<close>; a write passes the
  fence of \<open>src/src/remote_lease.rs\<close> first, and the process runner selects its GitHub identity. Every
  mutating operation on one clone holds the lock of \<open>src/src/operation_lock.rs\<close>.

  \<^bold>\<open>Theories and sources.\<close>

  \<^item> \<open>Prelude\<close>, \<open>BTree\<close>, \<open>Text\<close>: the parts of the Rust standard library the sources call. Strings are byte
    lists ordered byte-wise; \<open>BTreeMap\<close> and \<open>BTreeSet\<close> are association lists in key order, used through
    the locale \<open>ordered_map\<close> (interpretation \<open>bt\<close>); \<open>str\<close> trimming, splitting and lines are on UTF-8 bytes.
  \<^item> \<open>Domain\<close>: the types and predicates of \<open>model.rs\<close>; every struct is a record, every enum a datatype.
  \<^item> \<open>Checks\<close>: \<open>CheckSnapshot\<close> identity and \<open>latest_checks_per_identity\<close> of \<open>model.rs\<close>.
  \<^item> \<open>Required_Policy\<close>, \<open>Required_Runs\<close>, \<open>Civil_Time\<close>, \<open>Fnv\<close>: \<open>required_runs.rs\<close> in full and \<open>fnv1a64\<close> of
    \<open>membership.rs\<close>. \<open>Required_Runs_Facts\<close> holds the theorems.
  \<^item> \<open>Squash\<close>: the report types of \<open>squash_equivalence.rs\<close>.
  \<^item> \<open>Graph\<close>: \<open>derive_for_actor\<close>, one definition per phase, returning \<open>None\<close> where the source would panic.
    \<open>Graph_Links\<close> characterises the parent links, \<open>Graph_Walk\<close> the chain walk (locale \<open>chain_forest\<close>),
    \<open>Graph_Cycles\<close> cycle detection, \<open>Graph_Facts\<close> interprets the locale on the links of a derivation and
    \<open>Graph_Health\<close> holds the theorems.
  \<^item> \<open>Generation\<close>: \<open>generation.rs\<close>; \<open>Generation_Facts\<close> and \<open>Generation_Text\<close> its theorems.
  \<^item> \<open>Admission\<close>: the resolver of \<open>read.rs\<close> with candidate validation; \<open>Admission_Intent\<close>: \<open>admission.rs\<close>;
    \<open>Admission_Facts\<close> their theorems. \<open>Samples\<close> holds the concrete repository of the witnesses.
  \<^item> \<open>Saturating\<close>: saturating 64-bit arithmetic and durations. \<open>Budget\<close>: \<open>sync/budget.rs\<close> in full;
    \<open>Budget_Facts\<close> its theorems.
  \<^item> \<open>Git\<close>: the read-only evidence commands of \<open>compatibility.rs\<close> over a runner. \<open>Compat_Git\<close>: the rest of
    that file, remote checks, fetching, batch preparation and merge reports, as actions on a world.
    \<open>Compat_Analysis\<close>: the tasks and the analysis loop of \<open>graph.rs\<close> over a checker record. \<open>Compat_Checker\<close>:
    the Git checker with its two caches. \<open>Compat_Facts\<close> states what the analysis relies on as the locale
    \<open>checker_contract\<close>; \<open>Compat_Safety\<close> interprets it on the Git checker (\<open>git\<close>) and has the theorems.
  \<^item> \<open>Squash_Analysis\<close>: the analysis of
    \<open>squash_equivalence.rs\<close>; \<open>Squash_Facts\<close> its theorems.
  \<^item> \<open>Lease\<close>: \<open>remote_lease.rs\<close> in full: grants, the broker adapter (\<open>command_lease\<close>) and the guard, each
    operation a function of the broker's state. \<open>Lease_Facts\<close> states what a guard relies on as the locale
    \<open>lease_contract\<close>, interprets it on the adapter (\<open>cl\<close>), and has the guard's life as step relations
    (\<open>lease_life\<close> from its acquisition, \<open>lease_step\<close> from any later point) in which other clients act freely.
  \<^item> \<open>Command\<close>: requests, write classification, diagnostics, run errors, fenced runner, request budget and
    capture of \<open>command.rs\<close>; \<open>Command_Facts\<close> its theorems and \<open>Fence_Facts\<close> the composition of the fenced
    runner with the lease.
  \<^item> \<open>App_Auth\<close>, \<open>App_Runner\<close>: the GitHub authentication of \<open>command.rs\<close>, from naming the repository of a
    request to \<open>process_run\<close>, over a state of caches, budget and telemetry. \<open>App_Facts\<close> runs them over a
    recorded world, which keeps every child with its request and answer, and says by that record where a token
    and a repository came from (\<open>issued\<close>, \<open>origin_answered\<close>, \<open>configuration_answered\<close>); its locale
    \<open>quiet_probe\<close> (a probe leaves the caches alone and its answers are recorded) is interpreted on
    \<open>probe_run\<close> (\<open>pr\<close>). \<open>App_Record\<close> proves that the record changes nothing (locale \<open>forgetful_probe\<close>,
    interpretation \<open>fp\<close>), and \<open>App_Safety\<close> has the theorems.
  \<^item> \<open>Operation_Lock\<close>: \<open>operation_lock.rs\<close>, each operation a \<open>program\<close>, a tree of system calls. \<open>Lock_World\<close>:
    the files, processes and failures the calls meet, one call at a time (\<open>sys_step\<close>), and the system of
    all clients (\<open>lock_step\<close>). \<open>Lock_Rules\<close> says which calls are lawful for a client given what it knows,
    \<open>Lock_Guard\<close> that the programs are, and \<open>Lock_Exclusion\<close> that what the clients know stays true, so that
    at most one holds the lock. \<open>Lock_Facts\<close> has the take-over in which two do, as steps of acquisitions
    alone (\<open>acquire_step\<close>), \<open>Lock_Alone\<close> the operations run alone.

  \<^bold>\<open>What is shown.\<close> Derivation is total and partitions the active members into chains of bases; a
  healthy verdict means well-formed chains, and after a complete analysis that Git merged every root,
  member and cross attachment of the active fleet; preparation holds exactly the revisions the remote
  advertised around the fetch; analysis progress accounts for every task; cycles are reported exactly. The admission order loses
  nobody, elects the least key while priority metadata is known, and lists only eligible candidates; the
  dependency walk ends; explicit requests pass only
  unrelated rows. At most one generation of a stream is admissible and closure needs evidence.
  Required runs are satisfied, missing or rerequested exactly on the evidence the code names. Check
  rows are superseded only on positive evidence. Policy reads have a normal form. The URL of an SSH overlay names the same repository; receipts and
  declarations round-trip (\<open>receipt_seal\<close>, \<open>declared_supersessions_roundtrip\<close>). The
  bounded prefix search returns, is safe and maximal, and a chain within the admission bound drains.
  A squash drop needs the complete proof. No mutating command runs on a lost lease, a stale writer
  is fenced out, and a guard keeps its fence while its expiry only moves forward; App mode runs a
  provider request only with a token the configured App was issued for the repository and binds Git to
  one repository over HTTPS; diagnostics do not depend on secrets, and capture does not depend on how a stream is read.
  At most one client holds the operation lock in every interleaving that never orphans a lock file;
  after an orphaned one, two clients that take it over together can always come to hold it both. Run alone,
  an acquisition meets a reference function, a release gives the directory back, and a checkpoint fits.

  \<^bold>\<open>Bounds.\<close> The constants are those of the sources: 32 contexts, 32 lineage rows, 32 problems, the
  dependency depth of \<open>admission.rs\<close>, the stream comparison bound of \<open>generation.rs\<close>, 256 prefix commits and
  64 boundaries of \<open>squash_equivalence.rs\<close>, 64 progress samples, three leading candidates and 4096 shared
  revisions of \<open>graph.rs\<close>, the capacity search of \<open>sync/budget.rs\<close>, three probe attempts and
  the capture limits of \<open>command.rs\<close>, three attempts and 16384 owner bytes of \<open>operation_lock.rs\<close>. No fuel is used: cycle detection, the chain walk, the stream
  components and the retry loops terminate by measures; the prefix search of the sync budget is a
  \<open>partial_function\<close> that is proved to return.

  \<^bold>\<open>Parameters.\<close> JSON serialisation (\<open>serde_json::to_vec\<close>), the quoting of strings by \<open>Debug\<close> and the
  provider's commit comparison are arguments of the definitions that use them. So are the Git runner of
  the evidence commands, the lease broker with its codec (\<open>broker_io\<close>; fencing assumes the growing
  tokens and current answers that \<open>docs/remote-writer-lease.md\<close> demands), the execution of one child
  process, the clocks, the process environment and JSON parsing (\<open>process_env\<close>).
  The content of a squash proof assumes the documented raw format of \<open>git diff-tree\<close> (\<open>diff_tree_documented\<close>).
  The codec of lock owners is the record \<open>owner_codec\<close>; exclusion assumes \<open>codec_ok\<close>: empty bytes
  are no owner, and what decodes from a part of a written owner names the same process (for JSON only
  the whole decodes). Process ids are not reused and the token counter does not wrap.

  \<^bold>\<open>Not modelled.\<close> The sync engine that issues mutations, provider parsing, repairs and rebases
  in worktrees, the command line, the web surface and persistence; of \<open>compatibility.rs\<close> the diagnostic
  JSON of errors, of \<open>command.rs\<close> the spawning and reaping of a child and the lossy decoding of evidence,
  of \<open>operation_lock.rs\<close> the Windows variants.
\<close>

subsection \<open>From a snapshot to an admission order\<close>

lemma unqueued_listed:
  "filter (\<lambda>n. bt_get (prs_of snap) n \<noteq> None) (unqueued_prs (prs_of snap)) = unqueued_prs (prs_of snap)"
proof -
  have "bt_get (prs_of snap) n \<noteq> None" if "n \<in> set (unqueued_prs (prs_of snap))" for n
    using that keyed_values [OF index_keyed] by (fastforce simp: unqueued_prs_def)
  then show ?thesis by (simp add: filter_id_conv)
qed

lemma unqueued_not_joined:
  assumes "derived snap actor a rooted rest branch missing arm" and n: "n \<in> set (unqueued_prs (prs_of snap))"
  shows "\<not> is_joined a n"
proof
  assume "is_joined a n"
  then obtain c where "c \<in> set (fl_caravans (ga_fleet a))" "n \<in> set (cv_members c)"
    by (auto simp: is_joined_def fleet_containing_def find_None_iff)
  then have "n \<in> set (bt_keys (active_of snap))"
    using derived_members(2) [OF assms(1)] by force
  then obtain p where "bt_get (prs_of snap) n = Some p" "is_active_caravan_member p"
    by (auto simp: bt_keys_get active_of_get)
  with n show False
    by (auto simp: unqueued_prs_def keyed_values [OF index_keyed] is_unqueued_def is_active_caravan_member_def
        dest: index_get_num)
qed

text \<open>
  C20. From a snapshot to an order nobody is lost and nobody counts twice: derivation always
  succeeds; the candidates, skipped and rejected rows of the order resolved on it are together
  exactly the open, ready, unlabelled pull requests of the snapshot; and none of them is a member of
  a derived caravan, so no pull request is queued and unqueued at once.
\<close>

theorem snapshot_order_partitions:
  "\<exists>a. derive_for_actor snap actor = Some a
     \<and> mset (map ac_pr (as_candidates (resolve_admission_with_generation_and_gate a labels integrity gate)))
       + mset (map sk_pr (as_skipped (resolve_admission_with_generation_and_gate a labels integrity gate)))
       + mset (map rj_pr (as_rejected (resolve_admission_with_generation_and_gate a labels integrity gate)))
       = mset (map pr_num (filter is_unqueued (bt_values (ga_pull_requests a))))
     \<and> filter (is_joined a) (fl_unqueued (ga_fleet a)) = []"
proof -
  obtain a rooted rest branch missing arm where d: "derived snap actor a rooted rest branch missing arm"
    using derive_spec by blast
  then have "derive_for_actor snap actor = Some a" "ga_pull_requests a = prs_of snap"
    "fl_unqueued (ga_fleet a) = unqueued_prs (prs_of snap)" by (simp_all add: derived_def)
  moreover from this have "filter (is_joined a) (fl_unqueued (ga_fleet a)) = []"
    using unqueued_not_joined [OF d] by (simp add: filter_empty_conv)
  ultimately show ?thesis
    using unqueued_listed [of snap] unfolding order_partition unqueued_prs_def
    by (simp del: mset_map mset_filter)
qed

end
